(* ===== verification/Prelude.thy ===== *)
theory Prelude
  imports Main "HOL-Library.AList" "HOL-Library.Word"
begin

text \<open>
  The vocabulary the components share: Go maps as association lists with distinct keys,
  signed 64-bit arithmetic, the result type of a Go function that returns an error, and
  the collections of facts (\<open>go_map\<close>, \<open>go_path\<close>, \<open>go_text\<close>) that the component proofs
  hand to the simplifier.

  A Go map is an association list. The order of the list stands for one iteration order
  of Go's \<^verbatim>\<open>range\<close>; since every theorem is stated for all lists, it is stated for all
  orders. \<open>mwf\<close> says that no key is bound twice, which every operation keeps.
\<close>

named_theorems go_map
named_theorems go_text
named_theorems go_path

section \<open>Go maps\<close>

type_synonym ('k, 'v) gomap = "('k \<times> 'v) list"

abbreviation mget :: "('k, 'v) gomap \<Rightarrow> 'k \<Rightarrow> 'v option" where
  "mget m k \<equiv> map_of m k"

abbreviation mput :: "'k \<Rightarrow> 'v \<Rightarrow> ('k, 'v) gomap \<Rightarrow> ('k, 'v) gomap" where
  "mput k v m \<equiv> AList.update k v m"

abbreviation mdel :: "'k \<Rightarrow> ('k, 'v) gomap \<Rightarrow> ('k, 'v) gomap" where
  "mdel k m \<equiv> AList.delete k m"

abbreviation mhas :: "('k, 'v) gomap \<Rightarrow> 'k \<Rightarrow> bool" where
  "mhas m k \<equiv> map_of m k \<noteq> None"

abbreviation mwf :: "('k, 'v) gomap \<Rightarrow> bool" where
  "mwf m \<equiv> distinct (map fst m)"

declare update_conv' [simp] delete_conv' [simp]

lemma mwf_mput [simp, intro]: "mwf m \<Longrightarrow> mwf (mput k v m)"
  by (rule distinct_update)

lemma mwf_mdel [simp, intro]: "mwf m \<Longrightarrow> mwf (mdel k m)"
  by (rule distinct_delete)

lemma mwf_filter [simp, intro]: "mwf m \<Longrightarrow> mwf (filter P m)"
  by (induction m) auto

lemma length_mput [go_map]:
  "length (mput k v m) = (if mhas m k then length m else Suc (length m))"
  by (induction m) auto

lemma length_mdel_le [go_map]: "length (mdel k m) \<le> length m"
  by (simp add: AList.delete_eq)

lemma length_mdel_less [go_map]: "mhas m k \<Longrightarrow> length (mdel k m) < length m"
  using map_of_eq_None_iff [of m k]
  by (force simp: AList.delete_eq length_filter_less)

lemma mdel_absent: "k \<notin> fst ` set m \<Longrightarrow> mdel k m = m"
  by (induction m) auto

lemma length_mdel_wf [go_map]:
  "mwf m \<Longrightarrow> length (mdel k m) = (if mhas m k then length m - 1 else length m)"
proof (induction m)
  case Nil
  then show ?case by simp
next
  case (Cons x m)
  obtain a b where x: "x = (a, b)" by (cases x)
  show ?case
  proof (cases "a = k")
    case True
    with Cons.prems x have "k \<notin> fst ` set m" by simp
    with True x show ?thesis by (simp add: mdel_absent)
  next
    case False
    with Cons x show ?thesis by (cases m) auto
  qed
qed

lemma mget_in_set [go_map]: "mget m k = Some v \<Longrightarrow> (k, v) \<in> set m"
  by (rule map_of_SomeD)

lemma in_set_mget [go_map]: "mwf m \<Longrightarrow> (k, v) \<in> set m \<Longrightarrow> mget m k = Some v"
  by (rule map_of_is_SomeI)

lemma set_mdel [go_map]: "set (mdel k m) = {x \<in> set m. fst x \<noteq> k}"
  by (auto simp: AList.delete_eq)

lemma set_mput_wf [go_map]:
  "mwf m \<Longrightarrow> set (mput k v m) = insert (k, v) {x \<in> set m. fst x \<noteq> k}"
proof (induction m)
  case Nil
  then show ?case by simp
next
  case (Cons x m)
  then show ?case by (cases x) (force simp: image_iff)
qed

lemma mget_filter_wf:
  assumes "mwf m"
  shows "mget (filter P m) k =
    (case mget m k of None \<Rightarrow> None | Some v \<Rightarrow> if P (k, v) then Some v else None)"
  using assms
proof (induction m)
  case Nil
  then show ?case by simp
next
  case (Cons x m)
  obtain a b where x: "x = (a, b)" by (cases x)
  have "a = k \<Longrightarrow> map_of m k = None"
    using Cons.prems x by (auto simp: map_of_eq_None_iff)
  with Cons x show ?case by (auto split: option.splits)
qed

lemma mget_fold_mput:
  assumes "mwf ds"
  shows "mget (fold (\<lambda>(f, d) m. mput f (g d) m) ds m0) f =
    (case mget ds f of None \<Rightarrow> mget m0 f | Some d \<Rightarrow> Some (g d))"
  using assms
proof (induction ds arbitrary: m0)
  case Nil
  then show ?case by simp
next
  case (Cons x ds)
  obtain a d where x: "x = (a, d)" by (cases x)
  have "a = f \<Longrightarrow> mget ds f = None" using Cons.prems x by (auto simp: map_of_eq_None_iff)
  with Cons x show ?case by (auto split: option.split)
qed

text \<open>Counting the values with a property, and how an update changes the count.\<close>

definition count_vals :: "('v \<Rightarrow> bool) \<Rightarrow> ('k, 'v) gomap \<Rightarrow> nat" where
  "count_vals P m = length (filter (\<lambda>x. P (snd x)) m)"

lemma count_vals_mput [go_map]:
  assumes "mwf m" and "mget m k = Some old"
  shows "count_vals P (mput k new m) + (if P old then 1 else 0) =
    count_vals P m + (if P new then 1 else 0)"
  using assms
proof (induction m)
  case Nil
  then show ?case by simp
next
  case (Cons x m)
  obtain a b where x: "x = (a, b)" by (cases x)
  show ?case
  proof (cases "a = k")
    case True
    with Cons.prems x have "b = old" by simp
    with True x show ?thesis by (simp add: count_vals_def)
  next
    case False
    with Cons x show ?thesis by (simp add: count_vals_def)
  qed
qed

lemma count_vals_le: "count_vals P m \<le> length m"
  by (simp add: count_vals_def)

lemma count_vals_pos: "mget m k = Some v \<Longrightarrow> P v \<Longrightarrow> 0 < count_vals P m"
  by (induction m) (auto simp: count_vals_def split: if_splits)

lemma count_vals_compl: "count_vals P m + count_vals (\<lambda>v. \<not> P v) m = length m"
  by (induction m) (auto simp: count_vals_def)

section \<open>Signed 64-bit arithmetic\<close>

text \<open>
  Go's \<^verbatim>\<open>int64\<close> is carried as an \<open>int\<close>; where an addition can pass the bounds, the result
  is wrapped with \<open>wrap64\<close>.
\<close>

definition int64_min :: int where "int64_min = - (2 ^ 63)"
definition int64_max :: int where "int64_max = 2 ^ 63 - 1"

definition wrap64 :: "int \<Rightarrow> int" where
  "wrap64 x = (x + 2 ^ 63) mod 2 ^ 64 - 2 ^ 63"

definition is_int64 :: "int \<Rightarrow> bool" where
  "is_int64 x \<longleftrightarrow> int64_min \<le> x \<and> x \<le> int64_max"

lemma wrap64_id [simp]: "is_int64 x \<Longrightarrow> wrap64 x = x"
  by (simp add: is_int64_def int64_min_def int64_max_def wrap64_def)

lemma wrap64_range: "is_int64 (wrap64 x)"
proof -
  have "0 \<le> (x + 2 ^ 63) mod 2 ^ 64" and "(x + 2 ^ 63) mod 2 ^ 64 < 2 ^ 64"
    by simp_all
  then show ?thesis
    by (simp add: is_int64_def int64_min_def int64_max_def wrap64_def)
qed

lemma wrap64_overflow: "wrap64 (int64_max + 1) = int64_min"
  by (simp add: wrap64_def int64_max_def int64_min_def)

section \<open>Options and sums\<close>

lemma case_option_Some_eq:
  "(case x of None \<Rightarrow> None | Some v \<Rightarrow> f v) = Some r \<longleftrightarrow> (\<exists>v. x = Some v \<and> f v = Some r)"
  by (cases x) auto

end
