(* ===== verification/GoText.thy ===== *)
theory GoText
  imports Prelude
begin

text \<open>
  The functions of Go's \<^verbatim>\<open>strings\<close>, \<^verbatim>\<open>strconv\<close> and \<^verbatim>\<open>unicode/utf8\<close> that the program uses.
  A Go string is a sequence of bytes, and so is \<open>string\<close> here (\<open>char\<close> is a byte); a
  \<^verbatim>\<open>[]byte\<close> is the same list.

  \<^verbatim>\<open>strings.ToLower\<close> on a string with a byte above 127 consults the Unicode tables, which
  are not modelled: the function \<open>uni\<close> stands for that case and is an argument of every
  definition that lowers a string.
\<close>

section \<open>Bytes\<close>

type_synonym bytes = "char list"

definition byte_val :: "char \<Rightarrow> nat" where
  "byte_val c = of_char c"

definition byte_of :: "nat \<Rightarrow> char" where
  "byte_of n = char_of n"

lemma byte_val_bound [simp]: "byte_val c < 256"
  by (simp add: byte_val_def)

lemma byte_of_val [simp]: "byte_of (byte_val c) = c"
  by (simp add: byte_of_def byte_val_def)

lemma byte_val_of [simp]: "n < 256 \<Longrightarrow> byte_val (byte_of n) = n"
  by (simp add: byte_of_def byte_val_def of_char_of)

definition is_ascii :: "char \<Rightarrow> bool" where
  "is_ascii c \<longleftrightarrow> byte_val c < 128"

section \<open>Searching and splitting\<close>

text \<open>\<^verbatim>\<open>strings.Split\<close> with a one-byte separator: an empty string gives one empty part.\<close>

fun split_on :: "char \<Rightarrow> string \<Rightarrow> string list" where
  "split_on c [] = [[]]"
| "split_on c (x # xs) =
     (if x = c then [] # split_on c xs
      else (case split_on c xs of [] \<Rightarrow> [[x]] | y # ys \<Rightarrow> (x # y) # ys))"

fun join_with :: "char \<Rightarrow> string list \<Rightarrow> string" where
  "join_with c [] = []"
| "join_with c [x] = x"
| "join_with c (x # y # ys) = x @ c # join_with c (y # ys)"

lemma split_on_ne [simp]: "split_on c s \<noteq> []"
  by (cases s) (auto split: list.splits)

lemma split_on_no_sep: "x \<in> set (split_on c s) \<Longrightarrow> c \<notin> set x"
  by (induction s arbitrary: x) (auto split: list.splits if_splits)

lemma join_split [go_text]: "join_with c (split_on c s) = s"
proof (induction s)
  case Nil
  then show ?case by simp
next
  case (Cons x xs)
  obtain y ys where s: "split_on c xs = y # ys"
    using split_on_ne [of c xs] by (cases "split_on c xs") auto
  with Cons show ?case by (cases ys) auto
qed

lemma split_on_no_occ [go_text]: "c \<notin> set s \<Longrightarrow> split_on c s = [s]"
  by (induction s) auto

lemma split_on_append [go_text]:
  "split_on c (x @ c # y) = split_on c x @ split_on c y"
  by (induction x) (auto split: list.splits)

lemma split_join [go_text]:
  "xs \<noteq> [] \<Longrightarrow> (\<forall>x \<in> set xs. c \<notin> set x) \<Longrightarrow> split_on c (join_with c xs) = xs"
  by (induction c xs rule: join_with.induct) (auto simp: go_text)

lemma split_on_length_1: "length (split_on c s) = 1 \<longleftrightarrow> c \<notin> set s"
proof
  assume "length (split_on c s) = 1"
  then obtain p where "split_on c s = [p]" by (cases "split_on c s") auto
  then show "c \<notin> set s"
    using join_split [of c s] split_on_no_sep [of p c s] by auto
qed (simp add: split_on_no_occ)

definition has_prefix :: "string \<Rightarrow> string \<Rightarrow> bool" where
  "has_prefix s p \<longleftrightarrow> take (length p) s = p"

text \<open>\<^verbatim>\<open>strings.TrimPrefix\<close> and \<^verbatim>\<open>strings.TrimSuffix\<close>.\<close>

definition trim_prefix :: "string \<Rightarrow> string \<Rightarrow> string" where
  "trim_prefix s p = (if has_prefix s p then drop (length p) s else s)"

definition trim_suffix :: "string \<Rightarrow> string \<Rightarrow> string" where
  "trim_suffix s p =
     (if length p \<le> length s \<and> drop (length s - length p) s = p
      then take (length s - length p) s else s)"

lemma trim_suffix_append [simp]: "trim_suffix (x @ p) p = x"
  by (simp add: trim_suffix_def)

lemma trim_suffix_subset: "set (trim_suffix s p) \<subseteq> set s"
  by (auto simp: trim_suffix_def dest: in_set_takeD)

text \<open>\<^verbatim>\<open>strings.Contains(s, sub)\<close>.\<close>

fun str_contains :: "string \<Rightarrow> string \<Rightarrow> bool" where
  "str_contains [] sub = (sub = [])"
| "str_contains (x # xs) sub = (has_prefix (x # xs) sub \<or> str_contains xs sub)"

text \<open>\<^verbatim>\<open>strings.SplitN(s, sep, 2)\<close> with a one-byte separator: the text before the first
  separator and, if there is one, the text after it.\<close>

fun split_first :: "char \<Rightarrow> string \<Rightarrow> string \<times> string option" where
  "split_first c [] = ([], None)"
| "split_first c (x # xs) =
     (if x = c then ([], Some xs)
      else (case split_first c xs of (a, r) \<Rightarrow> (x # a, r)))"

lemma split_first_None [go_text]: "snd (split_first c s) = None \<longleftrightarrow> c \<notin> set s"
  by (induction s) (auto split: prod.splits)

lemma split_first_no_sep [go_text]: "c \<notin> set a \<Longrightarrow> split_first c (a @ c # r) = (a, Some r)"
  by (induction a) auto

lemma split_first_absent [go_text]: "c \<notin> set s \<Longrightarrow> split_first c s = (s, None)"
  by (induction s) auto

lemma split_first_SomeD: "split_first c s = (a, Some r) \<Longrightarrow> s = a @ c # r \<and> c \<notin> set a"
proof (induction s arbitrary: a)
  case Nil
  then show ?case by simp
next
  case (Cons x xs)
  then show ?case
    by (cases "split_first c xs") (auto split: if_splits)
qed

lemma split_first_NoneD: "split_first c s = (a, None) \<Longrightarrow> a = s \<and> c \<notin> set s"
proof (induction s arbitrary: a)
  case Nil
  then show ?case by simp
next
  case (Cons x xs)
  then show ?case
    by (cases "split_first c xs") (auto split: if_splits)
qed

section \<open>Case\<close>

definition ascii_lower :: "char \<Rightarrow> char" where
  "ascii_lower c =
     (if 65 \<le> byte_val c \<and> byte_val c \<le> 90 then byte_of (byte_val c + 32) else c)"

definition ascii_upper :: "char \<Rightarrow> char" where
  "ascii_upper c =
     (if 97 \<le> byte_val c \<and> byte_val c \<le> 122 then byte_of (byte_val c - 32) else c)"

text \<open>\<^verbatim>\<open>strings.ToLower\<close>; \<open>uni\<close> is its result on a string that is not all ASCII.\<close>

definition to_lower :: "(string \<Rightarrow> string) \<Rightarrow> string \<Rightarrow> string" where
  "to_lower uni s = (if list_all is_ascii s then map ascii_lower s else uni s)"

lemma ascii_lower_ascii [simp]: "is_ascii c \<Longrightarrow> is_ascii (ascii_lower c)"
  by (simp add: ascii_lower_def is_ascii_def)

lemma ascii_lower_idem [simp]: "ascii_lower (ascii_lower c) = ascii_lower c"
  by (simp add: ascii_lower_def)

lemma to_lower_idem: "list_all is_ascii s \<Longrightarrow> to_lower uni (to_lower uni s) = to_lower uni s"
  by (simp add: to_lower_def list_all_iff)

text \<open>
  \<^verbatim>\<open>strings.EqualFold(hex, s)\<close> where the first string is lower-case hexadecimal: no rune
  outside ASCII folds to one of \<open>0..9a..f\<close>, so equality up to case is equality of the
  ASCII-lowered bytes.
\<close>

definition equal_fold_hex :: "string \<Rightarrow> string \<Rightarrow> bool" where
  "equal_fold_hex h s \<longleftrightarrow> map ascii_lower h = map ascii_lower s"

section \<open>Decimal and hexadecimal numerals\<close>

definition digit_char :: "nat \<Rightarrow> char" where
  "digit_char d = byte_of (48 + d)"

fun nat_dec :: "nat \<Rightarrow> string" where
  "nat_dec n = (if n < 10 then [digit_char n] else nat_dec (n div 10) @ [digit_char (n mod 10)])"

declare nat_dec.simps [simp del]

definition int_dec :: "int \<Rightarrow> string" where
  "int_dec i = (if i < 0 then CHR ''-'' # nat_dec (nat (- i)) else nat_dec (nat i))"

definition is_digit :: "char \<Rightarrow> bool" where
  "is_digit c \<longleftrightarrow> 48 \<le> byte_val c \<and> byte_val c \<le> 57"

fun dec_val :: "nat \<Rightarrow> string \<Rightarrow> nat" where
  "dec_val acc [] = acc"
| "dec_val acc (c # cs) = dec_val (10 * acc + (byte_val c - 48)) cs"

lemma digit_char_digit [simp]: "d < 10 \<Longrightarrow> is_digit (digit_char d)"
  by (simp add: is_digit_def digit_char_def)

lemma digit_char_val [simp]: "d < 10 \<Longrightarrow> byte_val (digit_char d) = 48 + d"
  by (simp add: digit_char_def)

lemma nat_dec_digits: "c \<in> set (nat_dec n) \<Longrightarrow> is_digit c"
proof (induction n rule: nat_dec.induct)
  case (1 n)
  then show ?case
    by (subst (asm) (2) nat_dec.simps) (auto split: if_splits)
qed

lemma nat_dec_ne [simp]: "nat_dec n \<noteq> []"
  by (subst nat_dec.simps) simp

lemma dec_val_append: "dec_val acc (xs @ ys) = dec_val (dec_val acc xs) ys"
  by (induction xs arbitrary: acc) auto

lemma dec_val_nat_dec [go_text]: "dec_val 0 (nat_dec n) = n"
proof (induction n rule: nat_dec.induct)
  case (1 n)
  then show ?case by (subst nat_dec.simps) (auto simp: dec_val_append)
qed

lemma nat_dec_inj: "nat_dec m = nat_dec n \<Longrightarrow> m = n"
  by (metis dec_val_nat_dec)

lemma int_dec_inj: "0 \<le> i \<Longrightarrow> 0 \<le> j \<Longrightarrow> int_dec i = int_dec j \<Longrightarrow> i = j"
  using nat_dec_inj [of "nat i" "nat j"] by (auto simp: int_dec_def)

text \<open>\<^verbatim>\<open>hex.EncodeToString\<close>.\<close>

definition hex_digit :: "nat \<Rightarrow> char" where
  "hex_digit d = (if d < 10 then byte_of (48 + d) else byte_of (87 + d))"

definition hex_encode :: "bytes \<Rightarrow> string" where
  "hex_encode bs = concat (map (\<lambda>b. [hex_digit (byte_val b div 16), hex_digit (byte_val b mod 16)]) bs)"

lemma length_hex_encode [simp]: "length (hex_encode bs) = 2 * length bs"
  by (induction bs) (auto simp: hex_encode_def)

lemma hex_digit_inj: "a < 16 \<Longrightarrow> b < 16 \<Longrightarrow> hex_digit a = hex_digit b \<Longrightarrow> a = b"
  unfolding hex_digit_def
  by (auto split: if_splits dest: arg_cong [of _ _ byte_val])

lemma hex_encode_inj: "hex_encode a = hex_encode b \<Longrightarrow> a = b"
proof (induction a arbitrary: b)
  case Nil
  then show ?case by (cases b) (auto simp: hex_encode_def)
next
  case (Cons x xs)
  then obtain y ys where b: "b = y # ys"
    by (cases b) (auto simp: hex_encode_def)
  with Cons.prems have tl: "hex_encode xs = hex_encode ys"
    and hd: "hex_digit (byte_val x div 16) = hex_digit (byte_val y div 16)"
      "hex_digit (byte_val x mod 16) = hex_digit (byte_val y mod 16)"
    by (simp_all add: hex_encode_def)
  have "byte_val x div 16 < 16" "byte_val y div 16 < 16"
    using byte_val_bound [of x] byte_val_bound [of y] by linarith+
  then have "byte_val x div 16 = byte_val y div 16" "byte_val x mod 16 = byte_val y mod 16"
    using hd by (auto intro: hex_digit_inj)
  then have "byte_val x = byte_val y"
    by (metis div_mult_mod_eq)
  then have "x = y" by (metis byte_of_val)
  with tl b Cons.IH show ?case by simp
qed

section \<open>Evaluating on characters\<close>

text \<open>Code equations that test the bits of a character instead of counting up to its value.\<close>

lemma byte_val_Char: "byte_val (Char b0 b1 b2 b3 b4 b5 b6 b7) =
   of_bool b0 + 2 * of_bool b1 + 4 * of_bool b2 + 8 * of_bool b3 + 16 * of_bool b4 + 32 * of_bool b5 + 64 * of_bool b6 + 128 * of_bool b7"
  by (simp add: byte_val_def of_char_def)

lemma is_digit_code [code]:
  "is_digit (Char b0 b1 b2 b3 b4 b5 b6 b7) \<longleftrightarrow> \<not> b7 \<and> \<not> b6 \<and> b5 \<and> b4 \<and> (b3 \<longrightarrow> \<not> b2 \<and> \<not> b1)"
  unfolding is_digit_def byte_val_Char
  by (cases b0; cases b1; cases b2; cases b3; cases b4; cases b5; cases b6; cases b7; simp)

lemma is_ascii_code [code]: "is_ascii (Char b0 b1 b2 b3 b4 b5 b6 b7) \<longleftrightarrow> \<not> b7"
  unfolding is_ascii_def byte_val_Char
  by (cases b0; cases b1; cases b2; cases b3; cases b4; cases b5; cases b6; cases b7; simp)

lemma ascii_upper_code [code]:
  "ascii_upper (Char b0 b1 b2 b3 b4 b5 b6 b7) =
     (if \<not> b7 \<and> b6 \<and> b5 \<and> (b0 \<or> b1 \<or> b2 \<or> b3 \<or> b4) \<and> (b4 \<and> b3 \<longrightarrow> \<not> b2 \<and> \<not> (b1 \<and> b0))
      then Char b0 b1 b2 b3 b4 False b6 b7 else Char b0 b1 b2 b3 b4 b5 b6 b7)"
  unfolding ascii_upper_def byte_val_Char
  by (cases b0; cases b1; cases b2; cases b3; cases b4; cases b5; cases b6; cases b7; simp add: byte_of_def char_of_def bit_numeral_rec bit_0)

lemma ascii_lower_code [code]:
  "ascii_lower (Char b0 b1 b2 b3 b4 b5 b6 b7) =
     (if \<not> b7 \<and> b6 \<and> \<not> b5 \<and> (b0 \<or> b1 \<or> b2 \<or> b3 \<or> b4) \<and> (b4 \<and> b3 \<longrightarrow> \<not> b2 \<and> \<not> (b1 \<and> b0))
      then Char b0 b1 b2 b3 b4 True b6 b7 else Char b0 b1 b2 b3 b4 b5 b6 b7)"
  unfolding ascii_lower_def byte_val_Char
  by (cases b0; cases b1; cases b2; cases b3; cases b4; cases b5; cases b6; cases b7; simp add: byte_of_def char_of_def bit_numeral_rec bit_0)

lemma byte_is: "n < 256 \<Longrightarrow> byte_val c = n \<longleftrightarrow> c = byte_of n" by auto

lemma byte_of_consts:
  "byte_of 32 = CHR '' ''" "byte_of 9 = CHR 0x09" "byte_of 10 = CHR 0x0A" "byte_of 13 = CHR 0x0D"
  "byte_of 8 = CHR 0x08" "byte_of 12 = CHR 0x0C" "byte_of 60 = CHR 0x3C" "byte_of 62 = CHR 0x3E" "byte_of 38 = CHR 0x26"
  "byte_of 197 = CHR 0xC5" "byte_of 191 = CHR 0xBF" "byte_of 226 = CHR 0xE2" "byte_of 132 = CHR 0x84" "byte_of 170 = CHR 0xAA"
  "byte_of 34 = CHR 0x22" "byte_of 92 = CHR 0x5C"
  by code_simp+

end
