(* ===== verification/GoPath.thy ===== *)
theory GoPath
  imports GoText
begin

text \<open>
  Go's \<^verbatim>\<open>path/filepath\<close> on Unix (the plugin runs on Linux e-readers): the separator is
  \<open>/\<close>, \<^verbatim>\<open>FromSlash\<close> and \<^verbatim>\<open>ToSlash\<close> are the identity, and there are no volume names.
  A path is its text; its meaning is the list of components that \<^verbatim>\<open>Clean\<close> leaves.
\<close>

section \<open>Clean, IsAbs, Join, Base, Dir, Ext\<close>

definition sep :: char where
  "sep = CHR ''/''"

definition dot :: string where
  "dot = ''.''"

definition dotdot :: string where
  "dotdot = ''..''"

definition path_is_abs :: "string \<Rightarrow> bool" where
  "path_is_abs s = (case s of [] \<Rightarrow> False | c # _ \<Rightarrow> c = sep)"

definition path_comps :: "string \<Rightarrow> string list" where
  "path_comps s = filter (\<lambda>c. c \<noteq> [] \<and> c \<noteq> dot) (split_on sep s)"

text \<open>
  One pass over the components with a stack: \<open>..\<close> removes the last component, is kept at
  the front of a relative path and disappears at the root.
\<close>

fun clean_comps :: "bool \<Rightarrow> string list \<Rightarrow> string list \<Rightarrow> string list" where
  "clean_comps rooted st [] = rev st"
| "clean_comps rooted st (c # cs) =
     (if c = dotdot
      then (case st of
              [] \<Rightarrow> if rooted then clean_comps rooted [] cs else clean_comps rooted [dotdot] cs
            | t # ts \<Rightarrow> if t = dotdot then clean_comps rooted (dotdot # t # ts) cs
                        else clean_comps rooted ts cs)
      else clean_comps rooted (c # st) cs)"

definition clean_list :: "string \<Rightarrow> string list" where
  "clean_list s = clean_comps (path_is_abs s) [] (path_comps s)"

definition path_render :: "bool \<Rightarrow> string list \<Rightarrow> string" where
  "path_render rooted cs =
     (if rooted then sep # join_with sep cs
      else if cs = [] then dot else join_with sep cs)"

definition path_clean :: "string \<Rightarrow> string" where
  "path_clean s = path_render (path_is_abs s) (clean_list s)"

text \<open>\<^verbatim>\<open>filepath.Join(a, b)\<close>: from the first non-empty element on, joined and cleaned.\<close>

definition path_join :: "string \<Rightarrow> string \<Rightarrow> string" where
  "path_join a b =
     (if a \<noteq> [] then path_clean (a @ sep # b)
      else if b \<noteq> [] then path_clean b else [])"

fun drop_last_seps :: "string \<Rightarrow> string" where
  "drop_last_seps s = rev (dropWhile (\<lambda>c. c = sep) (rev s))"

definition after_last_sep :: "string \<Rightarrow> string" where
  "after_last_sep s = rev (takeWhile (\<lambda>c. c \<noteq> sep) (rev s))"

definition upto_last_sep :: "string \<Rightarrow> string" where
  "upto_last_sep s = rev (dropWhile (\<lambda>c. c \<noteq> sep) (rev s))"

definition path_base :: "string \<Rightarrow> string" where
  "path_base s =
     (if s = [] then dot
      else let b = after_last_sep (drop_last_seps s) in if b = [] then [sep] else b)"

definition path_dir :: "string \<Rightarrow> string" where
  "path_dir s = path_clean (upto_last_sep s)"

text \<open>\<^verbatim>\<open>filepath.Ext\<close>: from the last dot of the last element, or empty. The argument is the
  reversed path, scanned from its end.\<close>

fun ext_scan :: "string \<Rightarrow> string \<Rightarrow> string" where
  "ext_scan [] acc = []"
| "ext_scan (c # cs) acc =
     (if c = sep then []
      else if c = CHR ''.'' then c # acc
      else ext_scan cs (c # acc))"

definition path_ext :: "string \<Rightarrow> string" where
  "path_ext s = ext_scan (rev s) []"

section \<open>Components\<close>

lemma sep_neq_dot [simp]: "sep \<notin> set dot" "sep \<notin> set dotdot" "sep \<notin> set []"
  by (simp_all add: sep_def dot_def dotdot_def)

lemma path_comps_no_sep: "c \<in> set (path_comps s) \<Longrightarrow> sep \<notin> set c"
  by (auto simp: path_comps_def dest: split_on_no_sep)

lemma path_comps_ne: "c \<in> set (path_comps s) \<Longrightarrow> c \<noteq> [] \<and> c \<noteq> dot"
  by (auto simp: path_comps_def)

lemma path_comps_append [go_path]:
  "path_comps (a @ sep # b) = path_comps a @ path_comps b"
  by (simp add: path_comps_def split_on_append)

definition plain_comp :: "string \<Rightarrow> bool" where
  "plain_comp c \<longleftrightarrow> c \<noteq> [] \<and> c \<noteq> dot \<and> c \<noteq> dotdot \<and> sep \<notin> set c"

lemma clean_comps_plain [go_path]:
  "dotdot \<notin> set cs \<Longrightarrow> clean_comps r st cs = rev st @ cs"
  by (induction cs arbitrary: st) auto

lemma clean_comps_append_plain [go_path]:
  "dotdot \<notin> set ds \<Longrightarrow> clean_comps r st (cs @ ds) = clean_comps r st cs @ ds"
  by (induction r st cs rule: clean_comps.induct)
    (auto simp: clean_comps_plain split: list.splits)

text \<open>After cleaning, \<open>..\<close> occurs at most as a prefix, and never in a rooted path.\<close>

definition dd_prefix :: "bool \<Rightarrow> string list \<Rightarrow> bool" where
  "dd_prefix rooted cs \<longleftrightarrow>
     (\<exists>n us. cs = replicate n dotdot @ us \<and> dotdot \<notin> set us \<and> (rooted \<longrightarrow> n = 0))"

lemma dd_prefix_plain: "dotdot \<notin> set cs \<Longrightarrow> dd_prefix r cs"
  unfolding dd_prefix_def by (rule exI [of _ 0]) auto

lemma dd_prefix_snoc_plain: "dd_prefix r cs \<Longrightarrow> c \<noteq> dotdot \<Longrightarrow> dd_prefix r (cs @ [c])"
  unfolding dd_prefix_def by (metis Un_iff append.assoc empty_iff empty_set set_ConsD set_append)

lemma dd_prefix_butlast:
  assumes "dd_prefix r (cs @ [c])" and "c \<noteq> dotdot"
  shows "dd_prefix r cs"
proof -
  from assms(1) obtain n us where n: "cs @ [c] = replicate n dotdot @ us"
    and us: "dotdot \<notin> set us" "r \<longrightarrow> n = 0"
    unfolding dd_prefix_def by blast
  have "us \<noteq> []"
  proof
    assume "us = []"
    with n have "c \<in> set (replicate n dotdot)" by (metis append.right_neutral in_set_conv_decomp)
    with assms(2) show False by simp
  qed
  then obtain vs v where v: "us = vs @ [v]" by (metis rev_exhaust)
  with n have "cs = replicate n dotdot @ vs" by simp
  with us v show ?thesis unfolding dd_prefix_def by auto
qed

lemma dd_prefix_snoc_dd:
  assumes "dd_prefix False (cs @ [dotdot])"
  shows "dd_prefix False (cs @ [dotdot, dotdot])"
proof -
  from assms obtain n us where n: "cs @ [dotdot] = replicate n dotdot @ us"
    and us: "dotdot \<notin> set us" unfolding dd_prefix_def by blast
  have "us = []" using n us by (cases us rule: rev_cases) auto
  with n have "cs @ [dotdot, dotdot] = replicate (Suc n) dotdot @ []"
    by (metis append.assoc append_Cons append_Nil append_Nil2 replicate_Suc replicate_append_same)
  then show ?thesis unfolding dd_prefix_def by (metis empty_iff empty_set)
qed

lemma clean_comps_dd_prefix:
  "dd_prefix r (rev st) \<Longrightarrow> dd_prefix r (clean_comps r st cs)"
proof (induction r st cs rule: clean_comps.induct)
  case (1 r st)
  then show ?case by simp
next
  case (2 r st c cs)
  consider (plain) "c \<noteq> dotdot" | (root) "c = dotdot" "st = []" "r"
    | (rel) "c = dotdot" "st = []" "\<not> r"
    | (up) t ts where "c = dotdot" "st = t # ts" "t \<noteq> dotdot"
    | (keep) ts where "c = dotdot" "st = dotdot # ts"
    by (cases st) auto
  then show ?case
  proof cases
    case plain
    with 2 show ?thesis by (simp add: dd_prefix_snoc_plain)
  next
    case root
    with 2 show ?thesis by simp
  next
    case rel
    have "dd_prefix False [dotdot]"
      unfolding dd_prefix_def by (rule exI [of _ "Suc 0"]) auto
    with 2 rel show ?thesis by simp
  next
    case up
    with "2.prems" have "dd_prefix r (rev ts)"
      using dd_prefix_butlast [of r "rev ts" t] by simp
    with 2 up show ?thesis by simp
  next
    case keep
    have "\<not> r"
      using "2.prems" keep unfolding dd_prefix_def
      by (metis append_Nil in_set_conv_decomp replicate_0 rev.simps(2))
    with "2.prems" keep have "dd_prefix r (rev ts @ [dotdot, dotdot])"
      using dd_prefix_snoc_dd [of "rev ts"] by simp
    with 2 keep show ?thesis by simp
  qed
qed

lemma clean_list_dd_prefix: "dd_prefix (path_is_abs s) (clean_list s)"
  unfolding clean_list_def
  by (rule clean_comps_dd_prefix) (simp add: dd_prefix_plain)

lemma clean_comps_subset:
  "set (clean_comps r st cs) \<subseteq> set st \<union> set cs \<union> {dotdot}"
  by (induction r st cs rule: clean_comps.induct) (auto split: list.splits if_splits)

lemma clean_list_comp:
  assumes "c \<in> set (clean_list s)"
  shows "c \<noteq> [] \<and> c \<noteq> dot \<and> sep \<notin> set c"
proof -
  have "c \<in> set (path_comps s) \<or> c = dotdot"
    using assms clean_comps_subset [of "path_is_abs s" "[]" "path_comps s"]
    by (auto simp: clean_list_def)
  then show ?thesis
    by (auto dest: path_comps_ne path_comps_no_sep simp: dotdot_def dot_def sep_def)
qed

lemma clean_list_plain: "dotdot \<notin> set (clean_list s) \<Longrightarrow> list_all plain_comp (clean_list s)"
  by (auto simp: list_all_iff plain_comp_def dest: clean_list_comp)

section \<open>Rendering and reading back\<close>

lemma path_comps_join [go_path]:
  assumes "\<And>c. c \<in> set cs \<Longrightarrow> c \<noteq> [] \<and> c \<noteq> dot \<and> sep \<notin> set c"
  shows "path_comps (join_with sep cs) = cs"
proof (cases "cs = []")
  case True
  then show ?thesis by (simp add: path_comps_def)
next
  case False
  with assms have "split_on sep (join_with sep cs) = cs"
    by (intro split_join) auto
  with assms show ?thesis by (auto simp: path_comps_def filter_id_conv)
qed

lemma hd_join:
  "cs \<noteq> [] \<Longrightarrow> hd cs \<noteq> [] \<Longrightarrow> join_with sep cs \<noteq> [] \<and> hd (join_with sep cs) = hd (hd cs)"
  by (cases cs; cases "tl cs") auto

lemma path_is_abs_render [go_path]:
  assumes "\<And>c. c \<in> set cs \<Longrightarrow> c \<noteq> [] \<and> c \<noteq> dot \<and> sep \<notin> set c"
  shows "path_is_abs (path_render r cs) = r"
proof (cases "r \<or> cs = []")
  case True
  then show ?thesis
    by (auto simp: path_render_def path_is_abs_def dot_def sep_def)
next
  case False
  then have ne: "cs \<noteq> []" "hd cs \<noteq> []" "sep \<notin> set (hd cs)"
    using assms [of "hd cs"] by auto
  then have "hd (hd cs) \<noteq> sep" using hd_in_set by metis
  with ne have "hd (join_with sep cs) \<noteq> sep" "join_with sep cs \<noteq> []"
    using hd_join [of cs] by auto
  with False show ?thesis
    by (auto simp: path_render_def path_is_abs_def split: list.splits)
qed

lemma path_comps_render [go_path]:
  assumes "\<And>c. c \<in> set cs \<Longrightarrow> c \<noteq> [] \<and> c \<noteq> dot \<and> sep \<notin> set c"
  shows "path_comps (path_render r cs) = cs"
proof -
  have d: "path_comps dot = []"
    by (simp add: path_comps_def split_on_no_occ)
  have "path_comps (sep # join_with sep cs) = cs"
    using path_comps_append [of "[]" "join_with sep cs"] path_comps_join [OF assms]
    by (simp add: path_comps_def)
  then show ?thesis
    using path_comps_join [OF assms] d by (auto simp: path_render_def)
qed

lemma clean_comps_replicate_dd:
  "clean_comps False (replicate m dotdot) (replicate n dotdot @ us)
     = clean_comps False (replicate (m + n) dotdot) us"
proof (induction n arbitrary: m)
  case 0
  then show ?case by simp
next
  case (Suc n)
  have "clean_comps False (replicate m dotdot) (replicate (Suc n) dotdot @ us)
      = clean_comps False (replicate (Suc m) dotdot) (replicate n dotdot @ us)"
    by (cases m) auto
  also have "\<dots> = clean_comps False (replicate (m + Suc n) dotdot) us"
    using Suc.IH [of "Suc m"] by simp
  finally show ?case .
qed

lemma clean_comps_fixed: "dd_prefix r cs \<Longrightarrow> clean_comps r [] cs = cs"
proof -
  assume "dd_prefix r cs"
  then obtain n us where cs: "cs = replicate n dotdot @ us" and us: "dotdot \<notin> set us"
    and r: "r \<longrightarrow> n = 0" unfolding dd_prefix_def by blast
  show ?thesis
  proof (cases r)
    case True
    with cs us r show ?thesis by (simp add: clean_comps_plain)
  next
    case False
    with cs us show ?thesis
      using clean_comps_replicate_dd [of 0 n us] by (simp add: clean_comps_plain)
  qed
qed

lemma path_is_abs_clean [go_path]: "path_is_abs (path_clean s) = path_is_abs s"
  unfolding path_clean_def by (rule path_is_abs_render) (rule clean_list_comp)

lemma path_comps_clean [go_path]: "path_comps (path_clean s) = clean_list s"
  unfolding path_clean_def by (rule path_comps_render) (rule clean_list_comp)

lemma clean_list_clean [go_path]: "clean_list (path_clean s) = clean_list s"
  by (simp add: clean_list_def [of "path_clean s"] path_comps_clean path_is_abs_clean
      clean_comps_fixed clean_list_dd_prefix)

lemma path_clean_idem [go_path]: "path_clean (path_clean s) = path_clean s"
  by (simp add: path_clean_def [of "path_clean s"] clean_list_clean path_is_abs_clean)
    (simp add: path_clean_def)

lemma path_clean_ne [simp]: "path_clean s \<noteq> []"
proof (cases "clean_list s")
  case Nil
  then show ?thesis by (simp add: path_clean_def path_render_def dot_def)
next
  case (Cons c cs)
  then have "c \<noteq> []" using clean_list_comp [of c s] by simp
  with Cons show ?thesis using hd_join [of "clean_list s"]
    by (simp add: path_clean_def path_render_def)
qed

section \<open>Containment\<close>

text \<open>
  \<open>path_under d p\<close>: the path \<open>p\<close> names something strictly inside the directory \<open>d\<close>: the
  components of \<open>p\<close> are those of \<open>d\<close> followed by at least one, none of them \<open>..\<close>.
\<close>

definition path_under :: "string \<Rightarrow> string \<Rightarrow> bool" where
  "path_under d p \<longleftrightarrow>
     path_is_abs p = path_is_abs d \<and>
     take (length (clean_list d)) (clean_list p) = clean_list d \<and>
     drop (length (clean_list d)) (clean_list p) \<noteq> [] \<and>
     dotdot \<notin> set (drop (length (clean_list d)) (clean_list p))"

lemma path_underI:
  assumes "path_is_abs p = path_is_abs d" and "clean_list p = clean_list d @ r"
    and "r \<noteq> []" and "dotdot \<notin> set r"
  shows "path_under d p"
  using assms by (simp add: path_under_def)

lemma path_underE:
  assumes "path_under d p"
  obtains r where "path_is_abs p = path_is_abs d" "clean_list p = clean_list d @ r"
    "r \<noteq> []" "dotdot \<notin> set r"
  using assms unfolding path_under_def by (metis append_take_drop_id)

lemma path_under_trans: "path_under a b \<Longrightarrow> path_under b c \<Longrightarrow> path_under a c"
proof -
  assume "path_under a b" "path_under b c"
  then obtain r q where "path_is_abs b = path_is_abs a" "clean_list b = clean_list a @ r"
    "dotdot \<notin> set r" "r \<noteq> []" "path_is_abs c = path_is_abs b"
    "clean_list c = clean_list b @ q" "dotdot \<notin> set q"
    by (elim path_underE)
  then show ?thesis by (intro path_underI [of _ _ "r @ q"]) auto
qed

lemma clean_list_join [go_path]:
  assumes "a \<noteq> []" and "dotdot \<notin> set (path_comps b)"
  shows "clean_list (path_join a b) = clean_list a @ path_comps b"
proof -
  have "path_is_abs (a @ sep # b) = path_is_abs a"
    using assms(1) by (cases a) (auto simp: path_is_abs_def)
  then have "clean_list (a @ sep # b) = clean_list a @ path_comps b"
    using assms by (simp add: clean_list_def path_comps_append clean_comps_append_plain)
  with assms show ?thesis by (simp add: path_join_def clean_list_clean)
qed

lemma path_is_abs_join [go_path]: "a \<noteq> [] \<Longrightarrow> path_is_abs (path_join a b) = path_is_abs a"
  using path_is_abs_clean [of "a @ sep # b"]
  by (cases a) (auto simp: path_join_def path_is_abs_def)

lemma path_join_ne [simp]: "a \<noteq> [] \<Longrightarrow> path_join a b \<noteq> []"
  by (simp add: path_join_def)

text \<open>Joining a path without \<open>..\<close> stays inside the directory.\<close>

lemma path_under_join:
  assumes "a \<noteq> []" and "path_comps b \<noteq> []" and "dotdot \<notin> set (path_comps b)"
  shows "path_under a (path_join a b)"
  using assms by (intro path_underI) (auto simp: go_path)

lemma path_comps_single:
  "sep \<notin> set b \<Longrightarrow> b \<noteq> [] \<Longrightarrow> b \<noteq> dot \<Longrightarrow> path_comps b = [b]"
  by (simp add: path_comps_def split_on_no_occ)

lemma plain_comp_comps: "plain_comp b \<Longrightarrow> path_comps b = [b]"
  by (simp add: plain_comp_def path_comps_single)

lemma path_under_join_plain: "a \<noteq> [] \<Longrightarrow> plain_comp b \<Longrightarrow> path_under a (path_join a b)"
  by (rule path_under_join) (auto simp: plain_comp_comps plain_comp_def)

lemma clean_list_join_plain:
  assumes "a \<noteq> []" and "plain_comp b"
  shows "clean_list (path_join a b) = clean_list a @ [b]"
proof -
  have b: "path_comps b = [b]" using assms(2) by (rule plain_comp_comps)
  have "b \<noteq> dotdot" using assms(2) by (simp add: plain_comp_def)
  then have "dotdot \<notin> set (path_comps b)" unfolding b by auto
  from clean_list_join [OF assms(1) this] show ?thesis unfolding b .
qed

lemma path_join_plain_inj:
  assumes "path_join a b = path_join a c" and "a \<noteq> []" and "plain_comp b" and "plain_comp c"
  shows "b = c"
proof -
  have "clean_list a @ [b] = clean_list (path_join a c)"
    unfolding assms(1) [symmetric] by (rule clean_list_join_plain [symmetric]) fact+
  also have "\<dots> = clean_list a @ [c]" by (rule clean_list_join_plain) fact+
  finally show ?thesis by simp
qed

section \<open>Base and Dir\<close>

lemma after_last_sep_no_sep: "sep \<notin> set (after_last_sep s)"
  by (auto simp: after_last_sep_def dest: set_takeWhileD)

lemma path_base_no_sep: "path_base s = [sep] \<or> sep \<notin> set (path_base s)"
  using after_last_sep_no_sep [of "drop_last_seps s"]
  by (simp add: path_base_def Let_def)

lemma path_base_ne [simp]: "path_base s \<noteq> []"
  by (simp add: path_base_def Let_def dot_def)

lemma upto_after_last_sep: "upto_last_sep s @ after_last_sep s = s"
proof -
  have "rev (upto_last_sep s @ after_last_sep s) = rev s"
    by (simp add: upto_last_sep_def after_last_sep_def)
  then show ?thesis by (simp only: rev_is_rev_conv)
qed

lemma dropWhile_sep_cases:
  "dropWhile (\<lambda>c. c \<noteq> sep) s = [] \<or> (\<exists>d. dropWhile (\<lambda>c. c \<noteq> sep) s = sep # d)"
  by (induction s) auto

lemma upto_last_sep_cases: "upto_last_sep s = [] \<or> (\<exists>d. upto_last_sep s = d @ [sep])"
  using dropWhile_sep_cases [of "rev s"] unfolding upto_last_sep_def by fastforce

lemma path_comps_dir_base:
  "path_comps s = path_comps (upto_last_sep s) @ path_comps (after_last_sep s)"
proof -
  consider "upto_last_sep s = []" | d where "upto_last_sep s = d @ [sep]"
    using upto_last_sep_cases [of s] by blast
  then show ?thesis
  proof cases
    case 1
    then show ?thesis using upto_after_last_sep [of s] by (simp add: path_comps_def)
  next
    case 2
    then have s: "s = d @ sep # after_last_sep s"
      using upto_after_last_sep [of s] by simp
    have "path_comps (d @ [sep]) = path_comps d"
      using path_comps_append [of d "[]"] by (simp add: path_comps_def)
    then show ?thesis
      using 2 path_comps_append [of d "after_last_sep s"] s by metis
  qed
qed

end
