(* ===== verification/GoFs.thy ===== *)
theory GoFs
  imports GoPath
begin

text \<open>
  The part of Go's \<^verbatim>\<open>os\<close> package that the program uses, over an explicit file system
  without symbolic links. A file is named by its key: whether the path is absolute, and
  its cleaned components. \<open>fs_denied\<close> lists the keys every call on which fails with an
  error that is neither "exists" nor "does not exist"; \<open>fs_space\<close> is the room left on the
  volume (\<open>None\<close>: no limit), so a write can be short. An open file is named by its key.
\<close>

section \<open>Files and calls\<close>

type_synonym fkey = "bool \<times> string list"

datatype fnode = FDir | FFile bytes

record fsys =
  fs_nodes :: "(fkey, fnode) gomap"
  fs_denied :: "fkey list"
  fs_space :: "nat option"

definition path_key :: "string \<Rightarrow> fkey" where
  "path_key p = (path_is_abs p, clean_list p)"

definition node_at :: "fsys \<Rightarrow> fkey \<Rightarrow> fnode option" where
  "node_at fs k = (if snd k = [] then Some FDir else mget (fs_nodes fs) k)"

definition set_node :: "fkey \<Rightarrow> fnode \<Rightarrow> fsys \<Rightarrow> fsys" where
  "set_node k n fs = fs\<lparr>fs_nodes := mput k n (fs_nodes fs)\<rparr>"

definition del_node :: "fkey \<Rightarrow> fsys \<Rightarrow> fsys" where
  "del_node k fs = fs\<lparr>fs_nodes := mdel k (fs_nodes fs)\<rparr>"

text \<open>The directories a path goes through, from the root down.\<close>

definition ancestors :: "fkey \<Rightarrow> fkey list" where
  "ancestors k = map (\<lambda>n. (fst k, take n (snd k))) [0..<length (snd k)]"

definition is_file_node :: "fnode option \<Rightarrow> bool" where
  "is_file_node n = (case n of Some (FFile _) \<Rightarrow> True | _ \<Rightarrow> False)"

datatype stat_res = SDir | SFile nat | SNotExist | SErr

definition os_stat :: "fsys \<Rightarrow> string \<Rightarrow> stat_res" where
  "os_stat fs p =
     (let k = path_key p in
      if k \<in> set (fs_denied fs) then SErr
      else case node_at fs k of
             Some FDir \<Rightarrow> SDir
           | Some (FFile b) \<Rightarrow> SFile (length b)
           | None \<Rightarrow> if list_ex (\<lambda>a. is_file_node (node_at fs a)) (ancestors k)
                     then SErr else SNotExist)"

datatype open_err = EExist | EOther

text \<open>\<^verbatim>\<open>os.OpenFile(p, O_WRONLY|O_CREATE|O_EXCL, 0644)\<close>.\<close>

definition open_excl :: "fsys \<Rightarrow> string \<Rightarrow> open_err + fsys" where
  "open_excl fs p =
     (let k = path_key p in
      if k \<in> set (fs_denied fs) then Inl EOther
      else case node_at fs k of
             Some _ \<Rightarrow> Inl EExist
           | None \<Rightarrow> if node_at fs (fst k, butlast (snd k)) = Some FDir
                     then Inr (set_node k (FFile []) fs) else Inl EOther)"

text \<open>\<^verbatim>\<open>os.MkdirAll\<close>: the directories made before a failure stay. The flag is success.\<close>

fun mkdir_each :: "fkey list \<Rightarrow> fsys \<Rightarrow> fsys \<times> bool" where
  "mkdir_each [] fs = (fs, True)"
| "mkdir_each (k # ks) fs =
     (if k \<in> set (fs_denied fs) then (fs, False)
      else case node_at fs k of
             Some FDir \<Rightarrow> mkdir_each ks fs
           | Some (FFile _) \<Rightarrow> (fs, False)
           | None \<Rightarrow> mkdir_each ks (set_node k FDir fs))"

definition mkdir_all :: "fsys \<Rightarrow> string \<Rightarrow> fsys \<times> bool" where
  "mkdir_all fs p = mkdir_each (ancestors (path_key p) @ [path_key p]) fs"

text \<open>\<^verbatim>\<open>os.Remove\<close> of a file or an empty directory.\<close>

definition os_remove :: "fsys \<Rightarrow> string \<Rightarrow> fsys \<times> bool" where
  "os_remove fs p =
     (let k = path_key p in
      if k \<in> set (fs_denied fs) \<or> snd k = [] then (fs, False)
      else case node_at fs k of
             None \<Rightarrow> (fs, False)
           | Some (FFile _) \<Rightarrow> (del_node k fs, True)
           | Some FDir \<Rightarrow>
               if list_ex (\<lambda>(k', _). k \<in> set (ancestors k')) (fs_nodes fs) then (fs, False)
               else (del_node k fs, True))"

text \<open>
  \<^verbatim>\<open>File.Write\<close> on an open file: the bytes that fit, and whether all did. A file that was
  removed while open keeps accepting bytes that nobody can read.
\<close>

definition file_write :: "fsys \<Rightarrow> string \<Rightarrow> bytes \<Rightarrow> fsys \<times> nat \<times> bool" where
  "file_write fs p bs =
     (let n = (case fs_space fs of None \<Rightarrow> length bs | Some m \<Rightarrow> min m (length bs));
          fs1 = fs\<lparr>fs_space := map_option (\<lambda>m. m - n) (fs_space fs)\<rparr>;
          fs2 = (case node_at fs1 (path_key p) of
                   Some (FFile old) \<Rightarrow> set_node (path_key p) (FFile (old @ take n bs)) fs1
                 | _ \<Rightarrow> fs1)
      in (fs2, n, n = length bs))"

definition file_content :: "fsys \<Rightarrow> string \<Rightarrow> bytes option" where
  "file_content fs p =
     (case node_at fs (path_key p) of Some (FFile b) \<Rightarrow> Some b | _ \<Rightarrow> None)"

text \<open>\<^verbatim>\<open>os.Create\<close>, \<^verbatim>\<open>os.Rename\<close> of a file, and \<^verbatim>\<open>os.ReadFile\<close>.\<close>

definition os_create :: "fsys \<Rightarrow> string \<Rightarrow> fsys option" where
  "os_create fs p =
     (let k = path_key p in
      if k \<in> set (fs_denied fs) then None
      else case node_at fs k of
             Some FDir \<Rightarrow> None
           | Some (FFile _) \<Rightarrow> Some (set_node k (FFile []) fs)
           | None \<Rightarrow> if node_at fs (fst k, butlast (snd k)) = Some FDir
                     then Some (set_node k (FFile []) fs) else None)"

definition os_rename :: "fsys \<Rightarrow> string \<Rightarrow> string \<Rightarrow> fsys \<times> bool" where
  "os_rename fs p q =
     (let j = path_key p; k = path_key q in
      if j \<in> set (fs_denied fs) \<or> k \<in> set (fs_denied fs) \<or> node_at fs k = Some FDir \<or>
         node_at fs (fst k, butlast (snd k)) \<noteq> Some FDir then (fs, False)
      else case node_at fs j of
             Some (FFile b) \<Rightarrow> (if j = k then fs else set_node k (FFile b) (del_node j fs), True)
           | _ \<Rightarrow> (fs, False))"

datatype read_res = RData bytes | RNotExist | RErr

definition os_read :: "fsys \<Rightarrow> string \<Rightarrow> read_res" where
  "os_read fs p =
     (case os_stat fs p of
        SNotExist \<Rightarrow> RNotExist
      | SFile _ \<Rightarrow> (case file_content fs p of Some b \<Rightarrow> RData b | None \<Rightarrow> RErr)
      | _ \<Rightarrow> RErr)"

section \<open>What each call changes\<close>

named_theorems go_fs

lemma node_at_set_node [go_fs]:
  "snd k \<noteq> [] \<Longrightarrow> node_at (set_node k n fs) j = (if j = k then Some n else node_at fs j)"
  by (simp add: node_at_def set_node_def)

lemma node_at_del_node [go_fs]:
  "snd k \<noteq> [] \<Longrightarrow> node_at (del_node k fs) j = (if j = k then None else node_at fs j)"
  by (simp add: node_at_def del_node_def)

lemma node_at_more [simp]: "node_at (fs\<lparr>fs_space := x\<rparr>) k = node_at fs k"
  by (simp add: node_at_def)

lemma open_excl_InrD:
  assumes "open_excl fs p = Inr fs'"
  shows "node_at fs (path_key p) = None" and "fs' = set_node (path_key p) (FFile []) fs"
    and "snd (path_key p) \<noteq> []"
  using assms by (auto simp: open_excl_def Let_def node_at_def split: if_splits option.splits)

lemma open_excl_frame:
  assumes "open_excl fs p = Inr fs'" and "k \<noteq> path_key p"
  shows "node_at fs' k = node_at fs k"
  using open_excl_InrD [OF assms(1)] assms(2) by (simp add: go_fs)

lemma open_excl_new:
  assumes "open_excl fs p = Inr fs'"
  shows "node_at fs' (path_key p) = Some (FFile [])"
  using open_excl_InrD [OF assms] by (simp add: go_fs)

lemma mkdir_each_keeps:
  "node_at fs k = Some n \<Longrightarrow> node_at (fst (mkdir_each ks fs)) k = Some n"
proof (induction ks fs rule: mkdir_each.induct)
  case (1 fs)
  then show ?case by simp
next
  case (2 j ks fs)
  show ?case
  proof (cases "node_at fs j")
    case None
    then have "snd j \<noteq> []" "j \<noteq> k" using 2(3) by (auto simp: node_at_def)
    with 2 None show ?thesis by (simp add: go_fs)
  next
    case (Some m)
    with 2 show ?thesis by (cases m) auto
  qed
qed

text \<open>Making directories adds directories and touches no file.\<close>

lemma mkdir_each_files:
  "node_at (fst (mkdir_each ks fs)) k = Some (FFile b) \<longleftrightarrow> node_at fs k = Some (FFile b)"
proof (induction ks fs rule: mkdir_each.induct)
  case (1 fs)
  then show ?case by simp
next
  case (2 j ks fs)
  show ?case
  proof (cases "node_at fs j")
    case None
    then have "snd j \<noteq> []" by (auto simp: node_at_def)
    with 2 None show ?thesis by (auto simp: go_fs)
  next
    case (Some m)
    with 2 show ?thesis by (cases m) auto
  qed
qed

lemma mkdir_all_keeps [go_fs]: "node_at fs k = Some n \<Longrightarrow> node_at (fst (mkdir_all fs p)) k = Some n"
  by (simp add: mkdir_all_def mkdir_each_keeps)

lemma mkdir_all_files [go_fs]:
  "file_content (fst (mkdir_all fs p)) q = file_content fs q"
proof -
  have "file_content fs q = Some b \<longleftrightarrow> node_at fs (path_key q) = Some (FFile b)" for fs b
    by (auto simp: file_content_def split: option.splits fnode.splits)
  then have "file_content (fst (mkdir_all fs p)) q = Some b \<longleftrightarrow> file_content fs q = Some b" for b
    by (simp add: mkdir_all_def mkdir_each_files)
  then show ?thesis by (metis not_None_eq)
qed

lemma mkdir_each_True:
  "snd (mkdir_each ks fs) \<Longrightarrow> k \<in> set ks \<Longrightarrow> node_at (fst (mkdir_each ks fs)) k = Some FDir"
proof (induction ks fs rule: mkdir_each.induct)
  case (1 fs)
  then show ?case by simp
next
  case (2 j ks fs)
  show ?case
  proof (cases "node_at fs j")
    case None
    then have "snd j \<noteq> []" by (auto simp: node_at_def)
    with 2 None show ?thesis
      by (auto simp: go_fs mkdir_each_keeps split: if_splits)
  next
    case (Some m)
    with 2 show ?thesis by (cases m) (auto simp: mkdir_each_keeps split: if_splits)
  qed
qed

lemma mkdir_all_True [go_fs]:
  "mkdir_all fs p = (fs', True) \<Longrightarrow> node_at fs' (path_key p) = Some FDir"
  using mkdir_each_True [of "ancestors (path_key p) @ [path_key p]" fs "path_key p"]
  by (simp add: mkdir_all_def)

lemma os_remove_frame [go_fs]:
  "k \<noteq> path_key p \<Longrightarrow> node_at (fst (os_remove fs p)) k = node_at fs k"
  by (auto simp: os_remove_def Let_def go_fs split: option.splits fnode.splits)

lemma os_remove_file:
  "node_at fs (path_key p) = Some (FFile b) \<Longrightarrow> path_key p \<notin> set (fs_denied fs) \<Longrightarrow>
   node_at (fst (os_remove fs p)) (path_key p) = None"
  by (auto simp: os_remove_def Let_def go_fs node_at_def del_node_def split: if_splits)

lemma file_write_frame [go_fs]:
  "k \<noteq> path_key p \<Longrightarrow> node_at (fst (file_write fs p bs)) k = node_at fs k"
  by (auto simp: file_write_def Let_def go_fs node_at_def set_node_def
      split: option.splits fnode.splits)

lemma file_write_ok:
  assumes "file_write fs p bs = (fs', n, True)" and "node_at fs (path_key p) = Some (FFile b)"
  shows "node_at fs' (path_key p) = Some (FFile (b @ bs)) \<and> n = length bs"
  using assms by (auto simp: file_write_def Let_def node_at_def set_node_def split: if_splits)

lemma denied_set_node [simp]: "fs_denied (set_node k n fs) = fs_denied fs"
  by (simp add: set_node_def)

lemma denied_del_node [simp]: "fs_denied (del_node k fs) = fs_denied fs"
  by (simp add: del_node_def)

lemma denied_open_excl: "open_excl fs p = Inr fs' \<Longrightarrow> fs_denied fs' = fs_denied fs"
  by (auto simp: open_excl_def Let_def split: if_splits option.splits)

lemma denied_file_write [simp]: "fs_denied (fst (file_write fs p bs)) = fs_denied fs"
  by (auto simp: file_write_def Let_def split: option.splits fnode.splits)

lemma open_excl_denied: "open_excl fs p = Inr fs' \<Longrightarrow> path_key p \<notin> set (fs_denied fs)"
  by (auto simp: open_excl_def Let_def split: if_splits)

lemma os_create_effect:
  assumes "os_create fs p = Some fs'"
  shows "node_at fs' k = (if k = path_key p then Some (FFile []) else node_at fs k)"
    and "fs_denied fs' = fs_denied fs" and "path_key p \<notin> set (fs_denied fs)"
proof -
  have "snd (path_key p) \<noteq> []" "fs' = set_node (path_key p) (FFile []) fs"
    using assms by (auto simp: os_create_def Let_def node_at_def split: if_splits option.splits fnode.splits)
  then show "node_at fs' k = (if k = path_key p then Some (FFile []) else node_at fs k)"
    and "fs_denied fs' = fs_denied fs" by (simp_all add: go_fs)
  show "path_key p \<notin> set (fs_denied fs)" using assms by (auto simp: os_create_def Let_def split: if_splits)
qed

lemma file_content_cong: "node_at fs' (path_key q) = node_at fs (path_key q) \<Longrightarrow> file_content fs' q = file_content fs q"
  by (simp add: file_content_def)

section \<open>Keys and containment\<close>

lemma path_key_clean [simp]: "path_key (path_clean p) = path_key p"
  by (simp add: path_key_def go_path)

lemma path_under_key:
  "path_under d p \<longleftrightarrow>
     (\<exists>r. path_key p = (fst (path_key d), snd (path_key d) @ r) \<and> r \<noteq> [] \<and> dotdot \<notin> set r)"
  by (auto simp: path_key_def intro: path_underI elim: path_underE)

lemma path_under_key_cong: "path_key p = path_key q \<Longrightarrow> path_under d p = path_under d q"
  by (simp add: path_under_key)

end
