(* ===== verification/Paths.thy ===== *)
theory Paths
  imports GoFs
begin

text \<open>
  \<^verbatim>\<open>internal/utils/paths.go\<close>: the filter every file name of a peer passes before it is
  joined to the save directory. The lemmas show that what it accepts is a list of plain
  components, so that the joined path stays under the directory.
\<close>

section \<open>The sanitizers\<close>

datatype path_err = ErrAbsolutePath | ErrPathTraversal | ErrEmptyPath

definition SanitizeRelativePath :: "string \<Rightarrow> path_err + string" where
  "SanitizeRelativePath filename =
     (if filename = [] then Inl ErrEmptyPath
      else
        let cleaned = path_clean filename in
        if cleaned = [] \<or> cleaned = dot then Inl ErrEmptyPath
        else if path_is_abs cleaned then Inl ErrAbsolutePath
        else if has_prefix cleaned (dotdot @ [sep]) \<or> cleaned = dotdot then Inl ErrPathTraversal
        else if dotdot \<in> set (split_on sep cleaned) then Inl ErrPathTraversal
        else Inr cleaned)"

text \<open>\<^verbatim>\<open>filepath.ToSlash\<close> is the identity where the separator is a slash.\<close>

definition ToProtocolPath :: "string \<Rightarrow> string" where
  "ToProtocolPath osPath = osPath"

definition SanitizePathWithFallback :: "string \<Rightarrow> path_err + string" where
  "SanitizePathWithFallback filename =
     (let sanitizedPath =
            (case SanitizeRelativePath filename of Inr p \<Rightarrow> p | Inl _ \<Rightarrow> path_base filename)
      in if sanitizedPath = dot \<or> sanitizedPath = [sep] \<or> sanitizedPath = [] \<or> sanitizedPath = dotdot
         then Inl ErrEmptyPath
         else Inr sanitizedPath)"

fun IsFolderTransfer :: "string list \<Rightarrow> bool" where
  "IsFolderTransfer [] = False"
| "IsFolderTransfer (filename # rest) =
     (if sep \<in> set filename then True else IsFolderTransfer rest)"

section \<open>What they accept\<close>

text \<open>A safe name: relative, cleaned, not empty, every component plain.\<close>

definition safe_rel :: "string \<Rightarrow> bool" where
  "safe_rel p \<longleftrightarrow>
     p = join_with sep (path_comps p) \<and> path_comps p \<noteq> [] \<and> list_all plain_comp (path_comps p)"

lemma safe_rel_facts:
  assumes "safe_rel p"
  shows "path_comps p \<noteq> []" and "dotdot \<notin> set (path_comps p)" and "p \<noteq> []"
    and "list_all plain_comp (path_comps p)"
  using assms by (auto simp: safe_rel_def list_all_iff plain_comp_def path_comps_def)

lemma safe_rel_under: "a \<noteq> [] \<Longrightarrow> safe_rel p \<Longrightarrow> path_under a (path_join a p)"
  by (rule path_under_join) (auto dest: safe_rel_facts)

lemma safe_rel_plain: "plain_comp b \<Longrightarrow> safe_rel b"
  by (simp add: safe_rel_def plain_comp_comps)

lemma safe_rel_join:
  assumes "cs \<noteq> []" and "list_all plain_comp cs"
  shows "safe_rel (join_with sep cs)" and "path_comps (join_with sep cs) = cs"
proof -
  show "path_comps (join_with sep cs) = cs"
    using assms by (intro path_comps_join) (auto simp: list_all_iff plain_comp_def)
  with assms show "safe_rel (join_with sep cs)" by (simp add: safe_rel_def)
qed

lemma path_clean_rel:
  assumes "\<not> path_is_abs (path_clean s)" and "path_clean s \<noteq> dot"
  shows "path_clean s = join_with sep (clean_list s)" and "clean_list s \<noteq> []"
  using assms by (auto simp: path_clean_def path_is_abs_clean path_render_def path_is_abs_def
      split: if_splits list.splits)

lemma split_path_clean:
  assumes "\<not> path_is_abs (path_clean s)" and "path_clean s \<noteq> dot"
  shows "split_on sep (path_clean s) = clean_list s"
proof -
  have "\<forall>x \<in> set (clean_list s). sep \<notin> set x" by (auto dest: clean_list_comp)
  with path_clean_rel [OF assms] show ?thesis by (simp add: split_join)
qed

lemma SanitizeRelativePath_InrD:
  assumes "SanitizeRelativePath f = Inr p"
  shows "p = path_clean f" and "safe_rel p" and "\<not> path_is_abs f"
proof -
  from assms have abs: "\<not> path_is_abs (path_clean f)" and d: "path_clean f \<noteq> dot"
    and dd: "dotdot \<notin> set (split_on sep (path_clean f))" and p: "p = path_clean f"
    by (auto simp: SanitizeRelativePath_def Let_def split: if_splits)
  from dd have "dotdot \<notin> set (clean_list f)" by (simp add: split_path_clean [OF abs d])
  then have "list_all plain_comp (clean_list f)" by (rule clean_list_plain)
  with path_clean_rel [OF abs d] show "safe_rel p"
    unfolding p by (simp add: safe_rel_join)
  show "p = path_clean f" by (rule p)
  show "\<not> path_is_abs f" using abs by (simp add: path_is_abs_clean)
qed

text \<open>The sanitizer accepts every path that stays inside and is not empty, and only those.\<close>

lemma SanitizeRelativePath_accepts:
  assumes "\<not> path_is_abs f" and "clean_list f \<noteq> []" and "dotdot \<notin> set (clean_list f)"
  shows "SanitizeRelativePath f = Inr (path_clean f)"
proof -
  have abs: "\<not> path_is_abs (path_clean f)" using assms(1) by (simp add: path_is_abs_clean)
  have ne: "path_clean f \<noteq> dot"
  proof
    assume "path_clean f = dot"
    then have "path_comps (path_clean f) = []" by (simp add: path_comps_def split_on_no_occ)
    with assms(2) show False by (simp add: path_comps_clean)
  qed
  have split: "split_on sep (path_clean f) = clean_list f" by (rule split_path_clean [OF abs ne])
  have "\<not> has_prefix (path_clean f) (dotdot @ [sep])"
  proof
    assume "has_prefix (path_clean f) (dotdot @ [sep])"
    then obtain r where "path_clean f = dotdot @ sep # r"
      unfolding has_prefix_def by (metis append.assoc append_Cons append_Nil append_take_drop_id)
    then have "dotdot \<in> set (split_on sep (path_clean f))"
      by (simp add: split_on_append split_on_no_occ)
    with split assms(3) show False by simp
  qed
  moreover have "path_clean f \<noteq> dotdot"
  proof
    assume "path_clean f = dotdot"
    then have "dotdot \<in> set (split_on sep (path_clean f))" by (simp add: split_on_no_occ)
    with split assms(3) show False by simp
  qed
  moreover have "f \<noteq> []" using assms(2) by (auto simp: clean_list_def path_comps_def path_is_abs_def)
  ultimately show ?thesis
    using abs ne split assms(3) by (simp add: SanitizeRelativePath_def Let_def)
qed

lemma path_base_plain:
  assumes "path_base f \<noteq> dot" and "path_base f \<noteq> [sep]" and "path_base f \<noteq> dotdot"
  shows "plain_comp (path_base f)"
  using assms path_base_no_sep [of f] by (simp add: plain_comp_def)

lemma SanitizePathWithFallback_InrD:
  assumes "SanitizePathWithFallback f = Inr p"
  shows "safe_rel p"
proof (cases "SanitizeRelativePath f")
  case (Inl e)
  with assms show ?thesis
    by (auto simp: SanitizePathWithFallback_def Let_def intro!: safe_rel_plain path_base_plain
        split: if_splits)
next
  case (Inr q)
  with assms have "p = q" by (auto simp: SanitizePathWithFallback_def Let_def split: if_splits)
  with Inr show ?thesis by (auto dest: SanitizeRelativePath_InrD)
qed

text \<open>Already safe names pass unchanged.\<close>

lemma SanitizeRelativePath_safe:
  assumes "safe_rel p"
  shows "SanitizeRelativePath p = Inr p"
proof -
  let ?cs = "path_comps p"
  have cs: "p = join_with sep ?cs" "?cs \<noteq> []" "list_all plain_comp ?cs"
    using assms by (auto simp: safe_rel_def)
  have rel: "path_is_abs p = False"
    using path_is_abs_render [of ?cs False] cs
    by (auto simp: path_render_def list_all_iff plain_comp_def)
  have cl: "clean_list p = ?cs"
    using safe_rel_facts(2) [OF assms] by (simp add: clean_list_def clean_comps_plain)
  have "path_clean p = p"
    using cs cl rel by (simp add: path_clean_def path_render_def)
  with SanitizeRelativePath_accepts [of p] rel cl cs(2) safe_rel_facts(2) [OF assms]
  show ?thesis by simp
qed

lemma IsFolderTransfer_iff: "IsFolderTransfer fs \<longleftrightarrow> (\<exists>f \<in> set fs. sep \<in> set f)"
  by (induction fs) auto

section \<open>Directory and base of a safe path\<close>

lemma join_with_snoc: "cs \<noteq> [] \<Longrightarrow> join_with c (cs @ [x]) = join_with c cs @ c # x"
  by (induction c cs rule: join_with.induct) auto

lemma last_sep_split:
  assumes "sep \<notin> set b"
  shows "after_last_sep (a @ sep # b) = b" and "upto_last_sep (a @ sep # b) = a @ [sep]"
proof -
  have t: "takeWhile (\<lambda>c. c \<noteq> sep) (rev b @ sep # rev a) = rev b"
    using assms by (subst takeWhile_append2) auto
  have d: "dropWhile (\<lambda>c. c \<noteq> sep) (rev b @ sep # rev a) = sep # rev a"
    using assms by (subst dropWhile_append2) auto
  show "after_last_sep (a @ sep # b) = b" using t by (simp add: after_last_sep_def)
  show "upto_last_sep (a @ sep # b) = a @ [sep]" using d by (simp add: upto_last_sep_def)
qed

lemma no_sep_split:
  assumes "sep \<notin> set b"
  shows "after_last_sep b = b" and "upto_last_sep b = []"
proof -
  have "\<forall>x \<in> set (rev b). x \<noteq> sep" using assms by auto
  then have t: "takeWhile (\<lambda>c. c \<noteq> sep) (rev b) = rev b" and d: "dropWhile (\<lambda>c. c \<noteq> sep) (rev b) = []"
    unfolding takeWhile_eq_all_conv dropWhile_eq_Nil_conv by blast+
  show "after_last_sep b = b" unfolding after_last_sep_def t by simp
  show "upto_last_sep b = []" unfolding upto_last_sep_def d by simp
qed

lemma drop_last_seps_id: "s \<noteq> [] \<Longrightarrow> last s \<noteq> sep \<Longrightarrow> drop_last_seps s = s"
  by (cases s rule: rev_cases) auto

text \<open>A safe path is its directory part and a plain base.\<close>

lemma safe_rel_cases:
  assumes "safe_rel p"
  obtains (base) "plain_comp p" "path_comps p = [p]"
  | (dir) cs b where "p = join_with sep cs @ sep # b" "cs \<noteq> []" "list_all plain_comp cs"
      "plain_comp b" "path_comps p = cs @ [b]"
proof -
  have pj: "p = join_with sep (path_comps p)" "path_comps p \<noteq> []"
    "list_all plain_comp (path_comps p)" using assms by (auto simp: safe_rel_def)
  obtain cs b where c: "path_comps p = cs @ [b]" using pj(2) by (metis rev_exhaust)
  have b: "plain_comp b" "list_all plain_comp cs" using pj(3) c by auto
  show ?thesis
  proof (cases "cs = []")
    case True
    with pj(1) c have "p = b" by simp
    with c b True show ?thesis using base by simp
  next
    case False
    with pj(1) c have "p = join_with sep cs @ sep # b" by (simp add: join_with_snoc)
    with dir False b c show ?thesis by blast
  qed
qed

lemma path_base_safe:
  assumes "safe_rel p"
  shows "path_base p = last (path_comps p)"
  using assms
proof (cases p rule: safe_rel_cases)
  case base
  then have "sep \<notin> set p" "p \<noteq> []" "last p \<noteq> sep"
    using last_in_set [of p] unfolding plain_comp_def by metis+
  then have "path_base p = p"
    using no_sep_split(1) [of p] drop_last_seps_id [of p] by (simp add: path_base_def Let_def del: drop_last_seps.simps)
  with base show ?thesis by simp
next
  case (dir cs b)
  have b: "sep \<notin> set b" "b \<noteq> []" "last b \<noteq> sep"
    using dir(4) last_in_set [of b] unfolding plain_comp_def by metis+
  have "drop_last_seps p = p"
    by (rule drop_last_seps_id) (use dir(1) b in auto)
  then have "path_base p = b"
    using last_sep_split(1) [OF b(1), of "join_with sep cs"] dir(1) b(2)
    by (simp add: path_base_def Let_def del: drop_last_seps.simps)
  with dir show ?thesis by simp
qed

lemma path_dir_safe:
  assumes "safe_rel p"
  shows "path_dir p = (if tl (path_comps p) = [] then dot else join_with sep (butlast (path_comps p)))"
  using assms
proof (cases p rule: safe_rel_cases)
  case base
  then have "path_dir p = path_clean []"
    using no_sep_split(2) [of p] by (simp add: path_dir_def plain_comp_def)
  also have "\<dots> = dot"
    by (simp add: path_clean_def clean_list_def path_comps_def path_is_abs_def path_render_def)
  finally show ?thesis using base by simp
next
  case (dir cs b)
  have safe: "safe_rel (join_with sep cs)" "path_comps (join_with sep cs) = cs"
    using safe_rel_join [OF dir(2,3)] by auto
  have "path_dir p = path_clean (join_with sep cs @ [sep])"
    using last_sep_split(2) [of b "join_with sep cs"] dir(1,4) by (simp add: path_dir_def plain_comp_def)
  also have "\<dots> = join_with sep cs"
  proof -
    have ne: "join_with sep cs \<noteq> []" using safe_rel_facts(3) [OF safe(1)] .
    have abs: "path_is_abs (join_with sep cs) = False"
      using path_is_abs_render [of cs False] dir(2,3)
      by (auto simp: path_render_def list_all_iff plain_comp_def)
    then have abs': "path_is_abs (join_with sep cs @ [sep]) = False"
      using ne by (cases "join_with sep cs") (auto simp: path_is_abs_def)
    have comps: "path_comps (join_with sep cs @ [sep]) = cs"
      using path_comps_append [of "join_with sep cs" "[]"] safe(2) by (simp add: path_comps_def)
    have "dotdot \<notin> set cs" using dir(3) by (auto simp: list_all_iff plain_comp_def)
    then show ?thesis
      using abs' comps dir(2) by (simp add: path_clean_def clean_list_def clean_comps_plain path_render_def)
  qed
  finally show ?thesis using dir by (cases cs) auto
qed

section \<open>Properties\<close>

text \<open>C14: path containment. Whatever name a peer sends, when the sanitizer shared by both
  receivers accepts it, joining the result to a save directory gives a path strictly inside
  that directory, however many \<open>..\<close> the name had; the result is itself a fixed point of
  the strict sanitizer.\<close>

theorem sanitized_path_contained:
  assumes "SanitizePathWithFallback filename = Inr p" and "saveDir \<noteq> []"
  shows "path_under saveDir (path_join saveDir p) \<and> SanitizeRelativePath p = Inr p"
  using SanitizePathWithFallback_InrD [OF assms(1)] assms(2)
  by (simp add: safe_rel_under SanitizeRelativePath_safe)

theorem sanitized_path_contained_witness:
  "path_under ''/mnt/us'' (path_join ''/mnt/us'' ''passwd'') \<and>
   SanitizeRelativePath ''passwd'' = Inr ''passwd''"
proof -
  have "SanitizePathWithFallback ''../../etc/passwd'' = Inr ''passwd''" by code_simp
  from sanitized_path_contained [OF this, of "''/mnt/us''"] show ?thesis by simp
qed

text \<open>Exactness of the strict sanitizer. It accepts a name if and only if the name is
  relative and its cleaned form is a non-empty list of components without \<open>..\<close>, and then
  returns the cleaned form; the error tells the reason of a rejection.\<close>

theorem sanitize_relative_exact:
  "SanitizeRelativePath f =
     (if clean_list f = [] \<and> \<not> path_is_abs f then Inl ErrEmptyPath
      else if path_is_abs f then Inl ErrAbsolutePath
      else if dotdot \<in> set (clean_list f) then Inl ErrPathTraversal
      else Inr (path_clean f))"
proof (cases "path_is_abs f \<or> clean_list f = []")
  case True
  then show ?thesis
    using path_is_abs_clean [of f] 
    by (auto simp: SanitizeRelativePath_def Let_def path_clean_def path_render_def path_is_abs_def
        dot_def sep_def split: list.splits)
next
  case False
  show ?thesis
  proof (cases "dotdot \<in> set (clean_list f)")
    case True
    have abs: "\<not> path_is_abs (path_clean f)" using False by (simp add: path_is_abs_clean)
    have "path_comps dot = []" by (simp add: path_comps_def split_on_no_occ)
    then have ne: "path_clean f \<noteq> dot" using False path_comps_clean [of f] by auto
    have "f \<noteq> []" using False by (auto simp: clean_list_def path_comps_def path_is_abs_def)
    with True False abs ne split_path_clean [OF abs ne] show ?thesis
      by (auto simp: SanitizeRelativePath_def Let_def)
  qed (use False in \<open>auto intro: SanitizeRelativePath_accepts\<close>)
qed

end
