(* ===== verification/UniqueFiles.thy ===== *)
theory UniqueFiles
  imports Paths
begin

text \<open>
  \<^verbatim>\<open>internal/utils/files.go\<close>: unique folder names and exclusive creation of uniquely named
  files, with the per-transfer suffix hints of \<^verbatim>\<open>UniqueFileAllocator\<close>. The locale
  \<open>exclusive_create\<close> is the contract the receivers rely on; both creators provide it.

  \<^verbatim>\<open>IO\<close> failures are values: \<open>OpenFailed\<close> is the error of \<^verbatim>\<open>os.OpenFile\<close>, \<open>NoUniqueName\<close>
  the error after the last attempt.
\<close>

section \<open>Unique names\<close>

definition MaxUniquePathAttempts :: int where
  "MaxUniquePathAttempts = 10000"

datatype unique_err = OpenFailed | NoUniqueName

text \<open>\<^verbatim>\<open>fmt.Sprintf("%s (%d)%s", name, i, ext)\<close>.\<close>

definition suffix_name :: "string \<Rightarrow> int \<Rightarrow> string \<Rightarrow> string" where
  "suffix_name name i ext = name @ '' ('' @ int_dec i @ '')'' @ ext"

function find_folder_from :: "fsys \<Rightarrow> string \<Rightarrow> string \<Rightarrow> int \<Rightarrow> unique_err + string" where
  "find_folder_from fs saveDir folderName i =
     (if i \<le> MaxUniquePathAttempts
      then if os_stat fs (path_join saveDir (suffix_name folderName i [])) = SNotExist
           then Inr (suffix_name folderName i [])
           else find_folder_from fs saveDir folderName (i + 1)
      else Inl NoUniqueName)"
  by pat_completeness auto
termination
  by (relation "measure (\<lambda>(fs, d, n, i). nat (MaxUniquePathAttempts + 1 - i))") auto

declare find_folder_from.simps [simp del]

definition FindUniqueFolderName :: "fsys \<Rightarrow> string \<Rightarrow> string \<Rightarrow> unique_err + string" where
  "FindUniqueFolderName fs saveDir folderName =
     (if os_stat fs (path_join saveDir folderName) = SNotExist then Inr folderName
      else find_folder_from fs saveDir folderName 1)"

text \<open>The loop of \<^verbatim>\<open>createUniqueFileFrom\<close>: only "exists" moves on to the next suffix.\<close>

function create_suffixed ::
    "fsys \<Rightarrow> string \<Rightarrow> string \<Rightarrow> string \<Rightarrow> int \<Rightarrow> unique_err + (fsys \<times> string \<times> int)" where
  "create_suffixed fs dir name ext i =
     (if i \<le> MaxUniquePathAttempts
      then let path = path_join dir (suffix_name name i ext) in
           case open_excl fs path of
             Inr fs' \<Rightarrow> Inr (fs', path, i)
           | Inl EExist \<Rightarrow> create_suffixed fs dir name ext (i + 1)
           | Inl EOther \<Rightarrow> Inl OpenFailed
      else Inl NoUniqueName)"
  by pat_completeness auto
termination
  by (relation "measure (\<lambda>(fs, d, n, e, i). nat (MaxUniquePathAttempts + 1 - i))") auto

declare create_suffixed.simps [simp del]

definition createUniqueFileFrom ::
    "fsys \<Rightarrow> string \<Rightarrow> string \<Rightarrow> int \<Rightarrow> unique_err + (fsys \<times> string \<times> int)" where
  "createUniqueFileFrom fs dir filename startSuffix =
     (let ext = path_ext filename; name = trim_suffix filename ext in
      if startSuffix \<le> 0
      then let path = path_join dir filename in
           case open_excl fs path of
             Inr fs' \<Rightarrow> Inr (fs', path, 0)
           | Inl EOther \<Rightarrow> Inl OpenFailed
           | Inl EExist \<Rightarrow> create_suffixed fs dir name ext 1
      else create_suffixed fs dir name ext startSuffix)"

definition CreateUniqueFile :: "fsys \<Rightarrow> string \<Rightarrow> string \<Rightarrow> unique_err + (fsys \<times> string)" where
  "CreateUniqueFile fs dir filename =
     (case createUniqueFileFrom fs dir filename 0 of
        Inl e \<Rightarrow> Inl e
      | Inr (fs', path, _) \<Rightarrow> Inr (fs', path))"

section \<open>The allocator\<close>

type_synonym allocator = "(string \<times> string, int) gomap"

definition alloc_reset :: "allocator \<Rightarrow> allocator" where
  "alloc_reset a = []"

definition alloc_hint :: "allocator \<Rightarrow> string \<times> string \<Rightarrow> int" where
  "alloc_hint a key = (case mget a key of None \<Rightarrow> 0 | Some n \<Rightarrow> n)"

definition alloc_create ::
    "allocator \<Rightarrow> fsys \<Rightarrow> string \<Rightarrow> string \<Rightarrow> unique_err + (allocator \<times> fsys \<times> string)" where
  "alloc_create a fs dir filename =
     (case createUniqueFileFrom fs dir filename (alloc_hint a (dir, filename)) of
        Inl e \<Rightarrow> Inl e
      | Inr (fs', path, usedSuffix) \<Rightarrow>
          let nxt = (if usedSuffix = 0 then 1 else usedSuffix + 1);
              a' = (if nxt > alloc_hint a (dir, filename) then mput (dir, filename) nxt a else a)
          in Inr (a', fs', path))"

section \<open>Suffixed names\<close>

lemma int_dec_no_sep: "sep \<notin> set (int_dec i)"
proof
  assume "sep \<in> set (int_dec i)"
  then have "is_digit sep \<or> sep = CHR ''-''"
    by (auto simp: int_dec_def dest: nat_dec_digits split: if_splits)
  then show False by (auto simp: is_digit_def sep_def byte_val_def)
qed

lemma ext_scan_subset: "set (ext_scan s acc) \<subseteq> set s \<union> set acc"
  by (induction s acc rule: ext_scan.induct) auto

lemma path_ext_subset: "set (path_ext f) \<subseteq> set f"
  using ext_scan_subset [of "rev f" "[]"] by (simp add: path_ext_def)

lemma suffix_name_plain:
  assumes "sep \<notin> set name" and "sep \<notin> set ext"
  shows "plain_comp (suffix_name name i ext)"
proof -
  have "int_dec i \<noteq> []" by (simp add: int_dec_def)
  then have "length (suffix_name name i ext) > 3"
    by (simp add: suffix_name_def)
  then have "suffix_name name i ext \<noteq> dot" "suffix_name name i ext \<noteq> dotdot"
    "suffix_name name i ext \<noteq> []"
    by (auto simp: dot_def dotdot_def)
  moreover have "sep \<notin> set (suffix_name name i ext)"
    using assms int_dec_no_sep [of i] by (auto simp: suffix_name_def sep_def)
  ultimately show ?thesis by (simp add: plain_comp_def)
qed

lemma suffix_name_inj:
  "0 \<le> i \<Longrightarrow> 0 \<le> j \<Longrightarrow> suffix_name name i ext = suffix_name name j ext \<Longrightarrow> i = j"
  by (auto simp: suffix_name_def dest: int_dec_inj)

section \<open>Creation\<close>

text \<open>A successful creation is one exclusive open of a path built from the directory.\<close>

lemma create_suffixed_InrD:
  assumes "create_suffixed fs dir name ext i = Inr (fs', path, j)"
  shows "open_excl fs path = Inr fs' \<and> path = path_join dir (suffix_name name j ext) \<and>
    i \<le> j \<and> j \<le> MaxUniquePathAttempts"
  using assms
proof (induction fs dir name ext i rule: create_suffixed.induct)
  case (1 fs dir name ext i)
  from "1.prems" show ?case
    using "1.IH" by (subst (asm) create_suffixed.simps)
      (force simp: Let_def split: if_splits sum.splits open_err.splits)
qed

lemma create_suffixed_skips:
  assumes "create_suffixed fs dir name ext i = Inr (fs', path, j)" and "i \<le> m" and "m < j"
  shows "open_excl fs (path_join dir (suffix_name name m ext)) = Inl EExist"
  using assms
proof (induction fs dir name ext i rule: create_suffixed.induct)
  case (1 fs dir name ext i)
  show ?case
  proof (cases "m = i")
    case True
    with "1.prems" show ?thesis
      by (subst (asm) create_suffixed.simps)
        (auto simp: Let_def split: if_splits sum.splits open_err.splits)
  next
    case False
    with "1.prems" show ?thesis
      using "1.IH" by (subst (asm) create_suffixed.simps)
        (force simp: Let_def split: if_splits sum.splits open_err.splits)
  qed
qed

lemma createUniqueFileFrom_InrD:
  assumes "createUniqueFileFrom fs dir filename s = Inr (fs', path, j)"
  shows "open_excl fs path = Inr fs'"
    and "path = path_join dir filename \<and> j = 0 \<and> s \<le> 0 \<or>
      path = path_join dir (suffix_name (trim_suffix filename (path_ext filename)) j
        (path_ext filename)) \<and> max 1 s \<le> j \<and> j \<le> MaxUniquePathAttempts"
  using assms by (auto simp: createUniqueFileFrom_def Let_def
      dest!: create_suffixed_InrD split: if_splits sum.splits open_err.splits)

lemma unique_name_plain:
  assumes "plain_comp filename"
  shows "plain_comp (suffix_name (trim_suffix filename (path_ext filename)) j (path_ext filename))"
  using assms trim_suffix_subset [of filename "path_ext filename"] path_ext_subset [of filename]
  by (intro suffix_name_plain) (auto simp: plain_comp_def)

lemma createUniqueFileFrom_under:
  assumes "createUniqueFileFrom fs dir filename s = Inr (fs', path, j)"
    and "dir \<noteq> []" and "plain_comp filename"
  shows "path_under dir path"
  using createUniqueFileFrom_InrD(2) [OF assms(1)] assms(2,3)
  by (auto intro: path_under_join_plain unique_name_plain)

section \<open>The contract of exclusive creation\<close>

text \<open>
  A creator threads its own state. On success it returns a path that named nothing before
  and names an empty file now, and nothing else has changed; a plain name stays in the
  directory. Creations compose: files made one after the other never collide.
\<close>

fun create_all ::
    "('s \<Rightarrow> fsys \<Rightarrow> string \<Rightarrow> string \<Rightarrow> unique_err + ('s \<times> fsys \<times> string)) \<Rightarrow>
     's \<Rightarrow> fsys \<Rightarrow> (string \<times> string) list \<Rightarrow> 's \<times> fsys \<times> string list" where
  "create_all create s fs [] = (s, fs, [])"
| "create_all create s fs ((dir, f) # reqs) =
     (case create s fs dir f of
        Inl _ \<Rightarrow> create_all create s fs reqs
      | Inr (s', fs', p) \<Rightarrow>
          (case create_all create s' fs' reqs of (s'', fs'', ps) \<Rightarrow> (s'', fs'', p # ps)))"

locale exclusive_create =
  fixes create :: "'s \<Rightarrow> fsys \<Rightarrow> string \<Rightarrow> string \<Rightarrow> unique_err + ('s \<times> fsys \<times> string)"
  assumes create_fresh: "create s fs dir f = Inr (s', fs', p) \<Longrightarrow> node_at fs (path_key p) = None"
    and create_empty: "create s fs dir f = Inr (s', fs', p) \<Longrightarrow>
      node_at fs' (path_key p) = Some (FFile [])"
    and create_frame: "create s fs dir f = Inr (s', fs', p) \<Longrightarrow> k \<noteq> path_key p \<Longrightarrow>
      node_at fs' k = node_at fs k"
    and create_under: "create s fs dir f = Inr (s', fs', p) \<Longrightarrow> dir \<noteq> [] \<Longrightarrow> plain_comp f \<Longrightarrow>
      path_under dir p"
begin

lemma create_keeps:
  "create s fs dir f = Inr (s', fs', p) \<Longrightarrow> node_at fs k = Some n \<Longrightarrow> node_at fs' k = Some n"
  using create_fresh create_frame by (cases "k = path_key p") auto

lemma create_all_keeps:
  "create_all create s fs reqs = (s', fs', ps) \<Longrightarrow> node_at fs k = Some n \<Longrightarrow>
   node_at fs' k = Some n"
proof (induction reqs arbitrary: s fs s' ps)
  case Nil
  then show ?case by simp
next
  case (Cons r reqs)
  then show ?case
    by (cases r) (auto split: sum.splits prod.splits dest: create_keeps)
qed

lemma create_all_fresh:
  assumes "create_all create s fs reqs = (s', fs', ps)" and "p \<in> set ps"
  shows "node_at fs (path_key p) = None"
  using assms
proof (induction reqs arbitrary: s fs ps)
  case Nil
  then show ?case by simp
next
  case (Cons r reqs)
  obtain d f where r: "r = (d, f)" by (cases r)
  show ?case
  proof (cases "create s fs d f")
    case (Inl e)
    with Cons r show ?thesis by simp
  next
    case (Inr t)
    then obtain s1 fs1 q where t: "create s fs d f = Inr (s1, fs1, q)" by (cases t) auto
    with Cons.prems(1) r obtain qs where
      rest: "create_all create s1 fs1 reqs = (s', fs', qs)" and ps: "ps = q # qs"
      by (auto split: prod.splits)
    have "p \<in> set qs \<Longrightarrow> node_at fs1 (path_key p) = None" using Cons.IH [OF rest] .
    with Cons.prems(2) ps t show ?thesis
      using create_fresh create_keeps by (metis not_None_eq set_ConsD)
  qed
qed

lemma create_all_distinct:
  "create_all create s fs reqs = (s', fs', ps) \<Longrightarrow> distinct (map path_key ps)"
proof (induction reqs arbitrary: s fs ps)
  case Nil
  then show ?case by simp
next
  case (Cons r reqs)
  obtain d f where r: "r = (d, f)" by (cases r)
  show ?case
  proof (cases "create s fs d f")
    case (Inl e)
    with Cons r show ?thesis by simp
  next
    case (Inr t)
    then obtain s1 fs1 q where t: "create s fs d f = Inr (s1, fs1, q)" by (cases t) auto
    with Cons.prems(1) r obtain qs where
      rest: "create_all create s1 fs1 reqs = (s', fs', qs)" and ps: "ps = q # qs"
      by (auto split: prod.splits)
    have "path_key q \<noteq> path_key p" if "p \<in> set qs" for p
      using create_all_fresh [OF rest that] create_empty [OF t] by auto
    with ps Cons.IH [OF rest] show ?thesis by auto
  qed
qed

end

lemma createUniqueFileFrom_create:
  assumes "createUniqueFileFrom fs dir f s = Inr (fs', p, j)"
  shows "node_at fs (path_key p) = None" and "node_at fs' (path_key p) = Some (FFile [])"
    and "k \<noteq> path_key p \<Longrightarrow> node_at fs' k = node_at fs k"
  using createUniqueFileFrom_InrD(1) [OF assms] open_excl_InrD open_excl_new open_excl_frame
  by blast+

lemma alloc_create_InrD:
  assumes "alloc_create a fs dir f = Inr (a', fs', p)"
  obtains j where "createUniqueFileFrom fs dir f (alloc_hint a (dir, f)) = Inr (fs', p, j)"
  using assms by (auto simp: alloc_create_def Let_def split: sum.splits)

interpretation ua: exclusive_create alloc_create
  by unfold_locales (auto elim!: alloc_create_InrD intro: createUniqueFileFrom_under
      dest: createUniqueFileFrom_create)

text \<open>\<^verbatim>\<open>CreateUniqueFile\<close> is a creator without state.\<close>

definition create_stateless ::
    "unit \<Rightarrow> fsys \<Rightarrow> string \<Rightarrow> string \<Rightarrow> unique_err + (unit \<times> fsys \<times> string)" where
  "create_stateless u fs dir filename = map_sum id (Pair ()) (CreateUniqueFile fs dir filename)"

lemma create_stateless_InrD:
  assumes "create_stateless u fs dir f = Inr (u', fs', p)"
  obtains j where "createUniqueFileFrom fs dir f 0 = Inr (fs', p, j)"
  using assms by (auto simp: create_stateless_def CreateUniqueFile_def split: sum.splits)

interpretation cu: exclusive_create create_stateless
  by unfold_locales (auto elim!: create_stateless_InrD intro: createUniqueFileFrom_under
      dest: createUniqueFileFrom_create)

section \<open>The hints are only an optimisation\<close>

text \<open>The \<open>i\<close>-th candidate path for a name; candidate 0 is the name itself.\<close>

definition candidate :: "string \<Rightarrow> string \<Rightarrow> int \<Rightarrow> string" where
  "candidate dir f i =
     path_join dir (if i \<le> 0 then f
                    else suffix_name (trim_suffix f (path_ext f)) i (path_ext f))"

definition taken :: "fsys \<Rightarrow> string \<Rightarrow> bool" where
  "taken fs p \<longleftrightarrow> open_excl fs p = Inl EExist"

definition alloc_ok :: "allocator \<Rightarrow> fsys \<Rightarrow> bool" where
  "alloc_ok a fs \<longleftrightarrow> list_all (\<lambda>((dir, f), n). 1 \<le> n \<and> n \<le> MaxUniquePathAttempts + 1 \<and>
     list_all (\<lambda>i. taken fs (candidate dir f i)) [0..n - 1]) a"

lemma taken_iff: "taken fs p \<longleftrightarrow> path_key p \<notin> set (fs_denied fs) \<and> node_at fs (path_key p) \<noteq> None"
  by (auto simp: taken_def open_excl_def Let_def split: option.splits if_splits)

lemma taken_open:
  assumes "open_excl fs p = Inr fs'"
  shows "taken fs' q \<longleftrightarrow> taken fs q \<or> path_key q = path_key p"
  using open_excl_InrD [OF assms] open_excl_denied [OF assms]
  by (auto simp: taken_iff go_fs)

lemma create_suffixed_from_taken:
  assumes "\<And>m. i \<le> m \<Longrightarrow> m < j \<Longrightarrow> taken fs (path_join dir (suffix_name name m ext))"
    and "i \<le> j" and "j \<le> MaxUniquePathAttempts + 1"
  shows "create_suffixed fs dir name ext i = create_suffixed fs dir name ext j"
  using assms
proof (induction "nat (j - i)" arbitrary: i)
  case 0
  then show ?case by simp
next
  case (Suc n)
  then have "i < j" "taken fs (path_join dir (suffix_name name i ext))" by auto
  then have "create_suffixed fs dir name ext i = create_suffixed fs dir name ext (i + 1)"
    using Suc.prems(3) by (subst create_suffixed.simps) (simp add: taken_def Let_def)
  also have "\<dots> = create_suffixed fs dir name ext j"
    using Suc by (intro Suc.hyps(1)) auto
  finally show ?case .
qed

text \<open>Starting at a hint below which every candidate is taken gives the same result.\<close>

lemma createUniqueFileFrom_hint:
  assumes "\<And>m. 0 \<le> m \<Longrightarrow> m < j \<Longrightarrow> taken fs (candidate dir f m)"
    and "0 \<le> j" and "j \<le> MaxUniquePathAttempts + 1"
  shows "createUniqueFileFrom fs dir f j = createUniqueFileFrom fs dir f 0"
proof (cases "j = 0")
  case True
  then show ?thesis by simp
next
  case False
  let ?e = "path_ext f" and ?n = "trim_suffix f (path_ext f)"
  have "create_suffixed fs dir ?n ?e 1 = create_suffixed fs dir ?n ?e j"
  proof (rule create_suffixed_from_taken)
    fix m assume "1 \<le> m" "m < j"
    then show "taken fs (path_join dir (suffix_name ?n m ?e))"
      using assms(1) [of m] by (simp add: candidate_def)
  qed (use False assms in auto)
  moreover have "open_excl fs (path_join dir f) = Inl EExist"
    using assms(1) [of 0] False assms(2) by (simp add: candidate_def taken_def)
  ultimately show ?thesis
    using False assms(2) by (simp add: createUniqueFileFrom_def Let_def)
qed

text \<open>Every candidate below the one that is created was taken.\<close>

lemma createUniqueFileFrom_least:
  assumes "createUniqueFileFrom fs dir f 0 = Inr (fs', p, j)"
  shows "p = candidate dir f j \<and> 0 \<le> j \<and> j \<le> MaxUniquePathAttempts \<and>
    (\<forall>m \<in> {0..<j}. taken fs (candidate dir f m))"
proof (cases "open_excl fs (path_join dir f)")
  case (Inr g)
  with assms show ?thesis
    by (auto simp: createUniqueFileFrom_def Let_def candidate_def MaxUniquePathAttempts_def)
next
  case (Inl e)
  let ?e = "path_ext f" and ?n = "trim_suffix f (path_ext f)"
  from Inl assms have c: "create_suffixed fs dir ?n ?e 1 = Inr (fs', p, j)"
    and e: "open_excl fs (path_join dir f) = Inl EExist"
    by (auto simp: createUniqueFileFrom_def Let_def split: open_err.splits)
  have "taken fs (candidate dir f m)" if "0 \<le> m" "m < j" for m
  proof (cases "m = 0")
    case True
    with e show ?thesis by (simp add: candidate_def taken_def)
  next
    case False
    with that create_suffixed_skips [OF c, of m] show ?thesis
      by (simp add: candidate_def taken_def)
  qed
  then have "\<forall>m \<in> {0..<j}. taken fs (candidate dir f m)" by simp
  moreover have "p = candidate dir f j" "0 \<le> j" "j \<le> MaxUniquePathAttempts"
    using create_suffixed_InrD [OF c] by (auto simp: candidate_def)
  ultimately show ?thesis by blast
qed

text \<open>With no name left, every candidate was taken.\<close>

lemma create_suffixed_exhausted:
  assumes "create_suffixed fs dir name ext i = Inl NoUniqueName"
    and "i \<le> m" and "m \<le> MaxUniquePathAttempts"
  shows "taken fs (path_join dir (suffix_name name m ext))"
  using assms
proof (induction fs dir name ext i rule: create_suffixed.induct)
  case (1 fs dir name ext i)
  show ?case
  proof (cases "m = i")
    case True
    with "1.prems" show ?thesis
      by (subst (asm) create_suffixed.simps)
        (auto simp: Let_def taken_def split: if_splits sum.splits open_err.splits)
  next
    case False
    with "1.prems" show ?thesis
      using "1.IH" by (subst (asm) create_suffixed.simps)
        (force simp: Let_def split: if_splits sum.splits open_err.splits)
  qed
qed

lemma alloc_ok_iff:
  "alloc_ok a fs \<longleftrightarrow> (\<forall>d f n. ((d, f), n) \<in> set a \<longrightarrow> 1 \<le> n \<and> n \<le> MaxUniquePathAttempts + 1 \<and>
     (\<forall>i. 0 \<le> i \<longrightarrow> i < n \<longrightarrow> taken fs (candidate d f i)))"
  by (fastforce simp: alloc_ok_def list_all_iff)

lemma alloc_ok_hint:
  assumes "alloc_ok a fs"
  shows "0 \<le> alloc_hint a (d, f)" and "alloc_hint a (d, f) \<le> MaxUniquePathAttempts + 1"
    and "0 \<le> m \<Longrightarrow> m < alloc_hint a (d, f) \<Longrightarrow> taken fs (candidate d f m)"
  using assms
  by (force simp: alloc_ok_iff alloc_hint_def MaxUniquePathAttempts_def
      dest!: map_of_SomeD split: option.splits)+

lemma alloc_ok_open:
  "alloc_ok a fs \<Longrightarrow> open_excl fs p = Inr fs' \<Longrightarrow> alloc_ok a fs'"
  by (simp add: alloc_ok_iff taken_open)

lemma set_mput_subset: "set (mput k v m) \<subseteq> insert (k, v) (set m)"
  by (induction m) auto

lemma alloc_ok_mput:
  assumes "alloc_ok a fs" and "1 \<le> n" and "n \<le> MaxUniquePathAttempts + 1"
    and "\<And>m. 0 \<le> m \<Longrightarrow> m < n \<Longrightarrow> taken fs (candidate d f m)"
  shows "alloc_ok (mput (d, f) n a) fs"
  unfolding alloc_ok_iff
proof (intro allI impI)
  fix d' f' n' assume "((d', f'), n') \<in> set (mput (d, f) n a)"
  then consider "d' = d" "f' = f" "n' = n" | "((d', f'), n') \<in> set a"
    using set_mput_subset [of "(d, f)" n a] by auto
  then show "1 \<le> n' \<and> n' \<le> MaxUniquePathAttempts + 1 \<and>
     (\<forall>i. 0 \<le> i \<longrightarrow> i < n' \<longrightarrow> taken fs (candidate d' f' i))"
    by cases (use assms in \<open>auto simp: alloc_ok_iff\<close>)
qed

section \<open>Properties\<close>

text \<open>C21: nothing is overwritten. When the allocator returns a file, its path named nothing
  before and is inside the directory, the file is new and empty, and every file or directory
  that existed is still there with its contents.\<close>

theorem allocator_never_overwrites:
  assumes "alloc_create a fs dir filename = Inr (a', fs', path)"
    and "dir \<noteq> []" and "plain_comp filename"
  shows "node_at fs (path_key path) = None \<and> node_at fs' (path_key path) = Some (FFile []) \<and>
    (\<forall>k. k \<noteq> path_key path \<longrightarrow> node_at fs' k = node_at fs k) \<and> path_under dir path"
  using ua.create_fresh [OF assms(1)] ua.create_empty [OF assms(1)] ua.create_frame [OF assms(1)]
    ua.create_under [OF assms] by blast

definition demo_fs :: fsys where
  "demo_fs = \<lparr>fs_nodes = [((True, [''d'']), FDir), ((True, [''d'', ''a.b'']), FFile ''x'')],
     fs_denied = [], fs_space = None\<rparr>"

theorem allocator_never_overwrites_witness:
  "\<exists>a' fs'. alloc_create [] demo_fs ''/d'' ''a.b'' = Inr (a', fs', ''/d/a (1).b'') \<and>
     node_at fs' (True, [''d'', ''a.b'']) = Some (FFile ''x'')"
proof -
  have "case alloc_create [] demo_fs ''/d'' ''a.b'' of Inl e \<Rightarrow> False
    | Inr (a', fs', p) \<Rightarrow> p = ''/d/a (1).b''" by code_simp
  then obtain a' fs' where r: "alloc_create [] demo_fs ''/d'' ''a.b'' = Inr (a', fs', ''/d/a (1).b'')"
    by (auto split: sum.splits)
  have k: "path_key ''/d/a (1).b'' \<noteq> (True, [''d'', ''a.b''])" by code_simp
  have o: "node_at demo_fs (True, [''d'', ''a.b'']) = Some (FFile ''x'')" by code_simp
  have p: "plain_comp ''a.b''" by code_simp
  from allocator_never_overwrites [OF r _ p] k o have
    "node_at fs' (True, [''d'', ''a.b'']) = Some (FFile ''x'')" by auto
  with r show ?thesis by blast
qed

text \<open>The suffix hints of the allocator are only an optimisation. While the candidates
  below each hint exist, the allocator creates exactly the file that the plain search from
  the unsuffixed name would create (and fails exactly when it fails), and the hints stay
  accurate after the creation.\<close>

theorem allocator_equals_plain_search:
  assumes "alloc_ok a fs"
  shows "map_sum id snd (alloc_create a fs dir filename) = CreateUniqueFile fs dir filename \<and>
    (case alloc_create a fs dir filename of Inl e \<Rightarrow> True | Inr (a', fs', p) \<Rightarrow> alloc_ok a' fs')"
proof -
  let ?h = "alloc_hint a (dir, filename)"
  have eq: "createUniqueFileFrom fs dir filename ?h = createUniqueFileFrom fs dir filename 0"
    by (rule createUniqueFileFrom_hint) (use alloc_ok_hint [OF assms] in auto)
  have ok: "alloc_ok a' fs'"
    if r: "createUniqueFileFrom fs dir filename 0 = Inr (fs', p, j)"
      and a': "a' = (if j + 1 > ?h then mput (dir, filename) (j + 1) a else a)" for fs' p j a'
  proof -
    have o: "open_excl fs p = Inr fs'" using createUniqueFileFrom_InrD(1) [OF r] .
    have "alloc_ok (mput (dir, filename) (j + 1) a) fs'"
      by (rule alloc_ok_mput [OF alloc_ok_open [OF assms o]])
        (use createUniqueFileFrom_least [OF r] in \<open>auto simp: taken_open [OF o]\<close>)
    with alloc_ok_open [OF assms o] a' show ?thesis by simp
  qed
  show ?thesis
    using ok by (auto simp: alloc_create_def CreateUniqueFile_def eq Let_def split: sum.splits)
qed

theorem allocator_equals_plain_search_witness:
  "map_sum id snd (alloc_create [((''/d'', ''a.b''), 1)] demo_fs ''/d'' ''a.b'')
     = CreateUniqueFile demo_fs ''/d'' ''a.b''"
proof -
  have "alloc_ok [((''/d'', ''a.b''), 1)] demo_fs" by code_simp
  from allocator_equals_plain_search [OF this] show ?thesis by blast
qed

text \<open>The smallest free suffix. The file that is created has the least suffix whose
  candidate does not exist, and the search gives up only when all 10001 candidates exist.\<close>

theorem unique_file_least_suffix:
  "case createUniqueFileFrom fs dir filename 0 of
     Inr (fs', path, j) \<Rightarrow> path = candidate dir filename j \<and> 0 \<le> j \<and> j \<le> MaxUniquePathAttempts \<and>
       \<not> taken fs path \<and> (\<forall>m \<in> {0..<j}. taken fs (candidate dir filename m))
   | Inl NoUniqueName \<Rightarrow> \<forall>m \<in> {0..MaxUniquePathAttempts}. taken fs (candidate dir filename m)
   | Inl OpenFailed \<Rightarrow> True"
proof (cases "createUniqueFileFrom fs dir filename 0")
  case (Inr r)
  obtain fs' p j where r: "r = (fs', p, j)" by (cases r)
  with Inr createUniqueFileFrom_least [of fs dir filename fs' p j]
    createUniqueFileFrom_create(1) [of fs dir filename 0 fs' p j] show ?thesis
    by (simp add: taken_iff)
next
  case (Inl e)
  show ?thesis
  proof (cases e)
    case OpenFailed
    with Inl show ?thesis by simp
  next
    case NoUniqueName
    let ?e = "path_ext filename" and ?n = "trim_suffix filename (path_ext filename)"
    from Inl NoUniqueName have c: "create_suffixed fs dir ?n ?e 1 = Inl NoUniqueName"
      and e: "open_excl fs (path_join dir filename) = Inl EExist"
      by (auto simp: createUniqueFileFrom_def Let_def split: open_err.splits sum.splits)
    have "taken fs (candidate dir filename m)" if "0 \<le> m" "m \<le> MaxUniquePathAttempts" for m
    proof (cases "m = 0")
      case True
      with e show ?thesis by (simp add: candidate_def taken_def)
    next
      case False
      with that create_suffixed_exhausted [OF c, of m] show ?thesis by (simp add: candidate_def)
    qed
    with Inl NoUniqueName show ?thesis by simp
  qed
qed

theorem unique_file_least_suffix_witness:
  "\<not> taken demo_fs ''/d/a (1).b'' \<and> taken demo_fs (candidate ''/d'' ''a.b'' 0)"
proof -
  have "case createUniqueFileFrom demo_fs ''/d'' ''a.b'' 0 of Inl e \<Rightarrow> False
    | Inr (fs', p, j) \<Rightarrow> p = ''/d/a (1).b'' \<and> j = 1" by code_simp
  with unique_file_least_suffix [of demo_fs "''/d''" "''a.b''"] show ?thesis
    by (auto split: sum.splits)
qed

end
