(* ===== verification/FolderRemap.thy ===== *)
theory FolderRemap
  imports UniqueFiles
begin

text \<open>
  \<^verbatim>\<open>internal/utils/folderremap.go\<close>: the root folders of an incoming transfer are renamed when
  a folder of that name exists. Go collects the roots in a map used as a set and ranges over
  it; here the set is the list of distinct roots.
\<close>

section \<open>The remapper\<close>

record FolderRemapper =
  remap :: "(string, string) gomap"
  fr_saveDir :: string

text \<open>The root folder of a transfer name that has one, after sanitizing.\<close>

definition root_of :: "string \<Rightarrow> string option" where
  "root_of filename =
     (case SanitizeRelativePath filename of
        Inl _ \<Rightarrow> None
      | Inr p \<Rightarrow> (case split_first sep (ToProtocolPath p) of
                     (_, None) \<Rightarrow> None
                   | (root, Some _) \<Rightarrow> Some root))"

fun root_folders :: "string list \<Rightarrow> string list \<Rightarrow> string list" where
  "root_folders [] acc = acc"
| "root_folders (filename # rest) acc =
     (case root_of filename of
        None \<Rightarrow> root_folders rest acc
      | Some r \<Rightarrow> root_folders rest (List.insert r acc))"

fun remap_roots ::
    "fsys \<Rightarrow> string \<Rightarrow> string list \<Rightarrow> (string, string) gomap \<Rightarrow> unique_err + (string, string) gomap" where
  "remap_roots fs saveDir [] m = Inr m"
| "remap_roots fs saveDir (root # roots) m =
     (case FindUniqueFolderName fs saveDir root of
        Inl e \<Rightarrow> Inl e
      | Inr uniqueRoot \<Rightarrow>
          remap_roots fs saveDir roots (if uniqueRoot \<noteq> root then mput root uniqueRoot m else m))"

definition NewFolderRemapper :: "fsys \<Rightarrow> string \<Rightarrow> string list \<Rightarrow> unique_err + FolderRemapper" where
  "NewFolderRemapper fs saveDir filenames =
     (case remap_roots fs saveDir (root_folders filenames []) [] of
        Inl e \<Rightarrow> Inl e
      | Inr m \<Rightarrow> Inr \<lparr>remap = m, fr_saveDir = saveDir\<rparr>)"

definition remap_apply :: "FolderRemapper \<Rightarrow> string \<Rightarrow> string" where
  "remap_apply r sanitizedPath =
     (if remap r = [] then sanitizedPath
      else case split_first sep (ToProtocolPath sanitizedPath) of
             (_, None) \<Rightarrow> sanitizedPath
           | (root, Some rest) \<Rightarrow>
               (case mget (remap r) root of
                  Some newRoot \<Rightarrow> newRoot @ [sep] @ rest
                | None \<Rightarrow> sanitizedPath))"

definition HasRemap :: "FolderRemapper \<Rightarrow> bool" where
  "HasRemap r = (remap r \<noteq> [])"

definition GetRemap :: "FolderRemapper \<Rightarrow> (string, string) gomap" where
  "GetRemap r = fold (\<lambda>(k, v) m. mput k v m) (remap r) []"

section \<open>Unique folder names\<close>

lemma find_folder_from_InrD:
  assumes "find_folder_from fs d f i = Inr g" and "1 \<le> i"
  shows "os_stat fs (path_join d g) = SNotExist \<and> (\<exists>j. 1 \<le> j \<and> g = suffix_name f j [])"
  using assms
proof (induction fs d f i rule: find_folder_from.induct)
  case (1 fs d f i)
  from "1.prems" show ?case
    using "1.IH" by (subst (asm) find_folder_from.simps) (auto split: if_splits)
qed

lemma FindUniqueFolderName_InrD:
  assumes "FindUniqueFolderName fs d f = Inr g"
  shows "os_stat fs (path_join d g) = SNotExist"
    and "g = f \<or> (\<exists>j. g = suffix_name f j [])"
  using assms by (auto simp: FindUniqueFolderName_def dest: find_folder_from_InrD split: if_splits)

lemma FindUniqueFolderName_plain:
  "FindUniqueFolderName fs d f = Inr g \<Longrightarrow> plain_comp f \<Longrightarrow> plain_comp g"
proof -
  assume g: "FindUniqueFolderName fs d f = Inr g" and f: "plain_comp f"
  have "plain_comp (suffix_name f j [])" for j
    by (rule suffix_name_plain) (use f in \<open>auto simp: plain_comp_def\<close>)
  with FindUniqueFolderName_InrD(2) [OF g] f show ?thesis by auto
qed

section \<open>The remapping\<close>

text \<open>Splitting a safe path at its first separator.\<close>

lemma split_first_join:
  "cs \<noteq> [] \<Longrightarrow> \<forall>c \<in> set cs. c0 \<notin> set c \<Longrightarrow>
   split_first c0 (join_with c0 cs) =
     (hd cs, if tl cs = [] then None else Some (join_with c0 (tl cs)))"
  by (cases cs; cases "tl cs") (auto simp: go_text)

lemma split_first_safe:
  assumes "safe_rel p"
  shows "split_first sep p =
    (hd (path_comps p), if tl (path_comps p) = [] then None else Some (join_with sep (tl (path_comps p))))"
proof -
  have "p = join_with sep (path_comps p)" "path_comps p \<noteq> []"
    "\<forall>c \<in> set (path_comps p). sep \<notin> set c"
    using assms by (auto simp: safe_rel_def list_all_iff plain_comp_def)
  then show ?thesis using split_first_join [of "path_comps p" sep] by metis
qed

definition remap_wf :: "fsys \<Rightarrow> string \<Rightarrow> (string, string) gomap \<Rightarrow> bool" where
  "remap_wf fs saveDir m \<longleftrightarrow>
     list_all (\<lambda>(root, new). plain_comp new \<and> os_stat fs (path_join saveDir new) = SNotExist) m"

lemma remap_wf_mput:
  assumes "remap_wf fs d m" and "plain_comp v" and "os_stat fs (path_join d v) = SNotExist"
  shows "remap_wf fs d (mput k v m)"
  using assms set_mput_subset [of k v m]
  unfolding remap_wf_def list_all_iff by blast

lemma remap_roots_InrD:
  assumes "remap_roots fs d roots m = Inr m'" and "remap_wf fs d m"
    and "list_all plain_comp roots" and "distinct roots"
  shows "remap_wf fs d m' \<and>
    (\<forall>root \<in> set roots. FindUniqueFolderName fs d root =
        Inr (case mget m' root of None \<Rightarrow> root | Some n \<Rightarrow> n)
      \<or> mget m root \<noteq> None) \<and>
    (\<forall>root. root \<notin> set roots \<longrightarrow> mget m' root = mget m root)"
  using assms
proof (induction roots arbitrary: m)
  case Nil
  then show ?case by simp
next
  case (Cons root roots)
  then obtain u where u: "FindUniqueFolderName fs d root = Inr u"
    by (auto split: sum.splits)
  let ?m = "if u \<noteq> root then mput root u m else m"
  have wf: "remap_wf fs d ?m"
    using Cons.prems(2,3) FindUniqueFolderName_InrD(1) [OF u] FindUniqueFolderName_plain [OF u]
    by (auto intro: remap_wf_mput)
  from Cons.prems(1) u have r: "remap_roots fs d roots ?m = Inr m'" by simp
  have pl: "list_all plain_comp roots" "distinct roots" "root \<notin> set roots"
    using Cons.prems(3,4) by simp_all
  note IH = Cons.IH [OF r wf pl(1,2)]
  show ?case
  proof (intro conjI ballI allI impI)
    show "remap_wf fs d m'" using IH by blast
    show "mget m' x = mget m x" if "x \<notin> set (root # roots)" for x
      using IH that by auto
    fix x assume "x \<in> set (root # roots)"
    then consider "x \<in> set roots" "x \<noteq> root" | "x = root" "x \<notin> set roots"
      using pl(3) by auto
    then show "FindUniqueFolderName fs d x = Inr (case mget m' x of None \<Rightarrow> x | Some n \<Rightarrow> n)
      \<or> mget m x \<noteq> None"
    proof cases
      case 1
      with IH show ?thesis by (auto split: if_splits)
    next
      case 2
      with IH u show ?thesis by (auto split: if_splits option.splits)
    qed
  qed
qed

lemma root_of_plain: "root_of f = Some r \<Longrightarrow> plain_comp r"
  by (auto simp: root_of_def ToProtocolPath_def split: sum.splits prod.splits option.splits
      dest!: SanitizeRelativePath_InrD(2) simp: split_first_safe safe_rel_def)
    (auto simp: list_all_iff split: if_splits)

lemma root_folders_set:
  "set (root_folders fs acc) = set acc \<union> {r. Some r \<in> root_of ` set fs}"
  by (induction fs arbitrary: acc) (force split: option.splits)+

lemma root_folders_distinct: "distinct acc \<Longrightarrow> distinct (root_folders fs acc)"
  by (induction fs arbitrary: acc) (auto split: option.splits)

lemma NewFolderRemapper_InrD:
  assumes "NewFolderRemapper fs d files = Inr r"
  shows "remap_wf fs d (remap r)" and "fr_saveDir r = d"
    and "f \<in> set files \<Longrightarrow> root_of f = Some root \<Longrightarrow>
      FindUniqueFolderName fs d root =
        Inr (case mget (remap r) root of None \<Rightarrow> root | Some n \<Rightarrow> n)"
proof -
  let ?roots = "root_folders files []"
  from assms have m: "remap_roots fs d ?roots [] = Inr (remap r)" and "fr_saveDir r = d"
    by (auto simp: NewFolderRemapper_def split: sum.splits)
  have pl: "list_all plain_comp ?roots"
    by (auto simp: list_all_iff root_folders_set root_of_plain dest: sym)
  have "remap_wf fs d []" by (simp add: remap_wf_def)
  note R = remap_roots_InrD [OF m this pl root_folders_distinct [OF distinct.simps(1) [THEN iffD2, OF TrueI]]]
  show "remap_wf fs d (remap r)" using R by blast
  show "fr_saveDir r = d" by fact
  assume "f \<in> set files" "root_of f = Some root"
  then have "root \<in> set ?roots" by (force simp: root_folders_set image_iff)
  with R show "FindUniqueFolderName fs d root =
        Inr (case mget (remap r) root of None \<Rightarrow> root | Some n \<Rightarrow> n)" by auto
qed

definition remap_plain :: "(string, string) gomap \<Rightarrow> bool" where
  "remap_plain m \<longleftrightarrow> list_all (\<lambda>(_, n). plain_comp n) m"

lemma remap_wf_plain: "remap_wf fs d m \<Longrightarrow> remap_plain m"
  by (auto simp: remap_wf_def remap_plain_def list_all_iff)

lemma remap_plain_get: "remap_plain m \<Longrightarrow> mget m root = Some n \<Longrightarrow> plain_comp n"
  by (auto simp: remap_plain_def list_all_iff dest!: map_of_SomeD)

text \<open>What applying does to a safe path: at most the first component changes.\<close>

lemma remap_apply_safe:
  assumes "safe_rel p"
  shows "remap_apply r p =
    (case mget (remap r) (hd (path_comps p)) of
       None \<Rightarrow> p
     | Some n \<Rightarrow> if tl (path_comps p) = [] then p
                 else join_with sep (n # tl (path_comps p)))"
  using assms by (cases "tl (path_comps p)")
    (auto simp: remap_apply_def ToProtocolPath_def split_first_safe split: option.splits)

lemma remap_apply_comps:
  assumes "safe_rel p" and "remap_plain (remap r)"
  shows "safe_rel (remap_apply r p)"
    and "path_comps (remap_apply r p) =
      (case mget (remap r) (hd (path_comps p)) of
         None \<Rightarrow> path_comps p
       | Some n \<Rightarrow> if tl (path_comps p) = [] then path_comps p else n # tl (path_comps p))"
proof -
  have pl: "list_all plain_comp (tl (path_comps p))"
    using safe_rel_facts(4) [OF assms(1)] by (cases "path_comps p") auto
  have n: "plain_comp n" if "mget (remap r) root = Some n" for root n
    using remap_plain_get [OF assms(2) that] .
  show "safe_rel (remap_apply r p)"
    using pl n assms(1) by (auto simp: remap_apply_safe safe_rel_join split: option.splits)
  show "path_comps (remap_apply r p) =
      (case mget (remap r) (hd (path_comps p)) of
         None \<Rightarrow> path_comps p
       | Some n \<Rightarrow> if tl (path_comps p) = [] then path_comps p else n # tl (path_comps p))"
    using pl n assms(1) by (auto simp: remap_apply_safe safe_rel_join split: option.splits)
qed

section \<open>Properties\<close>

text \<open>A folder transfer lands in a folder that did not exist. For every file of the
  transfer that has a root folder, the remapped path is still safe, keeps everything below
  the root, and its root names nothing in the save directory at the time of the remapping.\<close>

theorem remapped_root_is_new:
  assumes "NewFolderRemapper fs saveDir filenames = Inr r"
    and "filename \<in> set filenames" and "SanitizeRelativePath filename = Inr p"
    and "1 < length (path_comps p)"
  shows "safe_rel (remap_apply r p) \<and>
    os_stat fs (path_join saveDir (hd (path_comps (remap_apply r p)))) = SNotExist \<and>
    tl (path_comps (remap_apply r p)) = tl (path_comps p)"
proof -
  have p: "safe_rel p" using SanitizeRelativePath_InrD(2) [OF assms(3)] .
  have tl: "tl (path_comps p) \<noteq> []" using assms(4) by (cases "path_comps p") auto
  have "root_of filename = Some (hd (path_comps p))"
    using assms(3) tl p by (simp add: root_of_def ToProtocolPath_def split_first_safe)
  from NewFolderRemapper_InrD(3) [OF assms(1,2) this]
  have u: "FindUniqueFolderName fs saveDir (hd (path_comps p)) =
    Inr (case mget (remap r) (hd (path_comps p)) of None \<Rightarrow> hd (path_comps p) | Some n \<Rightarrow> n)" .
  show ?thesis
    using remap_apply_comps [OF p remap_wf_plain [OF NewFolderRemapper_InrD(1) [OF assms(1)]]] tl
      FindUniqueFolderName_InrD(1) [OF u] by (auto split: option.splits)
qed

definition demo_folders :: fsys where
  "demo_folders = \<lparr>fs_nodes = [((True, [''d'']), FDir), ((True, [''d'', ''A'']), FDir)],
     fs_denied = [], fs_space = None\<rparr>"

theorem remapped_root_is_new_witness:
  "case NewFolderRemapper demo_folders ''/d'' [''A/x''] of
     Inl e \<Rightarrow> False
   | Inr r \<Rightarrow> remap_apply r ''A/x'' = ''A (1)/x'' \<and>
       os_stat demo_folders (path_join ''/d'' (hd (path_comps (remap_apply r ''A/x'')))) = SNotExist"
proof -
  have "case NewFolderRemapper demo_folders ''/d'' [''A/x''] of
      Inl e \<Rightarrow> False | Inr r \<Rightarrow> remap_apply r ''A/x'' = ''A (1)/x''" by code_simp
  then obtain r where r: "NewFolderRemapper demo_folders ''/d'' [''A/x''] = Inr r"
    "remap_apply r ''A/x'' = ''A (1)/x''" by (auto split: sum.splits)
  have s: "SanitizeRelativePath ''A/x'' = Inr ''A/x''" "1 < length (path_comps ''A/x'')"
    by code_simp+
  from remapped_root_is_new [OF r(1) _ s] r show ?thesis by simp
qed

text \<open>Two folders of one transfer can be merged. With a folder \<^verbatim>\<open>A\<close> in the save directory,
  a transfer of \<^verbatim>\<open>A/x\<close> and \<^verbatim>\<open>A (1)/x\<close> sends both files to the same path: the unique name found
  for one root is not compared with the other roots of the transfer.\<close>

theorem remap_merges_roots:
  "case NewFolderRemapper demo_folders ''/d'' [''A/x'', ''A (1)/x''] of
     Inl e \<Rightarrow> False
   | Inr r \<Rightarrow> remap_apply r ''A/x'' = remap_apply r ''A (1)/x''"
  by code_simp

end
