(* ===== verification/LsErrors.thy ===== *)
theory LsErrors
  imports Prelude
begin

text \<open>
  \<^verbatim>\<open>internal/localsend/constants\<close>: the errors of the protocol, their HTTP status codes, and
  the limits shared by the HTTP and WebRTC receivers. \<open>None\<close> is Go's \<open>nil\<close> error.
\<close>

datatype ls_err =
    ErrFinished | ErrInvalidBody | ErrRejected | ErrInvalidPIN | ErrBlockedByOthers | ErrUnknown
  | ErrTooManyReq | ErrTooManyFiles | ErrFileIO | ErrChecksum | ErrFingerprint | ErrNotFound
  | ErrTooManySessions

definition ParseError :: "int \<Rightarrow> ls_err option" where
  "ParseError status =
     (if status = 200 then None
      else if status = 204 then Some ErrFinished
      else if status = 400 then Some ErrInvalidBody
      else if status = 401 then Some ErrInvalidPIN
      else if status = 404 then Some ErrNotFound
      else if status = 403 then Some ErrRejected
      else if status = 409 then Some ErrBlockedByOthers
      else if status = 429 then Some ErrTooManyReq
      else if status = 422 then Some ErrChecksum
      else Some ErrUnknown)"

fun Status :: "ls_err option \<Rightarrow> int" where
  "Status None = 200"
| "Status (Some ErrFinished) = 204"
| "Status (Some ErrInvalidBody) = 400"
| "Status (Some ErrInvalidPIN) = 401"
| "Status (Some ErrRejected) = 403"
| "Status (Some ErrNotFound) = 404"
| "Status (Some ErrBlockedByOthers) = 409"
| "Status (Some ErrTooManyReq) = 429"
| "Status (Some ErrChecksum) = 422"
| "Status (Some _) = 500"

definition MaxPINAttempts :: int where "MaxPINAttempts = 3"

text \<open>Nanoseconds, as \<^verbatim>\<open>time.Duration\<close>.\<close>

definition PINBlockDuration :: int where "PINBlockDuration = 30 * 1000000000"

definition MaxFilesPerSession :: int where "MaxFilesPerSession = 10000"

text \<open>Status codes and errors correspond. A status the server sends is read back by
  the client as the same error, except that the errors without a code of their own (too many
  files or sessions, file IO, fingerprint, unknown) are sent as 500 and read as
  \<^verbatim>\<open>ErrUnknown\<close>; and every status the client knows survives the way back.\<close>

theorem status_roundtrip:
  "ParseError (Status e) =
     (if Status e = 500 then Some ErrUnknown else e) \<and>
   Status (ParseError s) = (if s \<in> {200, 204, 400, 401, 403, 404, 409, 422, 429} then s else 500)"
proof -
  have "ParseError (Status e) = (if Status e = 500 then Some ErrUnknown else e)"
    by (cases e rule: Status.cases) (simp_all add: ParseError_def)
  moreover have "Status (ParseError s) =
      (if s \<in> {200, 204, 400, 401, 403, 404, 409, 422, 429} then s else 500)"
    by (simp add: ParseError_def)
  ultimately show ?thesis by blast
qed

lemma Status_Some: "Status (Some e) \<in> {204, 400, 401, 403, 404, 409, 422, 429, 500}"
  by (cases e) simp_all

end
