(* ===== verification/RecvSession.thy ===== *)
theory RecvSession
  imports FolderRemap LsErrors
begin

text \<open>
  \<^verbatim>\<open>internal/localsend/session/recv.go\<close>: one HTTP receive session. \<^verbatim>\<open>SaveFile\<close> is split as the
  code's locks split it: \<open>save_begin\<close> (validation and claim of the file, under the lock),
  \<open>save_target\<close> and \<open>save_stream\<close> (file system work, unlocked) and \<open>finishFileAttempt\<close>.

  The request body is a list of reads, each with the clock (Unix seconds) and the bytes it
  returned (at most \<open>FileIOBufferSize\<close>, the size of the copy buffer), ended by EOF or an error.
  SHA-256 is the argument \<open>sha\<close>: the theorems hold for any function in its place. Setting the
  file times, which is best effort and cannot change the outcome, is left out.
\<close>

section \<open>Data\<close>

definition SessionTimeout :: int where "SessionTimeout = 60 * 1000000000"

definition maxChecksumAttempts :: "8 word" where "maxChecksumAttempts = 3"

datatype fileUploadStatus = filePending | fileInProgress | fileFinished | fileFailed

record fileUploadState =
  fu_status :: fileUploadStatus
  fu_attempts :: "8 word"
  fu_targetPath :: string

record FileMetadata =
  md_modified :: string
  md_accessed :: string

record FileMeta =
  fm_id :: string
  fm_filename :: string
  fm_size :: int
  fm_fileMIME :: string
  fm_checksum :: string
  fm_preview :: string
  fm_metadata :: "FileMetadata option"

record RecvSession =
  filesCount :: int
  lastActivity :: int
  fileMetas :: "(string, FileMeta) gomap"
  fileTokens :: "(string, string) gomap"
  fileStates :: "(string, fileUploadState) gomap"
  sess_id :: string
  sess_clientIP :: string
  started :: bool
  remapDone :: bool
  folderRemapper :: "FolderRemapper option"
  remapErr :: bool
  isFolderCached :: "bool option"
  ensuredDirs :: "string list"
  uniqueFiles :: allocator

definition NewRecvSession :: "int \<Rightarrow> string \<Rightarrow> string \<Rightarrow> RecvSession" where
  "NewRecvSession now sessionId clientIP =
     \<lparr>filesCount = 0, lastActivity = now, fileMetas = [], fileTokens = [], fileStates = [],
      sess_id = sessionId, sess_clientIP = clientIP, started = False, remapDone = False,
      folderRemapper = None, remapErr = False, isFolderCached = None, ensuredDirs = [],
      uniqueFiles = []\<rparr>"

text \<open>\<open>token\<close> is the fresh UUID.\<close>

definition AcceptFile ::
    "RecvSession \<Rightarrow> string \<Rightarrow> string \<Rightarrow> FileMeta \<Rightarrow> ls_err + RecvSession" where
  "AcceptFile s token fileId fileMeta =
     (if fileId \<noteq> fm_id fileMeta then Inl ErrUnknown
      else if started s then Inl ErrBlockedByOthers
      else if int (length (fileMetas s)) \<ge> MaxFilesPerSession then Inl ErrTooManyFiles
      else Inr (s\<lparr>fileMetas := mput fileId fileMeta (fileMetas s),
                  fileTokens := mput fileId token (fileTokens s),
                  fileStates := mput fileId
                    \<lparr>fu_status = filePending, fu_attempts = 0, fu_targetPath = []\<rparr> (fileStates s),
                  filesCount := wrap64 (filesCount s + 1)\<rparr>))"

definition sess_Start :: "RecvSession \<Rightarrow> RecvSession" where
  "sess_Start s = s\<lparr>started := True\<rparr>"

definition sess_End :: "RecvSession \<Rightarrow> RecvSession \<times> bool" where
  "sess_End s = (if started s then (s\<lparr>started := False, filesCount := 0\<rparr>, True) else (s, False))"

text \<open>\<open>nowNs\<close> is the clock in nanoseconds.\<close>

definition Stopped :: "int \<Rightarrow> RecvSession \<Rightarrow> bool" where
  "Stopped nowNs s =
     (if nowNs - lastActivity s * 1000000000 > SessionTimeout then True
      else \<not> started s \<or> filesCount s = 0)"

definition FileTokens :: "RecvSession \<Rightarrow> (string, string) gomap" where
  "FileTokens s = fold (\<lambda>(k, v) m. mput k v m) (fileTokens s) []"

definition GetFileMeta :: "RecvSession \<Rightarrow> string \<Rightarrow> FileMeta option" where
  "GetFileMeta s fileId = mget (fileMetas s) fileId"

definition sess_IsFolderTransfer :: "RecvSession \<Rightarrow> RecvSession \<times> bool" where
  "sess_IsFolderTransfer s =
     (case isFolderCached s of
        Some b \<Rightarrow> (s, b)
      | None \<Rightarrow>
          let b = list_ex (\<lambda>(_, meta). str_contains (fm_filename meta) [sep]) (fileMetas s)
          in (s\<lparr>isFolderCached := Some b\<rparr>, b))"

section \<open>Preparing the target\<close>

definition prepareFolderRemap :: "fsys \<Rightarrow> string \<Rightarrow> RecvSession \<Rightarrow> RecvSession \<times> bool" where
  "prepareFolderRemap fs saveDir s =
     (if remapDone s then (s, \<not> remapErr s)
      else case NewFolderRemapper fs saveDir (map (\<lambda>(_, meta). fm_filename meta) (fileMetas s)) of
             Inl _ \<Rightarrow> (s\<lparr>remapDone := True, remapErr := True\<rparr>, False)
           | Inr r \<Rightarrow> (s\<lparr>remapDone := True, folderRemapper := Some r\<rparr>, True))"

definition applyFolderRemap :: "RecvSession \<Rightarrow> string \<Rightarrow> string" where
  "applyFolderRemap s p = (case folderRemapper s of None \<Rightarrow> p | Some r \<Rightarrow> remap_apply r p)"

definition ensureSaveDir :: "fsys \<Rightarrow> string \<Rightarrow> RecvSession \<Rightarrow> fsys \<times> RecvSession \<times> bool" where
  "ensureSaveDir fs dir s =
     (if dir \<in> set (ensuredDirs s) then (fs, s, True)
      else case mkdir_all fs dir of
             (fs', False) \<Rightarrow> (fs', s, False)
           | (fs', True) \<Rightarrow> (fs', s\<lparr>ensuredDirs := dir # ensuredDirs s\<rparr>, True))"

definition set_target :: "string \<Rightarrow> string \<Rightarrow> RecvSession \<Rightarrow> RecvSession" where
  "set_target fileId p s =
     (case mget (fileStates s) fileId of
        None \<Rightarrow> s
      | Some st \<Rightarrow> s\<lparr>fileStates := mput fileId (st\<lparr>fu_targetPath := p\<rparr>) (fileStates s)\<rparr>)"

text \<open>From the sanitizer to the open file: the error, or the path and the subdirectory.\<close>

definition full_dir :: "string \<Rightarrow> string \<Rightarrow> string" where
  "full_dir saveToDir subDir =
     (if subDir \<noteq> dot \<and> subDir \<noteq> [] then path_join saveToDir subDir else saveToDir)"

definition open_target ::
    "fsys \<Rightarrow> RecvSession \<Rightarrow> string \<Rightarrow> string \<Rightarrow> string \<Rightarrow> string \<Rightarrow>
     fsys \<times> RecvSession \<times> string option" where
  "open_target fs s fileId targetPath dir baseName =
     (if targetPath \<noteq> []
      then case open_excl fs targetPath of
             Inl _ \<Rightarrow> (fs, s, None)
           | Inr fs' \<Rightarrow> (fs', s, Some targetPath)
      else case alloc_create (uniqueFiles s) fs dir baseName of
             Inl _ \<Rightarrow> (fs, s, None)
           | Inr (a, fs', p) \<Rightarrow> (fs', set_target fileId p (s\<lparr>uniqueFiles := a\<rparr>), Some p))"

definition save_target ::
    "fsys \<Rightarrow> RecvSession \<Rightarrow> string \<Rightarrow> string \<Rightarrow> FileMeta \<Rightarrow> string \<Rightarrow>
     fsys \<times> RecvSession \<times> (ls_err + (string \<times> string))" where
  "save_target fs s saveToDir fileId expectedMeta targetPath =
     (case SanitizePathWithFallback (fm_filename expectedMeta) of
        Inl _ \<Rightarrow> (fs, s, Inl ErrInvalidBody)
      | Inr sanitizedPath \<Rightarrow>
          (case prepareFolderRemap fs saveToDir s of
             (s1, False) \<Rightarrow> (fs, s1, Inl ErrFileIO)
           | (s1, True) \<Rightarrow>
               let p = applyFolderRemap s1 sanitizedPath;
                   subDir = path_dir p;
                   baseName = path_base p;
                   fullSaveDir = full_dir saveToDir subDir
               in case ensureSaveDir fs fullSaveDir s1 of
                    (fs1, s2, False) \<Rightarrow> (fs1, s2, Inl ErrFileIO)
                  | (fs1, s2, True) \<Rightarrow>
                      (case open_target fs1 s2 fileId targetPath fullSaveDir baseName of
                         (fs2, s3, None) \<Rightarrow> (fs2, s3, Inl ErrFileIO)
                       | (fs2, s3, Some saveAs) \<Rightarrow> (fs2, s3, Inr (saveAs, subDir)))))"

section \<open>Streaming the body\<close>

definition FileIOBufferSize :: int where "FileIOBufferSize = 512 * 1024"

definition activityUpdateInterval :: int where "activityUpdateInterval = 10"

record body =
  bd_reads :: "(int \<times> bytes) list"
  bd_fails :: bool

record copy_state =
  cp_fs :: fsys
  cp_buf :: bytes
  cp_written :: int
  cp_hashed :: bytes
  cp_lastUpdate :: int
  cp_lastActivity :: int

text \<open>\<^verbatim>\<open>bufio.Writer\<close>: \<open>Flush\<close>, and \<open>Write\<close> of at most a buffer's length.\<close>

definition buf_flush :: "string \<Rightarrow> copy_state \<Rightarrow> copy_state \<times> bool" where
  "buf_flush path st =
     (case file_write (cp_fs st) path (cp_buf st) of
        (fs, n, ok) \<Rightarrow> (st\<lparr>cp_fs := fs, cp_buf := drop n (cp_buf st)\<rparr>, ok))"

definition buf_write :: "string \<Rightarrow> bytes \<Rightarrow> copy_state \<Rightarrow> copy_state \<times> bool" where
  "buf_write path p st =
     (let avail = FileIOBufferSize - int (length (cp_buf st)) in
      if int (length p) \<le> avail then (st\<lparr>cp_buf := cp_buf st @ p\<rparr>, True)
      else case buf_flush path (st\<lparr>cp_buf := cp_buf st @ take (nat avail) p\<rparr>) of
             (st1, False) \<Rightarrow> (st1, False)
           | (st1, True) \<Rightarrow> (st1\<lparr>cp_buf := drop (nat avail) p\<rparr>, True))"

text \<open>\<^verbatim>\<open>activityReader.Read\<close>.\<close>

definition note_activity :: "int \<Rightarrow> copy_state \<Rightarrow> copy_state" where
  "note_activity now st =
     (if now - cp_lastUpdate st \<ge> activityUpdateInterval
      then st\<lparr>cp_lastActivity := now, cp_lastUpdate := now\<rparr> else st)"

text \<open>\<^verbatim>\<open>io.Copy\<close> from an \<^verbatim>\<open>io.LimitReader\<close> with \<open>n\<close> bytes left; the flag is success.\<close>

fun copy_loop :: "string \<Rightarrow> bool \<Rightarrow> bool \<Rightarrow> (int \<times> bytes) list \<Rightarrow> int \<Rightarrow> copy_state \<Rightarrow> copy_state \<times> bool" where
  "copy_loop path hashing fails [] n st = (st, n \<le> 0 \<or> \<not> fails)"
| "copy_loop path hashing fails ((now, chunk) # rest) n st =
     (if n \<le> 0 then (st, True)
      else
        let p = take (nat n) chunk in
        if p = [] then copy_loop path hashing fails rest n st
        else case buf_write path p (note_activity now st) of
               (st1, False) \<Rightarrow> (st1, False)
             | (st1, True) \<Rightarrow>
                 copy_loop path hashing fails rest (n - int (length p))
                   (st1\<lparr>cp_written := cp_written st1 + int (length p),
                        cp_hashed := (if hashing then cp_hashed st1 @ p else cp_hashed st1)\<rparr>))"

text \<open>The transfer: the outcome of the attempt, and the error if it failed. A failed attempt
  removes the partial file.\<close>

definition stream_outcome ::
    "(bytes \<Rightarrow> bytes) \<Rightarrow> string \<Rightarrow> FileMeta \<Rightarrow> body \<Rightarrow> copy_state \<Rightarrow>
     copy_state \<times> (fileUploadStatus \<times> ls_err option)" where
  "stream_outcome sha saveAs expectedMeta bd st0 =
     (case copy_loop saveAs (fm_checksum expectedMeta \<noteq> []) (bd_fails bd) (bd_reads bd)
             (wrap64 (fm_size expectedMeta + 1)) st0 of
        (st, False) \<Rightarrow> (st, fileFailed, Some ErrFileIO)
      | (st, True) \<Rightarrow>
          if cp_written st \<noteq> fm_size expectedMeta then (st, fileFailed, Some ErrInvalidBody)
          else case buf_flush saveAs st of
                 (st1, False) \<Rightarrow> (st1, fileFailed, Some ErrFileIO)
               | (st1, True) \<Rightarrow>
                   if fm_checksum expectedMeta \<noteq> [] \<and>
                      \<not> equal_fold_hex (hex_encode (sha (cp_hashed st1))) (fm_checksum expectedMeta)
                   then (st1, filePending, Some ErrChecksum)
                   else (st1, fileFinished, None))"

definition save_stream ::
    "(bytes \<Rightarrow> bytes) \<Rightarrow> fsys \<Rightarrow> RecvSession \<Rightarrow> string \<Rightarrow> FileMeta \<Rightarrow> body \<Rightarrow>
     fsys \<times> RecvSession \<times> fileUploadStatus \<times> ls_err option" where
  "save_stream sha fs s saveAs expectedMeta bd =
     (case stream_outcome sha saveAs expectedMeta bd
             \<lparr>cp_fs = fs, cp_buf = [], cp_written = 0, cp_hashed = [], cp_lastUpdate = 0,
              cp_lastActivity = lastActivity s\<rparr> of
        (st, result, err) \<Rightarrow>
          (if err = None then cp_fs st else fst (os_remove (cp_fs st) saveAs),
           s\<lparr>lastActivity := cp_lastActivity st\<rparr>, result, err))"

section \<open>SaveFile\<close>

definition finishFileAttempt :: "string \<Rightarrow> fileUploadStatus \<Rightarrow> RecvSession \<Rightarrow> RecvSession" where
  "finishFileAttempt fileID result s =
     (case mget (fileStates s) fileID of
        None \<Rightarrow> s
      | Some st \<Rightarrow>
          if fu_status st \<noteq> fileInProgress then s
          else if result = filePending \<and> fu_attempts st < maxChecksumAttempts
          then s\<lparr>fileStates := mput fileID (st\<lparr>fu_status := filePending\<rparr>) (fileStates s)\<rparr>
          else
            let s1 = s\<lparr>fileStates := mput fileID
                        (st\<lparr>fu_status := (if result = fileFinished then fileFinished else fileFailed)\<rparr>)
                        (fileStates s),
                      filesCount := wrap64 (filesCount s - 1)\<rparr>
            in if filesCount s1 = 0 then fst (sess_End s1) else s1)"

definition save_begin ::
    "RecvSession \<Rightarrow> string \<Rightarrow> string \<Rightarrow> string \<Rightarrow> ls_err + (RecvSession \<times> FileMeta \<times> string)" where
  "save_begin s fileId token clientIP =
     (if sess_id s = [] \<or> fileId = [] \<or> token = [] then Inl ErrInvalidBody
      else if \<not> started s then Inl ErrRejected
      else if sess_clientIP s \<noteq> [] \<and> clientIP \<noteq> sess_clientIP s then Inl ErrRejected
      else case (mget (fileMetas s) fileId, mget (fileTokens s) fileId, mget (fileStates s) fileId) of
        (Some meta, Some expectedToken, Some st) \<Rightarrow>
          if fu_status st \<noteq> filePending \<or> expectedToken \<noteq> token then Inl ErrRejected
          else Inr (s\<lparr>fileStates := mput fileId
                        (st\<lparr>fu_status := fileInProgress, fu_attempts := fu_attempts st + 1\<rparr>)
                        (fileStates s)\<rparr>, meta, fu_targetPath st)
      | _ \<Rightarrow> Inl ErrRejected)"

definition saved_name :: "string \<Rightarrow> string \<Rightarrow> string" where
  "saved_name saveAs subDir =
     (if subDir \<noteq> dot \<and> subDir \<noteq> [] then path_join subDir (path_base saveAs)
      else path_base saveAs)"

text \<open>The unlocked part, with the outcome that \<^verbatim>\<open>finishFileAttempt\<close> gets.\<close>

definition save_body ::
    "(bytes \<Rightarrow> bytes) \<Rightarrow> fsys \<Rightarrow> RecvSession \<Rightarrow> string \<Rightarrow> string \<Rightarrow> FileMeta \<Rightarrow> string \<Rightarrow> body \<Rightarrow>
     fsys \<times> RecvSession \<times> fileUploadStatus \<times> (ls_err + string)" where
  "save_body sha fs s saveToDir fileId meta targetPath bd =
     (case save_target fs s saveToDir fileId meta targetPath of
        (fs1, s1, Inl e) \<Rightarrow> (fs1, s1, fileFailed, Inl e)
      | (fs1, s1, Inr (saveAs, subDir)) \<Rightarrow>
          (case save_stream sha fs1 s1 saveAs meta bd of
             (fs2, s2, result, Some e) \<Rightarrow> (fs2, s2, result, Inl e)
           | (fs2, s2, result, None) \<Rightarrow> (fs2, s2, result, Inr (saved_name saveAs subDir))))"

definition SaveFile ::
    "(bytes \<Rightarrow> bytes) \<Rightarrow> fsys \<Rightarrow> RecvSession \<Rightarrow> string \<Rightarrow> string \<Rightarrow> string \<Rightarrow> string \<Rightarrow> body \<Rightarrow>
     fsys \<times> RecvSession \<times> (ls_err + string)" where
  "SaveFile sha fs s saveToDir fileId token clientIP bd =
     (case save_begin s fileId token clientIP of
        Inl e \<Rightarrow> (fs, s, Inl e)
      | Inr (s1, meta, targetPath) \<Rightarrow>
          (case save_body sha fs s1 saveToDir fileId meta targetPath bd of
             (fs2, s2, result, r) \<Rightarrow> (fs2, finishFileAttempt fileId result s2, r)))"

section \<open>The stream writes the body\<close>

definition holds_data :: "string \<Rightarrow> copy_state \<Rightarrow> bytes \<Rightarrow> bool" where
  "holds_data path st x \<longleftrightarrow>
     (\<exists>b. node_at (cp_fs st) (path_key path) = Some (FFile b) \<and> b @ cp_buf st = x)"

text \<open>Nothing but the open file changes, and it stays a file.\<close>

definition only_file :: "string \<Rightarrow> fsys \<Rightarrow> fsys \<Rightarrow> bool" where
  "only_file path fs fs' \<longleftrightarrow>
     (\<forall>k. k \<noteq> path_key path \<longrightarrow> node_at fs' k = node_at fs k) \<and>
     fs_denied fs' = fs_denied fs \<and>
     (is_file_node (node_at fs (path_key path)) \<longrightarrow> is_file_node (node_at fs' (path_key path)))"

lemma only_file_refl [simp]: "only_file path fs fs"
  by (simp add: only_file_def)

lemma only_file_trans: "only_file path a b \<Longrightarrow> only_file path b c \<Longrightarrow> only_file path a c"
  by (simp add: only_file_def)

lemma file_write_only: "only_file path fs (fst (file_write fs path bs))"
  using file_write_frame [of _ path fs bs] denied_file_write [of fs path bs]
  unfolding only_file_def
  by (auto simp: file_write_def Let_def is_file_node_def node_at_def set_node_def
      split: option.splits fnode.splits)

lemma buf_flush_only: "only_file path (cp_fs st) (cp_fs (fst (buf_flush path st)))"
  using file_write_only [of path "cp_fs st" "cp_buf st"]
  by (auto simp: buf_flush_def split: prod.split)

lemma buf_write_only: "only_file path (cp_fs st) (cp_fs (fst (buf_write path p st)))"
  using buf_flush_only [of path "st\<lparr>cp_buf := cp_buf st @ take (nat (FileIOBufferSize - int (length (cp_buf st)))) p\<rparr>"]
  by (auto simp: buf_write_def Let_def split: prod.splits bool.splits)

lemma note_activity_simps [simp]:
  "cp_fs (note_activity now st) = cp_fs st" "cp_buf (note_activity now st) = cp_buf st"
  "cp_written (note_activity now st) = cp_written st"
  "cp_hashed (note_activity now st) = cp_hashed st"
  by (simp_all add: note_activity_def)

lemma copy_loop_only: "only_file path (cp_fs st) (cp_fs (fst (copy_loop path h f reads n st)))"
proof (induction path h f reads n st rule: copy_loop.induct)
  case (1 path h f n st)
  then show ?case by simp
next
  case (2 path h f now chunk rest n st)
  let ?p = "take (nat n) chunk"
  obtain st1 ok where w: "buf_write path ?p (note_activity now st) = (st1, ok)" by fastforce
  have o: "only_file path (cp_fs st) (cp_fs st1)"
    using buf_write_only [of path "note_activity now st" ?p] w by simp
  show ?case
  proof (cases "n \<le> 0 \<or> ?p = [] \<or> \<not> ok")
    case True
    with 2 w o show ?thesis by (auto simp: Let_def)
  next
    case False
    then have ok: "ok = True" "\<not> n \<le> 0" "?p \<noteq> []" by auto
    note IH = "2.IH"(2) [OF ok(2) refl ok(3) w [symmetric, unfolded ok(1)] refl]
    show ?thesis
      using only_file_trans [OF o] IH ok w by (simp add: Let_def)
  qed
qed

lemma buf_flush_data:
  assumes "buf_flush path st = (st', True)" and "holds_data path st x"
  shows "node_at (cp_fs st') (path_key path) = Some (FFile x)" and "cp_buf st' = []"
    and "cp_written st' = cp_written st" and "cp_hashed st' = cp_hashed st"
  using assms file_write_ok [of "cp_fs st" path "cp_buf st"]
  by (auto simp: buf_flush_def holds_data_def split: prod.splits)

lemma buf_write_data:
  assumes "buf_write path p st = (st', True)" and "holds_data path st x"
  shows "holds_data path st' (x @ p)" and "cp_written st' = cp_written st"
    and "cp_hashed st' = cp_hashed st"
proof -
  let ?a = "nat (FileIOBufferSize - int (length (cp_buf st)))"
  let ?s = "st\<lparr>cp_buf := cp_buf st @ take ?a p\<rparr>"
  have h: "holds_data path ?s (x @ take ?a p)"
    using assms(2) by (auto simp: holds_data_def)
  have "holds_data path st' (x @ p) \<and> cp_written st' = cp_written st \<and> cp_hashed st' = cp_hashed st"
  proof (cases "int (length p) \<le> FileIOBufferSize - int (length (cp_buf st))")
    case True
    with assms show ?thesis by (auto simp: buf_write_def holds_data_def)
  next
    case False
    then obtain s1 where f: "buf_flush path ?s = (s1, True)"
      and st': "st' = s1\<lparr>cp_buf := drop ?a p\<rparr>"
      using assms(1) by (auto simp: buf_write_def Let_def split: prod.splits bool.splits)
    from buf_flush_data [OF f h] st' show ?thesis by (simp add: holds_data_def)
  qed
  then show "holds_data path st' (x @ p)" and "cp_written st' = cp_written st"
    and "cp_hashed st' = cp_hashed st" by blast+
qed

lemma copy_loop_data:
  assumes "copy_loop path h f reads n st = (st', True)" and "holds_data path st x"
  shows "\<exists>d. holds_data path st' (x @ d) \<and> cp_written st' = cp_written st + int (length d) \<and>
    (h \<longrightarrow> cp_hashed st' = cp_hashed st @ d) \<and> int (length d) \<le> max 0 n \<and>
    (int (length d) < n \<longrightarrow> d = concat (map snd reads) \<and> \<not> f)"
  using assms
proof (induction path h f reads n st arbitrary: x rule: copy_loop.induct)
  case (1 path h f n st)
  then show ?case by (intro exI [of _ "[]"]) auto
next
  case (2 path h f now chunk rest n st)
  let ?p = "take (nat n) chunk"
  show ?case
  proof (cases "n \<le> 0")
    case True
    with "2.prems" show ?thesis by (intro exI [of _ "[]"]) auto
  next
    case pos: False
    show ?thesis
    proof (cases "?p = []")
      case True
      with pos have "chunk = []" by auto
      with "2.prems" pos True "2.IH"(1) [OF pos refl True] show ?thesis by auto
    next
      case False
      obtain s1 ok where w: "buf_write path ?p (note_activity now st) = (s1, ok)" by fastforce
      with "2.prems"(1) pos False have ok: "ok" by (cases ok) (auto simp: Let_def)
      have h1: "holds_data path (note_activity now st) x"
        using "2.prems"(2) by (simp add: holds_data_def)
      note bw = buf_write_data [OF w [unfolded ok [THEN eqTrueI]] h1]
      let ?s2 = "s1\<lparr>cp_written := cp_written s1 + int (length ?p),
                    cp_hashed := (if h then cp_hashed s1 @ ?p else cp_hashed s1)\<rparr>"
      have run: "copy_loop path h f rest (n - int (length ?p)) ?s2 = (st', True)"
        using "2.prems"(1) pos False w ok by (simp add: Let_def)
      have h2: "holds_data path ?s2 (x @ ?p)" using bw(1) by (simp add: holds_data_def)
      from "2.IH"(2) [OF pos refl False w [symmetric, unfolded ok [THEN eqTrueI]] refl run h2]
      obtain d where d: "holds_data path st' ((x @ ?p) @ d)"
        "cp_written st' = cp_written ?s2 + int (length d)"
        "h \<longrightarrow> cp_hashed st' = cp_hashed ?s2 @ d"
        "int (length d) \<le> max 0 (n - int (length ?p))"
        "int (length d) < n - int (length ?p) \<longrightarrow> d = concat (map snd rest) \<and> \<not> f" by blast
      have "?p = chunk" if "int (length (?p @ d)) < n" using that by auto
      with d bw(2,3) pos show ?thesis by (intro exI [of _ "?p @ d"]) auto
    qed
  qed
qed

end
