(* ===== verification/SaveFileProps.thy ===== *)
theory SaveFileProps
  imports RecvSession
begin

text \<open>
  What \<^verbatim>\<open>SaveFile\<close> does to the file system: a success leaves exactly the body in a new file
  inside the save directory, a failure leaves every file as it was.
\<close>

section \<open>Choosing the target\<close>

definition sess_remap_ok :: "RecvSession \<Rightarrow> bool" where
  "sess_remap_ok s = (case folderRemapper s of None \<Rightarrow> True | Some r \<Rightarrow> remap_plain (remap r))"

lemma prepare_remap_ok:
  "sess_remap_ok s \<Longrightarrow> prepareFolderRemap fs d s = (s', b) \<Longrightarrow> sess_remap_ok s'"
  using NewFolderRemapper_InrD(1)
  by (fastforce simp: prepareFolderRemap_def sess_remap_ok_def dest: remap_wf_plain
      split: if_splits sum.splits)

lemma apply_safe:
  "sess_remap_ok s \<Longrightarrow> safe_rel p \<Longrightarrow> safe_rel (applyFolderRemap s p)"
  by (auto simp: sess_remap_ok_def applyFolderRemap_def remap_apply_comps split: option.splits)

lemma safe_not_dot: "safe_rel p \<Longrightarrow> p \<noteq> dot"
  by (auto simp: safe_rel_def path_comps_def split_on_no_occ)

lemma full_dir_safe:
  assumes "safe_rel p" and "d \<noteq> []"
  shows "full_dir d (path_dir p) \<noteq> []"
    and "path_under (full_dir d (path_dir p)) q \<Longrightarrow> path_under d q"
proof -
  have "full_dir d (path_dir p) \<noteq> [] \<and>
    (path_under (full_dir d (path_dir p)) q \<longrightarrow> path_under d q)"
  proof (cases "tl (path_comps p) = []")
    case True
    with assms show ?thesis by (simp add: path_dir_safe full_dir_def)
  next
    case False
    let ?cs = "butlast (path_comps p)"
    have "?cs \<noteq> []" using False by (cases "path_comps p") auto
    moreover have "list_all plain_comp ?cs"
      using safe_rel_facts(4) [OF assms(1)] by (auto simp: list_all_iff dest: in_set_butlastD)
    ultimately have s: "safe_rel (join_with sep ?cs)" by (rule safe_rel_join)
    with False assms have f: "full_dir d (path_dir p) = path_join d (join_with sep ?cs)"
      by (simp add: path_dir_safe full_dir_def safe_not_dot safe_rel_facts)
    have "path_under d (path_join d (join_with sep ?cs))" by (rule safe_rel_under [OF assms(2) s])
    then show ?thesis using assms(2) unfolding f by (auto intro: path_under_trans)
  qed
  then show "full_dir d (path_dir p) \<noteq> []"
    and "path_under (full_dir d (path_dir p)) q \<Longrightarrow> path_under d q" by blast+
qed

lemma base_safe: "safe_rel p \<Longrightarrow> plain_comp (path_base p)"
  using safe_rel_facts(1,4) [of p] by (simp add: path_base_safe list_all_iff)

text \<open>Files that are not the target, and directories, are only ever added.\<close>

definition grows :: "fsys \<Rightarrow> fsys \<Rightarrow> bool" where
  "grows fs fs' \<longleftrightarrow> (\<forall>k n. node_at fs k = Some n \<longrightarrow> node_at fs' k = Some n) \<and>
     (\<forall>q. file_content fs' q = file_content fs q)"

lemma grows_refl [simp]: "grows fs fs"
  by (simp add: grows_def)

lemma ensure_grows: "ensureSaveDir fs d s = (fs', s', b) \<Longrightarrow> grows fs fs'"
proof -
  assume "ensureSaveDir fs d s = (fs', s', b)"
  then have "fs' = fs \<or> fs' = fst (mkdir_all fs d)"
    by (auto simp: ensureSaveDir_def split: if_splits prod.splits bool.splits)
  then show ?thesis unfolding grows_def using mkdir_all_keeps mkdir_all_files by blast
qed

lemma open_target_SomeD:
  assumes "open_target fs s fid tp dir base = (fs', s', Some p)"
  shows "open_excl fs p = Inr fs'" and "tp \<noteq> [] \<Longrightarrow> p = tp"
    and "tp = [] \<Longrightarrow> dir \<noteq> [] \<Longrightarrow> plain_comp base \<Longrightarrow> path_under dir p"
  using assms
  by (auto simp: open_target_def split: if_splits sum.splits prod.splits
      elim!: alloc_create_InrD intro: createUniqueFileFrom_under dest: createUniqueFileFrom_InrD(1))

lemma open_target_NoneD: "open_target fs s fid tp dir base = (fs', s', None) \<Longrightarrow> fs' = fs"
  by (auto simp: open_target_def split: if_splits sum.splits prod.splits)

lemma save_target_InrD:
  assumes "save_target fs s d fid meta tp = (fs', s', Inr (saveAs, subDir))"
  shows "\<exists>fs1. grows fs fs1 \<and> open_excl fs1 saveAs = Inr fs'" and "tp \<noteq> [] \<Longrightarrow> saveAs = tp"
    and "tp = [] \<Longrightarrow> d \<noteq> [] \<Longrightarrow> sess_remap_ok s \<Longrightarrow> path_under d saveAs"
proof -
  from assms obtain sp s1 fs1 s2 where sp: "SanitizePathWithFallback (fm_filename meta) = Inr sp"
    and pre: "prepareFolderRemap fs d s = (s1, True)"
    and ens: "ensureSaveDir fs (full_dir d (path_dir (applyFolderRemap s1 sp))) s1 = (fs1, s2, True)"
    and opn: "open_target fs1 s2 fid tp (full_dir d (path_dir (applyFolderRemap s1 sp)))
      (path_base (applyFolderRemap s1 sp)) = (fs', s', Some saveAs)"
    by (auto simp: save_target_def Let_def split: sum.splits prod.splits bool.splits option.splits)
  show "\<exists>fs1. grows fs fs1 \<and> open_excl fs1 saveAs = Inr fs'"
    using ensure_grows [OF ens] open_target_SomeD(1) [OF opn] by blast
  show "tp \<noteq> [] \<Longrightarrow> saveAs = tp" using open_target_SomeD(2) [OF opn] .
  assume "tp = []" "d \<noteq> []" "sess_remap_ok s"
  then have safe: "safe_rel (applyFolderRemap s1 sp)"
    using apply_safe [OF prepare_remap_ok [OF _ pre] SanitizePathWithFallback_InrD [OF sp]] by simp
  show "path_under d saveAs"
    using open_target_SomeD(3) [OF opn \<open>tp = []\<close>] full_dir_safe [OF safe \<open>d \<noteq> []\<close>] base_safe [OF safe]
    by blast
qed

lemma save_target_InlD:
  "save_target fs s d fid meta tp = (fs', s', Inl e) \<Longrightarrow> grows fs fs'"
  by (auto simp: save_target_def Let_def dest: ensure_grows open_target_NoneD
      split: sum.splits prod.splits bool.splits option.splits)

section \<open>The transfer\<close>

lemma stream_outcome_only:
  "only_file p (cp_fs st) (cp_fs (fst (stream_outcome sha p meta bd st)))"
proof -
  obtain st1 ok where c: "copy_loop p (fm_checksum meta \<noteq> []) (bd_fails bd) (bd_reads bd)
      (wrap64 (fm_size meta + 1)) st = (st1, ok)" by fastforce
  have o: "only_file p (cp_fs st) (cp_fs st1)" using copy_loop_only c by (metis fst_conv)
  show ?thesis
    using o only_file_trans [OF o buf_flush_only [of p st1]] c
    by (auto simp: stream_outcome_def split: prod.splits bool.splits)
qed

lemma stream_outcome_success:
  assumes "stream_outcome sha p meta bd st = (st', result, None)" and "holds_data p st []"
    and "cp_written st = 0" and "cp_hashed st = []" and "is_int64 (fm_size meta)"
  defines "data \<equiv> concat (map snd (bd_reads bd))"
  shows "node_at (cp_fs st') (path_key p) = Some (FFile data)" and "int (length data) = fm_size meta"
    and "fm_checksum meta \<noteq> [] \<Longrightarrow> equal_fold_hex (hex_encode (sha data)) (fm_checksum meta)"
    and "\<not> bd_fails bd" and "result = fileFinished"
proof -
  let ?h = "fm_checksum meta \<noteq> []" and ?n = "wrap64 (fm_size meta + 1)"
  from assms(1) obtain st1 where c: "copy_loop p ?h (bd_fails bd) (bd_reads bd) ?n st = (st1, True)"
    and w: "cp_written st1 = fm_size meta" and f: "buf_flush p st1 = (st', True)"
    and ck: "?h \<longrightarrow> equal_fold_hex (hex_encode (sha (cp_hashed st'))) (fm_checksum meta)"
    and r: "result = fileFinished"
    by (auto simp: stream_outcome_def split: prod.splits bool.splits if_splits)
  from copy_loop_data [OF c assms(2)] obtain d where d: "holds_data p st1 d"
    "cp_written st1 = int (length d)" "?h \<longrightarrow> cp_hashed st1 = d" "int (length d) \<le> max 0 ?n"
    "int (length d) < ?n \<longrightarrow> d = data \<and> \<not> bd_fails bd"
    using assms(3,4) unfolding data_def by auto
  have "int (length d) < ?n"
  proof (cases "fm_size meta = int64_max")
    case True
    then have "?n = int64_min" by (simp add: wrap64_overflow)
    with d(2,4) w True show ?thesis by (simp add: int64_min_def int64_max_def)
  next
    case False
    with assms(5) have "is_int64 (fm_size meta + 1)" by (simp add: is_int64_def int64_max_def)
    with d(2) w show ?thesis by simp
  qed
  with d have e: "d = data" "\<not> bd_fails bd" by blast+
  show "node_at (cp_fs st') (path_key p) = Some (FFile data)"
    using buf_flush_data(1) [OF f d(1)] e(1) by simp
  show "int (length data) = fm_size meta" using d(2) w e(1) by simp
  show "\<not> bd_fails bd" "result = fileFinished" by fact+
  assume ?h
  then show "equal_fold_hex (hex_encode (sha data)) (fm_checksum meta)"
    using ck d(3) e(1) buf_flush_data(4) [OF f d(1)] by simp
qed

lemma is_file_nodeE: "is_file_node n \<Longrightarrow> (\<And>b. n = Some (FFile b) \<Longrightarrow> P) \<Longrightarrow> P"
  by (auto simp: is_file_node_def split: option.splits fnode.splits)

text \<open>From an open empty file: a failure removes it, a success fills it.\<close>

lemma save_stream_frame:
  assumes "save_stream sha fs s p meta bd = (fs', s', result, err)" and "k \<noteq> path_key p"
  shows "node_at fs' k = node_at fs k"
proof -
  let ?st = "\<lparr>cp_fs = fs, cp_buf = [], cp_written = 0, cp_hashed = [], cp_lastUpdate = 0,
    cp_lastActivity = lastActivity s\<rparr>"
  have "only_file p fs (cp_fs (fst (stream_outcome sha p meta bd ?st)))"
    using stream_outcome_only [of p ?st] by simp
  then have "node_at (cp_fs (fst (stream_outcome sha p meta bd ?st))) k = node_at fs k"
    using assms(2) unfolding only_file_def by blast
  with assms show ?thesis
    by (auto simp: save_stream_def os_remove_frame split: prod.splits if_splits)
qed

lemma save_stream_error:
  assumes "save_stream sha fs s p meta bd = (fs', s', result, Some e)"
    and "node_at fs (path_key p) = Some (FFile [])" and "path_key p \<notin> set (fs_denied fs)"
  shows "node_at fs' (path_key p) = None"
proof -
  let ?st = "\<lparr>cp_fs = fs, cp_buf = [], cp_written = 0, cp_hashed = [], cp_lastUpdate = 0,
    cp_lastActivity = lastActivity s\<rparr>"
  obtain st1 where o: "stream_outcome sha p meta bd ?st = (st1, result, Some e)"
    and fs': "fs' = fst (os_remove (cp_fs st1) p)"
    using assms(1) by (auto simp: save_stream_def split: prod.splits if_splits)
  have "only_file p fs (cp_fs st1)" using stream_outcome_only [of p ?st sha meta bd] o by simp
  then have "is_file_node (node_at (cp_fs st1) (path_key p))"
    and "path_key p \<notin> set (fs_denied (cp_fs st1))"
    using assms(2,3) by (auto simp: only_file_def is_file_node_def)
  then show ?thesis using fs' os_remove_file by (metis is_file_nodeE)
qed

section \<open>What the unlocked part does to the session\<close>

text \<open>What the unlocked part does to the session: nothing but the target of its own file and
  the caches.\<close>

definition same_core :: "RecvSession \<Rightarrow> RecvSession \<Rightarrow> bool" where
  "same_core s s' \<longleftrightarrow> filesCount s' = filesCount s \<and> fileMetas s' = fileMetas s \<and>
     fileTokens s' = fileTokens s \<and> sess_id s' = sess_id s \<and> sess_clientIP s' = sess_clientIP s \<and>
     started s' = started s"

lemma same_core_refl [simp]: "same_core s s"
  by (simp add: same_core_def)

lemma same_core_trans: "same_core a b \<Longrightarrow> same_core b c \<Longrightarrow> same_core a c"
  by (simp add: same_core_def)

lemma set_target_states:
  "fileStates (set_target f p s) =
     (case mget (fileStates s) f of None \<Rightarrow> fileStates s
      | Some st \<Rightarrow> mput f (st\<lparr>fu_targetPath := p\<rparr>) (fileStates s))"
  by (simp add: set_target_def split: option.split)

lemma set_target_core [simp]:
  "filesCount (set_target f p s) = filesCount s" "fileMetas (set_target f p s) = fileMetas s"
  "fileTokens (set_target f p s) = fileTokens s" "sess_id (set_target f p s) = sess_id s"
  "sess_clientIP (set_target f p s) = sess_clientIP s" "started (set_target f p s) = started s"
  "folderRemapper (set_target f p s) = folderRemapper s"
  by (simp_all add: set_target_def split: option.split)

lemma prepare_core:
  "prepareFolderRemap fs d s = (s', b) \<Longrightarrow> same_core s s' \<and> fileStates s' = fileStates s"
  by (auto simp: prepareFolderRemap_def same_core_def split: if_splits sum.splits)

lemma ensure_core:
  "ensureSaveDir fs d s = (fs', s', b) \<Longrightarrow>
   same_core s s' \<and> fileStates s' = fileStates s \<and> folderRemapper s' = folderRemapper s"
  by (auto simp: ensureSaveDir_def same_core_def split: if_splits prod.splits bool.splits)

lemma open_target_core:
  assumes "open_target fs s fid tp dir base = (fs', s', r)"
  shows "same_core s s' \<and> folderRemapper s' = folderRemapper s \<and>
    (if tp = [] \<and> r \<noteq> None then fileStates s' = fileStates (set_target fid (the r) s)
     else fileStates s' = fileStates s)"
  using assms
  by (auto simp: open_target_def same_core_def set_target_states
      split: if_splits sum.splits prod.splits option.splits)

lemma save_target_core:
  assumes "save_target fs s d fid meta tp = (fs', s', r)" and "sess_remap_ok s"
  shows "same_core s s' \<and> sess_remap_ok s' \<and>
    (case r of Inl _ \<Rightarrow> fileStates s' = fileStates s
     | Inr (p, _) \<Rightarrow> fileStates s' = (if tp = [] then fileStates (set_target fid p s) else fileStates s))"
proof (cases "SanitizePathWithFallback (fm_filename meta)")
  case (Inl e)
  with assms show ?thesis by (auto simp: save_target_def)
next
  case (Inr sp)
  obtain s1 b where pre: "prepareFolderRemap fs d s = (s1, b)" by fastforce
  note p = prepare_core [OF pre] prepare_remap_ok [OF assms(2) pre]
  show ?thesis
  proof (cases b)
    case False
    with assms Inr pre p show ?thesis by (auto simp: save_target_def)
  next
    case True
    let ?ap = "applyFolderRemap s1 sp"
    let ?dir = "full_dir d (path_dir ?ap)"
    obtain fs1 s2 b2 where ens: "ensureSaveDir fs ?dir s1 = (fs1, s2, b2)" by (metis prod_cases3)
    note e = ensure_core [OF ens]
    show ?thesis
    proof (cases b2)
      case False
      with assms Inr pre True ens e p show ?thesis
        by (auto simp: save_target_def Let_def sess_remap_ok_def intro: same_core_trans)
    next
      case b2: True
      obtain fs2 s3 x where opn: "open_target fs1 s2 fid tp ?dir (path_base ?ap) = (fs2, s3, x)"
        by (metis prod_cases3)
      note o = open_target_core [OF opn]
      have res: "s' = s3" "r = (case x of None \<Rightarrow> Inl ErrFileIO | Some q \<Rightarrow> Inr (q, path_dir ?ap))"
        using assms(1) Inr pre True ens b2 opn by (auto simp: save_target_def Let_def split: option.splits)
      have "same_core s s3" using p e o same_core_trans by blast
      moreover have "sess_remap_ok s3" using p e o by (simp add: sess_remap_ok_def)
      moreover have "fileStates (set_target fid q s2) = fileStates (set_target fid q s)" for q
        using p e by (auto simp: set_target_states split: option.split)
      ultimately show ?thesis using res p e o by (cases x) auto
    qed
  qed
qed

lemma save_stream_core:
  assumes "save_stream sha fs s p meta bd = (fs', s', result, err)"
  shows "same_core s s' \<and> fileStates s' = fileStates s \<and> folderRemapper s' = folderRemapper s"
  using assms by (auto simp: save_stream_def same_core_def split: prod.splits)

section \<open>SaveFile\<close>

lemma save_body_failure:
  assumes "save_body sha fs s d fid meta tp bd = (fs', s', result, Inl e)"
  shows "file_content fs' q = file_content fs q"
proof -
  obtain fs1 s1 r where t: "save_target fs s d fid meta tp = (fs1, s1, r)" by (metis prod_cases3)
  show ?thesis
  proof (cases r)
    case (Inl x)
    with assms t save_target_InlD [of fs s d fid meta tp fs1 s1 x] show ?thesis
      by (simp add: save_body_def grows_def)
  next
    case (Inr x)
    then obtain p sub where r: "r = Inr (p, sub)" by (cases x) auto
    from save_target_InrD(1) [OF t [unfolded r]] obtain fs0
      where g: "grows fs fs0" and o: "open_excl fs0 p = Inr fs1" by blast
    from assms t r obtain e' where st: "save_stream sha fs1 s1 p meta bd = (fs', s', result, Some e')"
      by (auto simp: save_body_def split: prod.splits option.splits)
    have new: "node_at fs1 (path_key p) = Some (FFile [])" using open_excl_new [OF o] .
    have den: "path_key p \<notin> set (fs_denied fs1)"
      using open_excl_denied [OF o] denied_open_excl [OF o] by simp
    have fresh: "node_at fs (path_key p) = None"
      using open_excl_InrD(1) [OF o] g unfolding grows_def by (metis option.exhaust option.discI)
    show ?thesis
    proof (cases "path_key q = path_key p")
      case True
      then show ?thesis
        using save_stream_error [OF st new den] fresh by (simp add: file_content_def)
    next
      case False
      then have "node_at fs' (path_key q) = node_at fs0 (path_key q)"
        using save_stream_frame [OF st] open_excl_frame [OF o] by simp
      with g show ?thesis by (auto simp: grows_def dest: file_content_cong)
    qed
  qed
qed

lemma save_body_success:
  assumes "save_body sha fs s d fid meta tp bd = (fs', s', result, Inr name)"
    and "is_int64 (fm_size meta)"
  defines "data \<equiv> concat (map snd (bd_reads bd))"
  obtains p where "node_at fs (path_key p) = None" "file_content fs' p = Some data"
    "\<forall>q. path_key q \<noteq> path_key p \<longrightarrow> file_content fs' q = file_content fs q"
    "int (length data) = fm_size meta" "\<not> bd_fails bd" "result = fileFinished"
    "fm_checksum meta \<noteq> [] \<longrightarrow> equal_fold_hex (hex_encode (sha data)) (fm_checksum meta)"
    "tp \<noteq> [] \<longrightarrow> p = tp" "tp = [] \<and> d \<noteq> [] \<and> sess_remap_ok s \<longrightarrow> path_under d p"
    "sess_remap_ok s \<longrightarrow>
      fileStates s' = (if tp = [] then fileStates (set_target fid p s) else fileStates s)"
proof -
  obtain fs1 s1 r where t: "save_target fs s d fid meta tp = (fs1, s1, r)" by (metis prod_cases3)
  with assms(1) obtain p sub where r: "r = Inr (p, sub)"
    by (cases r) (auto simp: save_body_def)
  from save_target_InrD(1) [OF t [unfolded r]] obtain fs0
    where g: "grows fs fs0" and o: "open_excl fs0 p = Inr fs1" by blast
  from assms(1) t r have st: "save_stream sha fs1 s1 p meta bd = (fs', s', result, None)"
    by (auto simp: save_body_def split: prod.splits option.splits)
  let ?st = "\<lparr>cp_fs = fs1, cp_buf = [], cp_written = 0, cp_hashed = [], cp_lastUpdate = 0,
    cp_lastActivity = lastActivity s1\<rparr>"
  have new: "holds_data p ?st []" using open_excl_new [OF o] by (simp add: holds_data_def)
  obtain st1 where so: "stream_outcome sha p meta bd ?st = (st1, result, None)" and fs': "fs' = cp_fs st1"
    using st by (auto simp: save_stream_def split: prod.splits if_splits)
  note out = stream_outcome_success [OF so new _ _ assms(2), simplified, folded data_def]
  show ?thesis
  proof (rule that)
    show "node_at fs (path_key p) = None"
      using open_excl_InrD(1) [OF o] g unfolding grows_def by (metis option.exhaust option.discI)
    show "file_content fs' p = Some data" using out(1) fs' by (simp add: file_content_def)
    show "\<forall>q. path_key q \<noteq> path_key p \<longrightarrow> file_content fs' q = file_content fs q"
    proof (intro allI impI)
      fix q assume ne: "path_key q \<noteq> path_key p"
      then have "node_at fs' (path_key q) = node_at fs0 (path_key q)"
        using save_stream_frame [OF st] open_excl_frame [OF o] by simp
      with g show "file_content fs' q = file_content fs q"
        by (auto simp: grows_def dest: file_content_cong)
    qed
    show "int (length data) = fm_size meta" "\<not> bd_fails bd" "result = fileFinished"
      using out(2,4,5) by blast+
    show "fm_checksum meta \<noteq> [] \<longrightarrow> equal_fold_hex (hex_encode (sha data)) (fm_checksum meta)"
      using out(3) by blast
    show "tp \<noteq> [] \<longrightarrow> p = tp" using save_target_InrD(2) [OF t [unfolded r]] by blast
    show "tp = [] \<and> d \<noteq> [] \<and> sess_remap_ok s \<longrightarrow> path_under d p"
      using save_target_InrD(3) [OF t [unfolded r]] by blast
    show "sess_remap_ok s \<longrightarrow>
        fileStates s' = (if tp = [] then fileStates (set_target fid p s) else fileStates s)"
      using save_target_core [OF t [unfolded r]] save_stream_core [OF st] by simp
  qed
qed

lemma save_begin_InrD:
  assumes "save_begin s fid tok ip = Inr (s1, meta, tp)"
  obtains st where "mget (fileMetas s) fid = Some meta" "mget (fileTokens s) fid = Some tok"
    "mget (fileStates s) fid = Some st" "fu_status st = filePending" "tp = fu_targetPath st"
    "s1 = s\<lparr>fileStates := mput fid
       (st\<lparr>fu_status := fileInProgress, fu_attempts := fu_attempts st + 1\<rparr>) (fileStates s)\<rparr>"
    "started s" "sess_clientIP s = [] \<or> ip = sess_clientIP s" "sess_id s \<noteq> []"
  using assms by (auto simp: save_begin_def split: if_splits option.splits)

lemma save_body_core:
  assumes "save_body sha fs s d fid meta tp bd = (fs', s', result, r)" and "sess_remap_ok s"
  shows "same_core s s'" and "sess_remap_ok s'"
    and "fileStates s' = fileStates s \<or>
      tp = [] \<and> (\<exists>p. (d \<noteq> [] \<longrightarrow> path_under d p) \<and> fileStates s' = fileStates (set_target fid p s))"
    and "result \<noteq> fileInProgress" and "result = fileFinished \<longleftrightarrow> (\<exists>name. r = Inr name)"
proof -
  obtain fs1 s1 x where t: "save_target fs s d fid meta tp = (fs1, s1, x)" by (metis prod_cases3)
  note core = save_target_core [OF t assms(2)]
  have "same_core s s' \<and> sess_remap_ok s' \<and> (fileStates s' = fileStates s \<or>
      tp = [] \<and> (\<exists>p. (d \<noteq> [] \<longrightarrow> path_under d p) \<and> fileStates s' = fileStates (set_target fid p s))) \<and>
      result \<noteq> fileInProgress \<and> (result = fileFinished \<longleftrightarrow> (\<exists>name. r = Inr name))"
  proof (cases x)
    case (Inl e)
    with assms(1) t core show ?thesis by (auto simp: save_body_def)
  next
    case (Inr y)
    then obtain p sub where x: "x = Inr (p, sub)" by (cases y) auto
    obtain fs2 s2 result2 err where st: "save_stream sha fs1 s1 p meta bd = (fs2, s2, result2, err)"
      by (metis prod_cases4)
    have res: "s' = s2" "result = result2"
      "r = (case err of Some e \<Rightarrow> Inl e | None \<Rightarrow> Inr (saved_name p sub))"
      using assms(1) t x st by (auto simp: save_body_def split: option.splits)
    have out: "result2 \<noteq> fileInProgress \<and> (result2 = fileFinished \<longleftrightarrow> err = None)"
      using st by (auto simp: save_stream_def stream_outcome_def split: prod.splits bool.splits if_splits)
    have st2: "fileStates s2 = (if tp = [] then fileStates (set_target fid p s) else fileStates s)"
      using save_stream_core [OF st] core x by simp
    have "same_core s s2" "sess_remap_ok s2"
      using save_stream_core [OF st] core same_core_trans by (auto simp: sess_remap_ok_def)
    moreover have "tp = [] \<longrightarrow> d \<noteq> [] \<longrightarrow> path_under d p"
      using save_target_InrD(3) [OF t [unfolded x] _ _ assms(2)] by blast
    ultimately show ?thesis using st2 out res by (auto split: option.splits if_splits)
  qed
  then show "same_core s s'" and "sess_remap_ok s'"
    and "fileStates s' = fileStates s \<or>
      tp = [] \<and> (\<exists>p. (d \<noteq> [] \<longrightarrow> path_under d p) \<and> fileStates s' = fileStates (set_target fid p s))"
    and "result \<noteq> fileInProgress" and "result = fileFinished \<longleftrightarrow> (\<exists>name. r = Inr name)" by blast+
qed

text \<open>C20: a failed upload leaves no trace. When \<^verbatim>\<open>SaveFile\<close> returns an error, for whatever
  reason (bad request, session or token, file system, short or long body, checksum), every
  file has the contents it had before and no file was added.\<close>

theorem save_file_failure:
  assumes "SaveFile sha fs s saveToDir fileId token clientIP bd = (fs', s', Inl e)"
  shows "\<forall>q. file_content fs' q = file_content fs q"
proof (cases "save_begin s fileId token clientIP")
  case (Inl x)
  with assms show ?thesis by (simp add: SaveFile_def)
next
  case (Inr x)
  then obtain s1 meta tp where b: "save_begin s fileId token clientIP = Inr (s1, meta, tp)"
    by (metis prod_cases3)
  with assms obtain s2 result where "save_body sha fs s1 saveToDir fileId meta tp bd = (fs', s2, result, Inl e)"
    by (auto simp: SaveFile_def split: prod.splits)
  from save_body_failure [OF this] show ?thesis by blast
qed

lemma save_file_facts:
  assumes "SaveFile sha fs s saveToDir fileId token clientIP bd = (fs', s', Inr name)"
    and "mget (fileMetas s) fileId = Some meta" and "is_int64 (fm_size meta)"
    and "mget (fileStates s) fileId = Some st" and "sess_remap_ok s" and "saveToDir \<noteq> []"
  shows "\<exists>p. node_at fs (path_key p) = None \<and>
    file_content fs' p = Some (concat (map snd (bd_reads bd))) \<and>
    int (length (concat (map snd (bd_reads bd)))) = fm_size meta \<and> \<not> bd_fails bd \<and>
    (fm_checksum meta \<noteq> [] \<longrightarrow>
       equal_fold_hex (hex_encode (sha (concat (map snd (bd_reads bd))))) (fm_checksum meta)) \<and>
    mget (fileTokens s) fileId = Some token \<and>
    (sess_clientIP s = [] \<or> clientIP = sess_clientIP s) \<and>
    (if fu_targetPath st = [] then path_under saveToDir p else p = fu_targetPath st) \<and>
    (\<forall>q. path_key q \<noteq> path_key p \<longrightarrow> file_content fs' q = file_content fs q)"
proof -
  from assms(1) obtain s1 m tp where b: "save_begin s fileId token clientIP = Inr (s1, m, tp)"
    by (cases "save_begin s fileId token clientIP") (auto simp: SaveFile_def split: prod.splits)
  have "m = meta \<and> tp = fu_targetPath st \<and> mget (fileTokens s) fileId = Some token \<and>
    (sess_clientIP s = [] \<or> clientIP = sess_clientIP s) \<and> sess_remap_ok s1 = sess_remap_ok s"
    by (rule save_begin_InrD [OF b]) (use assms(2,4) in \<open>auto simp: sess_remap_ok_def\<close>)
  then have m: "m = meta" "tp = fu_targetPath st" and tok: "mget (fileTokens s) fileId = Some token"
    and ip: "sess_clientIP s = [] \<or> clientIP = sess_clientIP s"
    and s1: "sess_remap_ok s1 = sess_remap_ok s" by blast+
  from assms(1) b m obtain s2 result where
    "save_body sha fs s1 saveToDir fileId meta tp bd = (fs', s2, result, Inr name)"
    by (auto simp: SaveFile_def split: prod.splits)
  from this assms(3) show ?thesis
  proof (rule save_body_success)
    fix p
    assume p: "node_at fs (path_key p) = None"
      "file_content fs' p = Some (concat (map snd (bd_reads bd)))"
      "\<forall>q. path_key q \<noteq> path_key p \<longrightarrow> file_content fs' q = file_content fs q"
      "int (length (concat (map snd (bd_reads bd)))) = fm_size meta" "\<not> bd_fails bd"
      "fm_checksum meta \<noteq> [] \<longrightarrow>
         equal_fold_hex (hex_encode (sha (concat (map snd (bd_reads bd))))) (fm_checksum meta)"
      and tgt: "tp \<noteq> [] \<longrightarrow> p = tp" "tp = [] \<and> saveToDir \<noteq> [] \<and> sess_remap_ok s1 \<longrightarrow> path_under saveToDir p"
    have "if fu_targetPath st = [] then path_under saveToDir p else p = fu_targetPath st"
      using tgt m(2) s1 assms(5,6) by simp
    then show ?thesis using p tok ip by blast
  qed
qed

text \<open>C19: a successful upload is exact. When \<^verbatim>\<open>SaveFile\<close> succeeds, the whole request body, and
  nothing else, is in one file that did not exist before; its length is the declared size, its
  hash the declared checksum if there is one; the request carried the file's token, came from
  the session's client; on the first attempt the file is inside the save directory; and every
  other file is unchanged.\<close>

theorem save_file_success:
  assumes "SaveFile sha fs s saveToDir fileId token clientIP bd = (fs', s', Inr name)"
    and "mget (fileMetas s) fileId = Some meta" and "is_int64 (fm_size meta)"
    and "mget (fileStates s) fileId = Some st" and "sess_remap_ok s" and "saveToDir \<noteq> []"
  shows "\<exists>p. node_at fs (path_key p) = None \<and>
    file_content fs' p = Some (concat (map snd (bd_reads bd))) \<and>
    int (length (concat (map snd (bd_reads bd)))) = fm_size meta \<and> \<not> bd_fails bd \<and>
    (fm_checksum meta \<noteq> [] \<longrightarrow>
       equal_fold_hex (hex_encode (sha (concat (map snd (bd_reads bd))))) (fm_checksum meta)) \<and>
    mget (fileTokens s) fileId = Some token \<and>
    (sess_clientIP s = [] \<or> clientIP = sess_clientIP s) \<and>
    (if fu_targetPath st = [] then path_under saveToDir p else p = fu_targetPath st) \<and>
    (\<forall>q. path_key q \<noteq> path_key p \<longrightarrow> file_content fs' q = file_content fs q)"
  by (rule save_file_facts [OF assms])

section \<open>A concrete session\<close>

definition demo_meta :: FileMeta where
  "demo_meta = \<lparr>fm_id = ''f'', fm_filename = ''../A/b.txt'', fm_size = 2, fm_fileMIME = ''text/plain'',
     fm_checksum = [], fm_preview = [], fm_metadata = None\<rparr>"

definition demo_sess :: RecvSession where
  "demo_sess = (case AcceptFile (NewRecvSession 0 ''S'' ''ip'') ''t'' ''f'' demo_meta of
     Inl _ \<Rightarrow> NewRecvSession 0 [] [] | Inr s \<Rightarrow> sess_Start s)"

definition demo_body :: "bytes \<Rightarrow> body" where
  "demo_body b = \<lparr>bd_reads = [(100, b)], bd_fails = False\<rparr>"

theorem save_file_success_witness:
  "case SaveFile id demo_folders demo_sess ''/d'' ''f'' ''t'' ''ip'' (demo_body ''hi'') of
     (fs', s', Inr name) \<Rightarrow> name = ''b.txt'' \<and> (\<exists>p. file_content fs' p = Some ''hi'' \<and> path_under ''/d'' p)
   | (fs', s', Inl e) \<Rightarrow> False"
proof -
  have "case SaveFile id demo_folders demo_sess ''/d'' ''f'' ''t'' ''ip'' (demo_body ''hi'') of
     (fs', s', Inr name) \<Rightarrow> name = ''b.txt'' | (fs', s', Inl e) \<Rightarrow> False"
    by code_simp
  then obtain fs' s' where r: "SaveFile id demo_folders demo_sess ''/d'' ''f'' ''t'' ''ip'' (demo_body ''hi'')
      = (fs', s', Inr ''b.txt'')" by (auto split: prod.splits sum.splits)
  have st: "mget (fileMetas demo_sess) ''f'' = Some demo_meta" "is_int64 (fm_size demo_meta)"
    "sess_remap_ok demo_sess" by code_simp+
  have t: "mget (fileStates demo_sess) ''f'' =
      Some \<lparr>fu_status = filePending, fu_attempts = 0, fu_targetPath = []\<rparr>" by code_simp
  from save_file_success [OF r st(1,2) t st(3)] r show ?thesis
    by (auto simp: demo_body_def)
qed

theorem save_file_failure_witness:
  "case SaveFile id demo_folders demo_sess ''/d'' ''f'' ''t'' ''ip'' (demo_body ''long'') of
     (fs', s', r) \<Rightarrow> r = Inl ErrInvalidBody \<and> (\<forall>q. file_content fs' q = file_content demo_folders q)"
proof -
  have "case SaveFile id demo_folders demo_sess ''/d'' ''f'' ''t'' ''ip'' (demo_body ''long'') of
     (fs', s', r) \<Rightarrow> r = Inl ErrInvalidBody" by code_simp
  then obtain fs' s' where r: "SaveFile id demo_folders demo_sess ''/d'' ''f'' ''t'' ''ip''
      (demo_body ''long'') = (fs', s', Inl ErrInvalidBody)" by (auto split: prod.splits)
  from save_file_failure [OF r] r show ?thesis by simp
qed

end
