(* ===== verification/SessionSteps.thy ===== *)
theory SessionSteps
  imports SaveFileProps
begin

text \<open>
  Overlapping uploads in one session. HTTP requests run concurrently; the session's lock makes
  the claim of a file and the end of an attempt atomic, and between them the body is written
  without the lock. A world is the file system, the session and the uploads in flight; its
  steps are those of the code in any order, with cancellation at any time. The writing of one
  body, which works on a file of its own, is one step.
\<close>

section \<open>The step relation\<close>

datatype flight = Claimed FileMeta string | Written fileUploadStatus

record sess_world =
  sw_fs :: fsys
  sw_sess :: RecvSession
  sw_flight :: "(string \<times> flight) list"

inductive sess_step ::
    "(bytes \<Rightarrow> bytes) \<Rightarrow> (string \<Rightarrow> string) \<Rightarrow> sess_world \<Rightarrow> sess_world \<Rightarrow> bool"
  for sha :: "bytes \<Rightarrow> bytes" and dir :: "string \<Rightarrow> string" where
  ss_claim: "save_begin s fid token ip = Inr (s', meta, tp) \<Longrightarrow>
    sess_step sha dir \<lparr>sw_fs = fs, sw_sess = s, sw_flight = fl\<rparr>
      \<lparr>sw_fs = fs, sw_sess = s', sw_flight = (fid, Claimed meta tp) # fl\<rparr>"
| ss_write: "save_body sha fs s (dir fid) fid meta tp bd = (fs', s', result, r) \<Longrightarrow>
    sess_step sha dir \<lparr>sw_fs = fs, sw_sess = s, sw_flight = xs @ (fid, Claimed meta tp) # ys\<rparr>
      \<lparr>sw_fs = fs', sw_sess = s', sw_flight = xs @ (fid, Written result) # ys\<rparr>"
| ss_finish: "sess_step sha dir \<lparr>sw_fs = fs, sw_sess = s, sw_flight = xs @ (fid, Written result) # ys\<rparr>
      \<lparr>sw_fs = fs, sw_sess = finishFileAttempt fid result s, sw_flight = xs @ ys\<rparr>"
| ss_cancel: "sess_step sha dir \<lparr>sw_fs = fs, sw_sess = s, sw_flight = fl\<rparr>
      \<lparr>sw_fs = fs, sw_sess = fst (sess_End s), sw_flight = fl\<rparr>"
| ss_folder: "sess_step sha dir \<lparr>sw_fs = fs, sw_sess = s, sw_flight = fl\<rparr>
      \<lparr>sw_fs = fs, sw_sess = fst (sess_IsFolderTransfer s), sw_flight = fl\<rparr>"

text \<open>A session as \<^verbatim>\<open>newSessionLocked\<close> makes it: every file accepted, then started.\<close>

fun accept_all :: "(string \<times> FileMeta) list \<Rightarrow> string list \<Rightarrow> RecvSession \<Rightarrow> ls_err + RecvSession" where
  "accept_all [] tokens s = Inr s"
| "accept_all ((fileId, meta) # files) tokens s =
     (case AcceptFile s (hd tokens) fileId meta of
        Inl e \<Rightarrow> Inl e
      | Inr s' \<Rightarrow> accept_all files (tl tokens) s')"

inductive sess_reach ::
    "(bytes \<Rightarrow> bytes) \<Rightarrow> (string \<Rightarrow> string) \<Rightarrow> sess_world \<Rightarrow> sess_world \<Rightarrow> bool"
  for sha :: "bytes \<Rightarrow> bytes" and dir :: "string \<Rightarrow> string" where
  sr_refl: "sess_reach sha dir w w"
| sr_step: "sess_reach sha dir w w' \<Longrightarrow> sess_step sha dir w' w'' \<Longrightarrow> sess_reach sha dir w w''"

inductive_cases sess_stepE: "sess_step sha dir w w'"

section \<open>The session's books\<close>

definition is_open :: "fileUploadState \<Rightarrow> bool" where
  "is_open st \<longleftrightarrow> fu_status st = filePending \<or> fu_status st = fileInProgress"

abbreviation open_count :: "RecvSession \<Rightarrow> nat" where
  "open_count s \<equiv> count_vals is_open (fileStates s)"

text \<open>At most three attempts per file, and a file that may be tried again has had fewer.\<close>

definition attempts_ok :: "fileUploadState \<Rightarrow> bool" where
  "attempts_ok st \<longleftrightarrow> fu_attempts st \<le> maxChecksumAttempts \<and>
     (fu_status st = filePending \<longrightarrow> fu_attempts st < maxChecksumAttempts)"

definition count_ok :: "RecvSession \<Rightarrow> bool" where
  "count_ok s \<longleftrightarrow>
     (if started s then filesCount s = int (open_count s) \<and> 0 < open_count s
      else - int (count_vals (\<lambda>st. \<not> is_open st) (fileStates s)) \<le> filesCount s \<and> filesCount s \<le> 0)"

definition sess_wf :: "RecvSession \<Rightarrow> bool" where
  "sess_wf s \<longleftrightarrow>
     mwf (fileStates s) \<and> mwf (fileMetas s) \<and> mwf (fileTokens s) \<and>
     fst ` set (fileStates s) = fst ` set (fileMetas s) \<and>
     fst ` set (fileTokens s) = fst ` set (fileMetas s) \<and>
     int (length (fileStates s)) \<le> MaxFilesPerSession \<and>
     list_all (\<lambda>(_, st). attempts_ok st) (fileStates s) \<and>
     count_ok s \<and> sess_remap_ok s"

definition in_progress :: "RecvSession \<Rightarrow> string \<Rightarrow> bool" where
  "in_progress s f = (case mget (fileStates s) f of None \<Rightarrow> False | Some st \<Rightarrow> fu_status st = fileInProgress)"

definition flight_wf :: "RecvSession \<Rightarrow> (string \<times> flight) list \<Rightarrow> bool" where
  "flight_wf s fl \<longleftrightarrow>
     distinct (map fst fl) \<and> (\<forall>f. f \<in> fst ` set fl \<longleftrightarrow> in_progress s f) \<and>
     (\<forall>f meta tp. (f, Claimed meta tp) \<in> set fl \<longrightarrow>
        mget (fileMetas s) f = Some meta \<and> map_option fu_targetPath (mget (fileStates s) f) = Some tp) \<and>
     (\<forall>f r. (f, Written r) \<in> set fl \<longrightarrow> r \<noteq> fileInProgress)"

lemma sess_wf_attempts: "sess_wf s \<Longrightarrow> mget (fileStates s) f = Some st \<Longrightarrow> attempts_ok st"
  by (auto simp: sess_wf_def list_all_iff dest!: map_of_SomeD)

lemma keys_mput: "mget m k = Some v \<Longrightarrow> fst ` set (mput k w m) = fst ` set m"
  by (metis dom_map_of_conv_image_fst update_conv' domI dom_fun_upd insert_absorb option.distinct(1))

lemma set_mput_in: "x \<in> set (mput k v m) \<Longrightarrow> x = (k, v) \<or> x \<in> set m"
  using set_mput_subset [of k v m] by blast

text \<open>Changing one file's state.\<close>

lemma sess_wf_change:
  assumes "sess_wf s" and "mget (fileStates s) f = Some old" and "attempts_ok new"
    and "same_core s s'" and "sess_remap_ok s'" and "fileStates s' = mput f new (fileStates s)"
    and "is_open new = is_open old"
  shows "sess_wf s'"
proof -
  have w: "mwf (fileStates s)" using assms(1) by (simp add: sess_wf_def)
  have o: "open_count s' = open_count s"
    using count_vals_mput [OF w assms(2), of is_open new] assms(6,7) by (simp split: if_splits)
  have n: "count_vals (\<lambda>st. \<not> is_open st) (fileStates s') = count_vals (\<lambda>st. \<not> is_open st) (fileStates s)"
    using count_vals_mput [OF w assms(2), of "\<lambda>st. \<not> is_open st" new] assms(6,7)
    by (simp split: if_splits)
  have "count_ok s'" using assms(1,4) o n by (simp add: sess_wf_def count_ok_def same_core_def)
  moreover have "list_all (\<lambda>(_, st). attempts_ok st) (fileStates s')"
    using assms(1,3,6) by (auto simp: sess_wf_def list_all_iff dest!: set_mput_in)
  moreover have "length (fileStates s') = length (fileStates s)"
    using assms(2,6) by (simp add: length_mput)
  ultimately show ?thesis
    using assms by (simp add: sess_wf_def same_core_def keys_mput)
qed

lemma sess_wf_same:
  "sess_wf s \<Longrightarrow> same_core s s' \<Longrightarrow> sess_remap_ok s' \<Longrightarrow> fileStates s' = fileStates s \<Longrightarrow> sess_wf s'"
  by (simp add: sess_wf_def same_core_def count_ok_def)

end
