(* ===== verification/SessionProps.thy ===== *)
theory SessionProps
  imports SessionSteps
begin

text \<open>
  Every step of a session keeps its books and the files on disk consistent; the properties
  are read off the invariant.
\<close>

section \<open>The books\<close>

lemma begin_state:
  assumes "save_begin s f tok ip = Inr (s1, meta, tp)"
  shows "\<exists>st. mget (fileMetas s) f = Some meta \<and> mget (fileStates s) f = Some st \<and>
    fu_status st = filePending \<and> tp = fu_targetPath st \<and> same_core s s1 \<and>
    folderRemapper s1 = folderRemapper s \<and>
    fileStates s1 = mput f (st\<lparr>fu_status := fileInProgress, fu_attempts := fu_attempts st + 1\<rparr>) (fileStates s)"
  by (rule save_begin_InrD [OF assms]) (auto simp: same_core_def)

lemma sess_wf_begin:
  assumes "save_begin s f tok ip = Inr (s1, meta, tp)" and "sess_wf s"
  shows "sess_wf s1"
proof -
  from begin_state [OF assms(1)] obtain st where st: "mget (fileStates s) f = Some st"
    "fu_status st = filePending" "same_core s s1" "folderRemapper s1 = folderRemapper s"
    "fileStates s1 = mput f (st\<lparr>fu_status := fileInProgress, fu_attempts := fu_attempts st + 1\<rparr>) (fileStates s)"
    by blast
  have "attempts_ok (st\<lparr>fu_status := fileInProgress, fu_attempts := fu_attempts st + 1\<rparr>)"
    using sess_wf_attempts [OF assms(2) st(1)] st(2) by (simp add: attempts_ok_def inc_le)
  moreover have "sess_remap_ok s1" using assms(2) st(4) by (simp add: sess_wf_def sess_remap_ok_def)
  ultimately show ?thesis
    using sess_wf_change [OF assms(2) st(1) _ st(3) _ st(5)] st(2) by (simp add: is_open_def)
qed

lemma flight_wf_begin:
  assumes "save_begin s f tok ip = Inr (s1, meta, tp)" and "flight_wf s fl"
  shows "flight_wf s1 ((f, Claimed meta tp) # fl)"
proof -
  from begin_state [OF assms(1)] obtain st where st: "mget (fileMetas s) f = Some meta"
    "mget (fileStates s) f = Some st" "fu_status st = filePending" "tp = fu_targetPath st"
    "same_core s s1"
    "fileStates s1 = mput f (st\<lparr>fu_status := fileInProgress, fu_attempts := fu_attempts st + 1\<rparr>) (fileStates s)"
    by blast
  have metas: "fileMetas s1 = fileMetas s" using st(5) by (simp add: same_core_def)
  have new: "f \<notin> fst ` set fl" using assms(2) st by (simp add: flight_wf_def in_progress_def)
  have prog: "in_progress s1 g \<longleftrightarrow> g = f \<or> in_progress s g" for g
    using st by (simp add: in_progress_def)
  have own: "(f, x) \<notin> set fl" for x using new by force
  have old: "mget (fileStates s1) g = mget (fileStates s) g" if "g \<noteq> f" for g using st(6) that by simp
  show ?thesis
    unfolding flight_wf_def
  proof (intro conjI allI impI)
    show "distinct (map fst ((f, Claimed meta tp) # fl))"
      using assms(2) new by (simp add: flight_wf_def)
    show "g \<in> fst ` set ((f, Claimed meta tp) # fl) \<longleftrightarrow> in_progress s1 g" for g
      using assms(2) prog by (auto simp: flight_wf_def)
    fix g m t assume "(g, Claimed m t) \<in> set ((f, Claimed meta tp) # fl)"
    then consider "g = f" "m = meta" "t = tp" | "(g, Claimed m t) \<in> set fl" "g \<noteq> f" using own by auto
    then show "mget (fileMetas s1) g = Some m"
      and "map_option fu_targetPath (mget (fileStates s1) g) = Some t"
      using assms(2) st metas old by (cases; force simp: flight_wf_def)+
  next
    fix g r assume "(g, Written r) \<in> set ((f, Claimed meta tp) # fl)"
    then show "r \<noteq> fileInProgress" using assms(2) by (auto simp: flight_wf_def)
  qed
qed

lemma body_state:
  assumes "save_body sha fs s d f meta tp bd = (fs', s', result, r)" and "sess_wf s"
  shows "fileStates s' = fileStates s \<or>
    (\<exists>st p. tp = [] \<and> (d \<noteq> [] \<longrightarrow> path_under d p) \<and> mget (fileStates s) f = Some st \<and>
       fileStates s' = mput f (st\<lparr>fu_targetPath := p\<rparr>) (fileStates s))"
proof -
  have "sess_remap_ok s" using assms(2) by (simp add: sess_wf_def)
  from save_body_core(3) [OF assms(1) this] show ?thesis
    unfolding set_target_states by (cases "mget (fileStates s) f") auto
qed

lemma sess_wf_body:
  assumes "save_body sha fs s d f meta tp bd = (fs', s', result, r)" and "sess_wf s"
  shows "sess_wf s'"
proof -
  have remap: "sess_remap_ok s" using assms(2) by (simp add: sess_wf_def)
  note core = save_body_core(1,2) [OF assms(1) remap]
  from body_state [OF assms] consider "fileStates s' = fileStates s"
    | st p where "mget (fileStates s) f = Some st"
        "fileStates s' = mput f (st\<lparr>fu_targetPath := p\<rparr>) (fileStates s)" by blast
  then show ?thesis
  proof cases
    case 1
    with sess_wf_same [OF assms(2) core] show ?thesis by simp
  next
    case 2
    have "attempts_ok (st\<lparr>fu_targetPath := p\<rparr>)"
      using sess_wf_attempts [OF assms(2) 2(1)] by (simp add: attempts_ok_def)
    with sess_wf_change [OF assms(2) 2(1) _ core 2(2)] show ?thesis by (simp add: is_open_def)
  qed
qed

lemma flight_wf_body:
  assumes "save_body sha fs s d f meta tp bd = (fs', s', result, r)" and "sess_wf s"
    and "flight_wf s (xs @ (f, Claimed meta tp) # ys)"
  shows "flight_wf s' (xs @ (f, Written result) # ys)"
proof -
  have remap: "sess_remap_ok s" using assms(2) by (simp add: sess_wf_def)
  note core = save_body_core [OF assms(1) remap]
  have metas: "fileMetas s' = fileMetas s" using core(1) by (simp add: same_core_def)
  have old: "mget (fileStates s') g = mget (fileStates s) g" if "g \<noteq> f" for g
    using body_state [OF assms(1,2)] that by auto
  have prog: "in_progress s' g = in_progress s g" for g
    using body_state [OF assms(1,2)] by (cases "g = f") (auto simp: in_progress_def)
  have own: "f \<notin> fst ` set xs" "f \<notin> fst ` set ys" using assms(3) by (auto simp: flight_wf_def)
  show ?thesis
    unfolding flight_wf_def
  proof (intro conjI allI impI)
    show "distinct (map fst (xs @ (f, Written result) # ys))"
      using assms(3) by (simp add: flight_wf_def)
    show "g \<in> fst ` set (xs @ (f, Written result) # ys) \<longleftrightarrow> in_progress s' g" for g
      using assms(3) prog by (auto simp: flight_wf_def)
    fix g m t assume "(g, Claimed m t) \<in> set (xs @ (f, Written result) # ys)"
    then have g: "(g, Claimed m t) \<in> set (xs @ (f, Claimed meta tp) # ys)" "g \<noteq> f"
      using own by force+
    with assms(3) metas old [OF g(2)] show "mget (fileMetas s') g = Some m"
      and "map_option fu_targetPath (mget (fileStates s') g) = Some t"
      by (auto simp: flight_wf_def)
  next
    fix g x assume "(g, Written x) \<in> set (xs @ (f, Written result) # ys)"
    then show "x \<noteq> fileInProgress" using assms(3) core(4) by (auto simp: flight_wf_def)
  qed
qed

text \<open>The three outcomes of \<^verbatim>\<open>finishFileAttempt\<close> for a file in progress.\<close>

lemma finish_state:
  assumes "mget (fileStates s) f = Some st" and "fu_status st = fileInProgress"
    and "s' = finishFileAttempt f result s"
  shows "fileMetas s' = fileMetas s" and "fileTokens s' = fileTokens s"
    and "folderRemapper s' = folderRemapper s" and "sess_id s' = sess_id s"
    and "fileStates s' = mput f (st\<lparr>fu_status :=
      (if result = filePending \<and> fu_attempts st < maxChecksumAttempts then filePending
       else if result = fileFinished then fileFinished else fileFailed)\<rparr>) (fileStates s)"
  using assms(1,2) unfolding assms(3)
  by (auto simp: finishFileAttempt_def Let_def sess_End_def)

lemma finish_count:
  assumes "sess_wf s" and "mget (fileStates s) f = Some st" and "fu_status st = fileInProgress"
  shows "count_ok (finishFileAttempt f result s)"
proof (cases "result = filePending \<and> fu_attempts st < maxChecksumAttempts")
  case True
  have w: "mwf (fileStates s)" using assms(1) by (simp add: sess_wf_def)
  have "count_vals is_open (mput f (st\<lparr>fu_status := filePending\<rparr>) (fileStates s)) = open_count s"
    "count_vals (\<lambda>st. \<not> is_open st) (mput f (st\<lparr>fu_status := filePending\<rparr>) (fileStates s))
       = count_vals (\<lambda>st. \<not> is_open st) (fileStates s)"
    using count_vals_mput [OF w assms(2), of is_open "st\<lparr>fu_status := filePending\<rparr>"]
      count_vals_mput [OF w assms(2), of "\<lambda>st. \<not> is_open st" "st\<lparr>fu_status := filePending\<rparr>"] assms(3)
    by (auto simp: is_open_def)
  with True assms show ?thesis by (simp add: finishFileAttempt_def sess_wf_def count_ok_def)
next
  case False
  let ?new = "st\<lparr>fu_status := (if result = fileFinished then fileFinished else fileFailed)\<rparr>"
  let ?m = "mput f ?new (fileStates s)"
  have w: "mwf (fileStates s)" using assms(1) by (simp add: sess_wf_def)
  have c: "count_vals is_open ?m + 1 = open_count s"
    "count_vals (\<lambda>st. \<not> is_open st) ?m = count_vals (\<lambda>st. \<not> is_open st) (fileStates s) + 1"
    using count_vals_mput [OF w assms(2), of is_open ?new]
      count_vals_mput [OF w assms(2), of "\<lambda>st. \<not> is_open st" ?new] assms(3)
    by (auto simp: is_open_def split: if_splits)
  have ok: "count_ok s" and len: "int (length (fileStates s)) \<le> 10000"
    using assms(1) by (simp_all add: sess_wf_def MaxFilesPerSession_def)
  have "int (open_count s) \<le> 10000" "int (count_vals (\<lambda>st. \<not> is_open st) (fileStates s)) \<le> 10000"
    using len count_vals_le [of is_open "fileStates s"]
      count_vals_le [of "\<lambda>st. \<not> is_open st" "fileStates s"] by linarith+
  then have "wrap64 (filesCount s - 1) = filesCount s - 1"
    using ok by (intro wrap64_id) (auto simp: is_int64_def int64_min_def int64_max_def count_ok_def
        split: if_splits)
  then have fin: "finishFileAttempt f result s =
    (let s1 = s\<lparr>fileStates := ?m, filesCount := filesCount s - 1\<rparr> in
     if filesCount s1 = 0 then fst (sess_End s1) else s1)"
    using assms(2,3) False by (auto simp: finishFileAttempt_def Let_def)
  show ?thesis
    using ok c unfolding fin by (auto simp: count_ok_def sess_End_def Let_def)
qed

lemma sess_wf_finish:
  assumes "sess_wf s" and "mget (fileStates s) f = Some st" and "fu_status st = fileInProgress"
  shows "sess_wf (finishFileAttempt f result s)"
proof -
  note fs = finish_state [OF assms(2,3) refl, of result]
  let ?new = "st\<lparr>fu_status :=
      (if result = filePending \<and> fu_attempts st < maxChecksumAttempts then filePending
       else if result = fileFinished then fileFinished else fileFailed)\<rparr>"
  have "attempts_ok ?new"
    using sess_wf_attempts [OF assms(1,2)] by (simp add: attempts_ok_def)
  then have "list_all (\<lambda>(_, st). attempts_ok st) (mput f ?new (fileStates s))"
    using assms(1) by (auto simp: sess_wf_def list_all_iff simp del: if_split dest!: set_mput_in)
  moreover have "length (mput f ?new (fileStates s)) = length (fileStates s)"
    using assms(2) by (simp add: length_mput)
  moreover have "count_ok (finishFileAttempt f result s)" by (rule finish_count [OF assms])
  ultimately show ?thesis
    using assms(1) unfolding sess_wf_def fs sess_remap_ok_def
    by (simp add: keys_mput [OF assms(2)])
qed

lemma flight_wf_finish:
  assumes "flight_wf s (xs @ (f, Written result) # ys)"
    and "mget (fileStates s) f = Some st" and "fu_status st = fileInProgress"
  shows "flight_wf (finishFileAttempt f result s) (xs @ ys)"
proof -
  let ?s = "finishFileAttempt f result s"
  note fs = finish_state [OF assms(2,3) refl, of result]
  have own: "f \<notin> fst ` set (xs @ ys)" using assms(1) by (auto simp: flight_wf_def)
  have old: "mget (fileStates ?s) g = mget (fileStates s) g" if "g \<noteq> f" for g
    using that by (simp add: fs)
  have prog: "in_progress ?s g \<longleftrightarrow> g \<noteq> f \<and> in_progress s g" for g
    by (simp add: in_progress_def fs)
  show ?thesis
    unfolding flight_wf_def
  proof (intro conjI allI impI)
    show "distinct (map fst (xs @ ys))" using assms(1) by (simp add: flight_wf_def)
    show "g \<in> fst ` set (xs @ ys) \<longleftrightarrow> in_progress ?s g" for g
      using assms(1) own prog by (auto simp: flight_wf_def)
    fix g m t assume g: "(g, Claimed m t) \<in> set (xs @ ys)"
    then have "g \<noteq> f" using own by force
    with g assms(1) old show "mget (fileMetas ?s) g = Some m"
      and "map_option fu_targetPath (mget (fileStates ?s) g) = Some t"
      by (auto simp: flight_wf_def fs(1))
  next
    fix g r assume "(g, Written r) \<in> set (xs @ ys)"
    then show "r \<noteq> fileInProgress" using assms(1) by (auto simp: flight_wf_def)
  qed
qed

lemma sess_wf_End: "sess_wf s \<Longrightarrow> sess_wf (fst (sess_End s))"
  by (auto simp: sess_End_def sess_wf_def count_ok_def sess_remap_ok_def)

lemma sess_End_same [simp]:
  "fileStates (fst (sess_End s)) = fileStates s" "fileMetas (fst (sess_End s)) = fileMetas s"
  by (simp_all add: sess_End_def)

lemma folder_same [simp]:
  "fileStates (fst (sess_IsFolderTransfer s)) = fileStates s"
  "fileMetas (fst (sess_IsFolderTransfer s)) = fileMetas s"
  "same_core s (fst (sess_IsFolderTransfer s))"
  "folderRemapper (fst (sess_IsFolderTransfer s)) = folderRemapper s"
  by (simp_all add: sess_IsFolderTransfer_def same_core_def Let_def split: option.split)

lemma flight_wf_cong:
  "flight_wf s fl \<Longrightarrow> fileStates s' = fileStates s \<Longrightarrow> fileMetas s' = fileMetas s \<Longrightarrow> flight_wf s' fl"
  by (simp add: flight_wf_def in_progress_def)

section \<open>The files on disk\<close>

definition target_of :: "RecvSession \<Rightarrow> string \<Rightarrow> string" where
  "target_of s f = (case mget (fileStates s) f of None \<Rightarrow> [] | Some st \<Rightarrow> fu_targetPath st)"

definition completed :: "RecvSession \<Rightarrow> (string \<times> flight) list \<Rightarrow> string \<Rightarrow> bool" where
  "completed s fl f \<longleftrightarrow>
     (case mget (fileStates s) f of None \<Rightarrow> False | Some st \<Rightarrow> fu_status st = fileFinished) \<or>
     (f, Written fileFinished) \<in> set fl"

text \<open>The file on disk is what was announced.\<close>

definition as_announced :: "(bytes \<Rightarrow> bytes) \<Rightarrow> FileMeta \<Rightarrow> bytes \<Rightarrow> bool" where
  "as_announced sha meta data \<longleftrightarrow> int (length data) = fm_size meta \<and>
     (fm_checksum meta \<noteq> [] \<longrightarrow> equal_fold_hex (hex_encode (sha data)) (fm_checksum meta))"

definition on_disk :: "(bytes \<Rightarrow> bytes) \<Rightarrow> fsys \<Rightarrow> RecvSession \<Rightarrow> string \<Rightarrow> bool" where
  "on_disk sha fs s f \<longleftrightarrow>
     (case (mget (fileMetas s) f, file_content fs (target_of s f)) of
        (Some meta, Some data) \<Rightarrow> as_announced sha meta data
      | _ \<Rightarrow> False)"

definition disk_inv ::
    "(bytes \<Rightarrow> bytes) \<Rightarrow> (string \<Rightarrow> string) \<Rightarrow> fsys \<Rightarrow> RecvSession \<Rightarrow> (string \<times> flight) list \<Rightarrow> bool" where
  "disk_inv sha dir fs s fl \<longleftrightarrow>
     (\<forall>f. completed s fl f \<longrightarrow> on_disk sha fs s f \<and> path_under (dir f) (target_of s f)) \<and>
     (\<forall>f g. completed s fl f \<longrightarrow> completed s fl g \<longrightarrow> f \<noteq> g \<longrightarrow>
        path_key (target_of s f) \<noteq> path_key (target_of s g)) \<and>
     (\<forall>f. target_of s f = [] \<or> path_under (dir f) (target_of s f))"

lemma disk_inv_cong:
  assumes "disk_inv sha dir fs s fl" and "\<And>f. target_of s' f = target_of s f"
    and "fileMetas s' = fileMetas s" and "\<And>f. completed s' fl' f \<Longrightarrow> completed s fl f"
  shows "disk_inv sha dir fs s' fl'"
  using assms(1,4) unfolding disk_inv_def on_disk_def assms(2,3) by blast

lemma disk_inv_begin:
  assumes "save_begin s f tok ip = Inr (s1, meta, tp)" and "disk_inv sha dir fs s fl"
  shows "disk_inv sha dir fs s1 ((f, Claimed meta tp) # fl)"
proof -
  from begin_state [OF assms(1)] obtain st where st: "mget (fileStates s) f = Some st"
    "fu_status st = filePending" "same_core s s1"
    "fileStates s1 = mput f (st\<lparr>fu_status := fileInProgress, fu_attempts := fu_attempts st + 1\<rparr>) (fileStates s)"
    by blast
  show ?thesis
  proof (rule disk_inv_cong [OF assms(2)])
    show "target_of s1 g = target_of s g" for g using st by (simp add: target_of_def)
    show "fileMetas s1 = fileMetas s" using st(3) by (simp add: same_core_def)
    show "completed s fl g" if "completed s1 ((f, Claimed meta tp) # fl) g" for g
      using that st by (auto simp: completed_def split: if_splits)
  qed
qed

lemma disk_inv_finish:
  assumes "disk_inv sha dir fs s (xs @ (f, Written result) # ys)"
    and "mget (fileStates s) f = Some st" and "fu_status st = fileInProgress"
  shows "disk_inv sha dir fs (finishFileAttempt f result s) (xs @ ys)"
proof (rule disk_inv_cong [OF assms(1)])
  note fs = finish_state [OF assms(2,3) refl, of result]
  show "target_of (finishFileAttempt f result s) g = target_of s g" for g
    using assms(2) by (simp add: target_of_def fs)
  show "fileMetas (finishFileAttempt f result s) = fileMetas s" by (rule fs(1))
  show "completed s (xs @ (f, Written result) # ys) g"
    if "completed (finishFileAttempt f result s) (xs @ ys) g" for g
    using that by (cases "g = f") (auto simp: completed_def fs split: if_splits)
qed

text \<open>Writing a body: the new file is fresh, so the files already completed stay as they are.\<close>

lemma disk_inv_body:
  assumes "save_body sha fs s (dir f) f meta tp bd = (fs', s', result, r)" and "sess_wf s"
    and "flight_wf s (xs @ (f, Claimed meta tp) # ys)"
    and "disk_inv sha dir fs s (xs @ (f, Claimed meta tp) # ys)"
    and "is_int64 (fm_size meta)" and "dir f \<noteq> []"
  shows "disk_inv sha dir fs' s' (xs @ (f, Written result) # ys)"
proof -
  let ?fl = "xs @ (f, Claimed meta tp) # ys" and ?fl' = "xs @ (f, Written result) # ys"
  have remap: "sess_remap_ok s" using assms(2) by (simp add: sess_wf_def)
  note core = save_body_core [OF assms(1) remap]
  have metas: "fileMetas s' = fileMetas s" using core(1) by (simp add: same_core_def)
  obtain st where st: "mget (fileStates s) f = Some st" "fu_targetPath st = tp"
    "mget (fileMetas s) f = Some meta" "fu_status st = fileInProgress"
  proof -
    have "in_progress s f" using assms(3) by (auto simp: flight_wf_def)
    then obtain st where "mget (fileStates s) f = Some st" "fu_status st = fileInProgress"
      by (auto simp: in_progress_def split: option.splits)
    moreover have "mget (fileMetas s) f = Some meta"
      "map_option fu_targetPath (mget (fileStates s) f) = Some tp"
      using assms(3) unfolding flight_wf_def by auto
    ultimately show ?thesis using that by simp
  qed
  have own: "f \<notin> fst ` set xs" "f \<notin> fst ` set ys" using assms(3) by (auto simp: flight_wf_def)
  have tgt: "target_of s' g = target_of s g" if "g \<noteq> f" for g
    using body_state [OF assms(1,2)] that by (auto simp: target_of_def)
  have cmp: "completed s' ?fl' g \<longleftrightarrow> completed s ?fl g" if "g \<noteq> f" for g
    using body_state [OF assms(1,2)] that by (auto simp: completed_def)
  have "\<not> (case mget (fileStates s') f of None \<Rightarrow> False | Some st \<Rightarrow> fu_status st = fileFinished)"
    using body_state [OF assms(1,2)] st by auto
  moreover have "(f, x) \<notin> set xs" "(f, x) \<notin> set ys" for x using own by force+
  ultimately have cf: "completed s' ?fl' f \<longleftrightarrow> result = fileFinished"
    by (auto simp: completed_def)
  have inv: "target_of s g = [] \<or> path_under (dir g) (target_of s g)" for g
    using assms(4) unfolding disk_inv_def by blast
  have tf: "target_of s' f = [] \<or> path_under (dir f) (target_of s' f)"
    using body_state [OF assms(1,2)] assms(6) inv [of f] by (auto simp: target_of_def)
  show ?thesis
  proof (cases r)
    case (Inl e)
    with core(5) cf have ncf: "\<not> completed s' ?fl' f" by simp
    have same: "file_content fs' q = file_content fs q" for q
      using save_body_failure assms(1) Inl by blast
    show ?thesis
      using assms(4) ncf cmp tgt tf unfolding disk_inv_def on_disk_def metas same by metis
  next
    case (Inr name)
    obtain p where p: "node_at fs (path_key p) = None"
      "file_content fs' p = Some (concat (map snd (bd_reads bd)))"
      "\<And>q. path_key q \<noteq> path_key p \<Longrightarrow> file_content fs' q = file_content fs q"
      "as_announced sha meta (concat (map snd (bd_reads bd)))"
      "target_of s' f = p"
    proof (rule save_body_success [OF assms(1) [unfolded Inr] assms(5)])
      fix p
      assume a: "node_at fs (path_key p) = None"
        "file_content fs' p = Some (concat (map snd (bd_reads bd)))"
        "\<forall>q. path_key q \<noteq> path_key p \<longrightarrow> file_content fs' q = file_content fs q"
        "int (length (concat (map snd (bd_reads bd)))) = fm_size meta"
        "fm_checksum meta \<noteq> [] \<longrightarrow>
          equal_fold_hex (hex_encode (sha (concat (map snd (bd_reads bd))))) (fm_checksum meta)"
        "tp \<noteq> [] \<longrightarrow> p = tp"
        "sess_remap_ok s \<longrightarrow>
          fileStates s' = (if tp = [] then fileStates (set_target f p s) else fileStates s)"
      have "target_of s' f = p"
        using a(6,7) remap st(1,2) by (simp add: target_of_def set_target_states split: if_splits)
      then show ?thesis using a that by (simp add: as_announced_def)
    qed
    have ne: "p \<noteq> []"
      using p(1) by (auto simp: path_key_def node_at_def clean_list_def path_comps_def path_is_abs_def)
    have other: "path_key (target_of s g) \<noteq> path_key p \<and> on_disk sha fs' s' g"
      if g: "completed s ?fl g" "g \<noteq> f" for g
    proof -
      have d: "on_disk sha fs s g" using assms(4) g(1) unfolding disk_inv_def by blast
      then have "node_at fs (path_key (target_of s g)) \<noteq> None"
        by (auto simp: on_disk_def file_content_def split: option.splits)
      with p(1) have k: "path_key (target_of s g) \<noteq> path_key p" by auto
      with d show ?thesis using p(3) [OF k] tgt [OF g(2)] by (simp add: on_disk_def metas)
    qed
    have mine: "on_disk sha fs' s' f" "path_under (dir f) (target_of s' f)"
      using p(2,4,5) st(3) tf ne by (simp_all add: on_disk_def metas)
    show ?thesis
      unfolding disk_inv_def
    proof (intro conjI allI impI)
      fix g assume c: "completed s' ?fl' g"
      show "on_disk sha fs' s' g" using mine other cmp c by (cases "g = f") auto
      show "path_under (dir g) (target_of s' g)"
        using mine assms(4) cmp c tgt unfolding disk_inv_def by (cases "g = f") auto
    next
      fix g h assume "completed s' ?fl' g" "completed s' ?fl' h" "g \<noteq> h"
      then show "path_key (target_of s' g) \<noteq> path_key (target_of s' h)"
        using other cmp tgt p(5) assms(4) unfolding disk_inv_def by metis
    next
      fix g show "target_of s' g = [] \<or> path_under (dir g) (target_of s' g)"
        using tf inv tgt by (cases "g = f") auto
    qed
  qed
qed

section \<open>The invariant of a session\<close>

definition world_inv :: "(bytes \<Rightarrow> bytes) \<Rightarrow> (string \<Rightarrow> string) \<Rightarrow> sess_world \<Rightarrow> bool" where
  "world_inv sha dir w \<longleftrightarrow>
     sess_wf (sw_sess w) \<and> flight_wf (sw_sess w) (sw_flight w) \<and>
     disk_inv sha dir (sw_fs w) (sw_sess w) (sw_flight w) \<and>
     list_all (\<lambda>(_, meta). is_int64 (fm_size meta)) (fileMetas (sw_sess w))"

lemma flight_state:
  assumes "flight_wf s (xs @ (f, x) # ys)"
  obtains st where "mget (fileStates s) f = Some st" "fu_status st = fileInProgress"
proof -
  have "in_progress s f" using assms by (auto simp: flight_wf_def)
  then show ?thesis using that by (auto simp: in_progress_def split: option.splits)
qed

lemma world_inv_step:
  assumes "sess_step sha dir w w'" and "world_inv sha dir w" and "\<forall>f. dir f \<noteq> []"
  shows "world_inv sha dir w'"
  using assms(1)
proof (rule sess_stepE)
  fix s fid token ip s' meta tp fs fl
  assume w: "w = \<lparr>sw_fs = fs, sw_sess = s, sw_flight = fl\<rparr>"
    "w' = \<lparr>sw_fs = fs, sw_sess = s', sw_flight = (fid, Claimed meta tp) # fl\<rparr>"
    and b: "save_begin s fid token ip = Inr (s', meta, tp)"
  have "fileMetas s' = fileMetas s" using begin_state [OF b] by (auto simp: same_core_def)
  then show ?thesis
    using assms(2) sess_wf_begin [OF b] flight_wf_begin [OF b] disk_inv_begin [OF b]
    by (simp add: w world_inv_def)
next
  fix fs s fid meta tp bd fs' s' result r xs ys
  assume w: "w = \<lparr>sw_fs = fs, sw_sess = s, sw_flight = xs @ (fid, Claimed meta tp) # ys\<rparr>"
    "w' = \<lparr>sw_fs = fs', sw_sess = s', sw_flight = xs @ (fid, Written result) # ys\<rparr>"
    and b: "save_body sha fs s (dir fid) fid meta tp bd = (fs', s', result, r)"
  have i: "sess_wf s" "flight_wf s (xs @ (fid, Claimed meta tp) # ys)"
    "disk_inv sha dir fs s (xs @ (fid, Claimed meta tp) # ys)"
    "list_all (\<lambda>(_, meta). is_int64 (fm_size meta)) (fileMetas s)"
    using assms(2) by (simp_all add: w world_inv_def)
  have "sess_remap_ok s" using i(1) by (simp add: sess_wf_def)
  then have "fileMetas s' = fileMetas s" using save_body_core(1) [OF b] by (simp add: same_core_def)
  moreover have "mget (fileMetas s) fid = Some meta" using i(2) by (auto simp: flight_wf_def)
  then have "is_int64 (fm_size meta)" using i(4) by (auto simp: list_all_iff dest!: map_of_SomeD)
  ultimately show ?thesis
    using i sess_wf_body [OF b i(1)] flight_wf_body [OF b i(1,2)] disk_inv_body [OF b i(1-3)] assms(3)
    by (simp add: w world_inv_def)
next
  fix fs s xs fid result ys
  assume w: "w = \<lparr>sw_fs = fs, sw_sess = s, sw_flight = xs @ (fid, Written result) # ys\<rparr>"
    "w' = \<lparr>sw_fs = fs, sw_sess = finishFileAttempt fid result s, sw_flight = xs @ ys\<rparr>"
  have i: "sess_wf s" "flight_wf s (xs @ (fid, Written result) # ys)"
    "disk_inv sha dir fs s (xs @ (fid, Written result) # ys)"
    using assms(2) by (simp_all add: w world_inv_def)
  obtain st where st: "mget (fileStates s) fid = Some st" "fu_status st = fileInProgress"
    using flight_state [OF i(2)] .
  show ?thesis
    using assms(2) sess_wf_finish [OF i(1) st] flight_wf_finish [OF i(2) st] disk_inv_finish [OF i(3) st]
    by (simp add: w world_inv_def finish_state(1) [OF st refl])
next
  fix fs s fl
  assume w: "w = \<lparr>sw_fs = fs, sw_sess = s, sw_flight = fl\<rparr>"
    "w' = \<lparr>sw_fs = fs, sw_sess = fst (sess_End s), sw_flight = fl\<rparr>"
  have "disk_inv sha dir fs (fst (sess_End s)) fl"
    by (rule disk_inv_cong [of _ _ _ s fl])
      (use assms(2) in \<open>auto simp: w world_inv_def target_of_def completed_def\<close>)
  then show ?thesis
    using assms(2) flight_wf_cong [of s fl "fst (sess_End s)"] sess_wf_End
    by (simp add: w world_inv_def)
next
  fix fs s fl
  assume w: "w = \<lparr>sw_fs = fs, sw_sess = s, sw_flight = fl\<rparr>"
    "w' = \<lparr>sw_fs = fs, sw_sess = fst (sess_IsFolderTransfer s), sw_flight = fl\<rparr>"
  let ?s = "fst (sess_IsFolderTransfer s)"
  have "sess_wf s" using assms(2) by (simp add: w world_inv_def)
  moreover from this have "sess_remap_ok ?s" by (simp add: sess_wf_def sess_remap_ok_def)
  ultimately have "sess_wf ?s" using sess_wf_same [of s ?s] by simp
  moreover have "disk_inv sha dir fs ?s fl"
    by (rule disk_inv_cong [of _ _ _ s fl])
      (use assms(2) in \<open>auto simp: w world_inv_def target_of_def completed_def\<close>)
  ultimately show ?thesis
    using assms(2) flight_wf_cong [of s fl ?s] by (simp add: w world_inv_def)
qed

lemma world_inv_reach:
  "sess_reach sha dir w w' \<Longrightarrow> world_inv sha dir w \<Longrightarrow> \<forall>f. dir f \<noteq> [] \<Longrightarrow> world_inv sha dir w'"
  by (induction rule: sess_reach.induct) (auto intro: world_inv_step)

text \<open>The invariant holds when the session starts.\<close>

definition fresh_state :: fileUploadState where
  "fresh_state = \<lparr>fu_status = filePending, fu_attempts = 0, fu_targetPath = []\<rparr>"

definition accept_inv :: "RecvSession \<Rightarrow> bool" where
  "accept_inv s \<longleftrightarrow> \<not> started s \<and> mwf (fileStates s) \<and> mwf (fileMetas s) \<and> mwf (fileTokens s) \<and>
     map fst (fileStates s) = map fst (fileMetas s) \<and> map fst (fileTokens s) = map fst (fileMetas s) \<and>
     filesCount s = int (length (fileStates s)) \<and> int (length (fileStates s)) \<le> MaxFilesPerSession \<and>
     (\<forall>x \<in> set (fileStates s). snd x = fresh_state) \<and> folderRemapper s = None \<and>
     (\<forall>x \<in> set (fileMetas s). is_int64 (fm_size (snd x)))"

lemma mput_new: "k \<notin> fst ` set m \<Longrightarrow> mput k v m = m @ [(k, v)]"
  by (induction m) auto

lemma accept_inv_step:
  assumes "AcceptFile s tok f meta = Inr s'" and "accept_inv s" and "f \<notin> fst ` set (fileMetas s)"
    and "is_int64 (fm_size meta)"
  shows "accept_inv s'" and "fileMetas s' = fileMetas s @ [(f, meta)]"
proof -
  have new: "f \<notin> fst ` set (fileStates s)" "f \<notin> fst ` set (fileTokens s)"
    using assms(2,3) unfolding accept_inv_def by (metis set_map)+
  have "length (fileStates s) = length (fileMetas s)"
    using assms(2) unfolding accept_inv_def by (metis length_map)
  then have len: "int (length (fileStates s)) < MaxFilesPerSession"
    using assms(1) by (auto simp: AcceptFile_def split: if_splits)
  have s': "s' = s\<lparr>fileMetas := fileMetas s @ [(f, meta)], fileTokens := fileTokens s @ [(f, tok)],
      fileStates := fileStates s @ [(f, fresh_state)], filesCount := wrap64 (filesCount s + 1)\<rparr>"
    using assms(1,3) new by (auto simp: AcceptFile_def mput_new fresh_state_def split: if_splits)
  have "wrap64 (filesCount s + 1) = filesCount s + 1"
    using assms(2) len by (intro wrap64_id)
      (auto simp: accept_inv_def is_int64_def int64_min_def int64_max_def MaxFilesPerSession_def)
  with s' assms(2-4) new len show "accept_inv s'" by (auto simp: accept_inv_def)
  show "fileMetas s' = fileMetas s @ [(f, meta)]" by (simp add: s')
qed

lemma accept_all_inv:
  assumes "accept_all files tokens s = Inr s'" and "accept_inv s"
    and "distinct (map fst (fileMetas s @ files))" and "list_all (\<lambda>(_, m). is_int64 (fm_size m)) files"
  shows "accept_inv s' \<and> fileMetas s' = fileMetas s @ files"
  using assms
proof (induction files tokens s rule: accept_all.induct)
  case (1 tokens s)
  then show ?case by simp
next
  case (2 f meta files tokens s)
  from "2.prems"(1) obtain s1 where a: "AcceptFile s (hd tokens) f meta = Inr s1"
    and r: "accept_all files (tl tokens) s1 = Inr s'" by (auto split: sum.splits)
  have "f \<notin> fst ` set (fileMetas s)" "is_int64 (fm_size meta)" using "2.prems"(3,4) by auto
  note st = accept_inv_step [OF a "2.prems"(2) this]
  from "2.IH" [OF a r st(1)] "2.prems"(3,4) st(2) show ?case by auto
qed

lemma count_all: "(\<forall>x \<in> set m. P (snd x)) \<Longrightarrow> count_vals P m = length m"
  by (induction m) (auto simp: count_vals_def)

lemma world_inv_init:
  assumes "accept_inv s" and "fileMetas s \<noteq> []"
  shows "world_inv sha dir \<lparr>sw_fs = fs, sw_sess = sess_Start s, sw_flight = []\<rparr>"
proof -
  have fresh: "\<And>f st. mget (fileStates s) f = Some st \<Longrightarrow> st = fresh_state"
    using assms(1) by (auto simp: accept_inv_def dest!: map_of_SomeD)
  have oc: "open_count s = length (fileStates s)"
    by (rule count_all) (use assms(1) in \<open>auto simp: accept_inv_def is_open_def fresh_state_def\<close>)
  have "length (fileStates s) = length (fileMetas s)"
    using assms(1) unfolding accept_inv_def by (metis length_map)
  with assms oc have "count_ok (sess_Start s)"
    by (auto simp: count_ok_def sess_Start_def accept_inv_def)
  moreover have "fst ` set (fileStates s) = fst ` set (fileMetas s)"
    "fst ` set (fileTokens s) = fst ` set (fileMetas s)"
    using assms(1) unfolding accept_inv_def by (metis set_map)+
  ultimately have "sess_wf (sess_Start s)"
    using assms(1) by (auto simp: sess_wf_def accept_inv_def sess_Start_def attempts_ok_def
        fresh_state_def sess_remap_ok_def list_all_iff maxChecksumAttempts_def)
  moreover have "flight_wf (sess_Start s) []"
    by (auto simp: flight_wf_def in_progress_def sess_Start_def fresh_state_def
        split: option.splits dest: fresh)
  moreover have "\<not> completed (sess_Start s) [] f \<and> target_of (sess_Start s) f = []" for f
    by (auto simp: completed_def sess_Start_def fresh_state_def target_of_def
        split: option.splits dest: fresh)
  then have "disk_inv sha dir fs (sess_Start s) []" by (simp add: disk_inv_def)
  ultimately show ?thesis
    using assms(1) by (auto simp: world_inv_def sess_Start_def accept_inv_def list_all_iff)
qed

lemma accept_inv_New: "accept_inv (NewRecvSession now sid ip)"
  by (simp add: accept_inv_def NewRecvSession_def MaxFilesPerSession_def)

lemma session_inv:
  assumes "accept_all files tokens (NewRecvSession now sid ip) = Inr s" and "mwf files" and "files \<noteq> []"
    and "list_all (\<lambda>(_, m). is_int64 (fm_size m)) files" and "\<forall>f. dir f \<noteq> []"
    and "sess_reach sha dir \<lparr>sw_fs = fs, sw_sess = sess_Start s, sw_flight = []\<rparr> w"
  shows "world_inv sha dir w"
proof -
  have m: "fileMetas (NewRecvSession now sid ip) = []" by (simp add: NewRecvSession_def)
  have "accept_inv s \<and> fileMetas s = [] @ files"
    using accept_all_inv [OF assms(1) accept_inv_New _ assms(4)] assms(2) unfolding m by simp
  with assms(3) have "world_inv sha dir \<lparr>sw_fs = fs, sw_sess = sess_Start s, sw_flight = []\<rparr>"
    by (intro world_inv_init) auto
  from world_inv_reach [OF assms(6) this assms(5)] show ?thesis .
qed

section \<open>Properties\<close>

text \<open>C13: what a session delivers. However the uploads of a session overlap, are retried,
  fail or are cancelled, at every moment each file that is marked finished is on disk inside
  its save directory with the announced length and checksum, and two finished files are never
  the same file.\<close>

theorem finished_uploads_on_disk:
  assumes "accept_all files tokens (NewRecvSession now sid ip) = Inr s" and "mwf files" and "files \<noteq> []"
    and "list_all (\<lambda>(_, m). is_int64 (fm_size m)) files" and "\<forall>f. dir f \<noteq> []"
    and "sess_reach sha dir \<lparr>sw_fs = fs, sw_sess = sess_Start s, sw_flight = []\<rparr> w"
    and "mget (fileStates (sw_sess w)) f = Some stf" and "fu_status stf = fileFinished"
  shows "\<exists>meta data. mget (fileMetas (sw_sess w)) f = Some meta \<and>
    file_content (sw_fs w) (fu_targetPath stf) = Some data \<and> as_announced sha meta data \<and>
    path_under (dir f) (fu_targetPath stf) \<and>
    (\<forall>g stg. g \<noteq> f \<longrightarrow> mget (fileStates (sw_sess w)) g = Some stg \<longrightarrow> fu_status stg = fileFinished \<longrightarrow>
       path_key (fu_targetPath stg) \<noteq> path_key (fu_targetPath stf))"
proof -
  have "world_inv sha dir w" by (rule session_inv) fact+
  then have inv: "disk_inv sha dir (sw_fs w) (sw_sess w) (sw_flight w)" by (simp add: world_inv_def)
  have c: "completed (sw_sess w) (sw_flight w) g \<and> target_of (sw_sess w) g = fu_targetPath stg"
    if "mget (fileStates (sw_sess w)) g = Some stg" "fu_status stg = fileFinished" for g stg
    using that by (simp add: completed_def target_of_def)
  from inv c [OF assms(7,8)] have "on_disk sha (sw_fs w) (sw_sess w) f"
    "path_under (dir f) (fu_targetPath stf)" unfolding disk_inv_def by metis+
  moreover have "path_key (fu_targetPath stg) \<noteq> path_key (fu_targetPath stf)"
    if "g \<noteq> f" "mget (fileStates (sw_sess w)) g = Some stg" "fu_status stg = fileFinished" for g stg
    using inv c [OF that(2,3)] c [OF assms(7,8)] that(1) unfolding disk_inv_def by metis
  ultimately show ?thesis
    using c [OF assms(7,8)] by (auto simp: on_disk_def split: option.splits)
qed

text \<open>The books of a session. In every reachable state no file has had more than three
  attempts, a file is uploaded by at most one request at a time, and while the session runs its
  counter is the number of files that are neither finished nor failed, which is not zero; so
  the session has ended as soon as every file is.\<close>

theorem session_books:
  assumes "accept_all files tokens (NewRecvSession now sid ip) = Inr s" and "mwf files" and "files \<noteq> []"
    and "list_all (\<lambda>(_, m). is_int64 (fm_size m)) files" and "\<forall>f. dir f \<noteq> []"
    and "sess_reach sha dir \<lparr>sw_fs = fs, sw_sess = sess_Start s, sw_flight = []\<rparr> w"
  shows "list_all (\<lambda>(_, st). fu_attempts st \<le> 3) (fileStates (sw_sess w)) \<and>
    distinct (map fst (sw_flight w)) \<and>
    (\<forall>f. f \<in> fst ` set (sw_flight w) \<longleftrightarrow> in_progress (sw_sess w) f) \<and>
    (started (sw_sess w) \<longrightarrow> filesCount (sw_sess w) = int (open_count (sw_sess w)) \<and>
       0 < open_count (sw_sess w)) \<and>
    (open_count (sw_sess w) = 0 \<longrightarrow> \<not> started (sw_sess w))"
proof -
  have "world_inv sha dir w" by (rule session_inv) fact+
  then have w: "sess_wf (sw_sess w)" "flight_wf (sw_sess w) (sw_flight w)"
    by (simp_all add: world_inv_def)
  have "list_all (\<lambda>(_, st). fu_attempts st \<le> 3) (fileStates (sw_sess w))"
    using w(1) by (auto simp: sess_wf_def list_all_iff attempts_ok_def maxChecksumAttempts_def)
  moreover have "distinct (map fst (sw_flight w)) \<and>
      (\<forall>f. f \<in> fst ` set (sw_flight w) \<longleftrightarrow> in_progress (sw_sess w) f)"
    using w(2) unfolding flight_wf_def by blast
  moreover have "started (sw_sess w) \<longrightarrow> filesCount (sw_sess w) = int (open_count (sw_sess w)) \<and>
       0 < open_count (sw_sess w)"
    using w(1) by (auto simp: sess_wf_def count_ok_def)
  ultimately show ?thesis by auto
qed

section \<open>A concrete run\<close>

definition demo_world :: sess_world where
  "demo_world = \<lparr>sw_fs = demo_folders, sw_sess = demo_sess, sw_flight = []\<rparr>"

definition demo_claimed :: RecvSession where
  "demo_claimed = (case save_begin demo_sess ''f'' ''t'' ''ip'' of Inr (s, _, _) \<Rightarrow> s | Inl _ \<Rightarrow> demo_sess)"

definition demo_written :: "fsys \<times> RecvSession" where
  "demo_written =
     (case save_body id demo_folders demo_claimed ''/d'' ''f'' demo_meta [] (demo_body ''hi'') of
        (fs, s, _, _) \<Rightarrow> (fs, s))"

lemma demo_reach:
  "sess_reach id (\<lambda>_. ''/d'') demo_world
     \<lparr>sw_fs = fst demo_written, sw_sess = finishFileAttempt ''f'' fileFinished (snd demo_written),
      sw_flight = []\<rparr>"
proof -
  have "save_begin demo_sess ''f'' ''t'' ''ip'' = Inr (demo_claimed, demo_meta, [])" by code_simp
  from ss_claim [OF this] have 1: "sess_step id (\<lambda>_. ''/d'') demo_world
      \<lparr>sw_fs = demo_folders, sw_sess = demo_claimed, sw_flight = [(''f'', Claimed demo_meta [])]\<rparr>"
    by (simp add: demo_world_def)
  have "save_body id demo_folders demo_claimed ''/d'' ''f'' demo_meta [] (demo_body ''hi'') =
      (fst demo_written, snd demo_written, fileFinished, Inr ''b.txt'')" by code_simp
  from ss_write [where dir = "\<lambda>_. ''/d''", OF this, of "[]" "[]"] have 2: "sess_step id (\<lambda>_. ''/d'')
      \<lparr>sw_fs = demo_folders, sw_sess = demo_claimed, sw_flight = [(''f'', Claimed demo_meta [])]\<rparr>
      \<lparr>sw_fs = fst demo_written, sw_sess = snd demo_written, sw_flight = [(''f'', Written fileFinished)]\<rparr>"
    by simp
  have 3: "sess_step id (\<lambda>_. ''/d'')
      \<lparr>sw_fs = fst demo_written, sw_sess = snd demo_written, sw_flight = [(''f'', Written fileFinished)]\<rparr>
      \<lparr>sw_fs = fst demo_written, sw_sess = finishFileAttempt ''f'' fileFinished (snd demo_written),
       sw_flight = []\<rparr>"
    using ss_finish [of id "\<lambda>_. ''/d''" "fst demo_written" "snd demo_written" "[]" "''f''" fileFinished "[]"]
    by simp
  show ?thesis by (rule sr_step [OF sr_step [OF sr_step [OF sr_refl 1] 2] 3])
qed

definition demo_accepted :: RecvSession where
  "demo_accepted = (case AcceptFile (NewRecvSession 0 ''S'' ''ip'') ''t'' ''f'' demo_meta of
     Inl _ \<Rightarrow> NewRecvSession 0 [] [] | Inr s \<Rightarrow> s)"

lemma demo_start:
  "accept_all [(''f'', demo_meta)] [''t''] (NewRecvSession 0 ''S'' ''ip'') = Inr demo_accepted"
  "demo_world = \<lparr>sw_fs = demo_folders, sw_sess = sess_Start demo_accepted, sw_flight = []\<rparr>"
  "list_all (\<lambda>(_, m). is_int64 (fm_size m)) [(''f'', demo_meta)]"
  by code_simp+

theorem finished_uploads_on_disk_witness:
  "file_content (fst demo_written) ''/d/b.txt'' = Some ''hi'' \<and> path_under ''/d'' ''/d/b.txt''"
proof -
  let ?s = "finishFileAttempt ''f'' fileFinished (snd demo_written)"
  let ?st = "\<lparr>fu_status = fileFinished, fu_attempts = 1, fu_targetPath = ''/d/b.txt''\<rparr>"
  have st: "mget (fileStates ?s) ''f'' = Some ?st" by code_simp
  have "file_content (fst demo_written) ''/d/b.txt'' = Some ''hi''" by code_simp
  moreover have "path_under ''/d'' (fu_targetPath ?st)"
    using finished_uploads_on_disk [OF demo_start(1) _ _ demo_start(3) _
        demo_reach [unfolded demo_start(2)], of "''f''" ?st] st by auto
  ultimately show ?thesis by simp
qed

theorem session_books_witness:
  "open_count (finishFileAttempt ''f'' fileFinished (snd demo_written)) = 0 \<and>
   \<not> started (finishFileAttempt ''f'' fileFinished (snd demo_written))"
proof -
  have "open_count (finishFileAttempt ''f'' fileFinished (snd demo_written)) = 0" by code_simp
  with session_books [OF demo_start(1) _ _ demo_start(3) _ demo_reach [unfolded demo_start(2)]]
  show ?thesis by simp
qed

end
