(* ===== verification/SessManager.thy ===== *)
theory SessManager
  imports SessionProps
begin

text \<open>
  \<^verbatim>\<open>internal/localsend/session/recvsessman.go\<close>: the table of receive sessions, with the rules of
  admission and cancellation. Identifiers and file tokens (UUIDs) and the clock are arguments:
  \<open>now\<close> is in seconds for a session's activity stamp, \<open>nowNs\<close> in nanoseconds for its timeout.
\<close>

section \<open>The manager\<close>

definition MaxConcurrentSessions :: int where "MaxConcurrentSessions = 100"

record RecvSessManager =
  rsm_sessions :: "(string, RecvSession) gomap"
  rsm_done :: bool

definition NewRecvSessManager :: RecvSessManager where
  "NewRecvSessManager = \<lparr>rsm_sessions = [], rsm_done = False\<rparr>"

definition rsm_Stop :: "RecvSessManager \<Rightarrow> RecvSessManager" where
  "rsm_Stop m = m\<lparr>rsm_done := True\<rparr>"

text \<open>One tick of \<^verbatim>\<open>vacuumTask\<close>.\<close>

definition vacuum_tick :: "int \<Rightarrow> RecvSessManager \<Rightarrow> RecvSessManager" where
  "vacuum_tick nowNs m =
     (if rsm_done m then m
      else m\<lparr>rsm_sessions := filter (\<lambda>(_, s). \<not> Stopped nowNs s) (rsm_sessions m)\<rparr>)"

definition GetSession :: "RecvSessManager \<Rightarrow> string \<Rightarrow> ls_err + RecvSession" where
  "GetSession m sessionId =
     (case mget (rsm_sessions m) sessionId of None \<Rightarrow> Inl ErrNotFound | Some s \<Rightarrow> Inr s)"

definition GeneratePreUploadResp ::
    "RecvSessManager \<Rightarrow> string \<Rightarrow> ls_err + (string \<times> (string, string) gomap)" where
  "GeneratePreUploadResp m sessionId =
     (case GetSession m sessionId of
        Inl e \<Rightarrow> Inl e
      | Inr s \<Rightarrow> Inr (sessionId, FileTokens s))"

definition sessionCount :: "RecvSessManager \<Rightarrow> int" where
  "sessionCount m = int (length (rsm_sessions m))"

definition HasActiveSessions :: "int \<Rightarrow> RecvSessManager \<Rightarrow> bool" where
  "HasActiveSessions nowNs m = list_ex (\<lambda>(_, s). \<not> Stopped nowNs s) (rsm_sessions m)"

definition newSessionLocked ::
    "RecvSessManager \<Rightarrow> int \<Rightarrow> string \<Rightarrow> string list \<Rightarrow> (string \<times> FileMeta) list \<Rightarrow> string \<Rightarrow>
     ls_err + RecvSessManager" where
  "newSessionLocked m now sessionId tokens reqFiles clientIP =
     (if sessionCount m \<ge> MaxConcurrentSessions then Inl ErrTooManySessions
      else case accept_all reqFiles tokens (NewRecvSession now sessionId clientIP) of
             Inl e \<Rightarrow> Inl e
           | Inr s \<Rightarrow> Inr (m\<lparr>rsm_sessions := mput sessionId (sess_Start s) (rsm_sessions m)\<rparr>))"

definition NewSession ::
    "RecvSessManager \<Rightarrow> int \<Rightarrow> string \<Rightarrow> string list \<Rightarrow> (string \<times> FileMeta) list \<Rightarrow> string \<Rightarrow>
     ls_err + RecvSessManager" where
  "NewSession m now sessionId tokens reqFiles clientIP =
     newSessionLocked m now sessionId tokens reqFiles clientIP"

definition CreateSessionIfAllowed ::
    "RecvSessManager \<Rightarrow> int \<Rightarrow> int \<Rightarrow> string \<Rightarrow> string list \<Rightarrow> (string \<times> FileMeta) list \<Rightarrow> string \<Rightarrow>
     ls_err + RecvSessManager" where
  "CreateSessionIfAllowed m nowNs now sessionId tokens reqFiles clientIP =
     (if reqFiles = [] then Inl ErrInvalidBody
      else if HasActiveSessions nowNs m then Inl ErrBlockedByOthers
      else newSessionLocked m now sessionId tokens reqFiles clientIP)"

text \<open>The session is taken out of the table and ended; a request that still holds it sees the
  ended session, which is returned.\<close>

definition KillSession :: "RecvSessManager \<Rightarrow> string \<Rightarrow> RecvSessManager \<times> RecvSession option" where
  "KillSession m sessionId =
     (case mget (rsm_sessions m) sessionId of
        None \<Rightarrow> (m, None)
      | Some s \<Rightarrow> (m\<lparr>rsm_sessions := mdel sessionId (rsm_sessions m)\<rparr>, Some (fst (sess_End s))))"

definition KillSessionForClient ::
    "RecvSessManager \<Rightarrow> string \<Rightarrow> string \<Rightarrow> ls_err + (RecvSessManager \<times> RecvSession option)" where
  "KillSessionForClient m sessionID clientIP =
     (case GetSession m sessionID of
        Inl e \<Rightarrow> (if e = ErrNotFound then Inr (m, None) else Inl e)
      | Inr s \<Rightarrow>
          if sess_clientIP s \<noteq> [] \<and> sess_clientIP s \<noteq> clientIP then Inl ErrRejected
          else Inr (KillSession m sessionID))"

text \<open>The session that a request updates through the pointer it got from the table.\<close>

definition put_session :: "string \<Rightarrow> RecvSession \<Rightarrow> RecvSessManager \<Rightarrow> RecvSessManager" where
  "put_session sid s m =
     (if mhas (rsm_sessions m) sid then m\<lparr>rsm_sessions := mput sid s (rsm_sessions m)\<rparr> else m)"

section \<open>Admission\<close>

definition rsm_wf :: "RecvSessManager \<Rightarrow> bool" where
  "rsm_wf m \<longleftrightarrow> mwf (rsm_sessions m) \<and> sessionCount m \<le> MaxConcurrentSessions"

lemma rsm_wf_New: "rsm_wf NewRecvSessManager"
  by (simp add: rsm_wf_def NewRecvSessManager_def sessionCount_def MaxConcurrentSessions_def)

lemma rsm_wf_create:
  assumes "rsm_wf m" and "newSessionLocked m now sid tokens files ip = Inr m'"
  shows "rsm_wf m'"
  using assms by (auto simp: rsm_wf_def newSessionLocked_def sessionCount_def length_mput
      MaxConcurrentSessions_def split: if_splits sum.splits)

lemma rsm_wf_kill: "rsm_wf m \<Longrightarrow> rsm_wf (fst (KillSession m sid))"
  using length_mdel_le [of sid "rsm_sessions m"]
  by (auto simp: rsm_wf_def KillSession_def sessionCount_def split: option.splits)

lemma filter_int_le: "int (length xs) \<le> b \<Longrightarrow> int (length (filter P xs)) \<le> b"
  using length_filter_le [of P xs] by linarith

lemma rsm_wf_vacuum: "rsm_wf m \<Longrightarrow> rsm_wf (vacuum_tick nowNs m)"
  by (simp add: rsm_wf_def vacuum_tick_def sessionCount_def filter_int_le)

lemma accept_all_ident:
  "accept_all files tokens s = Inr s' \<Longrightarrow>
   sess_clientIP s' = sess_clientIP s \<and> sess_id s' = sess_id s \<and> lastActivity s' = lastActivity s"
  by (induction files tokens s rule: accept_all.induct)
    (auto simp: AcceptFile_def split: sum.splits if_splits)

lemma new_session_active:
  assumes "accept_inv s" and "fileMetas s \<noteq> []" and "lastActivity s = now"
    and "nowNs - now * 1000000000 \<le> SessionTimeout"
  shows "\<not> Stopped nowNs (sess_Start s)"
proof -
  have "length (fileStates s) = length (fileMetas s)"
    using assms(1) unfolding accept_inv_def by (metis length_map)
  then show ?thesis using assms by (auto simp: Stopped_def sess_Start_def accept_inv_def)
qed

lemma admission_facts:
  assumes "CreateSessionIfAllowed m nowNs now sid tokens files ip = Inr m'"
    and "rsm_wf m" and "mwf files" and "list_all (\<lambda>(_, fm). is_int64 (fm_size fm)) files"
    and "nowNs - now * 1000000000 \<le> SessionTimeout"
  shows "files \<noteq> [] \<and> \<not> HasActiveSessions nowNs m \<and> rsm_wf m' \<and>
    (\<exists>s. mget (rsm_sessions m') sid = Some s \<and> sess_clientIP s = ip \<and> sess_id s = sid \<and>
       fileMetas s = files \<and> map fst (fileTokens s) = map fst files \<and>
       (\<forall>x \<in> set (fileStates s). snd x = fresh_state) \<and> started s \<and> \<not> Stopped nowNs s) \<and>
    (\<forall>sid'. sid' \<noteq> sid \<longrightarrow> mget (rsm_sessions m') sid' = mget (rsm_sessions m) sid') \<and>
    (\<forall>sid' s'. sid' \<noteq> sid \<longrightarrow> mget (rsm_sessions m') sid' = Some s' \<longrightarrow> Stopped nowNs s')"
proof -
  from assms(1) have ne: "files \<noteq> []" and idle: "\<not> HasActiveSessions nowNs m"
    and new: "newSessionLocked m now sid tokens files ip = Inr m'"
    by (auto simp: CreateSessionIfAllowed_def split: if_splits)
  from new obtain s where acc: "accept_all files tokens (NewRecvSession now sid ip) = Inr s"
    and m': "m' = m\<lparr>rsm_sessions := mput sid (sess_Start s) (rsm_sessions m)\<rparr>"
    by (auto simp: newSessionLocked_def split: if_splits sum.splits)
  have m0: "fileMetas (NewRecvSession now sid ip) = []" by (simp add: NewRecvSession_def)
  have inv: "accept_inv s" "fileMetas s = files"
    using accept_all_inv [OF acc accept_inv_New _ assms(4)] assms(3) unfolding m0 by simp_all
  have ident: "sess_clientIP s = ip" "sess_id s = sid" "lastActivity s = now"
    using accept_all_ident [OF acc] by (simp_all add: NewRecvSession_def)
  have act: "\<not> Stopped nowNs (sess_Start s)"
    by (rule new_session_active [OF inv(1)]) (use inv ne ident assms(5) in auto)
  have others: "Stopped nowNs s'" if "mget (rsm_sessions m) sid' = Some s'" for sid' s'
    using idle that by (force simp: HasActiveSessions_def list_ex_iff dest: map_of_SomeD)
  show ?thesis
  proof (intro conjI allI impI)
    show "rsm_wf m'" by (rule rsm_wf_create [OF assms(2) new])
    show "\<exists>s. mget (rsm_sessions m') sid = Some s \<and> sess_clientIP s = ip \<and> sess_id s = sid \<and>
       fileMetas s = files \<and> map fst (fileTokens s) = map fst files \<and>
       (\<forall>x \<in> set (fileStates s). snd x = fresh_state) \<and> started s \<and> \<not> Stopped nowNs s"
      using inv ident act by (intro exI [of _ "sess_Start s"])
        (simp add: m' sess_Start_def accept_inv_def)
  qed (use ne idle others m' in auto)
qed

text \<open>C16: one session at a time. When a transfer is admitted, no session in the table was
  active and the request had files; afterwards the new session is in the table under its id,
  belongs to the requesting client, has exactly the requested files, each with a token and not
  yet tried, is the only active one, and the others are as before.\<close>

theorem admission_exclusive:
  assumes "CreateSessionIfAllowed m nowNs now sid tokens files ip = Inr m'"
    and "rsm_wf m" and "mwf files" and "list_all (\<lambda>(_, fm). is_int64 (fm_size fm)) files"
    and "nowNs - now * 1000000000 \<le> SessionTimeout"
  shows "files \<noteq> [] \<and> \<not> HasActiveSessions nowNs m \<and> rsm_wf m' \<and>
    (\<exists>s. mget (rsm_sessions m') sid = Some s \<and> sess_clientIP s = ip \<and> sess_id s = sid \<and>
       fileMetas s = files \<and> map fst (fileTokens s) = map fst files \<and>
       (\<forall>x \<in> set (fileStates s). snd x = fresh_state) \<and> started s \<and> \<not> Stopped nowNs s) \<and>
    (\<forall>sid'. sid' \<noteq> sid \<longrightarrow> mget (rsm_sessions m') sid' = mget (rsm_sessions m) sid') \<and>
    (\<forall>sid' s'. sid' \<noteq> sid \<longrightarrow> mget (rsm_sessions m') sid' = Some s' \<longrightarrow> Stopped nowNs s')"
  by (rule admission_facts [OF assms])

text \<open>Only its client cancels a session. A cancel request from another address is refused
  and changes nothing; from the owner it takes the session out of the table and ends it; an
  unknown id is accepted silently.\<close>

theorem cancel_only_by_owner:
  "KillSessionForClient m sid ip =
     (case mget (rsm_sessions m) sid of
        None \<Rightarrow> Inr (m, None)
      | Some s \<Rightarrow>
          if sess_clientIP s = [] \<or> sess_clientIP s = ip
          then Inr (m\<lparr>rsm_sessions := mdel sid (rsm_sessions m)\<rparr>,
                    Some (if started s then s\<lparr>started := False, filesCount := 0\<rparr> else s))
          else Inl ErrRejected)"
  by (simp add: KillSessionForClient_def GetSession_def KillSession_def sess_End_def
      split: option.split)

section \<open>Concrete cases\<close>

definition demo_files :: "(string \<times> FileMeta) list" where
  "demo_files = [(''f'', demo_meta), (''g'', demo_meta\<lparr>fm_id := ''g''\<rparr>)]"

definition demo_mgr :: RecvSessManager where
  "demo_mgr = (case CreateSessionIfAllowed NewRecvSessManager 0 0 ''S'' [''t'', ''u''] demo_files ''ip'' of
     Inl _ \<Rightarrow> NewRecvSessManager | Inr m \<Rightarrow> m)"

theorem admission_exclusive_witness:
  "HasActiveSessions 5 demo_mgr \<and> \<not> HasActiveSessions 0 NewRecvSessManager"
proof -
  have c: "CreateSessionIfAllowed NewRecvSessManager 0 0 ''S'' [''t'', ''u''] demo_files ''ip'' = Inr demo_mgr"
    by code_simp
  have w: "rsm_wf NewRecvSessManager" "mwf demo_files"
    "list_all (\<lambda>(_, fm). is_int64 (fm_size fm)) demo_files"
    "0 - 0 * 1000000000 \<le> SessionTimeout" by code_simp+
  have "HasActiveSessions 5 demo_mgr" by code_simp
  with admission_exclusive [OF c w] show ?thesis by blast
qed

text \<open>A timed-out session can come back. A session that has been silent for over a minute
  counts as stopped, so another transfer is admitted; but its uploads are still accepted until
  the next cleanup, and one of them makes it active again: two active sessions at once.\<close>

theorem timed_out_session_revives:
  "case CreateSessionIfAllowed demo_mgr (100 * 1000000000) 100 ''T'' [''v''] [(''f'', demo_meta)] ''other'' of
     Inl _ \<Rightarrow> False
   | Inr m \<Rightarrow>
       (case mget (rsm_sessions m) ''S'' of
          None \<Rightarrow> False
        | Some s \<Rightarrow>
            (case SaveFile id demo_folders s ''/d'' ''f'' ''t'' ''ip'' (demo_body ''hi'') of
               (_, s', r) \<Rightarrow>
                 r = Inr ''b.txt'' \<and>
                 length (filter (\<lambda>(_, x). \<not> Stopped (101 * 1000000000) x)
                   (rsm_sessions (put_session ''S'' s' m))) = 2))"
  by code_simp

end
