(* ===== verification/Json.thy ===== *)
theory Json
  imports GoText
begin

text \<open>
  Go's \<^verbatim>\<open>encoding/json\<close> as the program uses it: the decoder (syntax check, string unquoting with
  replacement of invalid UTF-8, literal numbers, nesting limit) and the rules of
  \<^verbatim>\<open>Unmarshal\<close> into a struct: fields matched up to case, the last duplicate wins, \<^verbatim>\<open>null\<close> leaves
  a field alone, a value of the wrong type is an error but decoding goes on.
\<close>

section \<open>Values and syntax\<close>

datatype json =
    JNull
  | JBool bool
  | JNum string
  | JStr string
  | JArr "json list"
  | JObj "(string \<times> json) list"

definition is_ws :: "char \<Rightarrow> bool" where
  "is_ws c \<longleftrightarrow> byte_val c = 32 \<or> byte_val c = 9 \<or> byte_val c = 10 \<or> byte_val c = 13"

definition skip_ws :: "string \<Rightarrow> string" where
  "skip_ws s = dropWhile is_ws s"

definition quote_char :: char where "quote_char = byte_of 34"
definition bslash :: char where "bslash = byte_of 92"

subsection \<open>UTF-8\<close>

definition is_cont :: "char \<Rightarrow> bool" where
  "is_cont c \<longleftrightarrow> 128 \<le> byte_val c \<and> byte_val c < 192"

text \<open>The number of continuation bytes of a valid encoding that starts here, if it is valid.\<close>

definition byte_in :: "nat \<Rightarrow> nat \<Rightarrow> string \<Rightarrow> bool" where
  "byte_in lo hi s = (case s of [] \<Rightarrow> False | c # _ \<Rightarrow> lo \<le> byte_val c \<and> byte_val c \<le> hi)"

definition conts :: "nat \<Rightarrow> string \<Rightarrow> bool" where
  "conts n s \<longleftrightarrow> length (take n s) = n \<and> list_all is_cont (take n s)"

definition rune_conts :: "nat \<Rightarrow> string \<Rightarrow> nat option" where
  "rune_conts b rest =
     (if b < 128 then Some 0
      else if 194 \<le> b \<and> b \<le> 223 then (if conts 1 rest then Some 1 else None)
      else if b = 224 then (if byte_in 160 191 rest \<and> conts 2 rest then Some 2 else None)
      else if b = 237 then (if byte_in 128 159 rest \<and> conts 2 rest then Some 2 else None)
      else if 225 \<le> b \<and> b \<le> 239 then (if conts 2 rest then Some 2 else None)
      else if b = 240 then (if byte_in 144 191 rest \<and> conts 3 rest then Some 3 else None)
      else if 241 \<le> b \<and> b \<le> 243 then (if conts 3 rest then Some 3 else None)
      else if b = 244 then (if byte_in 128 143 rest \<and> conts 3 rest then Some 3 else None)
      else None)"

definition utf8_encode :: "int \<Rightarrow> string" where
  "utf8_encode r =
     (let b = (\<lambda>x. byte_of (nat x)) in
      if r < 128 then [b r]
      else if r < 2048 then [b (192 + r div 64), b (128 + r mod 64)]
      else if r < 65536 then
        [b (224 + r div 4096), b (128 + r div 64 mod 64), b (128 + r mod 64)]
      else [b (240 + r div 262144), b (128 + r div 4096 mod 64),
            b (128 + r div 64 mod 64), b (128 + r mod 64)])"

definition rune_error :: string where "rune_error = utf8_encode 65533"

subsection \<open>Strings\<close>

definition hex_val :: "char \<Rightarrow> int option" where
  "hex_val c =
     (let b = int (byte_val c) in
      if 48 \<le> b \<and> b \<le> 57 then Some (b - 48)
      else if 97 \<le> b \<and> b \<le> 102 then Some (b - 87)
      else if 65 \<le> b \<and> b \<le> 70 then Some (b - 55)
      else None)"

definition hex4 :: "string \<Rightarrow> int option" where
  "hex4 s =
     (case s of
        a # b # c # d # _ \<Rightarrow>
          (case (hex_val a, hex_val b, hex_val c, hex_val d) of
             (Some w, Some x, Some y, Some z) \<Rightarrow> Some (4096 * w + 256 * x + 16 * y + z)
           | _ \<Rightarrow> None)
      | _ \<Rightarrow> None)"

text \<open>The low half of a surrogate pair written as a second escape.\<close>

definition low_surrogate :: "string \<Rightarrow> int option" where
  "low_surrogate s =
     (case s of
        a # b # r \<Rightarrow>
          if a = bslash \<and> b = CHR ''u''
          then (case hex4 r of
                  Some v \<Rightarrow> if 56320 \<le> v \<and> v < 57344 then Some v else None
                | None \<Rightarrow> None)
          else None
      | _ \<Rightarrow> None)"

text \<open>One escape after the backslash: the bytes it stands for and how many bytes it takes.\<close>

definition unescape :: "string \<Rightarrow> (string \<times> nat) option" where
  "unescape s =
     (case s of
        [] \<Rightarrow> None
      | c # r \<Rightarrow>
          if c = quote_char \<or> c = bslash \<or> c = CHR ''/'' then Some ([c], 1)
          else if c = CHR ''b'' then Some ([byte_of 8], 1)
          else if c = CHR ''f'' then Some ([byte_of 12], 1)
          else if c = CHR ''n'' then Some ([byte_of 10], 1)
          else if c = CHR ''r'' then Some ([byte_of 13], 1)
          else if c = CHR ''t'' then Some ([byte_of 9], 1)
          else if c = CHR ''u'' then
            (case hex4 r of
               None \<Rightarrow> None
             | Some v \<Rightarrow>
                 if 55296 \<le> v \<and> v < 56320 then
                   (case low_surrogate (drop 4 r) of
                      Some w \<Rightarrow> Some (utf8_encode (65536 + (v - 55296) * 1024 + (w - 56320)), 11)
                    | None \<Rightarrow> Some (rune_error, 5))
                 else if 56320 \<le> v \<and> v < 57344 then Some (rune_error, 5)
                 else Some (utf8_encode v, 5))
          else None)"

text \<open>From after the opening quote: the unquoted string and the rest of the input.\<close>

function unquote :: "string \<Rightarrow> (string \<times> string) option" where
  "unquote [] = None"
| "unquote (c # cs) =
     (if c = quote_char then Some ([], cs)
      else if c = bslash then
        (case unescape cs of
           None \<Rightarrow> None
         | Some (out, n) \<Rightarrow> map_option (\<lambda>(x, r). (out @ x, r)) (unquote (drop n cs)))
      else if byte_val c < 32 then None
      else (case rune_conts (byte_val c) cs of
              Some n \<Rightarrow> map_option (\<lambda>(x, r). (c # take n cs @ x, r)) (unquote (drop n cs))
            | None \<Rightarrow> map_option (\<lambda>(x, r). (rune_error @ x, r)) (unquote cs)))"
  by pat_completeness auto
termination by (relation "measure length") auto

subsection \<open>Numbers\<close>

definition digits :: "string \<Rightarrow> string \<times> string" where
  "digits s = (takeWhile is_digit s, dropWhile is_digit s)"

definition lex_int :: "string \<Rightarrow> (string \<times> string) option" where
  "lex_int s =
     (case s of
        [] \<Rightarrow> None
      | c # r \<Rightarrow>
          if c = CHR ''0'' then Some ([c], r)
          else if is_digit c then Some (digits s)
          else None)"

definition lex_frac :: "string \<Rightarrow> (string \<times> string) option" where
  "lex_frac s =
     (case s of
        [] \<Rightarrow> Some ([], [])
      | c # r \<Rightarrow>
          if c = CHR ''.'' then
            (case digits r of (d, r') \<Rightarrow> if d = [] then None else Some (c # d, r'))
          else Some ([], s))"

definition lex_exp :: "string \<Rightarrow> (string \<times> string) option" where
  "lex_exp s =
     (case s of
        [] \<Rightarrow> Some ([], [])
      | c # r \<Rightarrow>
          if c = CHR ''e'' \<or> c = CHR ''E'' then
            (let (sg, r1) = (case r of
                   [] \<Rightarrow> ([], [])
                 | x # y \<Rightarrow> if x = CHR ''+'' \<or> x = CHR ''-'' then ([x], y) else ([], r))
             in case digits r1 of (d, r') \<Rightarrow> if d = [] then None else Some (c # sg @ d, r'))
          else Some ([], s))"

definition lex_number :: "string \<Rightarrow> (string \<times> string) option" where
  "lex_number s =
     (let (sg, s1) = (case s of
            [] \<Rightarrow> ([], [])
          | c # r \<Rightarrow> if c = CHR ''-'' then ([c], r) else ([], s))
      in case lex_int s1 of
           None \<Rightarrow> None
         | Some (i, s2) \<Rightarrow>
             (case lex_frac s2 of
                None \<Rightarrow> None
              | Some (f, s3) \<Rightarrow>
                  (case lex_exp s3 of
                     None \<Rightarrow> None
                   | Some (e, s4) \<Rightarrow> Some (sg @ i @ f @ e, s4))))"

definition lex_word :: "string \<Rightarrow> json \<Rightarrow> string \<Rightarrow> (json \<times> string) option" where
  "lex_word w v s = (if has_prefix s w then Some (v, drop (length w) s) else None)"

subsection \<open>Values\<close>

definition maxNestingDepth :: int where "maxNestingDepth = 10000"

lemma skip_ws_length: "length (skip_ws s) \<le> length s"
  by (simp add: skip_ws_def length_dropWhile_le)

lemma skip_ws_Cons: "skip_ws s = c # r \<Longrightarrow> length r < length s"
  using skip_ws_length [of s] by simp

text \<open>Every call of the value parser consumes input; the length tests, which make the
  recursion well founded, never fail (\<open>parse_consumes\<close>).\<close>

function parse_value :: "int \<Rightarrow> string \<Rightarrow> (json \<times> string) option"
  and parse_elems :: "int \<Rightarrow> string \<Rightarrow> (json list \<times> string) option"
  and parse_members :: "int \<Rightarrow> string \<Rightarrow> ((string \<times> json) list \<times> string) option" where
  "parse_value d s =
     (case skip_ws s of
        [] \<Rightarrow> None
      | c # r \<Rightarrow>
          if c = CHR ''{'' then
            (if d \<ge> maxNestingDepth then None
             else case skip_ws r of
                    x # r' \<Rightarrow>
                      if x = CHR ''}'' then Some (JObj [], r')
                      else map_option (\<lambda>(ms, q). (JObj ms, q)) (parse_members (d + 1) r)
                  | [] \<Rightarrow> None)
          else if c = CHR ''['' then
            (if d \<ge> maxNestingDepth then None
             else case skip_ws r of
                    x # r' \<Rightarrow>
                      if x = CHR '']'' then Some (JArr [], r')
                      else map_option (\<lambda>(vs, q). (JArr vs, q)) (parse_elems (d + 1) r)
                  | [] \<Rightarrow> None)
          else if c = quote_char then map_option (\<lambda>(x, q). (JStr x, q)) (unquote r)
          else if c = CHR ''t'' then lex_word ''true'' (JBool True) (c # r)
          else if c = CHR ''f'' then lex_word ''false'' (JBool False) (c # r)
          else if c = CHR ''n'' then lex_word ''null'' JNull (c # r)
          else map_option (\<lambda>(x, q). (JNum x, q)) (lex_number (c # r)))"
| "parse_elems d s =
     (case parse_value d s of
        None \<Rightarrow> None
      | Some (v, r) \<Rightarrow>
          (case skip_ws r of
             [] \<Rightarrow> None
           | c # r' \<Rightarrow>
               if c = CHR '']'' then Some ([v], r')
               else if c = CHR '','' \<and> length r' < length s
               then map_option (\<lambda>(vs, q). (v # vs, q)) (parse_elems d r')
               else None))"
| "parse_members d s =
     (case skip_ws s of
        [] \<Rightarrow> None
      | c # r \<Rightarrow>
          if c \<noteq> quote_char then None
          else (case unquote r of
             None \<Rightarrow> None
           | Some (k, r1) \<Rightarrow>
               (case skip_ws r1 of
                  [] \<Rightarrow> None
                | c1 # r2 \<Rightarrow>
                    if c1 \<noteq> CHR '':'' \<or> \<not> length r2 < length s then None
                    else (case parse_value d r2 of
                       None \<Rightarrow> None
                     | Some (v, r3) \<Rightarrow>
                         (case skip_ws r3 of
                            [] \<Rightarrow> None
                          | c2 # r4 \<Rightarrow>
                              if c2 = CHR ''}'' then Some ([(k, v)], r4)
                              else if c2 = CHR '','' \<and> length r4 < length s
                              then map_option (\<lambda>(ms, q). ((k, v) # ms, q)) (parse_members d r4)
                              else None)))))"
  by pat_completeness auto

termination
  by (relation "measure (\<lambda>x. case x of
        Inl (d, s) \<Rightarrow> 3 * length s
      | Inr (Inl (d, s)) \<Rightarrow> 3 * length s + 1
      | Inr (Inr (d, s)) \<Rightarrow> 3 * length s + 2)")
    (auto dest!: skip_ws_Cons)

declare parse_value.simps [simp del] parse_elems.simps [simp del] parse_members.simps [simp del]

definition json_decode :: "bytes \<Rightarrow> json option" where
  "json_decode s =
     (case parse_value 0 s of
        None \<Rightarrow> None
      | Some (v, r) \<Rightarrow> if skip_ws r = [] then Some v else None)"

section \<open>Parsing consumes input\<close>

lemma unquote_length: "unquote s = Some (x, r) \<Longrightarrow> length r < length s"
proof (induction s arbitrary: x r rule: unquote.induct)
  case 1
  then show ?case by simp
next
  case (2 c cs)
  show ?case
  proof (cases "c = quote_char")
    case True
    with "2.prems" show ?thesis by simp
  next
    case q: False
    show ?thesis
    proof (cases "c = bslash")
      case True
      with "2.prems" q obtain out n y where u: "unescape cs = Some (out, n)"
        "unquote (drop n cs) = Some (y, r)" by (auto split: option.splits)
      from "2.IH"(1) [OF q True u(1) refl u(2)] show ?thesis by simp
    next
      case b: False
      show ?thesis
      proof (cases "rune_conts (byte_val c) cs")
        case None
        with "2.prems" q b obtain y where u: "\<not> byte_val c < 32" "unquote cs = Some (y, r)"
          by (auto split: if_splits)
        from "2.IH"(2) [OF q b u(1) None u(2)] show ?thesis by simp
      next
        case (Some n)
        with "2.prems" q b obtain y where u: "\<not> byte_val c < 32" "unquote (drop n cs) = Some (y, r)"
          by (auto split: if_splits)
        from "2.IH"(3) [OF q b u(1) Some u(2)] show ?thesis by simp
      qed
    qed
  qed
qed

lemma digits_length: "digits s = (d, r) \<Longrightarrow> length r \<le> length s"
  by (auto simp: digits_def length_dropWhile_le)

lemma lex_int_length: "lex_int s = Some (x, r) \<Longrightarrow> length r < length s"
  by (cases s) (auto simp: lex_int_def digits_def split: if_splits
      intro: le_imp_less_Suc length_dropWhile_le)

lemma lex_frac_length: "lex_frac s = Some (x, r) \<Longrightarrow> length r \<le> length s"
  by (cases s) (auto simp: lex_frac_def dest: digits_length split: if_splits prod.splits)

lemma lex_exp_length: "lex_exp s = Some (x, r) \<Longrightarrow> length r \<le> length s"
  by (cases s; cases "tl s")
    (auto simp: lex_exp_def Let_def dest: digits_length split: if_splits prod.splits)

lemma lex_number_length: "lex_number s = Some (x, r) \<Longrightarrow> length r < length s"
  by (cases s) (fastforce simp: lex_number_def Let_def
      dest: lex_int_length lex_frac_length lex_exp_length split: option.splits if_splits prod.splits)+

lemma lex_word_length: "lex_word w v s = Some (x, r) \<Longrightarrow> w \<noteq> [] \<Longrightarrow> s \<noteq> [] \<Longrightarrow> length r < length s"
  by (auto simp: lex_word_def split: if_splits)

lemma parse_consumes:
  "parse_value d s = Some (v, r) \<Longrightarrow> length r < length s"
  "parse_elems d s = Some (vs, q) \<Longrightarrow> length q < length s"
  "parse_members d s = Some (ms, t) \<Longrightarrow> length t < length s"
proof (induction d s and d s and d s arbitrary: v r and vs q and ms t
    rule: parse_value_parse_elems_parse_members.induct)
  case (1 d s)
  from "1.prems" obtain c z where s: "skip_ws s = c # z"
    by (subst (asm) parse_value.simps) (auto split: list.splits)
  note len = skip_ws_Cons [OF s]
  have "length r < length (c # z)"
    using "1.prems" s "1.IH"
    by (subst (asm) parse_value.simps,
        auto split: if_splits list.splits option.splits
        dest!: unquote_length skip_ws_Cons dest: lex_word_length lex_number_length,
        (blast intro: less_SucI)+)
  with len skip_ws_length [of s] s show ?case by simp
next
  case (2 d s)
  from "2.prems" show ?case
    using "2.IH" by (subst (asm) parse_elems.simps)
      (fastforce split: if_splits list.splits option.splits dest!: skip_ws_Cons)
next
  case (3 d s)
  from "3.prems" obtain r k r1 r2 v r3 c2 r4 where
    p: "skip_ws s = quote_char # r" "unquote r = Some (k, r1)" "skip_ws r1 = CHR '':'' # r2"
      "length r2 < length s" "parse_value d r2 = Some (v, r3)" "skip_ws r3 = c2 # r4"
    and t: "c2 = CHR ''}'' \<and> t = r4 \<or>
      c2 \<noteq> CHR ''}'' \<and> (c2 = CHR '','' \<and> length r4 < length s) \<and> (\<exists>ms'. parse_members d r4 = Some (ms', t))"
    by (subst (asm) parse_members.simps) (auto split: if_splits list.splits option.splits)
  have q: "\<not> quote_char \<noteq> quote_char" and col: "\<not> (CHR '':'' \<noteq> CHR '':'' \<or> \<not> length r2 < length s)"
    using p(4) by simp_all
  have "length r4 < length r3" "length r2 < length r1" "length r1 < length r" "length r < length s"
    using p by (auto dest: skip_ws_Cons unquote_length)
  moreover have "length r3 < length r2"
    using "3.IH"(1) [OF p(1) q p(2) refl p(3) col p(5)] .
  moreover have "length t \<le> length r4"
    using t "3.IH"(2) [OF p(1) q p(2) refl p(3) col p(5) refl p(6)] by fastforce
  ultimately show ?case by linarith
qed

section \<open>Unmarshal\<close>

text \<open>Field names are compared after folding: ASCII letters to upper case, and the two runes
  outside ASCII that fold to one, the long s and the Kelvin sign.\<close>

fun fold_name :: "string \<Rightarrow> string" where
  "fold_name [] = []"
| "fold_name (c # cs) =
     (case cs of
        x # xs \<Rightarrow>
          if byte_val c = 197 \<and> byte_val x = 191 then CHR ''S'' # fold_name xs
          else (case xs of
             y # ys \<Rightarrow>
               if byte_val c = 226 \<and> byte_val x = 132 \<and> byte_val y = 170 then CHR ''K'' # fold_name ys
               else ascii_upper c # fold_name cs
           | [] \<Rightarrow> ascii_upper c # fold_name cs)
      | [] \<Rightarrow> ascii_upper c # fold_name cs)"

definition field_is :: "string \<Rightarrow> string \<Rightarrow> bool" where
  "field_is name key \<longleftrightarrow> key = name \<or> fold_name key = fold_name name"

text \<open>Decoding into a field: the new value and whether a type error was recorded.\<close>

fun into_str :: "json \<Rightarrow> string \<Rightarrow> string \<times> bool" where
  "into_str (JStr s) cur = (s, False)"
| "into_str JNull cur = (cur, False)"
| "into_str _ cur = (cur, True)"

fun into_bool :: "json \<Rightarrow> bool \<Rightarrow> bool \<times> bool" where
  "into_bool (JBool b) cur = (b, False)"
| "into_bool JNull cur = (cur, False)"
| "into_bool _ cur = (cur, True)"

fun into_opt_str :: "json \<Rightarrow> string option \<Rightarrow> string option \<times> bool" where
  "into_opt_str (JStr s) cur = (Some s, False)"
| "into_opt_str JNull cur = (None, False)"
| "into_opt_str _ cur = (Some (case cur of None \<Rightarrow> [] | Some x \<Rightarrow> x), True)"

fun dec_int :: "int \<Rightarrow> string \<Rightarrow> int" where
  "dec_int acc [] = acc"
| "dec_int acc (c # cs) = dec_int (10 * acc + int (byte_val c - 48)) cs"

text \<open>\<^verbatim>\<open>strconv.ParseInt(lit, 10, 64)\<close> on a JSON number.\<close>

definition lit_int64 :: "string \<Rightarrow> int option" where
  "lit_int64 lit =
     (let (neg, ds) = (case lit of
            [] \<Rightarrow> (False, [])
          | c # r \<Rightarrow> if c = CHR ''-'' then (True, r) else (False, lit))
      in if ds = [] \<or> \<not> list_all is_digit ds then None
         else let v = (if neg then - (dec_int 0 ds) else (dec_int 0 ds)) in
              if is_int64 v then Some v else None)"

fun into_int64 :: "json \<Rightarrow> int \<Rightarrow> int \<times> bool" where
  "into_int64 (JNum lit) cur = (case lit_int64 lit of Some v \<Rightarrow> (v, False) | None \<Rightarrow> (cur, True))"
| "into_int64 JNull cur = (cur, False)"
| "into_int64 _ cur = (cur, True)"

text \<open>Decoding an object member by member into a struct \<open>x\<close>: \<open>put\<close> handles one member.\<close>

definition into_struct ::
    "(string \<Rightarrow> json \<Rightarrow> 'x \<Rightarrow> 'x \<times> bool) \<Rightarrow> json \<Rightarrow> 'x \<Rightarrow> 'x \<times> bool" where
  "into_struct put v x =
     (case v of
        JObj ms \<Rightarrow> fold (\<lambda>(k, w) (y, e). case put k w y of (y', e') \<Rightarrow> (y', e \<or> e')) ms (x, False)
      | JNull \<Rightarrow> (x, False)
      | _ \<Rightarrow> (x, True))"

text \<open>\<^verbatim>\<open>json.Unmarshal(data, &x)\<close> with \<open>x\<close> zero before: \<open>None\<close> is an error.\<close>

definition unmarshal ::
    "(string \<Rightarrow> json \<Rightarrow> 'x \<Rightarrow> 'x \<times> bool) \<Rightarrow> bytes \<Rightarrow> 'x \<Rightarrow> 'x option" where
  "unmarshal put data x =
     (case json_decode data of
        None \<Rightarrow> None
      | Some v \<Rightarrow> (case into_struct put v x of (y, err) \<Rightarrow> if err then None else Some y))"

subsection \<open>Generic maps\<close>

text \<open>A JSON number is decoded as a float; a literal beyond the largest float is an error.\<close>

definition split_exp :: "string \<Rightarrow> string \<times> int" where
  "split_exp lit =
     (let m = takeWhile (\<lambda>c. c \<noteq> CHR ''e'' \<and> c \<noteq> CHR ''E'') lit;
          e = drop (Suc (length m)) lit
      in (m, case e of
               [] \<Rightarrow> 0
             | c # r \<Rightarrow> if c = CHR ''-'' then - (dec_int 0 r)
                        else if c = CHR ''+'' then (dec_int 0 r)
                        else (dec_int 0 e)))"

definition float_in_range :: "string \<Rightarrow> bool" where
  "float_in_range lit =
     (let (m, e) = split_exp (dropWhile (\<lambda>c. c = CHR ''-'') lit);
          ip = takeWhile (\<lambda>c. c \<noteq> CHR ''.'') m;
          fp = drop (Suc (length ip)) m;
          n = (dec_int 0 (ip @ fp));
          x = e - int (length fp);
          lim = (2 ^ 1024 - 2 ^ 970 :: int)
      in n = 0 \<or> (if x \<ge> 0 then n * 10 ^ nat x < lim else n < lim * 10 ^ nat (- x)))"

fun floats_ok :: "json \<Rightarrow> bool" where
  "floats_ok (JNum lit) = float_in_range lit"
| "floats_ok (JArr vs) = list_all floats_ok vs"
| "floats_ok (JObj ms) = list_all (\<lambda>(_, v). floats_ok v) ms"
| "floats_ok _ = True"

text \<open>\<^verbatim>\<open>var generic map[string]interface{}\<close>: the map, which is filled even when a number was out
  of range, and whether \<^verbatim>\<open>Unmarshal\<close> returned an error. The last duplicate wins.\<close>

definition unmarshal_generic :: "bytes \<Rightarrow> (string, json) gomap \<times> bool" where
  "unmarshal_generic data =
     (case json_decode data of
        Some (JObj ms) \<Rightarrow> (fold (\<lambda>(k, v) m. mput k v m) ms [], \<not> floats_ok (JObj ms))
      | Some JNull \<Rightarrow> ([], False)
      | _ \<Rightarrow> ([], True))"

section \<open>Evaluating the decoder\<close>

definition is_ctrl :: "char \<Rightarrow> bool" where "is_ctrl c \<longleftrightarrow> byte_val c < 32"

lemma is_ctrl_code [code]: "is_ctrl (Char b0 b1 b2 b3 b4 b5 b6 b7) \<longleftrightarrow> \<not> b7 \<and> \<not> b6 \<and> \<not> b5"
  unfolding is_ctrl_def byte_val_Char
  by (cases b0; cases b1; cases b2; cases b3; cases b4; cases b5; cases b6; cases b7; simp)

lemma is_ws_code [code]: "is_ws c \<longleftrightarrow> c = CHR '' '' \<or> c = CHR 0x09 \<or> c = CHR 0x0A \<or> c = CHR 0x0D"
  by (simp add: is_ws_def byte_is byte_of_consts del: byte_val_of)

lemma quote_code [code]: "quote_char = CHR 0x22" "bslash = CHR 0x5C"
  by (simp_all add: quote_char_def bslash_def byte_of_consts)

lemma unquote_code [code]:
  "unquote [] = None"
  "unquote (c # cs) =
     (if c = quote_char then Some ([], cs)
      else if c = bslash then
        (case unescape cs of
           None \<Rightarrow> None
         | Some (out, n) \<Rightarrow> map_option (\<lambda>(x, r). (out @ x, r)) (unquote (drop n cs)))
      else if is_ctrl c then None
      else if is_ascii c then map_option (\<lambda>(x, r). (c # x, r)) (unquote cs)
      else (case rune_conts (byte_val c) cs of
              Some n \<Rightarrow> map_option (\<lambda>(x, r). (c # take n cs @ x, r)) (unquote (drop n cs))
            | None \<Rightarrow> map_option (\<lambda>(x, r). (rune_error @ x, r)) (unquote cs)))"
  by (simp_all add: is_ctrl_def is_ascii_def rune_conts_def)

lemma byte_val_is:
  "byte_val c = 197 \<longleftrightarrow> c = CHR 0xC5" "byte_val c = 191 \<longleftrightarrow> c = CHR 0xBF" "byte_val c = 226 \<longleftrightarrow> c = CHR 0xE2"
  "byte_val c = 132 \<longleftrightarrow> c = CHR 0x84" "byte_val c = 170 \<longleftrightarrow> c = CHR 0xAA"
  by (simp_all add: byte_is byte_of_consts del: byte_val_of)

lemmas fold_name_code [code] = fold_name.simps(1) fold_name.simps(2) [unfolded byte_val_is]

end
