(* ===== verification/Models.thy ===== *)
theory Models
  imports Json RecvSession
begin

text \<open>
  \<^verbatim>\<open>internal/models\<close>: the bodies of the HTTP protocol and how \<^verbatim>\<open>encoding/json\<close> fills them. Go's
  embedded structs are record extensions; an \<^verbatim>\<open>int\<close> has 64 bits.
\<close>

section \<open>Device information\<close>

record DeviceInfo =
  di_ip :: string
  di_alias :: string
  di_version :: string
  di_deviceModel :: string
  di_deviceType :: string
  di_fingerprint :: string
  di_token :: string
  di_download :: bool
  di_hasWebInterface :: bool

record SenderInfo = DeviceInfo +
  si_port :: int
  si_protocol :: string

record Announcement = DeviceInfo +
  an_protocol :: string
  an_port :: int
  an_announce :: bool

definition NewDeviceInfo :: "string \<Rightarrow> string \<Rightarrow> DeviceInfo" where
  "NewDeviceInfo alias fingerprint =
     \<lparr>di_ip = [], di_alias = alias, di_version = ''2.2'', di_deviceModel = ''LocalSend-CLI'',
      di_deviceType = ''headless'', di_fingerprint = fingerprint, di_token = [], di_download = False,
      di_hasWebInterface = False\<rparr>"

definition no_info :: DeviceInfo where
  "no_info = \<lparr>di_ip = [], di_alias = [], di_version = [], di_deviceModel = [], di_deviceType = [],
     di_fingerprint = [], di_token = [], di_download = False, di_hasWebInterface = False\<rparr>"

text \<open>The fields of the embedded struct; \<open>None\<close>: not one of them.\<close>

definition put_info :: "string \<Rightarrow> json \<Rightarrow> 'a DeviceInfo_scheme \<Rightarrow> ('a DeviceInfo_scheme \<times> bool) option" where
  "put_info k v d =
     (if field_is ''alias'' k then
        Some (case into_str v (di_alias d) of (x, e) \<Rightarrow> (d\<lparr>di_alias := x\<rparr>, e))
      else if field_is ''version'' k then
        Some (case into_str v (di_version d) of (x, e) \<Rightarrow> (d\<lparr>di_version := x\<rparr>, e))
      else if field_is ''deviceModel'' k then
        Some (case into_str v (di_deviceModel d) of (x, e) \<Rightarrow> (d\<lparr>di_deviceModel := x\<rparr>, e))
      else if field_is ''deviceType'' k then
        Some (case into_str v (di_deviceType d) of (x, e) \<Rightarrow> (d\<lparr>di_deviceType := x\<rparr>, e))
      else if field_is ''fingerprint'' k then
        Some (case into_str v (di_fingerprint d) of (x, e) \<Rightarrow> (d\<lparr>di_fingerprint := x\<rparr>, e))
      else if field_is ''token'' k then
        Some (case into_str v (di_token d) of (x, e) \<Rightarrow> (d\<lparr>di_token := x\<rparr>, e))
      else if field_is ''download'' k then
        Some (case into_bool v (di_download d) of (x, e) \<Rightarrow> (d\<lparr>di_download := x\<rparr>, e))
      else if field_is ''hasWebInterface'' k then
        Some (case into_bool v (di_hasWebInterface d) of (x, e) \<Rightarrow> (d\<lparr>di_hasWebInterface := x\<rparr>, e))
      else None)"

definition put_sender_info :: "string \<Rightarrow> json \<Rightarrow> SenderInfo \<Rightarrow> SenderInfo \<times> bool" where
  "put_sender_info k v d =
     (case put_info k v d of
        Some r \<Rightarrow> r
      | None \<Rightarrow>
          if field_is ''port'' k then
            (case into_int64 v (si_port d) of (x, e) \<Rightarrow> (d\<lparr>si_port := x\<rparr>, e))
          else if field_is ''protocol'' k then
            (case into_str v (si_protocol d) of (x, e) \<Rightarrow> (d\<lparr>si_protocol := x\<rparr>, e))
          else (d, False))"

definition put_announcement :: "string \<Rightarrow> json \<Rightarrow> Announcement \<Rightarrow> Announcement \<times> bool" where
  "put_announcement k v d =
     (case put_info k v d of
        Some r \<Rightarrow> r
      | None \<Rightarrow>
          if field_is ''protocol'' k then
            (case into_str v (an_protocol d) of (x, e) \<Rightarrow> (d\<lparr>an_protocol := x\<rparr>, e))
          else if field_is ''port'' k then
            (case into_int64 v (an_port d) of (x, e) \<Rightarrow> (d\<lparr>an_port := x\<rparr>, e))
          else if field_is ''announce'' k then
            (case into_bool v (an_announce d) of (x, e) \<Rightarrow> (d\<lparr>an_announce := x\<rparr>, e))
          else (d, False))"

definition no_sender_info :: SenderInfo where
  "no_sender_info = DeviceInfo.extend no_info (SenderInfo.fields 0 [])"

definition no_announcement :: Announcement where
  "no_announcement = DeviceInfo.extend no_info (Announcement.fields [] 0 False)"

section \<open>Pointers and maps\<close>

definition into_ptr ::
    "(string \<Rightarrow> json \<Rightarrow> 'x \<Rightarrow> 'x \<times> bool) \<Rightarrow> 'x \<Rightarrow> json \<Rightarrow> 'x option \<Rightarrow> 'x option \<times> bool" where
  "into_ptr put zero v cur =
     (case v of
        JNull \<Rightarrow> (None, False)
      | _ \<Rightarrow> (case into_struct put v (case cur of None \<Rightarrow> zero | Some x \<Rightarrow> x) of
                (x, e) \<Rightarrow> (Some x, e)))"

text \<open>A map of structs: entries are decoded into a fresh struct and added to the map; a nil map
  is the empty one, since the program only reads it.\<close>

definition into_map ::
    "(string \<Rightarrow> json \<Rightarrow> 'x \<Rightarrow> 'x \<times> bool) \<Rightarrow> 'x \<Rightarrow> json \<Rightarrow> (string, 'x) gomap \<Rightarrow> (string, 'x) gomap \<times> bool" where
  "into_map put zero v cur =
     (case v of
        JObj ms \<Rightarrow> fold (\<lambda>(k, w) (m, e). case into_struct put w zero of (x, e') \<Rightarrow> (mput k x m, e \<or> e')) ms (cur, False)
      | JNull \<Rightarrow> ([], False)
      | _ \<Rightarrow> (cur, True))"

section \<open>Files and requests\<close>

definition put_metadata :: "string \<Rightarrow> json \<Rightarrow> FileMetadata \<Rightarrow> FileMetadata \<times> bool" where
  "put_metadata k v d =
     (if field_is ''modified'' k then
        (case into_str v (md_modified d) of (x, e) \<Rightarrow> (d\<lparr>md_modified := x\<rparr>, e))
      else if field_is ''accessed'' k then
        (case into_str v (md_accessed d) of (x, e) \<Rightarrow> (d\<lparr>md_accessed := x\<rparr>, e))
      else (d, False))"

definition put_file_meta :: "string \<Rightarrow> json \<Rightarrow> FileMeta \<Rightarrow> FileMeta \<times> bool" where
  "put_file_meta k v d =
     (if field_is ''id'' k then
        (case into_str v (fm_id d) of (x, e) \<Rightarrow> (d\<lparr>fm_id := x\<rparr>, e))
      else if field_is ''fileName'' k then
        (case into_str v (fm_filename d) of (x, e) \<Rightarrow> (d\<lparr>fm_filename := x\<rparr>, e))
      else if field_is ''size'' k then
        (case into_int64 v (fm_size d) of (x, e) \<Rightarrow> (d\<lparr>fm_size := x\<rparr>, e))
      else if field_is ''fileType'' k then
        (case into_str v (fm_fileMIME d) of (x, e) \<Rightarrow> (d\<lparr>fm_fileMIME := x\<rparr>, e))
      else if field_is ''sha256'' k then
        (case into_str v (fm_checksum d) of (x, e) \<Rightarrow> (d\<lparr>fm_checksum := x\<rparr>, e))
      else if field_is ''preview'' k then
        (case into_str v (fm_preview d) of (x, e) \<Rightarrow> (d\<lparr>fm_preview := x\<rparr>, e))
      else if field_is ''metadata'' k then
        (case into_ptr put_metadata \<lparr>md_modified = [], md_accessed = []\<rparr> v (fm_metadata d) of
           (x, e) \<Rightarrow> (d\<lparr>fm_metadata := x\<rparr>, e))
      else (d, False))"

definition no_file_meta :: FileMeta where
  "no_file_meta = \<lparr>fm_id = [], fm_filename = [], fm_size = 0, fm_fileMIME = [], fm_checksum = [],
     fm_preview = [], fm_metadata = None\<rparr>"

record PreUploadReq =
  pu_info :: "SenderInfo option"
  pu_files :: "(string, FileMeta) gomap"

definition put_preupload :: "string \<Rightarrow> json \<Rightarrow> PreUploadReq \<Rightarrow> PreUploadReq \<times> bool" where
  "put_preupload k v d =
     (if field_is ''info'' k then
        (case into_ptr put_sender_info no_sender_info v (pu_info d) of (x, e) \<Rightarrow> (d\<lparr>pu_info := x\<rparr>, e))
      else if field_is ''files'' k then
        (case into_map put_file_meta no_file_meta v (pu_files d) of (x, e) \<Rightarrow> (d\<lparr>pu_files := x\<rparr>, e))
      else (d, False))"

definition no_preupload :: PreUploadReq where
  "no_preupload = \<lparr>pu_info = None, pu_files = []\<rparr>"

definition metas_IsFolderTransfer :: "(string, FileMeta) gomap \<Rightarrow> bool" where
  "metas_IsFolderTransfer fm = list_ex (\<lambda>(_, meta). str_contains (fm_filename meta) [sep]) fm"

definition put_nonce_request :: "string \<Rightarrow> json \<Rightarrow> string \<Rightarrow> string \<times> bool" where
  "put_nonce_request k v d = (if field_is ''nonce'' k then into_str v d else (d, False))"

record RegisterRequestV3 =
  rq3_alias :: string
  rq3_version :: string
  rq3_deviceModel :: string
  rq3_deviceType :: string
  rq3_token :: string
  rq3_port :: int
  rq3_protocol :: string
  rq3_hasWebInterface :: bool

definition put_register_v3 :: "string \<Rightarrow> json \<Rightarrow> RegisterRequestV3 \<Rightarrow> RegisterRequestV3 \<times> bool" where
  "put_register_v3 k v d =
     (if field_is ''alias'' k then
        (case into_str v (rq3_alias d) of (x, e) \<Rightarrow> (d\<lparr>rq3_alias := x\<rparr>, e))
      else if field_is ''version'' k then
        (case into_str v (rq3_version d) of (x, e) \<Rightarrow> (d\<lparr>rq3_version := x\<rparr>, e))
      else if field_is ''deviceModel'' k then
        (case into_str v (rq3_deviceModel d) of (x, e) \<Rightarrow> (d\<lparr>rq3_deviceModel := x\<rparr>, e))
      else if field_is ''deviceType'' k then
        (case into_str v (rq3_deviceType d) of (x, e) \<Rightarrow> (d\<lparr>rq3_deviceType := x\<rparr>, e))
      else if field_is ''token'' k then
        (case into_str v (rq3_token d) of (x, e) \<Rightarrow> (d\<lparr>rq3_token := x\<rparr>, e))
      else if field_is ''port'' k then
        (case into_int64 v (rq3_port d) of (x, e) \<Rightarrow> (d\<lparr>rq3_port := x\<rparr>, e))
      else if field_is ''protocol'' k then
        (case into_str v (rq3_protocol d) of (x, e) \<Rightarrow> (d\<lparr>rq3_protocol := x\<rparr>, e))
      else if field_is ''hasWebInterface'' k then
        (case into_bool v (rq3_hasWebInterface d) of (x, e) \<Rightarrow> (d\<lparr>rq3_hasWebInterface := x\<rparr>, e))
      else (d, False))"

record RegisterResponseV3 =
  rs3_alias :: string
  rs3_version :: string
  rs3_deviceModel :: string
  rs3_deviceType :: string
  rs3_token :: string
  rs3_hasWebInterface :: bool

section \<open>What decoding guarantees\<close>

lemma into_int64_range: "is_int64 cur \<Longrightarrow> is_int64 (fst (into_int64 v cur))"
  by (cases v) (auto simp: lit_int64_def Let_def split: option.split prod.splits if_splits list.splits)

lemma into_struct_inv:
  assumes "\<And>k w y. P y \<Longrightarrow> P (fst (put k w y))" and "P x"
  shows "P (fst (into_struct put v x))"
proof -
  have "P (fst (fold (\<lambda>(k, w) (y, e). case put k w y of (y', e') \<Rightarrow> (y', e \<or> e')) ms (y, e)))"
    if "P y" for ms y e
    using that
  proof (induction ms arbitrary: y e)
    case Nil
    then show ?case by simp
  next
    case (Cons m ms)
    obtain k w where m: "m = (k, w)" by (cases m)
    have "P (fst (put k w y))" by (rule assms(1) [OF Cons.prems])
    then show ?case using Cons.IH [of "fst (put k w y)"] m by (simp add: case_prod_beta)
  qed
  from this [OF assms(2)] assms(2) show ?thesis by (cases v) (auto simp: into_struct_def)
qed

definition sizes_int64 :: "(string, FileMeta) gomap \<Rightarrow> bool" where
  "sizes_int64 m \<longleftrightarrow> list_all (\<lambda>x. is_int64 (fm_size (snd x))) m"

lemma put_file_meta_size: "is_int64 (fm_size d) \<Longrightarrow> is_int64 (fm_size (fst (put_file_meta k v d)))"
  using into_int64_range [of "fm_size d" v] by (auto simp: put_file_meta_def split: prod.split)

lemma into_map_inv:
  assumes "\<And>k w y. P y \<Longrightarrow> P (fst (put k w y))" and "P zero"
    and "mwf cur" and "list_all (\<lambda>x. P (snd x)) cur"
  shows "mwf (fst (into_map put zero v cur)) \<and> list_all (\<lambda>x. P (snd x)) (fst (into_map put zero v cur))"
proof -
  let ?f = "\<lambda>(k, w) (m, e). case into_struct put w zero of (x, e') \<Rightarrow> (mput k x m, e \<or> e')"
  have "mwf (fst (fold ?f ms (m, e))) \<and> list_all (\<lambda>x. P (snd x)) (fst (fold ?f ms (m, e)))"
    if "mwf m" "list_all (\<lambda>x. P (snd x)) m" for ms m e
    using that
  proof (induction ms arbitrary: m e)
    case Nil
    then show ?case by simp
  next
    case (Cons x ms)
    obtain k w where x: "x = (k, w)" by (cases x)
    have "P (fst (into_struct put w zero))" by (rule into_struct_inv [OF assms(1,2)])
    then have "list_all (\<lambda>x. P (snd x)) (mput k (fst (into_struct put w zero)) m)"
      using Cons.prems by (auto simp: list_all_iff set_mput_wf)
    from Cons.IH [OF mwf_mput [OF Cons.prems(1)] this] x show ?case
      by (simp add: case_prod_beta)
  qed
  from this [OF assms(3,4)] assms(3,4) show ?thesis by (cases v) (auto simp: into_map_def)
qed

text \<open>A decoded request has distinct file ids and sizes that fit \<^verbatim>\<open>int64\<close>.\<close>

lemma preupload_wf:
  assumes "unmarshal put_preupload data no_preupload = Some req"
  shows "mwf (pu_files req) \<and> sizes_int64 (pu_files req)"
proof -
  have step: "mwf (pu_files (fst (put_preupload k w y))) \<and> sizes_int64 (pu_files (fst (put_preupload k w y)))"
    if h: "mwf (pu_files y) \<and> sizes_int64 (pu_files y)" for k w y
  proof -
    have "is_int64 (fm_size no_file_meta)"
      by (simp add: no_file_meta_def is_int64_def int64_min_def int64_max_def)
    with h into_map_inv [of "\<lambda>fm. is_int64 (fm_size fm)" put_file_meta no_file_meta "pu_files y" w]
    show ?thesis
      by (auto simp: put_preupload_def sizes_int64_def put_file_meta_size split: prod.split)
  qed
  from assms obtain v e where "into_struct put_preupload v no_preupload = (req, e)"
    by (auto simp: unmarshal_def split: option.splits prod.splits if_splits)
  then have v: "req = fst (into_struct put_preupload v no_preupload)" by simp
  show ?thesis unfolding v
    by (rule into_struct_inv [where P = "\<lambda>y. mwf (pu_files y) \<and> sizes_int64 (pu_files y)"])
      (use step in \<open>auto simp: no_preupload_def sizes_int64_def\<close>)
qed

end
