(* ===== verification/RateLimit.thy ===== *)
theory RateLimit
  imports Prelude
begin

text \<open>
  \<^verbatim>\<open>internal/utils/ratelimit.go\<close>: failed attempts per client and a temporary block. Times
  are nanoseconds as \<open>int\<close>; the clock is an argument of each operation. The locale
  \<open>guess_limiter\<close> is what a PIN check relies on, \<open>pin_gate\<close> the check itself, shared by the
  HTTP receiver and the reverse sender.
\<close>

section \<open>The limiter\<close>

record attemptInfo =
  at_count :: int
  blockedAt :: int
  lastAttempt :: int

record RateLimiter =
  attempts :: "(string, attemptInfo) gomap"
  maxAttempts :: int
  blockDuration :: int

definition NewRateLimiter :: "int \<Rightarrow> int \<Rightarrow> RateLimiter" where
  "NewRateLimiter mx dur = \<lparr>attempts = [], maxAttempts = mx, blockDuration = dur\<rparr>"

definition IsBlocked :: "RateLimiter \<Rightarrow> int \<Rightarrow> string \<Rightarrow> RateLimiter \<times> bool" where
  "IsBlocked rl now clientID =
     (case mget (attempts rl) clientID of
        None \<Rightarrow> (rl, False)
      | Some info \<Rightarrow>
          if at_count info \<ge> maxAttempts rl
          then if now - blockedAt info > blockDuration rl
               then (rl\<lparr>attempts := mdel clientID (attempts rl)\<rparr>, False)
               else (rl, True)
          else (rl, False))"

definition RecordAttempt :: "RateLimiter \<Rightarrow> int \<Rightarrow> string \<Rightarrow> RateLimiter \<times> bool" where
  "RecordAttempt rl now clientID =
     (let info = (case mget (attempts rl) clientID of
                    None \<Rightarrow> \<lparr>at_count = 0, blockedAt = 0, lastAttempt = 0\<rparr>
                  | Some i \<Rightarrow> i);
          info1 = info\<lparr>at_count := at_count info + 1, lastAttempt := now\<rparr>;
          hit = at_count info1 \<ge> maxAttempts rl;
          info2 = (if hit then info1\<lparr>blockedAt := now\<rparr> else info1)
      in (rl\<lparr>attempts := mput clientID info2 (attempts rl)\<rparr>, hit))"

definition Clear :: "RateLimiter \<Rightarrow> string \<Rightarrow> RateLimiter" where
  "Clear rl clientID = rl\<lparr>attempts := mdel clientID (attempts rl)\<rparr>"

definition expired :: "RateLimiter \<Rightarrow> int \<Rightarrow> attemptInfo \<Rightarrow> bool" where
  "expired rl now info \<longleftrightarrow>
     at_count info \<ge> maxAttempts rl \<and> now - blockedAt info > blockDuration rl \<or>
     at_count info < maxAttempts rl \<and> now - lastAttempt info > blockDuration rl"

definition CleanupExpired :: "RateLimiter \<Rightarrow> int \<Rightarrow> RateLimiter \<times> nat" where
  "CleanupExpired rl now =
     (rl\<lparr>attempts := filter (\<lambda>(_, info). \<not> expired rl now info) (attempts rl)\<rparr>,
      length (filter (\<lambda>(_, info). expired rl now info) (attempts rl)))"

definition Count :: "RateLimiter \<Rightarrow> nat" where
  "Count rl = length (attempts rl)"

definition GetAttempts :: "RateLimiter \<Rightarrow> string \<Rightarrow> int" where
  "GetAttempts rl clientID =
     (case mget (attempts rl) clientID of Some info \<Rightarrow> at_count info | None \<Rightarrow> 0)"

section \<open>The limiter's invariant and basic facts\<close>

definition rl_wf :: "RateLimiter \<Rightarrow> bool" where
  "rl_wf rl \<longleftrightarrow> mwf (attempts rl) \<and> list_all (\<lambda>(_, info). 1 \<le> at_count info) (attempts rl)"

lemma rl_wf_New: "rl_wf (NewRateLimiter mx dur)"
  by (simp add: rl_wf_def NewRateLimiter_def)

lemma rl_wf_IsBlocked: "rl_wf rl \<Longrightarrow> rl_wf (fst (IsBlocked rl now c))"
  by (auto simp: rl_wf_def IsBlocked_def list_all_iff set_mdel split: option.splits)

lemma rl_wf_Record: "rl_wf rl \<Longrightarrow> rl_wf (fst (RecordAttempt rl now c))"
  by (fastforce simp: rl_wf_def RecordAttempt_def Let_def list_all_iff set_mput_wf
      split: option.splits dest: map_of_SomeD)

lemma rl_wf_Clear: "rl_wf rl \<Longrightarrow> rl_wf (Clear rl c)"
  by (auto simp: rl_wf_def Clear_def list_all_iff set_mdel)

lemma rl_wf_Cleanup: "rl_wf rl \<Longrightarrow> rl_wf (fst (CleanupExpired rl now))"
  by (auto simp: rl_wf_def CleanupExpired_def list_all_iff)

lemma limits_kept [simp]:
  "maxAttempts (fst (IsBlocked rl now c)) = maxAttempts rl"
  "blockDuration (fst (IsBlocked rl now c)) = blockDuration rl"
  "maxAttempts (fst (RecordAttempt rl now c)) = maxAttempts rl"
  "blockDuration (fst (RecordAttempt rl now c)) = blockDuration rl"
  "maxAttempts (Clear rl c) = maxAttempts rl"
  "blockDuration (Clear rl c) = blockDuration rl"
  by (auto simp: IsBlocked_def RecordAttempt_def Clear_def Let_def split: option.splits)

text \<open>Since when a client is blocked.\<close>

definition blocked_since :: "RateLimiter \<Rightarrow> string \<Rightarrow> int option" where
  "blocked_since rl c =
     (case mget (attempts rl) c of
        None \<Rightarrow> None
      | Some info \<Rightarrow> if at_count info \<ge> maxAttempts rl then Some (blockedAt info) else None)"

section \<open>The contract of a limiter, and the PIN check\<close>

text \<open>
  The check of a PIN (\<^verbatim>\<open>validatePIN\<close>): no PIN expected passes, a blocked client gets 429,
  a missing PIN is a challenge (401), a wrong one is recorded (401), the right one clears.
\<close>

definition pin_gate ::
    "('l \<Rightarrow> int \<Rightarrow> string \<Rightarrow> 'l \<times> bool) \<Rightarrow> ('l \<Rightarrow> int \<Rightarrow> string \<Rightarrow> 'l \<times> bool) \<Rightarrow>
     ('l \<Rightarrow> string \<Rightarrow> 'l) \<Rightarrow> string \<Rightarrow> 'l \<Rightarrow> int \<Rightarrow> string \<Rightarrow> string option \<Rightarrow> 'l \<times> int" where
  "pin_gate isb rec clr expectedPin l now ip given =
     (if expectedPin = [] then (l, 0)
      else case isb l now ip of
        (l1, True) \<Rightarrow> (l1, 429)
      | (l1, False) \<Rightarrow>
          (case given of
             None \<Rightarrow> (l1, 401)
           | Some pin \<Rightarrow> if pin \<noteq> expectedPin then (fst (rec l1 now ip), 401)
                         else (clr l1 ip, 0)))"

fun gate_run ::
    "('l \<Rightarrow> int \<Rightarrow> string \<Rightarrow> string option \<Rightarrow> 'l \<times> int) \<Rightarrow> 'l \<Rightarrow>
     (int \<times> string \<times> string option) list \<Rightarrow> 'l \<times> int list" where
  "gate_run g l [] = (l, [])"
| "gate_run g l ((now, ip, given) # reqs) =
     (case g l now ip given of (l1, st) \<Rightarrow>
        (case gate_run g l1 reqs of (l2, sts) \<Rightarrow> (l2, st # sts)))"

locale guess_limiter =
  fixes isb :: "'l \<Rightarrow> int \<Rightarrow> string \<Rightarrow> 'l \<times> bool"
    and rec :: "'l \<Rightarrow> int \<Rightarrow> string \<Rightarrow> 'l \<times> bool"
    and clr :: "'l \<Rightarrow> string \<Rightarrow> 'l"
    and since :: "'l \<Rightarrow> string \<Rightarrow> int option"
    and dur :: "'l \<Rightarrow> int"
  assumes isb_iff: "snd (isb l now c) \<longleftrightarrow> (\<exists>t. since l c = Some t \<and> now - t \<le> dur l)"
    and isb_since: "snd (isb l now c) \<Longrightarrow> since (fst (isb l now c)) d = since l d"
    and isb_other: "d \<noteq> c \<Longrightarrow> since (fst (isb l now c)) d = since l d"
    and rec_hit: "snd (rec l now c) \<Longrightarrow> since (fst (rec l now c)) c = Some now"
    and rec_other: "d \<noteq> c \<Longrightarrow> since (fst (rec l now c)) d = since l d"
    and clr_other: "d \<noteq> c \<Longrightarrow> since (clr l c) d = since l d"
    and dur_kept: "dur (fst (isb l now c)) = dur l" "dur (fst (rec l now c)) = dur l"
      "dur (clr l c) = dur l"
begin

lemma gate_ok:
  "snd (pin_gate isb rec clr expected l now ip given) = 0 \<Longrightarrow> expected = [] \<or> given = Some expected"
  by (auto simp: pin_gate_def split: if_splits prod.splits bool.splits option.splits)

lemma gate_dur: "dur (fst (pin_gate isb rec clr expected l now ip given)) = dur l"
  using dur_kept by (auto simp: pin_gate_def split: prod.splits bool.splits option.splits)
    (metis fst_conv)+

text \<open>A blocked client is answered 429 whatever PIN it sends, and stays blocked.\<close>

lemma gate_blocked:
  assumes "since l c = Some t" and "now - t \<le> dur l" and "expected \<noteq> []"
  shows "snd (pin_gate isb rec clr expected l now c given) = 429"
    and "since (fst (pin_gate isb rec clr expected l now c given)) d = since l d"
proof -
  have b: "snd (isb l now c)" using assms isb_iff by blast
  then have e: "isb l now c = (fst (isb l now c), True)" by (metis prod.collapse)
  have "pin_gate isb rec clr expected l now c given = (fst (isb l now c), 429)"
    using assms(3) by (subst pin_gate_def, subst e) simp
  then show "snd (pin_gate isb rec clr expected l now c given) = 429"
    and "since (fst (pin_gate isb rec clr expected l now c given)) d = since l d"
    using isb_since [OF b] by simp_all
qed

lemma gate_other:
  assumes "d \<noteq> ip"
  shows "since (fst (pin_gate isb rec clr expected l now ip given)) d = since l d"
  using isb_other [OF assms] rec_other [OF assms] clr_other [OF assms]
  by (auto simp: pin_gate_def split: prod.splits bool.splits option.splits)
    (metis fst_conv)+

lemma run_blocked:
  assumes "since l c = Some t" and "expected \<noteq> []"
    and "list_all (\<lambda>r. fst r - t \<le> dur l) reqs"
    and "gate_run (pin_gate isb rec clr expected) l reqs = (l', sts)"
  shows "since l' c = Some t \<and>
    list_all2 (\<lambda>r st. fst (snd r) = c \<longrightarrow> st = 429) reqs sts"
  using assms
proof (induction reqs arbitrary: l l' sts)
  case Nil
  then show ?case by simp
next
  case (Cons r reqs)
  obtain now ip given where r: "r = (now, ip, given)" by (cases r)
  let ?g = "pin_gate isb rec clr expected l now ip given"
  from Cons.prems(4) r obtain sts' where
    run: "gate_run (pin_gate isb rec clr expected) (fst ?g) reqs = (l', sts')"
    and sts: "sts = snd ?g # sts'"
    by (auto split: prod.splits)
  have now: "now - t \<le> dur l" and rest: "list_all (\<lambda>r. fst r - t \<le> dur l) reqs"
    using Cons.prems(3) r by simp_all
  have since: "since (fst ?g) c = Some t"
    using gate_blocked(2) [OF Cons.prems(1) now Cons.prems(2)] gate_other Cons.prems(1)
    by (cases "ip = c") auto
  have "ip = c \<longrightarrow> snd ?g = 429"
    using gate_blocked(1) [OF Cons.prems(1) now Cons.prems(2)] by auto
  moreover have "list_all (\<lambda>r. fst r - t \<le> dur (fst ?g)) reqs"
    using rest by (simp add: gate_dur)
  ultimately show ?case
    using Cons.IH [OF since Cons.prems(2) _ run] sts r by simp
qed

end

interpretation rl: guess_limiter IsBlocked RecordAttempt Clear blocked_since blockDuration
  by unfold_locales
    (auto simp: IsBlocked_def RecordAttempt_def Clear_def blocked_since_def Let_def
      split: option.splits if_splits)

section \<open>Bounding guesses\<close>

text \<open>The wrong PINs of a client that were compared with the expected one.\<close>

definition compared :: "string \<Rightarrow> (int \<times> string \<times> string option) list \<Rightarrow> int list \<Rightarrow> nat" where
  "compared c reqs sts =
     length (filter (\<lambda>((now, ip, given), st). ip = c \<and> given \<noteq> None \<and> st \<noteq> 429) (zip reqs sts))"

abbreviation limiter_gate ::
    "string \<Rightarrow> RateLimiter \<Rightarrow> int \<Rightarrow> string \<Rightarrow> string option \<Rightarrow> RateLimiter \<times> int" where
  "limiter_gate \<equiv> pin_gate IsBlocked RecordAttempt Clear"

text \<open>What one request can do to the count of a client while its block cannot expire.\<close>

definition window_ok :: "RateLimiter \<Rightarrow> string \<Rightarrow> int \<Rightarrow> bool" where
  "window_ok l c t0 \<longleftrightarrow>
     (case mget (attempts l) c of None \<Rightarrow> True
      | Some i \<Rightarrow> 0 \<le> at_count i \<and> at_count i \<le> max 0 (maxAttempts l) \<and>
          (at_count i \<ge> maxAttempts l \<longrightarrow> t0 \<le> blockedAt i))"

lemma gate_limits:
  "maxAttempts (fst (limiter_gate expected l now ip given)) = maxAttempts l"
  "blockDuration (fst (limiter_gate expected l now ip given)) = blockDuration l"
  by (simp_all add: pin_gate_def case_prod_beta split: bool.split option.split)

lemma gate_other_get:
  "ip \<noteq> c \<Longrightarrow>
   mget (attempts (fst (limiter_gate expected l now ip given))) c = mget (attempts l) c"
  by (simp add: pin_gate_def IsBlocked_def RecordAttempt_def Clear_def Let_def split: option.split)

lemma window_IsBlocked:
  assumes "window_ok l c t0" and "now \<le> t0 + blockDuration l" and "1 \<le> maxAttempts l"
  shows "IsBlocked l now c = (l, maxAttempts l \<le> GetAttempts l c)"
  using assms by (auto simp: window_ok_def IsBlocked_def GetAttempts_def split: option.splits)

lemma window_Record:
  assumes "window_ok l c t0" and "t0 \<le> now" and "GetAttempts l c < maxAttempts l"
  shows "window_ok (fst (RecordAttempt l now c)) c t0"
    and "GetAttempts (fst (RecordAttempt l now c)) c = GetAttempts l c + 1"
  using assms by (auto simp: window_ok_def RecordAttempt_def GetAttempts_def Let_def
      split: option.splits)

lemma gate_step_window:
  assumes "window_ok l c t0" and "t0 \<le> now" and "now \<le> t0 + blockDuration l" and "expected \<noteq> []"
    and "ip = c \<longrightarrow> given \<noteq> Some expected" and "1 \<le> maxAttempts l"
  shows "window_ok (fst (limiter_gate expected l now ip given)) c t0 \<and>
    GetAttempts (fst (limiter_gate expected l now ip given)) c =
      GetAttempts l c + (if ip = c \<and> given \<noteq> None \<and>
        snd (limiter_gate expected l now ip given) \<noteq> 429 then 1 else 0)"
proof (cases "ip = c")
  case False
  then show ?thesis using assms(1)
    by (auto simp: window_ok_def GetAttempts_def gate_other_get gate_limits split: option.splits)
next
  case True
  note isb = window_IsBlocked [OF assms(1,3,6)]
  show ?thesis
  proof (cases "maxAttempts l \<le> GetAttempts l c \<or> given = None")
    case True
    with isb assms(1,4) \<open>ip = c\<close> show ?thesis
      by (cases "maxAttempts l \<le> GetAttempts l c") (auto simp: pin_gate_def)
  next
    case False
    then obtain pin where pin: "given = Some pin" "pin \<noteq> expected" and
      lt: "GetAttempts l c < maxAttempts l" using assms(5) \<open>ip = c\<close> by auto
    with isb assms(4) \<open>ip = c\<close>
    have "limiter_gate expected l now ip given = (fst (RecordAttempt l now c), 401)"
      by (simp add: pin_gate_def)
    with window_Record [OF assms(1,2) lt] \<open>ip = c\<close> pin show ?thesis by simp
  qed
qed

lemma window_GetAttempts: "window_ok l c t0 \<Longrightarrow> 1 \<le> maxAttempts l \<Longrightarrow> GetAttempts l c \<le> maxAttempts l"
  by (auto simp: window_ok_def GetAttempts_def split: option.splits)

lemma gate_run_window:
  assumes "gate_run (limiter_gate expected) l reqs = (l', sts)"
    and "window_ok l c t0" and "expected \<noteq> []" and "1 \<le> maxAttempts l"
    and "list_all (\<lambda>r. t0 \<le> fst r \<and> fst r \<le> t0 + blockDuration l \<and>
      (fst (snd r) = c \<longrightarrow> snd (snd r) \<noteq> Some expected)) reqs"
  shows "GetAttempts l c + int (compared c reqs sts) \<le> maxAttempts l"
  using assms
proof (induction reqs arbitrary: l l' sts)
  case Nil
  then show ?case by (simp add: compared_def window_GetAttempts)
next
  case (Cons r reqs)
  obtain now ip given where r: "r = (now, ip, given)" by (cases r)
  let ?g = "limiter_gate expected l now ip given"
  from Cons.prems(1) r obtain sts' where
    run: "gate_run (limiter_gate expected) (fst ?g) reqs = (l', sts')" and sts: "sts = snd ?g # sts'"
    by (auto split: prod.splits)
  have g: "t0 \<le> now" "now \<le> t0 + blockDuration l" "ip = c \<longrightarrow> given \<noteq> Some expected"
    using Cons.prems(5) r by simp_all
  note step = gate_step_window [OF Cons.prems(2) g(1,2) Cons.prems(3) g(3) Cons.prems(4)]
  have "GetAttempts (fst ?g) c + int (compared c reqs sts') \<le> maxAttempts (fst ?g)"
    using Cons.IH [OF run conjunct1 [OF step] Cons.prems(3)] Cons.prems(4,5)
    by (simp add: gate_limits)
  moreover have "int (compared c (r # reqs) sts) =
      (if ip = c \<and> given \<noteq> None \<and> snd ?g \<noteq> 429 then 1 else 0) + int (compared c reqs sts')"
    by (simp add: compared_def sts r)
  ultimately show ?case using step by (simp add: gate_limits)
qed

section \<open>Properties\<close>



text \<open>A blocked client stays blocked. Once the limit was reached at time \<open>t\<close>, every
  request of that client until \<open>t + blockDuration\<close> is answered 429, even with the right PIN
  and whatever other clients do in between, and the block is not prolonged by them.\<close>

theorem pin_block_lasts:
  assumes "blocked_since l c = Some t" and "expected \<noteq> []"
    and "list_all (\<lambda>r. fst r - t \<le> blockDuration l) reqs"
    and "gate_run (limiter_gate expected) l reqs = (l', sts)"
  shows "blocked_since l' c = Some t \<and>
    list_all2 (\<lambda>r st. fst (snd r) = c \<longrightarrow> st = 429) reqs sts"
  using assms by (rule rl.run_blocked)

theorem pin_block_lasts_witness:
  "\<exists>l' sts. gate_run (limiter_gate ''1'')
      \<lparr>attempts = [(''a'', \<lparr>at_count = 3, blockedAt = 5, lastAttempt = 5\<rparr>)], maxAttempts = 3,
       blockDuration = 30\<rparr> [(7, ''b'', Some ''1''), (35, ''a'', Some ''1'')] = (l', sts) \<and>
     blocked_since l' ''a'' = Some 5 \<and>
     list_all2 (\<lambda>r st. fst (snd r) = ''a'' \<longrightarrow> st = 429)
       [(7::int, ''b'', Some ''1''), (35, ''a'', Some ''1'')] sts"
proof -
  let ?l = "\<lparr>attempts = [(''a'', \<lparr>at_count = 3, blockedAt = 5, lastAttempt = 5\<rparr>)],
    maxAttempts = 3, blockDuration = 30\<rparr>"
  let ?r = "[(7::int, ''b'', Some ''1''), (35, ''a'', Some ''1'')]"
  have b: "blocked_since ?l ''a'' = Some 5" by code_simp
  obtain l' sts where run: "gate_run (limiter_gate ''1'') ?l ?r = (l', sts)" by fastforce
  from pin_block_lasts [OF b _ _ run] run show ?thesis by simp
qed

text \<open>The cleanup of old entries never lifts a block: at the time of the cleanup and
  later, every client gets the same answer as without it.\<close>

theorem cleanup_keeps_blocks:
  assumes "rl_wf rl" and "now \<le> now'"
  shows "snd (IsBlocked (fst (CleanupExpired rl now)) now' c) = snd (IsBlocked rl now' c)"
proof (cases "mget (attempts rl) c")
  case None
  then show ?thesis
    using assms(1) by (simp add: IsBlocked_def CleanupExpired_def mget_filter_wf rl_wf_def)
next
  case (Some i)
  then show ?thesis
    using assms
    by (auto simp: IsBlocked_def CleanupExpired_def mget_filter_wf rl_wf_def expired_def)
qed

theorem cleanup_keeps_blocks_witness:
  "snd (IsBlocked (fst (CleanupExpired (fst (RecordAttempt (NewRateLimiter 1 30) 5 ''a'')) 20))
     35 ''a'')"
proof -
  have w: "rl_wf (fst (RecordAttempt (NewRateLimiter 1 30) 5 ''a''))" by code_simp
  have "snd (IsBlocked (fst (RecordAttempt (NewRateLimiter 1 30) 5 ''a'')) 35 ''a'')" by code_simp
  with cleanup_keeps_blocks [OF w, of 20 35 "''a''"] show ?thesis by simp
qed

end
