(* ===== verification/NonceCache.thy ===== *)
theory NonceCache
  imports GoText
begin

text \<open>
  \<^verbatim>\<open>internal/localsend/nonce_cache.go\<close>: an LRU cache made of Go's doubly linked list, front
  first, and a map from client to list element. Elements are named by numbers (the pointers
  of the source). The abstract cache is the list of clients and nonces by recency; the
  lemmas show that the pointer structure implements it.
\<close>

section \<open>The pointer structure\<close>

record cacheEntry =
  ce_clientID :: string
  ce_nonce :: bytes

record NonceCache =
  nc_capacity :: int
  nc_cache :: "(string, nat) gomap"
  nc_lru :: "(nat, cacheEntry) gomap"
  nc_fresh :: nat

definition NewNonceCache :: "int \<Rightarrow> NonceCache" where
  "NewNonceCache cap = \<lparr>nc_capacity = cap, nc_cache = [], nc_lru = [], nc_fresh = 0\<rparr>"

text \<open>\<^verbatim>\<open>list.MoveToFront\<close>.\<close>

definition move_to_front :: "nat \<Rightarrow> (nat, cacheEntry) gomap \<Rightarrow> (nat, cacheEntry) gomap" where
  "move_to_front e l = (case mget l e of None \<Rightarrow> l | Some v \<Rightarrow> (e, v) # mdel e l)"

definition nc_put :: "NonceCache \<Rightarrow> string \<Rightarrow> bytes \<Rightarrow> NonceCache" where
  "nc_put nc clientID nonce =
     (case mget (nc_cache nc) clientID of
        Some e \<Rightarrow>
          let l = move_to_front e (nc_lru nc) in
          nc\<lparr>nc_lru := (case mget l e of
                          None \<Rightarrow> l
                        | Some entry \<Rightarrow> mput e (entry\<lparr>ce_nonce := nonce\<rparr>) l)\<rparr>
      | None \<Rightarrow>
          let e = nc_fresh nc;
              l = (e, \<lparr>ce_clientID = clientID, ce_nonce = nonce\<rparr>) # nc_lru nc;
              c = mput clientID e (nc_cache nc)
          in if int (length l) > nc_capacity nc
             then let oldest = last l in
                  nc\<lparr>nc_lru := mdel (fst oldest) l, nc_cache := mdel (ce_clientID (snd oldest)) c,
                     nc_fresh := Suc e\<rparr>
             else nc\<lparr>nc_lru := l, nc_cache := c, nc_fresh := Suc e\<rparr>)"

definition nc_get :: "NonceCache \<Rightarrow> string \<Rightarrow> NonceCache \<times> bytes option" where
  "nc_get nc clientID =
     (case mget (nc_cache nc) clientID of
        None \<Rightarrow> (nc, None)
      | Some e \<Rightarrow>
          (nc\<lparr>nc_lru := move_to_front e (nc_lru nc)\<rparr>,
           map_option ce_nonce (mget (nc_lru nc) e)))"

definition nc_delete :: "NonceCache \<Rightarrow> string \<Rightarrow> NonceCache" where
  "nc_delete nc clientID =
     (case mget (nc_cache nc) clientID of
        None \<Rightarrow> nc
      | Some e \<Rightarrow> nc\<lparr>nc_lru := mdel e (nc_lru nc), nc_cache := mdel clientID (nc_cache nc)\<rparr>)"

section \<open>The abstract cache\<close>

type_synonym recency = "(string \<times> bytes) list"

definition spec_put :: "int \<Rightarrow> string \<Rightarrow> bytes \<Rightarrow> recency \<Rightarrow> recency" where
  "spec_put cap k v xs =
     (if k \<in> fst ` set xs then (k, v) # filter (\<lambda>x. fst x \<noteq> k) xs
      else if int (Suc (length xs)) > cap then butlast ((k, v) # xs)
      else (k, v) # xs)"

definition spec_get :: "string \<Rightarrow> recency \<Rightarrow> recency \<times> bytes option" where
  "spec_get k xs =
     (case map_of xs k of
        None \<Rightarrow> (xs, None)
      | Some v \<Rightarrow> ((k, v) # filter (\<lambda>x. fst x \<noteq> k) xs, Some v))"

definition nc_abs :: "NonceCache \<Rightarrow> recency" where
  "nc_abs nc = map (\<lambda>(_, e). (ce_clientID e, ce_nonce e)) (nc_lru nc)"

text \<open>The map and the list name the same entries, each client once.\<close>

definition nc_ok :: "NonceCache \<Rightarrow> bool" where
  "nc_ok nc \<longleftrightarrow>
     mwf (nc_lru nc) \<and> mwf (nc_cache nc) \<and>
     list_all (\<lambda>(e, _). e < nc_fresh nc) (nc_lru nc) \<and>
     distinct (map (\<lambda>(_, v). ce_clientID v) (nc_lru nc)) \<and>
     set (nc_cache nc) = (\<lambda>(e, v). (ce_clientID v, e)) ` set (nc_lru nc)"

lemma nc_ok_New: "nc_ok (NewNonceCache cap)"
  by (simp add: nc_ok_def NewNonceCache_def)

lemma cache_lookup:
  assumes "nc_ok nc"
  shows "mget (nc_cache nc) c = Some e \<longleftrightarrow> (\<exists>v. mget (nc_lru nc) e = Some v \<and> ce_clientID v = c)"
proof -
  have "mget (nc_cache nc) c = Some e \<longleftrightarrow> (c, e) \<in> set (nc_cache nc)"
    using assms by (auto simp: nc_ok_def in_set_mget dest: map_of_SomeD)
  also have "\<dots> \<longleftrightarrow> (\<exists>v. (e, v) \<in> set (nc_lru nc) \<and> ce_clientID v = c)"
    using assms by (force simp: nc_ok_def image_iff)
  also have "\<dots> \<longleftrightarrow> (\<exists>v. mget (nc_lru nc) e = Some v \<and> ce_clientID v = c)"
    using assms by (auto simp: nc_ok_def in_set_mget dest: map_of_SomeD)
  finally show ?thesis .
qed

lemma cache_None:
  assumes "nc_ok nc"
  shows "mget (nc_cache nc) c = None \<longleftrightarrow> c \<notin> fst ` set (nc_abs nc)"
proof -
  have "fst ` set (nc_cache nc) = fst ` set (nc_abs nc)"
    using assms by (force simp: nc_ok_def nc_abs_def image_iff)
  then show ?thesis by (simp add: map_of_eq_None_iff)
qed

text \<open>An element splits the list; the facts about it follow from the split.\<close>

lemma lru_split:
  assumes "nc_ok nc" and "mget (nc_lru nc) e = Some v"
  obtains xs ys where "nc_lru nc = xs @ (e, v) # ys"
    "e \<notin> fst ` set xs" "e \<notin> fst ` set ys"
    "ce_clientID v \<notin> (\<lambda>(_, w). ce_clientID w) ` set xs"
    "ce_clientID v \<notin> (\<lambda>(_, w). ce_clientID w) ` set ys"
proof -
  from assms(2) obtain xs ys where s: "nc_lru nc = xs @ (e, v) # ys"
    by (meson map_of_SomeD split_list)
  with assms(1) have "distinct (map fst (xs @ (e, v) # ys))"
    "distinct (map (\<lambda>(_, w). ce_clientID w) (xs @ (e, v) # ys))"
    by (simp_all add: nc_ok_def)
  then show ?thesis using that [OF s] by auto
qed

lemma mdel_split:
  "e \<notin> fst ` set xs \<Longrightarrow> e \<notin> fst ` set ys \<Longrightarrow> mdel e (xs @ (e, v) # ys) = xs @ ys"
  using mdel_absent [of e xs] mdel_absent [of e ys] by (simp add: AList.delete_eq)

lemma mget_split: "e \<notin> fst ` set xs \<Longrightarrow> mget (xs @ (e, v) # ys) e = Some v"
  by (simp add: map_of_append map_add_def map_of_eq_None_iff [THEN iffD2] split: option.split)

lemma filter_client_split:
  assumes "c \<notin> (\<lambda>(_, w). ce_clientID w) ` set xs"
  shows "filter (\<lambda>x. fst x \<noteq> c) (map (\<lambda>(_, e). (ce_clientID e, ce_nonce e)) xs)
    = map (\<lambda>(_, e). (ce_clientID e, ce_nonce e)) xs"
  using assms by (force simp: filter_id_conv)

lemma mdel_last: "mwf l \<Longrightarrow> l \<noteq> [] \<Longrightarrow> mdel (fst (last l)) l = butlast l"
proof -
  assume w: "mwf l" and ne: "l \<noteq> []"
  obtain xs k v where l: "l = xs @ [(k, v)]" using ne by (metis rev_exhaust surj_pair)
  with w have "k \<notin> fst ` set xs" by auto
  with l mdel_split [of k xs "[]" v] show ?thesis by simp
qed

abbreviation abs_entry :: "nat \<times> cacheEntry \<Rightarrow> string \<times> bytes" where
  "abs_entry \<equiv> (\<lambda>(_, e). (ce_clientID e, ce_nonce e))"

text \<open>Replacing the list by a reordering of it (with the nonces of one entry changed) keeps
  the invariant.\<close>

lemma nc_ok_reorder:
  assumes "nc_ok nc" and "nc_lru nc = xs @ (e, v) # ys" and "ce_clientID w = ce_clientID v"
  shows "nc_ok (nc\<lparr>nc_lru := (e, w) # xs @ ys\<rparr>)"
  using assms unfolding nc_ok_def by auto

lemma put_existing:
  assumes "nc_ok nc" and "mget (nc_cache nc) c = Some e"
  shows "nc_ok (nc_put nc c nonce) \<and> nc_abs (nc_put nc c nonce) = spec_put (nc_capacity nc) c nonce (nc_abs nc)"
proof -
  from assms cache_lookup [OF assms(1)] obtain v
    where v: "mget (nc_lru nc) e = Some v" "ce_clientID v = c" by blast
  from lru_split [OF assms(1) v(1)] obtain xs ys where s: "nc_lru nc = xs @ (e, v) # ys"
    "e \<notin> fst ` set xs" "e \<notin> fst ` set ys"
    "c \<notin> (\<lambda>(_, w). ce_clientID w) ` set xs" "c \<notin> (\<lambda>(_, w). ce_clientID w) ` set ys"
    using v(2) by metis
  have put: "nc_put nc c nonce = nc\<lparr>nc_lru := (e, v\<lparr>ce_nonce := nonce\<rparr>) # xs @ ys\<rparr>"
    using assms(2) s(1) mdel_split [OF s(2,3), of v] mget_split [OF s(2), of v ys]
    by (simp add: nc_put_def move_to_front_def Let_def)
  have "c \<in> fst ` set (nc_abs nc)"
    using cache_None [OF assms(1), of c] assms(2) by auto
  then have "spec_put (nc_capacity nc) c nonce (nc_abs nc)
    = (c, nonce) # map abs_entry xs @ map abs_entry ys"
    using filter_client_split [OF s(4)] filter_client_split [OF s(5)] v(2) s(1)
    by (simp add: spec_put_def nc_abs_def)
  then show ?thesis
    using nc_ok_reorder [OF assms(1) s(1), of "v\<lparr>ce_nonce := nonce\<rparr>"] v(2)
    by (simp add: put nc_abs_def)
qed

lemma nc_ok_push:
  assumes "nc_ok nc" and "mget (nc_cache nc) c = None"
  shows "nc_ok (nc\<lparr>nc_lru := (nc_fresh nc, \<lparr>ce_clientID = c, ce_nonce = n\<rparr>) # nc_lru nc,
    nc_cache := mput c (nc_fresh nc) (nc_cache nc), nc_fresh := Suc (nc_fresh nc)\<rparr>)"
proof -
  have "c \<notin> fst ` set (nc_cache nc)" using assms(2) by (simp add: map_of_eq_None_iff)
  then have upd: "set (mput c (nc_fresh nc) (nc_cache nc)) = insert (c, nc_fresh nc) (set (nc_cache nc))"
    using assms(1) by (force simp: nc_ok_def set_mput_wf)
  have "c \<notin> fst ` set (nc_abs nc)" using cache_None [OF assms(1)] assms(2) by blast
  then have "c \<notin> (\<lambda>(_, v). ce_clientID v) ` set (nc_lru nc)"
    by (force simp: nc_abs_def image_iff)
  moreover have "nc_fresh nc \<notin> fst ` set (nc_lru nc)"
    using assms(1) by (fastforce simp: nc_ok_def list_all_iff)
  moreover have "list_all (\<lambda>(e, _). e < Suc (nc_fresh nc)) (nc_lru nc)"
    using assms(1) by (fastforce simp: nc_ok_def list_all_iff)
  ultimately show ?thesis using assms(1) upd by (simp add: nc_ok_def)
qed

lemma drop_key:
  "fst a = k \<Longrightarrow> \<forall>x \<in> R. fst x \<noteq> k \<Longrightarrow> {x \<in> insert a R. fst x \<noteq> k} = R"
  by auto

lemma nc_ok_pop:
  assumes "nc_ok nc" and "nc_lru nc = xs @ (e, v) # ys"
  shows "nc_ok (nc\<lparr>nc_lru := xs @ ys, nc_cache := mdel (ce_clientID v) (nc_cache nc)\<rparr>)"
proof -
  have d: "ce_clientID v \<notin> (\<lambda>(_, w). ce_clientID w) ` set (xs @ ys)"
    using assms by (auto simp: nc_ok_def)
  let ?r = "(\<lambda>(e, v). (ce_clientID v, e)) ` set (xs @ ys)"
  have m: "set (nc_cache nc) = insert (ce_clientID v, e) ?r" using assms by (simp add: nc_ok_def)
  have "\<forall>x \<in> ?r. fst x \<noteq> ce_clientID v"
  proof
    fix x assume "x \<in> ?r"
    then obtain e' w where "(e', w) \<in> set (xs @ ys)" "x = (ce_clientID w, e')" by auto
    with d show "fst x \<noteq> ce_clientID v" by force
  qed
  from drop_key [OF _ this, of "(ce_clientID v, e)"]
  have "set (mdel (ce_clientID v) (nc_cache nc)) = ?r" by (simp add: set_mdel m)
  with assms show ?thesis by (simp add: nc_ok_def)
qed

lemma put_new:
  assumes "nc_ok nc" and "mget (nc_cache nc) c = None"
  shows "nc_ok (nc_put nc c nonce) \<and> nc_abs (nc_put nc c nonce) = spec_put (nc_capacity nc) c nonce (nc_abs nc)"
proof -
  let ?x = "(nc_fresh nc, \<lparr>ce_clientID = c, ce_nonce = nonce\<rparr>)"
  let ?l = "?x # nc_lru nc" and ?c = "mput c (nc_fresh nc) (nc_cache nc)"
  let ?p = "nc\<lparr>nc_lru := ?l, nc_cache := ?c, nc_fresh := Suc (nc_fresh nc)\<rparr>"
  have push: "nc_ok ?p" by (rule nc_ok_push [OF assms])
  have spec: "spec_put (nc_capacity nc) c nonce (nc_abs nc) =
    (if int (length ?l) > nc_capacity nc then butlast (map abs_entry ?l) else map abs_entry ?l)"
    using cache_None [OF assms(1), of c] assms(2) by (simp add: spec_put_def nc_abs_def)
  show ?thesis
  proof (cases "int (length ?l) > nc_capacity nc")
    case False
    with push spec assms(2) show ?thesis by (simp add: nc_put_def nc_abs_def Let_def)
  next
    case True
    obtain xs e v where l: "?l = xs @ [(e, v)]" by (metis list.distinct(1) rev_exhaust surj_pair)
    have last: "last ?l = (e, v)" and bl: "butlast ?l = xs" unfolding l by simp_all
    have "mwf ?l" using push by (simp add: nc_ok_def)
    from mdel_last [OF this list.distinct(2)] have del: "mdel e ?l = xs"
      unfolding last bl fst_conv .
    have put: "nc_put nc c nonce =
      nc\<lparr>nc_lru := mdel (fst (last ?l)) ?l, nc_cache := mdel (ce_clientID (snd (last ?l))) ?c,
        nc_fresh := Suc (nc_fresh nc)\<rparr>"
      using assms(2) True by (simp only: nc_put_def Let_def option.case if_True)
    have "nc_lru ?p = xs @ (e, v) # []" using l by simp
    from nc_ok_pop [OF push this] have
      "nc_ok (nc\<lparr>nc_lru := xs, nc_cache := mdel (ce_clientID v) ?c, nc_fresh := Suc (nc_fresh nc)\<rparr>)"
      by (simp add: nc_ok_def)
    moreover have "nc_put nc c nonce =
      nc\<lparr>nc_lru := xs, nc_cache := mdel (ce_clientID v) ?c, nc_fresh := Suc (nc_fresh nc)\<rparr>"
      unfolding put last by (simp only: fst_conv snd_conv del)
    moreover have "butlast (map abs_entry ?l) = map abs_entry xs"
      unfolding l by simp
    ultimately show ?thesis using spec True by (simp add: nc_abs_def)
  qed
qed

lemma put_refines:
  assumes "nc_ok nc"
  shows "nc_ok (nc_put nc c nonce)"
    and "nc_abs (nc_put nc c nonce) = spec_put (nc_capacity nc) c nonce (nc_abs nc)"
  using put_existing [OF assms] put_new [OF assms] by (cases "mget (nc_cache nc) c"; blast)+

lemma map_of_abs_split:
  assumes "c \<notin> (\<lambda>(_, w). ce_clientID w) ` set xs" and "ce_clientID v = c"
  shows "map_of (map abs_entry (xs @ (e, v) # ys)) c = Some (ce_nonce v)"
  using assms by (induction xs) auto

lemma get_refines:
  assumes "nc_ok nc"
  shows "nc_ok (fst (nc_get nc c))"
    and "(nc_abs (fst (nc_get nc c)), snd (nc_get nc c)) = spec_get c (nc_abs nc)"
proof -
  have "nc_ok (fst (nc_get nc c)) \<and>
    (nc_abs (fst (nc_get nc c)), snd (nc_get nc c)) = spec_get c (nc_abs nc)"
  proof (cases "mget (nc_cache nc) c")
    case None
    then have "map_of (nc_abs nc) c = None"
      using cache_None [OF assms] by (simp add: map_of_eq_None_iff)
    with None assms show ?thesis by (simp add: nc_get_def spec_get_def)
  next
    case (Some e)
    with cache_lookup [OF assms] obtain v
      where v: "mget (nc_lru nc) e = Some v" "ce_clientID v = c" by blast
    from lru_split [OF assms v(1)] obtain xs ys where s: "nc_lru nc = xs @ (e, v) # ys"
      "e \<notin> fst ` set xs" "e \<notin> fst ` set ys"
      "c \<notin> (\<lambda>(_, w). ce_clientID w) ` set xs" "c \<notin> (\<lambda>(_, w). ce_clientID w) ` set ys"
      using v(2) by metis
    have get: "nc_get nc c = (nc\<lparr>nc_lru := (e, v) # xs @ ys\<rparr>, Some (ce_nonce v))"
      using Some v(1) s(1) mdel_split [OF s(2,3), of v]
      by (simp add: nc_get_def move_to_front_def)
    have "map_of (nc_abs nc) c = Some (ce_nonce v)"
      using map_of_abs_split [OF s(4) v(2)] s(1) by (simp add: nc_abs_def)
    then have "spec_get c (nc_abs nc) =
      ((c, ce_nonce v) # map abs_entry xs @ map abs_entry ys, Some (ce_nonce v))"
      using filter_client_split [OF s(4)] filter_client_split [OF s(5)] v(2) s(1)
      by (simp add: spec_get_def nc_abs_def)
    then show ?thesis
      using nc_ok_reorder [OF assms s(1), of v] v(2) by (simp add: get nc_abs_def)
  qed
  then show "nc_ok (fst (nc_get nc c))"
    and "(nc_abs (fst (nc_get nc c)), snd (nc_get nc c)) = spec_get c (nc_abs nc)" by blast+
qed

lemma delete_refines:
  assumes "nc_ok nc"
  shows "nc_ok (nc_delete nc c)"
    and "nc_abs (nc_delete nc c) = filter (\<lambda>x. fst x \<noteq> c) (nc_abs nc)"
proof -
  have "nc_ok (nc_delete nc c) \<and> nc_abs (nc_delete nc c) = filter (\<lambda>x. fst x \<noteq> c) (nc_abs nc)"
  proof (cases "mget (nc_cache nc) c")
    case None
    then have "c \<notin> fst ` set (nc_abs nc)" using cache_None [OF assms] by simp
    then have "filter (\<lambda>x. fst x \<noteq> c) (nc_abs nc) = nc_abs nc" by (force simp: filter_id_conv)
    with None assms show ?thesis by (simp add: nc_delete_def)
  next
    case (Some e)
    with cache_lookup [OF assms] obtain v
      where v: "mget (nc_lru nc) e = Some v" "ce_clientID v = c" by blast
    from lru_split [OF assms v(1)] obtain xs ys where s: "nc_lru nc = xs @ (e, v) # ys"
      "e \<notin> fst ` set xs" "e \<notin> fst ` set ys"
      "c \<notin> (\<lambda>(_, w). ce_clientID w) ` set xs" "c \<notin> (\<lambda>(_, w). ce_clientID w) ` set ys"
      using v(2) by metis
    have "nc_delete nc c = nc\<lparr>nc_lru := xs @ ys, nc_cache := mdel c (nc_cache nc)\<rparr>"
      using Some s(1) mdel_split [OF s(2,3), of v] by (simp add: nc_delete_def)
    then show ?thesis
      using nc_ok_pop [OF assms s(1)] v(2) s(1)
        filter_client_split [OF s(4)] filter_client_split [OF s(5)] by (simp add: nc_abs_def)
  qed
  then show "nc_ok (nc_delete nc c)"
    and "nc_abs (nc_delete nc c) = filter (\<lambda>x. fst x \<noteq> c) (nc_abs nc)" by blast+
qed

lemma capacity_kept [simp]:
  "nc_capacity (nc_put nc c n) = nc_capacity nc"
  "nc_capacity (fst (nc_get nc c)) = nc_capacity nc"
  "nc_capacity (nc_delete nc c) = nc_capacity nc"
  by (simp_all add: nc_put_def nc_get_def nc_delete_def Let_def split: option.split)

section \<open>The contract of a recency store\<close>

datatype nc_op = OpPut string bytes | OpGet string | OpDel string

fun op_client :: "nc_op \<Rightarrow> string" where
  "op_client (OpPut c _) = c"
| "op_client (OpGet c) = c"
| "op_client (OpDel c) = c"

fun spec_step :: "int \<Rightarrow> recency \<Rightarrow> nc_op \<Rightarrow> recency \<times> bytes option" where
  "spec_step cap xs (OpPut c n) = (spec_put cap c n xs, None)"
| "spec_step cap xs (OpGet c) = spec_get c xs"
| "spec_step cap xs (OpDel c) = (filter (\<lambda>x. fst x \<noteq> c) xs, None)"

fun nc_step :: "NonceCache \<Rightarrow> nc_op \<Rightarrow> NonceCache \<times> bytes option" where
  "nc_step nc (OpPut c n) = (nc_put nc c n, None)"
| "nc_step nc (OpGet c) = nc_get nc c"
| "nc_step nc (OpDel c) = (nc_delete nc c, None)"

fun run_ops :: "('s \<Rightarrow> nc_op \<Rightarrow> 's \<times> bytes option) \<Rightarrow> 's \<Rightarrow> nc_op list \<Rightarrow> 's \<times> bytes option list" where
  "run_ops f s [] = (s, [])"
| "run_ops f s (x # xs) =
     (case f s x of (s1, r) \<Rightarrow> (case run_ops f s1 xs of (s2, rs) \<Rightarrow> (s2, r # rs)))"

text \<open>A list in which client \<open>c\<close> still has nonce \<open>n\<close>, behind clients of \<open>K\<close> only.\<close>

definition holds_behind :: "string set \<Rightarrow> string \<Rightarrow> bytes \<Rightarrow> recency \<Rightarrow> bool" where
  "holds_behind K c n xs \<longleftrightarrow>
     (\<exists>us vs. xs = us @ (c, n) # vs \<and> fst ` set us \<subseteq> K \<and> distinct (map fst us) \<and> c \<notin> fst ` set us)"

lemma holds_behind_get: "holds_behind K c n xs \<Longrightarrow> map_of xs c = Some n"
  by (auto simp: holds_behind_def map_of_append map_add_def map_of_eq_None_iff [THEN iffD2]
      split: option.split)

lemma holds_behind_filter:
  assumes "holds_behind K c n xs" and "d \<noteq> c"
  shows "holds_behind K c n (filter (\<lambda>x. fst x \<noteq> d) xs)"
proof -
  from assms(1) obtain us vs where h: "xs = us @ (c, n) # vs" "fst ` set us \<subseteq> K"
    "distinct (map fst us)" "c \<notin> fst ` set us" unfolding holds_behind_def by blast
  have "filter (\<lambda>x. fst x \<noteq> d) xs =
    filter (\<lambda>x. fst x \<noteq> d) us @ (c, n) # filter (\<lambda>x. fst x \<noteq> d) vs"
    using h(1) assms(2) by simp
  moreover have "fst ` set (filter (\<lambda>x. fst x \<noteq> d) us) \<subseteq> K"
    "distinct (map fst (filter (\<lambda>x. fst x \<noteq> d) us))" "c \<notin> fst ` set (filter (\<lambda>x. fst x \<noteq> d) us)"
    using h(2,3,4) by (auto simp: distinct_map_filter)
  ultimately show ?thesis unfolding holds_behind_def by blast
qed

lemma holds_behind_cons:
  assumes "holds_behind K c n xs" and "d \<noteq> c" and "d \<in> K" and "d \<notin> fst ` set xs"
  shows "holds_behind K c n ((d, m) # xs)"
proof -
  from assms(1) obtain us vs where h: "xs = us @ (c, n) # vs" "fst ` set us \<subseteq> K"
    "distinct (map fst us)" "c \<notin> fst ` set us" unfolding holds_behind_def by blast
  have "(d, m) # xs = ((d, m) # us) @ (c, n) # vs" using h(1) by simp
  moreover have "fst ` set ((d, m) # us) \<subseteq> K" using h assms(3) by auto
  moreover have "distinct (map fst ((d, m) # us))" using h assms(4) by force
  moreover have "c \<notin> fst ` set ((d, m) # us)" using h assms(2) by auto
  ultimately show ?thesis unfolding holds_behind_def by blast
qed

lemma holds_behind_butlast:
  assumes "holds_behind K c n xs" and "finite K" and "c \<notin> K" and "card K + 1 < length xs"
  shows "holds_behind K c n (butlast xs)"
proof -
  from assms(1) obtain us vs where h: "xs = us @ (c, n) # vs" "fst ` set us \<subseteq> K"
    "distinct (map fst us)" "c \<notin> fst ` set us" unfolding holds_behind_def by blast
  have "length us \<le> card K"
    using distinct_card [OF h(3)] card_mono [OF assms(2) h(2)] by simp
  with assms(4) h(1) have "vs \<noteq> []" by auto
  then have "butlast xs = us @ (c, n) # butlast vs" using h(1) by (simp add: butlast_append)
  with h show ?thesis unfolding holds_behind_def by blast
qed

lemma spec_step_holds:
  assumes "holds_behind K c n xs" and "op_client x \<noteq> c" and "op_client x \<in> K" and "finite K"
    and "c \<notin> K" and "int (card K) < cap"
  shows "holds_behind K c n (fst (spec_step cap xs x))"
proof -
  have front: "holds_behind K c n ((d, m) # filter (\<lambda>x. fst x \<noteq> d) xs)"
    if "d \<noteq> c" "d \<in> K" for d m
    by (rule holds_behind_cons [OF holds_behind_filter [OF assms(1)]]) (use that in auto)
  show ?thesis
  proof (cases x)
    case (OpPut d m)
    with assms(2,3) have d: "d \<noteq> c" "d \<in> K" by auto
    show ?thesis
    proof (cases "d \<in> fst ` set xs")
      case True
      with OpPut front [OF d] show ?thesis by (simp add: spec_put_def)
    next
      case False
      have cons: "holds_behind K c n ((d, m) # xs)"
        by (rule holds_behind_cons [OF assms(1) d False])
      have "holds_behind K c n (butlast ((d, m) # xs))" if "int (Suc (length xs)) > cap"
        by (rule holds_behind_butlast [OF cons assms(4,5)]) (use that assms(6) in simp)
      with cons OpPut False show ?thesis by (simp add: spec_put_def)
    qed
  next
    case (OpGet d)
    with assms(1-3) front [of d] show ?thesis by (simp add: spec_get_def split: option.split)
  next
    case (OpDel d)
    with assms(2) holds_behind_filter [OF assms(1), of d] show ?thesis by simp
  qed
qed

locale recency_store =
  fixes ok :: "'s \<Rightarrow> bool" and view :: "'s \<Rightarrow> recency" and cap :: "'s \<Rightarrow> int"
    and step :: "'s \<Rightarrow> nc_op \<Rightarrow> 's \<times> bytes option"
  assumes step_ok: "ok s \<Longrightarrow> ok (fst (step s x))"
    and step_view: "ok s \<Longrightarrow> (view (fst (step s x)), snd (step s x)) = spec_step (cap s) (view s) x"
    and step_cap: "cap (fst (step s x)) = cap s"
begin

lemma run_refines:
  assumes "ok s" and "run_ops step s ops = (s', rs)"
  shows "ok s' \<and> cap s' = cap s \<and> run_ops (spec_step (cap s)) (view s) ops = (view s', rs)"
  using assms
proof (induction ops arbitrary: s s' rs)
  case Nil
  then show ?case by simp
next
  case (Cons x ops)
  obtain s1 r where st: "step s x = (s1, r)" by (cases "step s x")
  with Cons.prems(2) obtain rs' where run: "run_ops step s1 ops = (s', rs')" and rs: "rs = r # rs'"
    by (auto split: prod.splits)
  have s1: "ok s1" "cap s1 = cap s" "spec_step (cap s) (view s) x = (view s1, r)"
    using step_ok [OF Cons.prems(1), of x] step_cap [of s x] step_view [OF Cons.prems(1), of x] st
    by simp_all
  from Cons.IH [OF s1(1) run] s1 rs show ?case by simp
qed

lemma run_holds:
  assumes "ok s" and "run_ops step s ops = (s', rs)" and "holds_behind K c n (view s)"
    and "finite K" and "c \<notin> K" and "op_client ` set ops \<subseteq> K" and "int (card K) < cap s"
  shows "ok s' \<and> holds_behind K c n (view s')"
  using assms
proof (induction ops arbitrary: s rs)
  case Nil
  then show ?case by simp
next
  case (Cons x ops)
  obtain s1 r where st: "step s x = (s1, r)" by (cases "step s x")
  with Cons.prems(2) obtain rs' where run: "run_ops step s1 ops = (s', rs')"
    by (auto split: prod.splits)
  have s1: "ok s1" "cap s1 = cap s" "spec_step (cap s) (view s) x = (view s1, r)"
    using step_ok [OF Cons.prems(1), of x] step_cap [of s x] step_view [OF Cons.prems(1), of x] st
    by simp_all
  have "op_client x \<in> K" using Cons.prems(6) by simp
  then have "holds_behind K c n (view s1)"
    using spec_step_holds [OF Cons.prems(3), of x "cap s"] Cons.prems(4,5,7) s1(3) by auto
  with Cons.IH [OF s1(1) run] Cons.prems(4-7) s1(2) show ?case by simp
qed

text \<open>A nonce that was put is returned until \<open>cap\<close> other clients have been active.\<close>

lemma put_survives:
  assumes "ok s" and "run_ops step (fst (step s (OpPut c n))) ops = (s', rs)"
    and "c \<notin> op_client ` set ops" and "int (card (op_client ` set ops)) < cap s"
  shows "snd (step s' (OpGet c)) = Some n"
proof -
  let ?s = "fst (step s (OpPut c n))" and ?K = "op_client ` set ops"
  have v: "view ?s = spec_put (cap s) c n (view s)"
    using step_view [OF assms(1), of "OpPut c n"] by simp
  have pos: "0 < cap s" using assms(4) by linarith
  have "holds_behind ?K c n (view ?s)"
  proof -
    have "\<exists>vs. view ?s = [] @ (c, n) # vs"
      using pos by (cases "view s") (auto simp: v spec_put_def)
    then show ?thesis unfolding holds_behind_def by fastforce
  qed
  from run_holds [OF step_ok [OF assms(1)] assms(2) this _ assms(3)] assms(4)
  have "ok s'" "holds_behind ?K c n (view s')" by (simp_all add: step_cap)
  with step_view [of s' "OpGet c"] holds_behind_get show ?thesis
    by (fastforce simp: spec_get_def)
qed

end

interpretation nc: recency_store nc_ok nc_abs nc_capacity nc_step
proof
  fix s x
  show "nc_ok s \<Longrightarrow> nc_ok (fst (nc_step s x))"
    by (cases x) (auto simp: put_refines get_refines delete_refines)
  show "nc_ok s \<Longrightarrow>
      (nc_abs (fst (nc_step s x)), snd (nc_step s x)) = spec_step (nc_capacity s) (nc_abs s) x"
    by (cases x) (auto simp: put_refines get_refines delete_refines)
  show "nc_capacity (fst (nc_step s x)) = nc_capacity s"
    by (cases x) auto
qed

section \<open>Properties\<close>

text \<open>C24: the pointer structure is an LRU cache. Over any sequence of puts, gets and deletes
  from an empty cache, the list of elements and the map stay consistent and every answer is
  the one of the abstract recency list.\<close>

theorem nonce_cache_refines:
  "run_ops (spec_step cap) [] ops =
     (nc_abs (fst (run_ops nc_step (NewNonceCache cap) ops)),
      snd (run_ops nc_step (NewNonceCache cap) ops)) \<and>
   nc_ok (fst (run_ops nc_step (NewNonceCache cap) ops))"
proof -
  obtain s' rs where r: "run_ops nc_step (NewNonceCache cap) ops = (s', rs)" by fastforce
  from nc.run_refines [OF nc_ok_New r] r show ?thesis
    by (simp add: NewNonceCache_def nc_abs_def)
qed

text \<open>A nonce is available until \<open>capacity\<close> other clients have used the cache. After a
  client's nonce was stored, operations on fewer than \<open>capacity\<close> distinct other clients
  cannot evict it.\<close>

theorem nonce_survives:
  assumes "nc_ok nc" and "run_ops nc_step (nc_put nc c n) ops = (nc', rs)"
    and "c \<notin> op_client ` set ops" and "int (card (op_client ` set ops)) < nc_capacity nc"
  shows "snd (nc_get nc' c) = Some n"
  using nc.put_survives [of nc c n ops nc' rs] assms by simp

theorem nonce_survives_witness:
  "snd (nc_get (fst (run_ops nc_step (nc_put (NewNonceCache 2) ''a'' ''x'')
      [OpPut ''b'' ''y'', OpGet ''b''])) ''a'') = Some ''x''"
proof -
  let ?nc = "NewNonceCache 2" and ?ops = "[OpPut ''b'' ''y'', OpGet ''b'']"
  obtain nc' rs where r: "run_ops nc_step (nc_put ?nc ''a'' ''x'') ?ops = (nc', rs)" by fastforce
  from nonce_survives [OF nc_ok_New r] r show ?thesis by (simp add: NewNonceCache_def)
qed

end
