(* ===== verification/Base64.thy ===== *)
theory Base64
  imports GoText
begin

text \<open>
  \<^verbatim>\<open>base64.RawURLEncoding\<close>: the URL alphabet without padding. Decoding skips carriage returns
  and newlines and ignores the unused low bits of the last character, as Go does.
\<close>

definition b64_char :: "nat \<Rightarrow> char" where
  "b64_char v =
     (if v < 26 then byte_of (65 + v)
      else if v < 52 then byte_of (71 + v)
      else if v < 62 then byte_of (v - 4)
      else if v = 62 then CHR ''-'' else CHR ''_'')"

definition b64_val :: "char \<Rightarrow> nat option" where
  "b64_val c =
     (let b = byte_val c in
      if 65 \<le> b \<and> b \<le> 90 then Some (b - 65)
      else if 97 \<le> b \<and> b \<le> 122 then Some (b - 71)
      else if 48 \<le> b \<and> b \<le> 57 then Some (b + 4)
      else if b = 45 then Some 62
      else if b = 95 then Some 63
      else None)"

fun b64_groups :: "nat list \<Rightarrow> nat list" where
  "b64_groups (a # b # c # r) =
     [a div 4, (a mod 4) * 16 + b div 16, (b mod 16) * 4 + c div 64, c mod 64] @ b64_groups r"
| "b64_groups [a, b] = [a div 4, (a mod 4) * 16 + b div 16, (b mod 16) * 4]"
| "b64_groups [a] = [a div 4, (a mod 4) * 16]"
| "b64_groups [] = []"

definition b64_encode :: "bytes \<Rightarrow> string" where
  "b64_encode bs = map b64_char (b64_groups (map byte_val bs))"

fun b64_ungroup :: "nat list \<Rightarrow> nat list option" where
  "b64_ungroup (w # x # y # z # r) =
     map_option (\<lambda>bs. [w * 4 + x div 16, (x mod 16) * 16 + y div 4, (y mod 4) * 64 + z] @ bs)
       (b64_ungroup r)"
| "b64_ungroup [w, x, y] = Some [w * 4 + x div 16, (x mod 16) * 16 + y div 4]"
| "b64_ungroup [w, x] = Some [w * 4 + x div 16]"
| "b64_ungroup [w] = None"
| "b64_ungroup [] = Some []"

fun b64_vals :: "string \<Rightarrow> nat list option" where
  "b64_vals [] = Some []"
| "b64_vals (c # cs) =
     (case b64_val c of
        None \<Rightarrow> None
      | Some v \<Rightarrow> map_option ((#) v) (b64_vals cs))"

definition b64_decode :: "string \<Rightarrow> bytes option" where
  "b64_decode s =
     (case b64_vals (filter (\<lambda>c. byte_val c \<noteq> 10 \<and> byte_val c \<noteq> 13) s) of
        None \<Rightarrow> None
      | Some vs \<Rightarrow> map_option (map byte_of) (b64_ungroup vs))"

section \<open>Round trip\<close>

lemma byte_val_punct [simp]: "byte_val CHR ''-'' = 45" "byte_val CHR ''_'' = 95" "byte_val CHR ''.'' = 46"
  by (simp_all add: byte_val_def)

lemma b64_char_val:
  "v < 64 \<Longrightarrow> byte_val (b64_char v) =
     (if v < 26 then 65 + v else if v < 52 then 71 + v else if v < 62 then v - 4
      else if v = 62 then 45 else 95)"
  by (simp add: b64_char_def)

lemma b64_char_facts:
  assumes "v < 64"
  shows "b64_val (b64_char v) = Some v" and "byte_val (b64_char v) \<noteq> 10"
    and "byte_val (b64_char v) \<noteq> 13" and "b64_char v \<noteq> CHR ''.''"
proof -
  note val = b64_char_val [OF assms]
  show "b64_val (b64_char v) = Some v"
    using assms by (auto simp: b64_val_def Let_def val)
  show "byte_val (b64_char v) \<noteq> 10" "byte_val (b64_char v) \<noteq> 13"
    using assms by (auto simp: val)
  have "byte_val (b64_char v) \<noteq> 46" using assms by (auto simp: val)
  then show "b64_char v \<noteq> CHR ''.''" by auto
qed

text \<open>A byte as its high and low parts.\<close>

lemma hi_bound: fixes a :: nat shows "a < 256 \<Longrightarrow> k * n = 256 \<Longrightarrow> a div n < k"
  by (rule less_mult_imp_div_less) simp

lemma b64_sextets:
  fixes a b c :: nat
  assumes "a < 256" and "b < 256" and "c < 256"
  shows "a div 4 < 64" and "(a mod 4) * 16 + b div 16 < 64" and "(b mod 16) * 4 + c div 64 < 64"
    and "c mod 64 < 64"
proof -
  have "a mod 4 < 4" "b mod 16 < 16" "b div 16 < 16" "c div 64 < 4" "a div 4 < 64"
    using hi_bound [of b 16 16] hi_bound [of c 4 64] hi_bound [of a 64 4] assms by simp_all
  then show "a div 4 < 64" "(a mod 4) * 16 + b div 16 < 64" "(b mod 16) * 4 + c div 64 < 64"
    "c mod 64 < 64" by simp_all
qed

lemma b64_groups_bound:
  "(\<And>x. x \<in> set bs \<Longrightarrow> x < 256) \<Longrightarrow> v \<in> set (b64_groups bs) \<Longrightarrow> v < 64"
proof (induction bs rule: b64_groups.induct)
  case (1 a b c r)
  have "a < 256" "b < 256" "c < 256" using "1.prems"(1) by simp_all
  from b64_sextets [OF this] 1 show ?case by auto
next
  case (2 a b)
  then have "a < 256" "b < 256" by simp_all
  from b64_sextets [OF this, of 0] 2(2) show ?case by auto
next
  case (3 a)
  then have "a < 256" by simp
  from b64_sextets [OF this, of 0 0] 3(2) show ?case by auto
next
  case 4
  then show ?case by simp
qed

lemma digit_join: fixes q r n :: nat shows "r < n \<Longrightarrow> (q * n + r) div n = q" "r < n \<Longrightarrow> (q * n + r) mod n = r"
  by simp_all

lemma b64_regroup:
  fixes a b c :: nat
  assumes "a < 256" and "b < 256" and "c < 256"
  shows "a div 4 * 4 + ((a mod 4) * 16 + b div 16) div 16 = a"
    and "((a mod 4) * 16 + b div 16) mod 16 * 16 + ((b mod 16) * 4 + c div 64) div 4 = b"
    and "((b mod 16) * 4 + c div 64) mod 4 * 64 + c mod 64 = c"
proof -
  have "b div 16 < 16" "c div 64 < 4"
    using hi_bound [of b 16 16] hi_bound [of c 4 64] assms by simp_all
  note d = digit_join [OF this(1)] digit_join [OF this(2)]
  show "a div 4 * 4 + ((a mod 4) * 16 + b div 16) div 16 = a" unfolding d by simp
  show "((a mod 4) * 16 + b div 16) mod 16 * 16 + ((b mod 16) * 4 + c div 64) div 4 = b"
    unfolding d by simp
  show "((b mod 16) * 4 + c div 64) mod 4 * 64 + c mod 64 = c" unfolding d by simp
qed

lemma b64_ungroup_groups:
  "(\<And>x. x \<in> set bs \<Longrightarrow> x < 256) \<Longrightarrow> b64_ungroup (b64_groups bs) = Some bs"
proof (induction bs rule: b64_groups.induct)
  case (1 a b c r)
  have "a < 256" "b < 256" "c < 256" using "1.prems" by simp_all
  note g = b64_regroup [OF this]
  have "b64_ungroup (b64_groups r) = Some r" using 1 by simp
  then show ?case by (simp only: b64_groups.simps b64_ungroup.simps append.simps g option.map)
next
  case (2 a b)
  then have "a < 256" "b < 256" by simp_all
  from b64_regroup [OF this, of 0] show ?case by simp
next
  case (3 a)
  then have "a < 256" by simp
  from b64_regroup [OF this, of 0 0] show ?case by simp
next
  case 4
  then show ?case by simp
qed

lemma b64_vals_chars: "(\<And>v. v \<in> set vs \<Longrightarrow> v < 64) \<Longrightarrow> b64_vals (map b64_char vs) = Some vs"
  by (induction vs) (auto simp: b64_char_facts)

lemma b64_encode_vals: "c \<in> set (b64_encode bs) \<Longrightarrow> \<exists>v < 64. c = b64_char v"
  by (auto simp: b64_encode_def dest!: b64_groups_bound [rotated])

lemma b64_decode_encode: "b64_decode (b64_encode bs) = Some bs"
proof -
  have b: "v < 64" if "v \<in> set (b64_groups (map byte_val bs))" for v
    using that by (rule b64_groups_bound [rotated]) auto
  have "filter (\<lambda>c. byte_val c \<noteq> 10 \<and> byte_val c \<noteq> 13) (b64_encode bs) = b64_encode bs"
    by (auto simp: filter_id_conv dest!: b64_encode_vals dest: b64_char_facts)
  moreover have "b64_vals (b64_encode bs) = Some (b64_groups (map byte_val bs))"
    unfolding b64_encode_def by (rule b64_vals_chars) (rule b)
  moreover have "b64_ungroup (b64_groups (map byte_val bs)) = Some (map byte_val bs)"
    by (rule b64_ungroup_groups) auto
  ultimately show ?thesis by (simp add: b64_decode_def o_def)
qed

lemma b64_encode_no_dot: "CHR ''.'' \<notin> set (b64_encode bs)"
proof
  assume "CHR ''.'' \<in> set (b64_encode bs)"
  then obtain v where "v < 64" "CHR ''.'' = b64_char v" by (auto dest: b64_encode_vals)
  with b64_char_facts(4) [of v] show False by simp
qed

end
