(* ===== verification/Token.thy ===== *)
theory Token
  imports Base64 "HOL-Library.Word"
begin

text \<open>
  \<^verbatim>\<open>internal/crypto/nonce.go\<close> and \<^verbatim>\<open>token.go\<close>: nonces and the signed tokens that prove an
  identity. The primitives of Go's \<^verbatim>\<open>crypto\<close> packages (SHA-256, Ed25519 and RSA-PSS, PKIX and PEM
  encodings) are the fields of \<open>crypto_ops\<close>; what the theorems need of them is a hypothesis.
  The locale \<open>token_key\<close> is Go's interface \<^verbatim>\<open>VerifyingKey\<close>.
\<close>

section \<open>Nonces\<close>

definition NonceSize :: nat where "NonceSize = 32"

definition ValidateNonce :: "bytes \<Rightarrow> bool" where
  "ValidateNonce nonce = (length nonce \<ge> 16 \<and> length nonce \<le> 128)"

definition ValidateSalt :: "bytes \<Rightarrow> bool" where
  "ValidateSalt salt = (length salt \<ge> 8 \<and> length salt \<le> 128)"

definition EncodeNonce :: "bytes \<Rightarrow> string" where
  "EncodeNonce nonce = b64_encode nonce"

datatype nonce_err = BadBase64 | BadNonceLength

definition DecodeNonce :: "string \<Rightarrow> nonce_err + bytes" where
  "DecodeNonce encoded =
     (case b64_decode encoded of
        None \<Rightarrow> Inl BadBase64
      | Some nonce \<Rightarrow> if \<not> ValidateNonce nonce then Inl BadNonceLength else Inr nonce)"

definition CombineNonces :: "bytes \<Rightarrow> bytes \<Rightarrow> bytes" where
  "CombineNonces senderNonce receiverNonce = senderNonce @ receiverNonce"

text \<open>The random bytes are an argument; \<open>None\<close> is a failing source.\<close>

definition GenerateNonce :: "bytes option \<Rightarrow> bytes option" where
  "GenerateNonce rnd = map_option (take NonceSize) rnd"

definition GenerateSecureToken :: "bytes \<Rightarrow> string" where
  "GenerateSecureToken rnd = b64_encode (take 16 rnd)"

section \<open>Keys\<close>

datatype public_key = PkEd25519 bytes | PkRsa bytes | PkOther

datatype VerifyingKey = Ed25519VerifyingKey bytes | RsaPssVerifyingKey bytes

record SigningKey =
  sk_private :: bytes
  sk_public :: bytes

record crypto_ops =
  cr_sha256 :: "bytes \<Rightarrow> bytes"
  cr_ed_sign :: "bytes \<Rightarrow> bytes \<Rightarrow> bytes"
  cr_ed_verify :: "bytes \<Rightarrow> bytes \<Rightarrow> bytes \<Rightarrow> bool"
  cr_rsa_pss_verify :: "bytes \<Rightarrow> bytes \<Rightarrow> bytes \<Rightarrow> bool"
  cr_pkix_der :: "public_key \<Rightarrow> bytes option"
  cr_pem_encode :: "bytes \<Rightarrow> string"
  cr_pem_parse :: "string \<Rightarrow> public_key option"

definition PublicKey :: "SigningKey \<Rightarrow> bytes" where
  "PublicKey k = sk_public k"

definition ToVerifyingKey :: "SigningKey \<Rightarrow> VerifyingKey" where
  "ToVerifyingKey k = Ed25519VerifyingKey (sk_public k)"

definition PublicKeyPEM :: "crypto_ops \<Rightarrow> SigningKey \<Rightarrow> string" where
  "PublicKeyPEM c k =
     (case cr_pkix_der c (PkEd25519 (sk_public k)) of None \<Rightarrow> [] | Some der \<Rightarrow> cr_pem_encode c der)"

fun vk_Verify :: "crypto_ops \<Rightarrow> VerifyingKey \<Rightarrow> bytes \<Rightarrow> bytes \<Rightarrow> bool" where
  "vk_Verify c (Ed25519VerifyingKey pub) msg sig = cr_ed_verify c pub msg sig"
| "vk_Verify c (RsaPssVerifyingKey pub) msg sig = cr_rsa_pss_verify c pub (cr_sha256 c msg) sig"

fun vk_ToDER :: "crypto_ops \<Rightarrow> VerifyingKey \<Rightarrow> bytes option" where
  "vk_ToDER c (Ed25519VerifyingKey pub) = cr_pkix_der c (PkEd25519 pub)"
| "vk_ToDER c (RsaPssVerifyingKey pub) = cr_pkix_der c (PkRsa pub)"

fun vk_SignatureMethod :: "VerifyingKey \<Rightarrow> string" where
  "vk_SignatureMethod (Ed25519VerifyingKey pub) = ''ed25519''"
| "vk_SignatureMethod (RsaPssVerifyingKey pub) = ''rsa-pss''"

definition ParsePublicKey :: "bytes \<Rightarrow> string \<Rightarrow> VerifyingKey option" where
  "ParsePublicKey keyBytes kind =
     (if kind = ''ed25519''
      then (if length keyBytes \<noteq> 32 then None else Some (Ed25519VerifyingKey keyBytes))
      else None)"

definition ParsePublicKeyPEM :: "crypto_ops \<Rightarrow> string \<Rightarrow> VerifyingKey option" where
  "ParsePublicKeyPEM c pemStr =
     (case cr_pem_parse c pemStr of
        None \<Rightarrow> None
      | Some (PkEd25519 v) \<Rightarrow> Some (Ed25519VerifyingKey v)
      | Some (PkRsa v) \<Rightarrow> Some (RsaPssVerifyingKey v)
      | Some PkOther \<Rightarrow> None)"

section \<open>Tokens\<close>

definition createDigestFromDER :: "crypto_ops \<Rightarrow> bytes \<Rightarrow> bytes \<Rightarrow> bytes" where
  "createDigestFromDER c der salt = cr_sha256 c (der @ salt)"

definition token_text :: "bytes \<Rightarrow> bytes \<Rightarrow> string \<Rightarrow> bytes \<Rightarrow> string" where
  "token_text digest salt meth sig =
     join_with CHR ''.'' [''sha256'', b64_encode digest, b64_encode salt, meth, b64_encode sig]"

definition GenerateToken :: "crypto_ops \<Rightarrow> SigningKey \<Rightarrow> bytes \<Rightarrow> string option" where
  "GenerateToken c k salt =
     (case cr_pkix_der c (PkEd25519 (sk_public k)) of
        None \<Rightarrow> None
      | Some der \<Rightarrow>
          let digest = createDigestFromDER c der salt in
          Some (token_text digest salt ''ed25519'' (cr_ed_sign c (sk_private k) digest)))"

definition GenerateTokenWithNonce :: "crypto_ops \<Rightarrow> SigningKey \<Rightarrow> bytes \<Rightarrow> string option" where
  "GenerateTokenWithNonce c k nonce = GenerateToken c k nonce"

text \<open>Eight bytes, least significant first.\<close>

fun le_bytes :: "nat \<Rightarrow> int \<Rightarrow> bytes" where
  "le_bytes 0 x = []"
| "le_bytes (Suc n) x = byte_of (nat (x mod 256)) # le_bytes n (x div 256)"

fun le_val :: "bytes \<Rightarrow> int" where
  "le_val [] = 0"
| "le_val (b # bs) = int (byte_val b) + 256 * le_val bs"

definition GenerateTokenTimestamp :: "crypto_ops \<Rightarrow> SigningKey \<Rightarrow> int \<Rightarrow> string option" where
  "GenerateTokenTimestamp c k nowUnix = GenerateToken c k (le_bytes 8 (nowUnix mod 2 ^ 64))"

datatype token_err =
    TokenStructure | HashMethod | SignMethod | SaltEncoding | SaltRejected | NoDER
  | HashEncoding | HashMismatch | SigEncoding | SigInvalid

text \<open>\<^verbatim>\<open>VerifyToken\<close> sees its key only through the interface: \<open>ver\<close>, \<open>toDER\<close> and \<open>meth\<close> are the
  three methods of \<^verbatim>\<open>VerifyingKey\<close>.\<close>

definition verify_with ::
    "(bytes \<Rightarrow> bytes) \<Rightarrow> (bytes \<Rightarrow> bytes \<Rightarrow> bool) \<Rightarrow> bytes option \<Rightarrow> string \<Rightarrow> string \<Rightarrow>
     (bytes \<Rightarrow> bool) \<Rightarrow> token_err + unit" where
  "verify_with sha ver toDER meth token validateSalt =
     (case split_on CHR ''.'' token of
        [hashMethod, hashBase64, saltBase64, signMethod, signatureBase64] \<Rightarrow>
          if hashMethod \<noteq> ''sha256'' then Inl HashMethod
          else if signMethod \<noteq> meth then Inl SignMethod
          else (case b64_decode saltBase64 of
             None \<Rightarrow> Inl SaltEncoding
           | Some salt \<Rightarrow>
               if \<not> validateSalt salt then Inl SaltRejected
               else (case toDER of
                  None \<Rightarrow> Inl NoDER
                | Some der \<Rightarrow>
                    let expectedDigest = sha (der @ salt) in
                    (case b64_decode hashBase64 of
                       None \<Rightarrow> Inl HashEncoding
                     | Some providedDigest \<Rightarrow>
                         if expectedDigest \<noteq> providedDigest then Inl HashMismatch
                         else (case b64_decode signatureBase64 of
                            None \<Rightarrow> Inl SigEncoding
                          | Some signature \<Rightarrow>
                              if \<not> ver expectedDigest signature then Inl SigInvalid
                              else Inr ()))))
      | _ \<Rightarrow> Inl TokenStructure)"

definition VerifyToken ::
    "crypto_ops \<Rightarrow> VerifyingKey \<Rightarrow> string \<Rightarrow> (bytes \<Rightarrow> bool) \<Rightarrow> token_err + unit" where
  "VerifyToken c key token validateSalt =
     verify_with (cr_sha256 c) (vk_Verify c key) (vk_ToDER c key) (vk_SignatureMethod key)
       token validateSalt"

definition VerifyTokenNonce :: "crypto_ops \<Rightarrow> VerifyingKey \<Rightarrow> string \<Rightarrow> bytes \<Rightarrow> token_err + unit" where
  "VerifyTokenNonce c key token expectedNonce = VerifyToken c key token (\<lambda>salt. salt = expectedNonce)"

text \<open>The subtraction of the two \<^verbatim>\<open>uint64\<close> values wraps.\<close>

definition timestamp_fresh :: "int \<Rightarrow> bytes \<Rightarrow> bool" where
  "timestamp_fresh nowUnix salt =
     (length salt = 8 \<and> (nowUnix - le_val salt) mod 2 ^ 64 \<le> 3600)"

definition VerifyTokenTimestamp :: "crypto_ops \<Rightarrow> VerifyingKey \<Rightarrow> string \<Rightarrow> int \<Rightarrow> token_err + unit" where
  "VerifyTokenTimestamp c key token nowUnix = VerifyToken c key token (timestamp_fresh nowUnix)"

definition ExtractSignatureMethod :: "string \<Rightarrow> string" where
  "ExtractSignatureMethod token =
     (let parts = split_on CHR ''.'' token in if length parts \<ge> 4 then parts ! 3 else [])"

section \<open>What a verified token proves\<close>

locale token_key =
  fixes sha :: "bytes \<Rightarrow> bytes"
    and ver :: "bytes \<Rightarrow> bytes \<Rightarrow> bool"
    and toDER :: "bytes option"
    and meth :: string
  assumes meth_no_dot: "CHR ''.'' \<notin> set meth"
begin

lemma verify_sound:
  assumes "verify_with sha ver toDER meth token valid = Inr ()"
  obtains h s g salt sig der where
    "split_on CHR ''.'' token = [''sha256'', h, s, meth, g]" "b64_decode s = Some salt" "valid salt"
    "toDER = Some der" "b64_decode h = Some (sha (der @ salt))" "b64_decode g = Some sig"
    "ver (sha (der @ salt)) sig"
  using assms unfolding verify_with_def Let_def
  by (auto split: list.splits option.splits if_splits)

lemma split_token:
  "split_on CHR ''.'' (token_text digest salt meth sig) =
     [''sha256'', b64_encode digest, b64_encode salt, meth, b64_encode sig]"
  unfolding token_text_def
  by (rule split_join) (use meth_no_dot b64_encode_no_dot in auto)

lemma verify_text:
  "verify_with sha ver (Some der) meth (token_text (sha (der @ salt)) salt meth sig) valid =
     (if \<not> valid salt then Inl SaltRejected
      else if \<not> ver (sha (der @ salt)) sig then Inl SigInvalid else Inr ())"
  by (simp add: verify_with_def split_token b64_decode_encode Let_def)

lemma verify_one_salt:
  assumes "verify_with sha ver toDER meth token valid = Inr ()"
    and "verify_with sha ver toDER meth token valid' = Inr ()"
  shows "\<exists>salt. valid salt \<and> valid' salt"
  using assms by (elim verify_sound) auto

end

lemma vk_method_no_dot: "CHR ''.'' \<notin> set (vk_SignatureMethod key)"
  by (cases key) auto

interpretation tk: token_key "cr_sha256 c" "vk_Verify c key" "vk_ToDER c key" "vk_SignatureMethod key"
  for c key
  by unfold_locales (rule vk_method_no_dot)

section \<open>Little-endian timestamps\<close>

lemma length_le_bytes [simp]: "length (le_bytes n x) = n"
  by (induction n arbitrary: x) auto

lemma le_val_bytes: "le_val (le_bytes n x) = x mod 256 ^ n"
proof (induction n arbitrary: x)
  case 0
  then show ?case by simp
next
  case (Suc n)
  have "int (byte_val (byte_of (nat (x mod 256)))) = x mod 256"
    by (subst byte_val_of) (auto simp: nat_less_iff)
  with Suc show ?case by (simp add: zmod_zmult2_eq)
qed

section \<open>Properties\<close>

lemma GenerateToken_text:
  assumes "GenerateToken c k salt = Some tok"
  obtains der where "cr_pkix_der c (PkEd25519 (sk_public k)) = Some der"
    "tok = token_text (cr_sha256 c (der @ salt)) salt ''ed25519''
       (cr_ed_sign c (sk_private k) (cr_sha256 c (der @ salt)))"
  using assms by (auto simp: GenerateToken_def createDigestFromDER_def Let_def split: option.splits)

lemma verify_generated:
  assumes "GenerateToken c k salt = Some tok"
    and "\<And>m. cr_ed_verify c (sk_public k) m (cr_ed_sign c (sk_private k) m)"
  shows "VerifyToken c (ToVerifyingKey k) tok valid = (if valid salt then Inr () else Inl SaltRejected)"
proof -
  obtain der where d: "cr_pkix_der c (PkEd25519 (sk_public k)) = Some der"
    "tok = token_text (cr_sha256 c (der @ salt)) salt ''ed25519''
       (cr_ed_sign c (sk_private k) (cr_sha256 c (der @ salt)))"
    by (rule GenerateToken_text [OF assms(1)])
  show ?thesis
    using tk.verify_text [of c "Ed25519VerifyingKey (sk_public k)" der salt] d assms(2)
    by (simp add: VerifyToken_def ToVerifyingKey_def)
qed

text \<open>Tokens round trip. A token signed over a nonce is accepted by the signer's own key
  for that nonce and refused, as carrying another salt, for every other nonce.\<close>

theorem token_roundtrip:
  assumes "GenerateTokenWithNonce c k nonce = Some tok"
    and "\<And>m. cr_ed_verify c (sk_public k) m (cr_ed_sign c (sk_private k) m)"
  shows "VerifyTokenNonce c (ToVerifyingKey k) tok expected =
    (if expected = nonce then Inr () else Inl SaltRejected)"
  using verify_generated [of c k nonce tok] assms
  by (simp add: GenerateTokenWithNonce_def VerifyTokenNonce_def)

text \<open>C18: a verified token is a signature. If a token is accepted for a nonce, the key of the
  verifier has a signature on the hash of its own encoding followed by exactly this nonce, the
  token names the key's signature method, and it is accepted for no other nonce.\<close>

theorem nonce_token_sound:
  assumes "VerifyTokenNonce c key tok nonce = Inr ()"
  shows "(\<exists>der sig. vk_ToDER c key = Some der \<and>
      vk_Verify c key (createDigestFromDER c der nonce) sig) \<and>
    ExtractSignatureMethod tok = vk_SignatureMethod key \<and>
    (\<forall>other. VerifyTokenNonce c key tok other = Inr () \<longleftrightarrow> other = nonce)"
proof -
  have v: "verify_with (cr_sha256 c) (vk_Verify c key) (vk_ToDER c key) (vk_SignatureMethod key) tok
      (\<lambda>salt. salt = nonce) = Inr ()"
    using assms by (simp add: VerifyTokenNonce_def VerifyToken_def)
  obtain h s g salt sig der where t:
    "split_on CHR ''.'' tok = [''sha256'', h, s, vk_SignatureMethod key, g]" "salt = nonce"
    "vk_ToDER c key = Some der" "vk_Verify c key (cr_sha256 c (der @ salt)) sig"
    by (rule tk.verify_sound [OF v]) blast
  have "other = nonce" if "VerifyTokenNonce c key tok other = Inr ()" for other
    using tk.verify_one_salt [OF v] that by (auto simp: VerifyTokenNonce_def VerifyToken_def)
  then have "VerifyTokenNonce c key tok other = Inr () \<longleftrightarrow> other = nonce" for other
    using assms by blast
  moreover have "vk_Verify c key (createDigestFromDER c der nonce) sig"
    using t(2,4) by (simp add: createDigestFromDER_def)
  moreover have "ExtractSignatureMethod tok = vk_SignatureMethod key"
    by (simp add: ExtractSignatureMethod_def t(1))
  ultimately show ?thesis using t(3) by blast
qed

text \<open>Timestamps. A token made at some second is accepted during the hour that starts there
  and never before: the subtraction is unsigned, so a clock one second behind the signer's
  refuses the token as expired.\<close>

theorem timestamp_token_window:
  assumes "GenerateTokenTimestamp c k t = Some tok"
    and "\<And>m. cr_ed_verify c (sk_public k) m (cr_ed_sign c (sk_private k) m)"
    and "0 \<le> t" and "t < 2 ^ 63" and "0 \<le> now" and "now < 2 ^ 63"
  shows "VerifyTokenTimestamp c (ToVerifyingKey k) tok now =
    (if t \<le> now \<and> now \<le> t + 3600 then Inr () else Inl SaltRejected)"
proof -
  have l: "le_val (le_bytes 8 (t mod 2 ^ 64)) = t"
    using assms(3,4) by (simp add: le_val_bytes)
  have "(now - t) mod 2 ^ 64 \<le> 3600 \<longleftrightarrow> t \<le> now \<and> now \<le> t + 3600"
  proof (cases "t \<le> now")
    case True
    with assms(3-6) have "(now - t) mod 2 ^ 64 = now - t" by (intro mod_pos_pos_trivial) auto
    with True show ?thesis by auto
  next
    case False
    have "(now - t) mod 2 ^ 64 = (now - t + 2 ^ 64) mod 2 ^ 64" by simp
    also have "\<dots> = now - t + 2 ^ 64"
      using False assms(3-6) by (intro mod_pos_pos_trivial) auto
    finally show ?thesis using False assms(3-6) by simp
  qed
  then have "timestamp_fresh now (le_bytes 8 (t mod 2 ^ 64)) \<longleftrightarrow> t \<le> now \<and> now \<le> t + 3600"
    by (simp only: timestamp_fresh_def l length_le_bytes simp_thms)
  with verify_generated [of c k "le_bytes 8 (t mod 2 ^ 64)" tok] assms(1,2) show ?thesis
    by (simp add: GenerateTokenTimestamp_def VerifyTokenTimestamp_def)
qed

text \<open>Nonces round trip, and what the decoder accepts has a legal length.\<close>

theorem nonce_codec:
  "DecodeNonce (EncodeNonce n) = (if ValidateNonce n then Inr n else Inl BadNonceLength) \<and>
   (case DecodeNonce s of Inl _ \<Rightarrow> True | Inr m \<Rightarrow> 16 \<le> length m \<and> length m \<le> 128)"
  by (simp add: DecodeNonce_def EncodeNonce_def b64_decode_encode ValidateNonce_def
      split: option.split)

section \<open>Concrete cases\<close>

text \<open>A toy instance of the primitives: the hash keeps its input, a signature repeats its
  message.\<close>

definition demo_crypto :: crypto_ops where
  "demo_crypto = \<lparr>cr_sha256 = (\<lambda>m. m), cr_ed_sign = (\<lambda>priv m. priv @ m),
     cr_ed_verify = (\<lambda>pub m sig. sig = pub @ m), cr_rsa_pss_verify = (\<lambda>pub m sig. False),
     cr_pkix_der = (\<lambda>pk. case pk of PkEd25519 b \<Rightarrow> Some (''D'' @ b) | _ \<Rightarrow> None),
     cr_pem_encode = (\<lambda>der. der),
     cr_pem_parse = (\<lambda>pem. case pem of [] \<Rightarrow> None | x # b \<Rightarrow> Some (PkEd25519 b))\<rparr>"

definition demo_key :: SigningKey where
  "demo_key = \<lparr>sk_private = ''K'', sk_public = ''K''\<rparr>"

lemma demo_signs: "cr_ed_verify demo_crypto (sk_public demo_key) m (cr_ed_sign demo_crypto (sk_private demo_key) m)"
  by (simp add: demo_crypto_def demo_key_def)

theorem token_roundtrip_witness:
  "\<exists>tok. GenerateTokenWithNonce demo_crypto demo_key ''nonce'' = Some tok \<and>
     VerifyTokenNonce demo_crypto (ToVerifyingKey demo_key) tok ''nonce'' = Inr () \<and>
     VerifyTokenNonce demo_crypto (ToVerifyingKey demo_key) tok ''other'' = Inl SaltRejected"
proof -
  have "GenerateTokenWithNonce demo_crypto demo_key ''nonce'' \<noteq> None" by code_simp
  then obtain tok where "GenerateTokenWithNonce demo_crypto demo_key ''nonce'' = Some tok" by blast
  with token_roundtrip [OF this demo_signs] show ?thesis by auto
qed

theorem nonce_token_sound_witness:
  "\<exists>tok. VerifyTokenNonce demo_crypto (ToVerifyingKey demo_key) tok ''nonce'' = Inr () \<and>
     ExtractSignatureMethod tok = ''ed25519''"
proof -
  have v: "VerifyTokenNonce demo_crypto (ToVerifyingKey demo_key)
      (token_text ''DKnonce'' ''nonce'' ''ed25519'' ''KDKnonce'') ''nonce'' = Inr ()" by code_simp
  with nonce_token_sound [OF v] show ?thesis
    by (intro exI [of _ "token_text ''DKnonce'' ''nonce'' ''ed25519'' ''KDKnonce''"])
      (simp add: ToVerifyingKey_def)
qed

theorem timestamp_token_window_witness:
  "\<exists>tok. GenerateTokenTimestamp demo_crypto demo_key 1000 = Some tok \<and>
     VerifyTokenTimestamp demo_crypto (ToVerifyingKey demo_key) tok 4600 = Inr () \<and>
     VerifyTokenTimestamp demo_crypto (ToVerifyingKey demo_key) tok 999 = Inl SaltRejected"
proof -
  have "GenerateTokenTimestamp demo_crypto demo_key 1000 \<noteq> None" by code_simp
  then obtain tok where t: "GenerateTokenTimestamp demo_crypto demo_key 1000 = Some tok" by blast
  from timestamp_token_window [OF t demo_signs, of 4600] timestamp_token_window [OF t demo_signs, of 999] t
  show ?thesis by simp
qed

end
