(* ===== verification/JsonPrint.thy ===== *)
theory JsonPrint
  imports Json
begin

text \<open>
  The encoder of Go's \<^verbatim>\<open>encoding/json\<close>, with the HTML-safe escapes it uses by default, compact
  or indented with two spaces, and the proof that the decoder reads back what it wrote. A string
  that is not valid UTF-8 comes back with every bad byte replaced (\<open>fix_utf8\<close>).
\<close>

section \<open>Strings\<close>

definition esc_u :: "nat \<Rightarrow> string" where
  "esc_u b = [bslash, CHR ''u'', CHR ''0'', CHR ''0'', hex_digit (b div 16), hex_digit (b mod 16)]"

definition esc_ascii :: "char \<Rightarrow> string" where
  "esc_ascii c =
     (let b = byte_val c in
      if c = quote_char \<or> c = bslash then [bslash, c]
      else if b = 8 then [bslash, CHR ''b'']
      else if b = 12 then [bslash, CHR ''f'']
      else if b = 10 then [bslash, CHR ''n'']
      else if b = 13 then [bslash, CHR ''r'']
      else if b = 9 then [bslash, CHR ''t'']
      else if b < 32 \<or> b = 60 \<or> b = 62 \<or> b = 38 then esc_u b
      else [c])"

definition esc_rune :: "string \<Rightarrow> string" where
  "esc_rune run =
     (if run = utf8_encode 8232 then bslash # ''u2028''
      else if run = utf8_encode 8233 then bslash # ''u2029''
      else run)"

function escape :: "string \<Rightarrow> string" where
  "escape [] = []"
| "escape (c # cs) =
     (if byte_val c < 128 then esc_ascii c @ escape cs
      else case rune_conts (byte_val c) cs of
             None \<Rightarrow> bslash # ''ufffd'' @ escape cs
           | Some n \<Rightarrow> esc_rune (c # take n cs) @ escape (drop n cs))"
  by pat_completeness auto
termination by (relation "measure length") auto

function fix_utf8 :: "string \<Rightarrow> string" where
  "fix_utf8 [] = []"
| "fix_utf8 (c # cs) =
     (case rune_conts (byte_val c) cs of
        None \<Rightarrow> rune_error @ fix_utf8 cs
      | Some n \<Rightarrow> c # take n cs @ fix_utf8 (drop n cs))"
  by pat_completeness auto
termination by (relation "measure length") auto

definition print_str :: "string \<Rightarrow> string" where
  "print_str s = quote_char # escape s @ [quote_char]"

lemma rune_conts_ascii [simp]: "b < 128 \<Longrightarrow> rune_conts b cs = Some 0"
  by (simp add: rune_conts_def)

lemma fix_utf8_ascii: "list_all is_ascii s \<Longrightarrow> fix_utf8 s = s"
  by (induction s) (auto simp: is_ascii_def)

lemma hex_val_digit: "d < 16 \<Longrightarrow> hex_val (hex_digit d) = Some (int d)"
  by (auto simp: hex_val_def hex_digit_def Let_def)

lemma byte_val_0 [simp]: "byte_val CHR ''0'' = 48"
  by code_simp

lemma quote_bslash [simp]: "quote_char \<noteq> bslash" "bslash \<noteq> quote_char"
  "byte_val quote_char = 34" "byte_val bslash = 92"
  by code_simp+

lemma unquote_esc:
  assumes "unescape (e @ t) = Some (out, length e)"
  shows "unquote (bslash # e @ t) = map_option (\<lambda>(x, r). (out @ x, r)) (unquote t)"
  using assms by simp

lemma unescape_simple:
  "unescape (CHR ''b'' # t) = Some ([byte_of 8], 1)" "unescape (CHR ''f'' # t) = Some ([byte_of 12], 1)"
  "unescape (CHR ''n'' # t) = Some ([byte_of 10], 1)" "unescape (CHR ''r'' # t) = Some ([byte_of 13], 1)"
  "unescape (CHR ''t'' # t) = Some ([byte_of 9], 1)"
  "unescape (quote_char # t) = Some ([quote_char], 1)" "unescape (bslash # t) = Some ([bslash], 1)"
  by (simp_all add: unescape_def quote_char_def bslash_def byte_of_def char_of_def)

lemma unescape_u:
  assumes "hex4 r = Some v" and "\<not> (55296 \<le> v \<and> v < 57344)"
  shows "unescape (CHR ''u'' # r) = Some (utf8_encode v, 5)"
  using assms by (auto simp: unescape_def quote_char_def bslash_def byte_of_def char_of_def)

lemma hex_val_0 [simp]: "hex_val CHR ''0'' = Some 0"
  by code_simp

lemma unquote_esc_u:
  assumes "byte_val c < 128"
  shows "unquote (esc_u (byte_val c) @ t) = map_option (\<lambda>(x, r). (c # x, r)) (unquote t)"
proof -
  let ?h = "[CHR ''0'', CHR ''0'', hex_digit (byte_val c div 16), hex_digit (byte_val c mod 16)]"
  have "16 * int (byte_val c div 16) + int (byte_val c mod 16) = int (byte_val c)"
    by (metis mult_div_mod_eq of_nat_add of_nat_mult of_nat_numeral)
  then have h: "hex4 (?h @ t) = Some (int (byte_val c))"
    using assms by (simp add: hex4_def hex_val_digit)
  have "unescape (CHR ''u'' # ?h @ t) = Some ([c], 5)"
    using unescape_u [OF h] assms by (simp add: utf8_encode_def Let_def)
  then show ?thesis
    using unquote_esc [of "CHR ''u'' # ?h" t "[c]"] by (simp add: esc_u_def)
qed

lemma unquote_ascii:
  assumes "byte_val c < 128"
  shows "unquote (esc_ascii c @ t) = map_option (\<lambda>(x, r). (c # x, r)) (unquote t)"
proof -
  have simple: "unquote (bslash # e # t) = map_option (\<lambda>(x, r). (c # x, r)) (unquote t)"
    if "unescape (e # t) = Some ([c], 1)" for e
    using unquote_esc [of "[e]" t "[c]"] that by simp
  consider "c = quote_char \<or> c = bslash" | "byte_val c \<in> {8, 12, 10, 13, 9}"
    | "byte_val c < 32 \<or> byte_val c \<in> {60, 62, 38}" "byte_val c \<notin> {8, 12, 10, 13, 9}"
    | "c \<noteq> quote_char" "c \<noteq> bslash" "\<not> byte_val c < 32" "byte_val c \<notin> {60, 62, 38}"
    by blast
  then show ?thesis
  proof cases
    case 1
    then show ?thesis by (auto simp: esc_ascii_def Let_def simple unescape_simple simp del: unquote.simps)
  next
    case 2
    then have "c \<noteq> quote_char" "c \<noteq> bslash" by auto
    moreover from 2 have "c = byte_of 8 \<or> c = byte_of 12 \<or> c = byte_of 10 \<or> c = byte_of 13 \<or> c = byte_of 9"
      by (metis byte_of_val empty_iff insert_iff)
    ultimately show ?thesis
      by (elim disjE) (simp_all add: esc_ascii_def simple unescape_simple del: unquote.simps)
  next
    case 3
    then have "c \<noteq> quote_char" "c \<noteq> bslash" by auto
    with 3 have "esc_ascii c = esc_u (byte_val c)" by (auto simp: esc_ascii_def Let_def)
    with unquote_esc_u [OF assms] show ?thesis by simp
  next
    case 4
    then have "esc_ascii c = [c]" by (auto simp: esc_ascii_def Let_def)
    with 4 assms show ?thesis by simp
  qed
qed

text \<open>A multi-byte rune is read back whole.\<close>

lemma conts_take: "conts n cs \<Longrightarrow> conts n (take n cs @ r) \<and> n \<le> length cs"
  by (auto simp: conts_def)

lemma byte_in_take: "byte_in lo hi cs \<Longrightarrow> 0 < n \<Longrightarrow> byte_in lo hi (take n cs @ r)"
  by (cases cs; cases n) (auto simp: byte_in_def)

lemma rune_conts_local:
  assumes "rune_conts b cs = Some n"
  shows "rune_conts b (take n cs @ r) = Some n" and "n \<le> length cs"
  using assms conts_take [of _ cs r]
  by (auto simp: rune_conts_def byte_in_take split: if_splits)

lemma hex_val_consts:
  "hex_val CHR ''f'' = Some 15" "hex_val CHR ''d'' = Some 13" "hex_val CHR ''2'' = Some 2"
  "hex_val CHR ''8'' = Some 8" "hex_val CHR ''9'' = Some 9"
  by code_simp+

lemma unescape_fffd: "unescape (''ufffd'' @ t) = Some (rune_error, 5)"
  using unescape_u [of "''fffd'' @ t" 65533]
  by (simp add: hex4_def hex_val_consts rune_error_def)

lemma unescape_2028: "unescape (''u2028'' @ t) = Some (utf8_encode 8232, 5)"
  "unescape (''u2029'' @ t) = Some (utf8_encode 8233, 5)"
  using unescape_u [of "''2028'' @ t" 8232] unescape_u [of "''2029'' @ t" 8233]
  by (simp_all add: hex4_def hex_val_consts)

lemma utf8_2028_2029: "utf8_encode 8233 \<noteq> utf8_encode 8232"
  by code_simp

lemma unquote_rune:
  assumes "rune_conts (byte_val c) cs = Some n" and "128 \<le> byte_val c"
  shows "unquote (esc_rune (c # take n cs) @ t) = map_option (\<lambda>(x, r). (c # take n cs @ x, r)) (unquote t)"
proof -
  have c: "c \<noteq> quote_char" "c \<noteq> bslash" using assms(2) by auto
  note n = rune_conts_local [OF assms(1)]
  have plain: "unquote (c # take n cs @ t) = map_option (\<lambda>(x, r). (c # take n cs @ x, r)) (unquote t)"
    using c assms(2) n(2) by (simp add: n(1))
  have esc: "unquote (bslash # e @ t) = map_option (\<lambda>(x, r). (c # take n cs @ x, r)) (unquote t)"
    if "unescape (e @ t) = Some (c # take n cs, length e)" for e
    using unquote_esc [OF that] by simp
  consider "c # take n cs = utf8_encode 8232" | "c # take n cs = utf8_encode 8233"
    | "c # take n cs \<noteq> utf8_encode 8232" "c # take n cs \<noteq> utf8_encode 8233" by blast
  then show ?thesis
  proof cases
    case 1
    then show ?thesis using esc [of "''u2028''"] unescape_2028(1) [of t] by (simp add: esc_rune_def del: unquote.simps)
  next
    case 2
    then show ?thesis
      using esc [of "''u2029''"] unescape_2028(2) [of t] utf8_2028_2029
      by (simp add: esc_rune_def del: unquote.simps)
  next
    case 3
    then show ?thesis using plain by (simp add: esc_rune_def del: unquote.simps)
  qed
qed

lemma unquote_escape: "unquote (escape s @ quote_char # r) = Some (fix_utf8 s, r)"
proof (induction s rule: fix_utf8.induct)
  case 1
  then show ?case by simp
next
  case (2 c cs)
  show ?case
  proof (cases "byte_val c < 128")
    case True
    with "2.IH"(2) [of 0] unquote_ascii [OF True] show ?thesis by simp
  next
    case big: False
    show ?thesis
    proof (cases "rune_conts (byte_val c) cs")
      case None
      with big "2.IH"(1) show ?thesis
        using unquote_esc [of "''ufffd''" "escape cs @ quote_char # r" rune_error]
          unescape_fffd [of "escape cs @ quote_char # r"]
        by simp
    next
      case (Some n)
      with big "2.IH"(2) [OF Some] unquote_rune [OF Some] show ?thesis by simp
    qed
  qed
qed

section \<open>Values\<close>

text \<open>\<open>ind\<close> is the nesting level when indenting and \<open>None\<close> in compact form. The program prints
  no numbers but integers.\<close>

definition nl :: "nat option \<Rightarrow> string" where
  "nl ind = (case ind of None \<Rightarrow> [] | Some k \<Rightarrow> byte_of 10 # replicate (2 * k) CHR '' '')"

definition colon :: "nat option \<Rightarrow> string" where
  "colon ind = (case ind of None \<Rightarrow> '':'' | Some _ \<Rightarrow> '': '')"

fun print_value :: "nat option \<Rightarrow> json \<Rightarrow> string"
  and print_elems :: "nat option \<Rightarrow> json list \<Rightarrow> string"
  and print_members :: "nat option \<Rightarrow> (string \<times> json) list \<Rightarrow> string" where
  "print_value ind JNull = ''null''"
| "print_value ind (JBool b) = (if b then ''true'' else ''false'')"
| "print_value ind (JNum lit) = lit"
| "print_value ind (JStr s) = print_str s"
| "print_value ind (JArr vs) =
     (if vs = [] then ''[]''
      else CHR ''['' # nl (map_option Suc ind) @ print_elems (map_option Suc ind) vs @ nl ind @ '']'')"
| "print_value ind (JObj ms) =
     (if ms = [] then ''{}''
      else CHR ''{'' # nl (map_option Suc ind) @ print_members (map_option Suc ind) ms @ nl ind @ ''}'')"
| "print_elems ind [] = []"
| "print_elems ind (v # vs) =
     print_value ind v @ (if vs = [] then [] else CHR '','' # nl ind @ print_elems ind vs)"
| "print_members ind [] = []"
| "print_members ind ((k, v) # ms) =
     print_str k @ colon ind @ print_value ind v @
       (if ms = [] then [] else CHR '','' # nl ind @ print_members ind ms)"

fun fix_value :: "json \<Rightarrow> json" where
  "fix_value (JStr s) = JStr (fix_utf8 s)"
| "fix_value (JArr vs) = JArr (map fix_value vs)"
| "fix_value (JObj ms) = JObj (map (\<lambda>(k, v). (fix_utf8 k, fix_value v)) ms)"
| "fix_value v = v"

text \<open>Only integer literals, and no deeper than \<open>d\<close>.\<close>

fun printable :: "nat \<Rightarrow> json \<Rightarrow> bool" where
  "printable d (JNum lit) = (\<exists>i. lit = int_dec i)"
| "printable d (JArr vs) = (case d of 0 \<Rightarrow> False | Suc e \<Rightarrow> list_all (printable e) vs)"
| "printable d (JObj ms) = (case d of 0 \<Rightarrow> False | Suc e \<Rightarrow> list_all (\<lambda>(k, v). printable e v) ms)"
| "printable d v = True"

lemma skip_ws_append: "list_all is_ws w \<Longrightarrow> skip_ws (w @ s) = skip_ws s"
  by (simp add: skip_ws_def list_all_iff dropWhile_append)

lemma nl_ws: "list_all is_ws (nl ind)"
  by (auto simp: nl_def is_ws_def list_all_iff split: option.split) (simp_all add: byte_val_def)

lemma skip_nl [simp]: "skip_ws (nl ind @ s) = skip_ws s"
  by (rule skip_ws_append [OF nl_ws])

lemma skip_ws_tok [simp]: "\<not> is_ws c \<Longrightarrow> skip_ws (c # s) = c # s"
  by (simp add: skip_ws_def)

lemma skip_ws_space [simp]: "skip_ws (CHR '' '' # s) = skip_ws s"
  by (simp add: skip_ws_def is_ws_def byte_val_def)

lemma toks_not_ws [simp]:
  "\<not> is_ws CHR ''{''" "\<not> is_ws CHR ''}''" "\<not> is_ws CHR ''[''" "\<not> is_ws CHR '']''"
  "\<not> is_ws CHR '',''" "\<not> is_ws CHR '':''" "\<not> is_ws quote_char"
  "\<not> is_ws CHR ''t''" "\<not> is_ws CHR ''f''" "\<not> is_ws CHR ''n''" "\<not> is_ws CHR ''-''"
  by code_simp+

text \<open>After a number, anything that cannot continue it.\<close>

definition ends_number :: "string \<Rightarrow> bool" where
  "ends_number r \<longleftrightarrow>
     (case r of [] \<Rightarrow> True
      | c # _ \<Rightarrow> \<not> is_digit c \<and> c \<noteq> CHR ''.'' \<and> c \<noteq> CHR ''e'' \<and> c \<noteq> CHR ''E'')"

lemma nat_dec_head:
  "\<exists>c cs. nat_dec n = c # cs \<and> (c = CHR ''0'' \<longrightarrow> cs = [])"
proof (induction n rule: nat_dec.induct)
  case (1 n)
  show ?case
  proof (cases "n < 10")
    case True
    then show ?thesis by (subst nat_dec.simps) simp
  next
    case False
    then obtain c cs where h: "nat_dec (n div 10) = c # cs" "c = CHR ''0'' \<longrightarrow> cs = []"
      using 1 by blast
    have "c \<noteq> CHR ''0''"
    proof
      assume "c = CHR ''0''"
      with h have "nat_dec (n div 10) = ''0''" by simp
      also have "\<dots> = nat_dec 0" by code_simp
      finally have "n div 10 = 0" by (rule nat_dec_inj)
      with False show False by simp
    qed
    with False h show ?thesis by (subst nat_dec.simps) simp
  qed
qed

lemma takeWhile_digits:
  "list_all is_digit ds \<Longrightarrow> ends_number r \<Longrightarrow>
   takeWhile is_digit (ds @ r) = ds \<and> dropWhile is_digit (ds @ r) = r"
  by (induction ds) (auto simp: ends_number_def split: list.splits)

lemma lex_int_nat:
  assumes "ends_number r"
  shows "lex_int (nat_dec n @ r) = Some (nat_dec n, r)"
proof -
  obtain c cs where h: "nat_dec n = c # cs" "c = CHR ''0'' \<longrightarrow> cs = []" using nat_dec_head by blast
  have d: "list_all is_digit (nat_dec n)" by (auto simp: list_all_iff dest: nat_dec_digits)
  show ?thesis
    using takeWhile_digits [OF d assms] d h by (auto simp: lex_int_def digits_def)
qed

lemma lex_frac_end: "ends_number r \<Longrightarrow> lex_frac r = Some ([], r)"
  by (cases r) (auto simp: lex_frac_def ends_number_def)

lemma lex_exp_end: "ends_number r \<Longrightarrow> lex_exp r = Some ([], r)"
  by (cases r) (auto simp: lex_exp_def ends_number_def)

lemma minus_not_digit [simp]: "\<not> is_digit CHR ''-''"
  by code_simp

lemma lex_number_int:
  assumes "ends_number r"
  shows "lex_number (int_dec i @ r) = Some (int_dec i, r)"
proof -
  obtain c cs where h: "nat_dec (nat i) = c # cs" using nat_dec_head by blast
  then have "c \<noteq> CHR ''-''" using nat_dec_digits [of c "nat i"] by auto
  moreover have "lex_int (c # cs @ r) = Some (c # cs, r)" using lex_int_nat [OF assms, of "nat i"] h by simp
  ultimately show ?thesis
    using h lex_int_nat [OF assms, of "nat (- i)"] lex_frac_end [OF assms] lex_exp_end [OF assms]
    by (cases "i < 0") (simp_all add: lex_number_def int_dec_def)
qed

section \<open>Printing and parsing\<close>

lemma parse_skip: "list_all is_ws w \<Longrightarrow> parse_value d (w @ s) = parse_value d s"
  by (subst (1 2) parse_value.simps) (simp add: skip_ws_append)

lemma parse_colon: "parse_value d (drop (Suc 0) (colon ind) @ s) = parse_value d s"
  using parse_skip [of "drop (Suc 0) (colon ind)" d s]
  by (auto simp: colon_def is_ws_def byte_val_def split: option.splits)

lemma parse_elems_step:
  assumes "parse_value d s = Some (v, r)" and "skip_ws r = c # r'"
  shows "parse_elems d s =
    (if c = CHR '']'' then Some ([v], r')
     else if c = CHR '','' then map_option (\<lambda>(vs, q). (v # vs, q)) (parse_elems d r') else None)"
proof -
  have "length r' < length s" using parse_consumes(1) [OF assms(1)] skip_ws_Cons [OF assms(2)] by simp
  with assms show ?thesis by (subst parse_elems.simps) simp
qed

lemma parse_members_step:
  assumes "skip_ws s = quote_char # r" and "unquote r = Some (k, r1)" and "skip_ws r1 = CHR '':'' # r2"
    and "parse_value d r2 = Some (v, r3)" and "skip_ws r3 = c # r4"
  shows "parse_members d s =
    (if c = CHR ''}'' then Some ([(k, v)], r4)
     else if c = CHR '','' then map_option (\<lambda>(ms, q). ((k, v) # ms, q)) (parse_members d r4) else None)"
proof -
  have "length r2 < length s"
    using skip_ws_Cons [OF assms(1)] skip_ws_Cons [OF assms(3)] unquote_length [OF assms(2)] by simp
  moreover have "length r4 < length s"
    using calculation parse_consumes(1) [OF assms(4)] skip_ws_Cons [OF assms(5)] by simp
  ultimately show ?thesis using assms by (subst parse_members.simps) simp
qed

lemma digit_head:
  "is_digit c \<Longrightarrow> \<not> is_ws c \<and> c \<noteq> CHR '']'' \<and> c \<noteq> CHR ''}'' \<and> c \<noteq> CHR ''{'' \<and> c \<noteq> CHR ''['' \<and>
     c \<noteq> quote_char \<and> c \<noteq> CHR ''t'' \<and> c \<noteq> CHR ''f'' \<and> c \<noteq> CHR ''n''"
proof -
  have "\<not> is_digit CHR '']''" "\<not> is_digit CHR ''}''" "\<not> is_digit CHR ''{''" "\<not> is_digit CHR ''[''"
    "\<not> is_digit quote_char" "\<not> is_digit CHR ''t''" "\<not> is_digit CHR ''f''" "\<not> is_digit CHR ''n''"
    by code_simp+
  then show "is_digit c \<Longrightarrow> ?thesis" by (auto simp: is_ws_def is_digit_def)
qed

lemma int_dec_head:
  "\<exists>c t. int_dec i = c # t \<and> \<not> is_ws c \<and> c \<noteq> CHR '']'' \<and> c \<noteq> CHR ''}'' \<and> c \<noteq> CHR ''{'' \<and>
     c \<noteq> CHR ''['' \<and> c \<noteq> quote_char \<and> c \<noteq> CHR ''t'' \<and> c \<noteq> CHR ''f'' \<and> c \<noteq> CHR ''n''"
proof (cases "i < 0")
  case True
  have "CHR ''-'' \<noteq> quote_char" by code_simp
  with True show ?thesis by (simp add: int_dec_def)
next
  case False
  obtain c cs where h: "nat_dec (nat i) = c # cs" using nat_dec_head by blast
  then have "is_digit c" using nat_dec_digits [of c "nat i"] by simp
  from digit_head [OF this] False h show ?thesis by (simp add: int_dec_def)
qed

lemma quote_neq [simp]:
  "quote_char \<noteq> CHR ''{''" "quote_char \<noteq> CHR ''[''" "quote_char \<noteq> CHR '']''" "quote_char \<noteq> CHR ''}''"
  "CHR ''n'' \<noteq> quote_char" "CHR ''t'' \<noteq> quote_char" "CHR ''f'' \<noteq> quote_char"
  by code_simp+

lemma print_head:
  "printable n v \<Longrightarrow> \<exists>c t. print_value ind v = c # t \<and> \<not> is_ws c \<and> c \<noteq> CHR '']''"
proof (cases v)
  case (JNum lit)
  assume "printable n v"
  with JNum obtain i where "lit = int_dec i" by auto
  with JNum int_dec_head [of i] show ?thesis by auto
qed (auto simp: print_str_def)

lemma parse_num:
  assumes "ends_number r"
  shows "parse_value d (int_dec i @ r) = Some (JNum (int_dec i), r)"
proof -
  obtain c t where h: "int_dec i = c # t" "\<not> is_ws c" "c \<noteq> CHR ''{''" "c \<noteq> CHR ''[''" "c \<noteq> quote_char"
    "c \<noteq> CHR ''t''" "c \<noteq> CHR ''f''" "c \<noteq> CHR ''n''" using int_dec_head [of i] by blast
  with lex_number_int [OF assms, of i] show ?thesis by (subst parse_value.simps) simp
qed

lemma parse_str: "parse_value d (print_str s @ r) = Some (JStr (fix_utf8 s), r)"
  by (subst parse_value.simps) (simp add: print_str_def unquote_escape)

lemma ends_tok [simp]:
  "ends_number (CHR '','' # r)" "ends_number (CHR ''}'' # r)" "ends_number (CHR '']'' # r)" "ends_number []"
  unfolding ends_number_def by (simp_all add: is_digit_def byte_val_def)

lemma ends_ws: "list_all is_ws w \<Longrightarrow> ends_number r \<Longrightarrow> ends_number (w @ r)"
  by (cases w) (auto simp: ends_number_def is_ws_def is_digit_def byte_val_def)

lemma skip_head:
  assumes "list_all is_ws w" and "\<not> is_ws c"
  shows "skip_ws (w @ c # s) = c # s"
  using assms by (simp add: skip_ws_append)

lemma elems_head:
  "list_all (printable n) vs \<Longrightarrow> vs \<noteq> [] \<Longrightarrow>
   \<exists>c t. print_elems ind vs = c # t \<and> \<not> is_ws c \<and> c \<noteq> CHR '']''"
  using print_head [of n "hd vs" ind] by (cases vs) auto

lemma members_head: "ms \<noteq> [] \<Longrightarrow> \<exists>t. print_members ind ms = quote_char # t"
  by (cases ms) (auto simp: print_str_def)

lemma parse_array:
  assumes "d < maxNestingDepth" and "skip_ws s = c # t" and "c \<noteq> CHR '']''"
  shows "parse_value d (CHR ''['' # s) = map_option (\<lambda>(vs, q). (JArr vs, q)) (parse_elems (d + 1) s)"
  using assms by (subst parse_value.simps) simp

lemma parse_object:
  assumes "d < maxNestingDepth" and "skip_ws s = c # t" and "c \<noteq> CHR ''}''"
  shows "parse_value d (CHR ''{'' # s) = map_option (\<lambda>(ms, q). (JObj ms, q)) (parse_members (d + 1) s)"
  using assms by (subst parse_value.simps) simp

lemma map_option_pair: "x = Some (a, b) \<Longrightarrow> map_option (\<lambda>(v, q). (f v, q)) x = Some (f a, b)"
  by simp

lemma print_parse:
  "printable n v \<Longrightarrow> d + int n \<le> maxNestingDepth \<Longrightarrow> ends_number r \<Longrightarrow>
     parse_value d (print_value ind v @ r) = Some (fix_value v, r)"
  "list_all (printable n) vs \<Longrightarrow> vs \<noteq> [] \<Longrightarrow> d + int n \<le> maxNestingDepth \<Longrightarrow> list_all is_ws w \<Longrightarrow>
     list_all is_ws w' \<Longrightarrow>
     parse_elems d (w @ print_elems ind vs @ w' @ CHR '']'' # r) = Some (map fix_value vs, r)"
  "list_all (\<lambda>(k, v). printable n v) ms \<Longrightarrow> ms \<noteq> [] \<Longrightarrow> d + int n \<le> maxNestingDepth \<Longrightarrow>
     list_all is_ws w \<Longrightarrow> list_all is_ws w' \<Longrightarrow>
     parse_members d (w @ print_members ind ms @ w' @ CHR ''}'' # r) =
       Some (map (\<lambda>(k, v). (fix_utf8 k, fix_value v)) ms, r)"
proof (induction ind v and ind vs and ind ms arbitrary: n d r and n d w w' r and n d w w' r
    rule: print_value_print_elems_print_members.induct)
  case (1 ind)
  then show ?case by (subst parse_value.simps) (simp add: lex_word_def has_prefix_def)
next
  case (2 ind b)
  then show ?case by (subst parse_value.simps) (simp add: lex_word_def has_prefix_def)
next
  case (3 ind lit)
  then show ?case by (auto simp: parse_num)
next
  case (4 ind s)
  then show ?case by (simp add: parse_str)
next
  case (5 ind vs)
  show ?case
  proof (cases "vs = []")
    case True
    with 5 show ?thesis by (cases n; subst parse_value.simps) auto
  next
    case False
    from "5.prems" obtain e where n: "n = Suc e" "list_all (printable e) vs" by (cases n) auto
    let ?s = "nl (map_option Suc ind) @ print_elems (map_option Suc ind) vs @ nl ind @ CHR '']'' # r"
    obtain c t where h: "skip_ws ?s = c # t" "c \<noteq> CHR '']''"
      using elems_head [OF n(2) False, of "map_option Suc ind"] by auto
    have "parse_elems (d + 1) ?s = Some (map fix_value vs, r)"
      by (rule "5.IH" [OF False n(2) False _ nl_ws nl_ws]) (use "5.prems" n in simp)
    from map_option_pair [OF this, of JArr] parse_array [OF _ h] "5.prems" n False show ?thesis by simp
  qed
next
  case (6 ind ms)
  show ?case
  proof (cases "ms = []")
    case True
    with 6 show ?thesis by (cases n; subst parse_value.simps) auto
  next
    case False
    from "6.prems" obtain e where n: "n = Suc e" "list_all (\<lambda>(k, v). printable e v) ms" by (cases n) auto
    let ?s = "nl (map_option Suc ind) @ print_members (map_option Suc ind) ms @ nl ind @ CHR ''}'' # r"
    obtain t where h: "skip_ws ?s = quote_char # t"
      using members_head [OF False, of "map_option Suc ind"] by auto
    have "parse_members (d + 1) ?s = Some (map (\<lambda>(k, v). (fix_utf8 k, fix_value v)) ms, r)"
      by (rule "6.IH" [OF False n(2) False _ nl_ws nl_ws]) (use "6.prems" n in simp)
    from map_option_pair [OF this, of JObj] parse_object [OF _ h] "6.prems" n False show ?thesis by simp
  qed
next
  case (7 ind)
  then show ?case by simp
next
  case (8 ind v vs)
  note w = "8.prems"(4,5)
  have v: "printable n v" "list_all (printable n) vs" using "8.prems" by simp_all
  show ?case
  proof (cases "vs = []")
    case True
    have "parse_value d (w @ print_value ind v @ w' @ CHR '']'' # r) = Some (fix_value v, w' @ CHR '']'' # r)"
      using "8.IH"(1) [OF v(1) "8.prems"(3) ends_ws [OF w(2) ends_tok(3)]] parse_skip [OF w(1)] by simp
    from parse_elems_step [OF this skip_head [OF w(2) toks_not_ws(4)]] True show ?thesis by simp
  next
    case False
    let ?t = "nl ind @ print_elems ind vs @ w' @ CHR '']'' # r"
    have "parse_value d (w @ print_value ind v @ CHR '','' # ?t) = Some (fix_value v, CHR '','' # ?t)"
      using "8.IH"(1) [OF v(1) "8.prems"(3) ends_tok(1)] parse_skip [OF w(1)] by simp
    from parse_elems_step [OF this skip_ws_tok] "8.IH"(2) [OF False v(2) False "8.prems"(3) nl_ws w(2)]
    show ?thesis using False by simp
  qed
next
  case (9 ind)
  then show ?case by simp
next
  case (10 ind k v ms)
  note w = "10.prems"(4,5)
  have v: "printable n v" "list_all (\<lambda>(k, v). printable n v) ms" using "10.prems" by simp_all
  have head: "skip_ws (w @ print_str k @ colon ind @ s) = quote_char # escape k @ quote_char # colon ind @ s" for s
    using w by (simp add: print_str_def skip_ws_append)
  have col: "skip_ws (colon ind @ s) = CHR '':'' # drop (Suc 0) (colon ind) @ s" for s
    by (simp add: colon_def split: option.split)
  show ?case
  proof (cases "ms = []")
    case True
    have "parse_value d (drop (Suc 0) (colon ind) @ print_value ind v @ w' @ CHR ''}'' # r) =
        Some (fix_value v, w' @ CHR ''}'' # r)"
      using "10.IH"(1) [OF v(1) "10.prems"(3) ends_ws [OF w(2) ends_tok(2)]] by (simp add: parse_colon)
    from parse_members_step [OF head unquote_escape col this skip_head [OF w(2) toks_not_ws(2)]] True
    show ?thesis by simp
  next
    case False
    let ?t = "nl ind @ print_members ind ms @ w' @ CHR ''}'' # r"
    have "parse_value d (drop (Suc 0) (colon ind) @ print_value ind v @ CHR '','' # ?t) =
        Some (fix_value v, CHR '','' # ?t)"
      using "10.IH"(1) [OF v(1) "10.prems"(3) ends_tok(1)] by (simp add: parse_colon)
    from parse_members_step [OF head unquote_escape col this skip_ws_tok]
      "10.IH"(2) [OF False v(2) False "10.prems"(3) nl_ws w(2)]
    show ?thesis using False by simp
  qed
qed

lemma decode_print:
  assumes "printable n v" and "int n \<le> maxNestingDepth"
  shows "json_decode (print_value ind v) = Some (fix_value v)"
  using print_parse(1) [OF assms(1), of 0 "[]" ind] assms(2) by (simp add: json_decode_def skip_ws_def)

text \<open>Integers read back.\<close>

lemma dec_int_val: "dec_int (int a) s = int (dec_val a s)"
proof (induction s arbitrary: a)
  case Nil
  then show ?case by simp
next
  case (Cons c s)
  have "10 * int a + int (byte_val c - 48) = int (10 * a + (byte_val c - 48))" by simp
  then show ?case using Cons.IH [of "10 * a + (byte_val c - 48)"] by simp
qed

lemma lit_int64_dec: "is_int64 i \<Longrightarrow> lit_int64 (int_dec i) = Some i"
proof -
  assume i: "is_int64 i"
  have d: "list_all is_digit (nat_dec n)" for n by (auto simp: list_all_iff dest: nat_dec_digits)
  have v: "dec_int 0 (nat_dec n) = int n" for n
    using dec_int_val [of 0 "nat_dec n"] by (simp add: dec_val_nat_dec)
  show ?thesis
  proof (cases "i < 0")
    case True
    with i d v show ?thesis by (simp add: lit_int64_def int_dec_def)
  next
    case False
    obtain c cs where h: "nat_dec (nat i) = c # cs" using nat_dec_head by blast
    then have "c \<noteq> CHR ''-''" using nat_dec_digits [of c "nat i"] by auto
    with False i h d [of "nat i"] v [of "nat i"] show ?thesis by (simp add: lit_int64_def int_dec_def)
  qed
qed

section \<open>Evaluating the encoder\<close>

lemma esc_ascii_code [code]:
  "esc_ascii c =
     (if c = quote_char \<or> c = bslash then [bslash, c]
      else if c = CHR 0x08 then [bslash, CHR ''b'']
      else if c = CHR 0x0C then [bslash, CHR ''f'']
      else if c = CHR 0x0A then [bslash, CHR ''n'']
      else if c = CHR 0x0D then [bslash, CHR ''r'']
      else if c = CHR 0x09 then [bslash, CHR ''t'']
      else if is_ctrl c \<or> c = CHR 0x3C \<or> c = CHR 0x3E \<or> c = CHR 0x26 then esc_u (byte_val c)
      else [c])"
  by (simp add: esc_ascii_def Let_def is_ctrl_def byte_is byte_of_consts del: byte_val_of)

lemma escape_code [code]:
  "escape [] = []"
  "escape (c # cs) =
     (if is_ascii c then esc_ascii c @ escape cs
      else case rune_conts (byte_val c) cs of
             None \<Rightarrow> bslash # ''ufffd'' @ escape cs
           | Some n \<Rightarrow> esc_rune (c # take n cs) @ escape (drop n cs))"
  by (simp_all add: is_ascii_def)
end
