(* ===== verification/Routing.thy ===== *)
theory Routing
  imports JsonPrint Paths GoFs
begin

text \<open>
  File name extensions (\<^verbatim>\<open>internal/utils/misc.go\<close>) and the router that sends files to
  directories by extension (\<^verbatim>\<open>internal/localsend/recv/routing.go\<close>). \<open>uni\<close> is the lower-casing
  of strings that are not ASCII, as in \<open>GoText\<close>.
\<close>

section \<open>Extensions\<close>

text \<open>The loop from the last byte: \<open>s\<close> is the name reversed, \<open>acc\<close> the bytes already passed.\<close>

fun ext_back :: "string \<Rightarrow> string \<Rightarrow> string" where
  "ext_back [] acc = []"
| "ext_back (c # cs) acc =
     (if c = CHR ''.'' then acc
      else if c = CHR ''/'' \<or> c = bslash then []
      else ext_back cs (c # acc))"

definition GetFileExtension :: "(string \<Rightarrow> string) \<Rightarrow> string \<Rightarrow> string" where
  "GetFileExtension uni filename =
     (case ext_back (rev filename) [] of [] \<Rightarrow> [] | e \<Rightarrow> to_lower uni e)"

definition IsExtensionAllowed :: "(string \<Rightarrow> string) \<Rightarrow> string \<Rightarrow> string list \<Rightarrow> bool" where
  "IsExtensionAllowed uni filename allowedExtensions =
     (if allowedExtensions = [] then True
      else let ext = GetFileExtension uni filename in
           if ext = [] then False else ext \<in> set allowedExtensions)"

text \<open>\<^verbatim>\<open>strings.TrimSpace\<close>: the white space of \<^verbatim>\<open>unicode.IsSpace\<close>, as UTF-8.\<close>

definition space_runes :: "string list" where
  "space_runes =
     map utf8_encode [9, 10, 11, 12, 13, 32, 133, 160, 5760, 8192, 8193, 8194, 8195, 8196, 8197,
       8198, 8199, 8200, 8201, 8202, 8232, 8233, 8239, 8287, 12288]"

function trim_front :: "string list \<Rightarrow> string \<Rightarrow> string" where
  "trim_front ws s =
     (case List.find (\<lambda>w. w \<noteq> [] \<and> has_prefix s w) ws of
        None \<Rightarrow> s
      | Some w \<Rightarrow> if s = [] then s else trim_front ws (drop (length w) s))"
  by pat_completeness auto
termination by (relation "measure (\<lambda>(ws, s). length s)") (auto simp: find_Some_iff)

declare trim_front.simps [simp del]

definition trim_space :: "string \<Rightarrow> string" where
  "trim_space s = rev (trim_front (map rev space_runes) (rev (trim_front space_runes s)))"

definition ParseExtensionList :: "(string \<Rightarrow> string) \<Rightarrow> string \<Rightarrow> string list" where
  "ParseExtensionList uni extString =
     (if extString = [] then []
      else filter (\<lambda>e. e \<noteq> []) (map (\<lambda>e. trim_space (to_lower uni e)) (split_on CHR '','' extString)))"

text \<open>Runes below 32 go, except the tab; bytes that are not UTF-8 become the replacement rune.\<close>

definition log_char :: "char \<Rightarrow> bool" where
  "log_char c \<longleftrightarrow> byte_val c \<ge> 32 \<or> byte_val c = 9"

definition SanitizeForLog :: "string \<Rightarrow> string" where
  "SanitizeForLog s = filter log_char (fix_utf8 s)"

section \<open>The router\<close>

record ExtensionRouter =
  er_routes :: "(string, string) gomap"
  er_defaultDir :: string

definition NewExtensionRouter :: "string \<Rightarrow> ExtensionRouter" where
  "NewExtensionRouter defaultDir = \<lparr>er_routes = [], er_defaultDir = defaultDir\<rparr>"

datatype route_err = RouteRead | RouteJson | RouteNotAbsolute string | RouteTraversal string

text \<open>The entries are taken in the order of the iteration; the routes read before a bad one stay.\<close>

fun load_routes ::
    "(string \<Rightarrow> string) \<Rightarrow> (string \<times> string) list \<Rightarrow> ExtensionRouter \<Rightarrow> ExtensionRouter \<times> route_err option" where
  "load_routes uni [] r = (r, None)"
| "load_routes uni ((ext0, dir) # config) r =
     (let ext = to_lower uni (trim_prefix ext0 ''.'') in
      if \<not> path_is_abs dir then (r, Some (RouteNotAbsolute ext))
      else if str_contains dir ''..'' then (r, Some (RouteTraversal ext))
      else let cleaned = path_clean dir in
           load_routes uni config
             (if ext = ''default'' then r\<lparr>er_defaultDir := cleaned\<rparr>
              else r\<lparr>er_routes := mput ext cleaned (er_routes r)\<rparr>))"

text \<open>\<^verbatim>\<open>Unmarshal\<close> into a map of strings.\<close>

definition decode_str_map :: "bytes \<Rightarrow> (string, string) gomap option" where
  "decode_str_map data =
     (case json_decode data of
        Some (JObj ms) \<Rightarrow>
          (case fold (\<lambda>(k, w) (m, e). case into_str w [] of (x, e') \<Rightarrow> (mput k x m, e \<or> e')) ms ([], False) of
             (m, e) \<Rightarrow> if e then None else Some m)
      | Some JNull \<Rightarrow> Some []
      | _ \<Rightarrow> None)"

definition LoadFromFile ::
    "(string \<Rightarrow> string) \<Rightarrow> bytes option \<Rightarrow> ExtensionRouter \<Rightarrow> ExtensionRouter \<times> route_err option" where
  "LoadFromFile uni data r =
     (case data of
        None \<Rightarrow> (r, Some RouteRead)
      | Some bs \<Rightarrow>
          (case decode_str_map bs of
             None \<Rightarrow> (r, Some RouteJson)
           | Some config \<Rightarrow> load_routes uni config r))"

text \<open>The text after the last dot, if there is one and it is not the last byte.\<close>

definition last_segment :: "string \<Rightarrow> string option" where
  "last_segment s =
     (if CHR ''.'' \<in> set s
      then let t = rev (takeWhile (\<lambda>c. c \<noteq> CHR ''.'') (rev s)) in if t = [] then None else Some t
      else None)"

definition er_GetSaveDir :: "(string \<Rightarrow> string) \<Rightarrow> ExtensionRouter \<Rightarrow> string \<Rightarrow> string" where
  "er_GetSaveDir uni r filename =
     (case split_first CHR ''.'' (path_base filename) of
        (_, None) \<Rightarrow> er_defaultDir r
      | (_, Some []) \<Rightarrow> er_defaultDir r
      | (_, Some ext) \<Rightarrow>
          let compound = to_lower uni ext in
          (case mget (er_routes r) compound of
             Some dir \<Rightarrow> dir
           | None \<Rightarrow>
               (case last_segment compound of
                  Some simple \<Rightarrow>
                    (case mget (er_routes r) simple of Some dir \<Rightarrow> dir | None \<Rightarrow> er_defaultDir r)
                | None \<Rightarrow> er_defaultDir r)))"

definition HasRoutes :: "ExtensionRouter \<Rightarrow> bool" where
  "HasRoutes r \<longleftrightarrow> length (er_routes r) > 0"

fun ensure_dirs :: "fsys \<Rightarrow> string list \<Rightarrow> fsys \<times> bool" where
  "ensure_dirs fs [] = (fs, True)"
| "ensure_dirs fs (d # ds) =
     (case mkdir_all fs d of (fs', False) \<Rightarrow> (fs', False) | (fs', True) \<Rightarrow> ensure_dirs fs' ds)"

definition EnsureDirectories :: "fsys \<Rightarrow> ExtensionRouter \<Rightarrow> fsys \<times> bool" where
  "EnsureDirectories fs r = ensure_dirs fs (remdups (er_defaultDir r # map snd (er_routes r)))"

section \<open>What the extension of a name is\<close>

definition ext_chars :: "string \<Rightarrow> bool" where
  "ext_chars e \<longleftrightarrow> CHR ''.'' \<notin> set e \<and> CHR ''/'' \<notin> set e \<and> bslash \<notin> set e"

lemma ext_back_cases:
  "(\<exists>x rest. s = x @ CHR ''.'' # rest \<and> ext_chars x \<and> ext_back s acc = rev x @ acc) \<or>
   ((\<nexists>x rest. s = x @ CHR ''.'' # rest \<and> ext_chars x) \<and> ext_back s acc = [])"
proof (induction s arbitrary: acc)
  case Nil
  then show ?case by simp
next
  case (Cons c cs)
  have dots: "CHR ''.'' \<noteq> CHR ''/''" "CHR ''.'' \<noteq> bslash" by code_simp+
  consider (dot) "c = CHR ''.''" | (stop) "c \<noteq> CHR ''.''" "c = CHR ''/'' \<or> c = bslash"
    | (go) "c \<noteq> CHR ''.''" "c \<noteq> CHR ''/''" "c \<noteq> bslash" by blast
  then show ?case
  proof cases
    case dot
    then have "c # cs = [] @ CHR ''.'' # cs \<and> ext_chars [] \<and> ext_back (c # cs) acc = rev [] @ acc"
      by (simp add: ext_chars_def)
    then show ?thesis by blast
  next
    case stop
    then have "\<nexists>x rest. c # cs = x @ CHR ''.'' # rest \<and> ext_chars x"
      using dots by (auto simp: ext_chars_def Cons_eq_append_conv)
    with stop show ?thesis by simp
  next
    case go
    from Cons.IH [of "c # acc"] show ?thesis
    proof (elim disjE exE conjE)
      fix x rest
      assume "cs = x @ CHR ''.'' # rest" "ext_chars x" "ext_back cs (c # acc) = rev x @ c # acc"
      with go have "c # cs = (c # x) @ CHR ''.'' # rest \<and> ext_chars (c # x) \<and>
          ext_back (c # cs) acc = rev (c # x) @ acc" by (simp add: ext_chars_def)
      then show ?thesis by blast
    next
      assume n: "\<nexists>x rest. cs = x @ CHR ''.'' # rest \<and> ext_chars x" "ext_back cs (c # acc) = []"
      have "\<nexists>x rest. c # cs = x @ CHR ''.'' # rest \<and> ext_chars x"
        using n(1) go by (auto simp: ext_chars_def Cons_eq_append_conv)
      with n(2) go show ?thesis by simp
    qed
  qed
qed

lemma ext_chars_rev [simp]: "ext_chars (rev e) = ext_chars e"
  by (simp add: ext_chars_def)

lemma ext_split_unique:
  assumes "p @ CHR ''.'' # e = q @ CHR ''.'' # f" and "CHR ''.'' \<notin> set e" and "CHR ''.'' \<notin> set f"
  shows "e = f"
proof -
  have "rev e @ CHR ''.'' # rev p = rev f @ CHR ''.'' # rev q"
    using arg_cong [OF assms(1), of rev] by simp
  then have "split_first CHR ''.'' (rev e @ CHR ''.'' # rev p) = split_first CHR ''.'' (rev f @ CHR ''.'' # rev q)"
    by simp
  with assms(2,3) show ?thesis by (simp add: split_first_no_sep)
qed

lemma ext_back_dot: "ext_chars e \<Longrightarrow> ext_back (rev e @ CHR ''.'' # r) acc = e @ acc"
proof (induction e arbitrary: acc rule: rev_induct)
  case Nil
  then show ?case by simp
next
  case (snoc c e)
  then show ?case by (auto simp: ext_chars_def)
qed

lemma GetFileExtension_dot:
  "ext_chars e \<Longrightarrow> GetFileExtension uni (p @ CHR ''.'' # e) = (if e = [] then [] else to_lower uni e)"
  using ext_back_dot [of e "rev p" "[]"] by (auto simp: GetFileExtension_def split: list.split)

lemma GetFileExtension_none:
  assumes "\<nexists>p e. f = p @ CHR ''.'' # e \<and> ext_chars e"
  shows "GetFileExtension uni f = []"
proof -
  have "\<nexists>x rest. rev f = x @ CHR ''.'' # rest \<and> ext_chars x"
  proof
    assume "\<exists>x rest. rev f = x @ CHR ''.'' # rest \<and> ext_chars x"
    then obtain x rest where "rev f = x @ CHR ''.'' # rest" "ext_chars x" by blast
    then have "f = rev rest @ CHR ''.'' # rev x" "ext_chars (rev x)"
      by (simp_all add: rev_swap)
    with assms show False by blast
  qed
  then show ?thesis using ext_back_cases [of "rev f" "[]"] by (auto simp: GetFileExtension_def)
qed

section \<open>Properties\<close>

text \<open>The filter looks at the last extension of the last path element. With a list of
  extensions set, a name is allowed exactly if it ends in a dot and a non-empty text without dot,
  slash or backslash whose lower-case form is in the list.\<close>

theorem extension_allowed_exact:
  assumes "allowed \<noteq> []" and "\<And>s. s \<noteq> [] \<Longrightarrow> uni s \<noteq> []"
  shows "IsExtensionAllowed uni f allowed \<longleftrightarrow>
    (\<exists>p e. f = p @ CHR ''.'' # e \<and> e \<noteq> [] \<and> ext_chars e \<and> to_lower uni e \<in> set allowed)"
proof (cases "\<exists>p e. f = p @ CHR ''.'' # e \<and> ext_chars e")
  case True
  then obtain p e where f: "f = p @ CHR ''.'' # e" "ext_chars e" by blast
  have u: "e' = e" if "f = q @ CHR ''.'' # e'" "ext_chars e'" for q e'
    using ext_split_unique [of q e' p e] that f by (simp add: ext_chars_def)
  have "to_lower uni e \<noteq> []" if "e \<noteq> []" using assms(2) [OF that] that by (simp add: to_lower_def)
  with assms(1) f show ?thesis
    by (auto simp: IsExtensionAllowed_def Let_def GetFileExtension_dot dest: u)
next
  case False
  with assms(1) GetFileExtension_none [of f uni] show ?thesis
    by (auto simp: IsExtensionAllowed_def Let_def)
qed

lemma path_clean_abs_no_dotdot:
  assumes "path_is_abs d"
  shows "path_is_abs (path_clean d)" and "dotdot \<notin> set (path_comps (path_clean d))"
  using assms clean_list_dd_prefix [of d]
  by (auto simp: path_is_abs_clean path_comps_clean dd_prefix_def)

definition dir_ok :: "string \<Rightarrow> bool" where
  "dir_ok d \<longleftrightarrow> path_is_abs d \<and> dotdot \<notin> set (path_comps d)"

definition router_ok :: "ExtensionRouter \<Rightarrow> bool" where
  "router_ok r \<longleftrightarrow> dir_ok (er_defaultDir r) \<and> (\<forall>e d. mget (er_routes r) e = Some d \<longrightarrow> dir_ok d)"

lemma load_routes_ok: "router_ok r \<Longrightarrow> router_ok (fst (load_routes uni config r))"
proof (induction uni config r rule: load_routes.induct)
  case (1 uni r)
  then show ?case by simp
next
  case (2 uni ext0 dir config r)
  show ?case
  proof (cases "\<not> path_is_abs dir \<or> str_contains dir ''..''")
    case True
    with "2.prems" show ?thesis by (auto simp: Let_def)
  next
    case False
    have "dir_ok (path_clean dir)" using path_clean_abs_no_dotdot False by (simp add: dir_ok_def)
    with "2.prems" have "router_ok
        (if to_lower uni (trim_prefix ext0 ''.'') = ''default'' then r\<lparr>er_defaultDir := path_clean dir\<rparr>
         else r\<lparr>er_routes := mput (to_lower uni (trim_prefix ext0 ''.'')) (path_clean dir) (er_routes r)\<rparr>)"
      by (auto simp: router_ok_def)
    from "2.IH" [OF refl _ _ refl this] False show ?thesis by (simp add: Let_def)
  qed
qed

lemma er_GetSaveDir_cases:
  "er_GetSaveDir uni r f = er_defaultDir r \<or> (\<exists>e. mget (er_routes r) e = Some (er_GetSaveDir uni r f))"
  by (auto simp: er_GetSaveDir_def Let_def split: prod.splits option.splits list.splits)

text \<open>Routing stays where the configuration says. With any routes file, even one that is
  rejected half-way, and for any file name a peer may send, the save directory is the default
  directory or a configured one, absolute and without \<^verbatim>\<open>..\<close> components.\<close>

theorem routed_dir_configured:
  assumes "path_is_abs dflt" and "dotdot \<notin> set (path_comps dflt)"
    and "LoadFromFile uni data (NewExtensionRouter dflt) = (r, err)"
  shows "path_is_abs (er_GetSaveDir uni r filename) \<and>
    dotdot \<notin> set (path_comps (er_GetSaveDir uni r filename)) \<and>
    (er_GetSaveDir uni r filename = er_defaultDir r \<or>
     (\<exists>e. mget (er_routes r) e = Some (er_GetSaveDir uni r filename)))"
proof -
  have n: "router_ok (NewExtensionRouter dflt)"
    using assms(1,2) by (simp add: router_ok_def NewExtensionRouter_def dir_ok_def)
  then have "router_ok (fst (LoadFromFile uni data (NewExtensionRouter dflt)))"
    using load_routes_ok [OF n] by (auto simp: LoadFromFile_def split: option.split)
  then have "router_ok r" using assms(3) by simp
  with er_GetSaveDir_cases [of uni r filename] show ?thesis by (auto simp: router_ok_def dir_ok_def)
qed

text \<open>Routing by compound and simple extension. For a name whose base has a dot, the whole
  text after its first dot is looked up first, then the text after its last dot, then the default.\<close>

theorem routing_priority:
  assumes "path_base filename = stem @ CHR ''.'' # ext" and "CHR ''.'' \<notin> set stem" and "ext \<noteq> []"
    and "list_all is_ascii ext"
  shows "er_GetSaveDir uni r filename =
    (case mget (er_routes r) (map ascii_lower ext) of
       Some d \<Rightarrow> d
     | None \<Rightarrow>
         (case last_segment (map ascii_lower ext) of
            None \<Rightarrow> er_defaultDir r
          | Some simple \<Rightarrow> (case mget (er_routes r) simple of Some d \<Rightarrow> d | None \<Rightarrow> er_defaultDir r)))"
  using assms
  by (auto simp: er_GetSaveDir_def Let_def split_first_no_sep to_lower_def split: list.split option.split)

section \<open>Concrete cases\<close>

theorem extension_allowed_exact_witness:
  "IsExtensionAllowed id ''a/Book.EPUB'' [''pdf'', ''epub''] \<and> \<not> IsExtensionAllowed id ''x.epub/y'' [''epub'']"
proof -
  have l: "to_lower id ''EPUB'' = ''epub''" "ext_chars ''EPUB''" by code_simp+
  have "\<exists>p e. ''a/Book.EPUB'' = p @ CHR ''.'' # e \<and> e \<noteq> [] \<and> ext_chars e \<and>
      to_lower id e \<in> set [''pdf'', ''epub'']"
    using l by (intro exI [of _ "''a/Book''"] exI [of _ "''EPUB''"]) simp
  with extension_allowed_exact [of "[''pdf'', ''epub'']" id "''a/Book.EPUB''"]
  have "IsExtensionAllowed id ''a/Book.EPUB'' [''pdf'', ''epub'']" by simp
  moreover have "\<not> IsExtensionAllowed id ''x.epub/y'' [''epub'']" by code_simp
  ultimately show ?thesis by simp
qed

definition demo_routes :: bytes where
  "demo_routes = print_value None (JObj [(''.EPUB'', JStr ''/books''), (''safari.pdf'', JStr ''/web//x''), (''mp3'', JStr ''music'')])"

theorem routed_dir_configured_witness:
  "er_GetSaveDir id (fst (LoadFromFile id (Some demo_routes) (NewExtensionRouter ''/d''))) ''p.safari.pdf'' = ''/web/x'' \<and>
   path_is_abs (er_GetSaveDir id (fst (LoadFromFile id (Some demo_routes) (NewExtensionRouter ''/d''))) ''../x.mp3'')"
proof -
  obtain r err where l: "LoadFromFile id (Some demo_routes) (NewExtensionRouter ''/d'') = (r, err)" by fastforce
  have d: "path_is_abs ''/d''" "dotdot \<notin> set (path_comps ''/d'')" by code_simp+
  have "er_GetSaveDir id (fst (LoadFromFile id (Some demo_routes) (NewExtensionRouter ''/d''))) ''p.safari.pdf'' = ''/web/x''"
    by code_simp
  with routed_dir_configured [OF d l, of "''../x.mp3''"] l show ?thesis by simp
qed

theorem routing_priority_witness:
  "er_GetSaveDir id \<lparr>er_routes = [(''pdf'', ''/p'')], er_defaultDir = ''/d''\<rparr> ''dir/a.safari.PDF'' = ''/p''"
proof -
  have b: "path_base ''dir/a.safari.PDF'' = ''a'' @ CHR ''.'' # ''safari.PDF''" "CHR ''.'' \<notin> set ''a''"
    "''safari.PDF'' \<noteq> []" "list_all is_ascii ''safari.PDF''" by code_simp+
  have "map ascii_lower ''safari.PDF'' = ''safari.pdf''" "last_segment ''safari.pdf'' = Some ''pdf''" by code_simp+
  with routing_priority [OF b, of id "\<lparr>er_routes = [(''pdf'', ''/p'')], er_defaultDir = ''/d''\<rparr>"]
  show ?thesis by simp
qed

end
