(* ===== verification/HttpRecv.thy ===== *)
theory HttpRecv
  imports Models SessManager RateLimit NonceCache Token Routing
begin

text \<open>
  The HTTP receiver: \<^verbatim>\<open>internal/localsend/recv/recv.go\<close> (its configuration, the PIN check and the
  transfer log) and \<^verbatim>\<open>handlers.go\<close> (the request handlers), over the session manager, the rate
  limiter, the nonce caches and the router.

  A request is its client address, its query, its declared length, its body and the fingerprint
  of its TLS certificate; a handler returns the new receiver and the response. The clock, the
  fresh identifiers and random bytes are arguments; logging to \<^verbatim>\<open>slog\<close> is left out.
\<close>

section \<open>Requests and responses\<close>

record request =
  rq_ip :: string
  rq_query :: "(string, string) gomap"
  rq_contentLength :: int
  rq_body :: body
  rq_tlsFingerprint :: "string option"

datatype response =
    RespStatus int
  | RespTokens string "(string, string) gomap"
  | RespNonce string
  | RespInfo DeviceInfo
  | RespRegister RegisterResponseV3

definition query :: "request \<Rightarrow> string \<Rightarrow> string" where
  "query rq k = (case mget (rq_query rq) k of None \<Rightarrow> [] | Some v \<Rightarrow> v)"

section \<open>The receiver\<close>

record FileReceiver =
  hr_identity :: DeviceInfo
  hr_saveToDir :: string
  hr_sessman :: RecvSessManager
  hr_expectedPin :: string
  hr_allowedExtensions :: "string list"
  hr_transferLogPath :: string
  hr_transferLogFile :: "string option"
  hr_onTransferCmd :: string
  hr_transferNotifyPath :: string
  hr_transferNotifySeq :: "64 word"
  hr_router :: "ExtensionRouter option"
  hr_listenAddr :: string
  hr_pinRateLimiter :: RateLimiter
  hr_receivedNonces :: NonceCache
  hr_generatedNonces :: NonceCache
  hr_runningCmds :: int
  hr_stopped :: bool

definition NewFileReceiver :: "string \<Rightarrow> string \<Rightarrow> string \<Rightarrow> FileReceiver" where
  "NewFileReceiver devname fingerprint saveToDir =
     \<lparr>hr_identity = NewDeviceInfo devname fingerprint, hr_saveToDir = saveToDir,
      hr_sessman = NewRecvSessManager, hr_expectedPin = [], hr_allowedExtensions = [],
      hr_transferLogPath = [], hr_transferLogFile = None, hr_onTransferCmd = [],
      hr_transferNotifyPath = [], hr_transferNotifySeq = 0, hr_router = None,
      hr_listenAddr = '':53317'', hr_pinRateLimiter = NewRateLimiter MaxPINAttempts PINBlockDuration,
      hr_receivedNonces = NewNonceCache 200, hr_generatedNonces = NewNonceCache 200,
      hr_runningCmds = 0, hr_stopped = False\<rparr>"

definition hr_SetPIN :: "FileReceiver \<Rightarrow> string \<Rightarrow> FileReceiver" where
  "hr_SetPIN fr pin = fr\<lparr>hr_expectedPin := pin\<rparr>"

definition hr_SetListenAddr :: "FileReceiver \<Rightarrow> string \<Rightarrow> FileReceiver" where
  "hr_SetListenAddr fr addr = fr\<lparr>hr_listenAddr := addr\<rparr>"

definition hr_SetOnTransferCmd :: "FileReceiver \<Rightarrow> string \<Rightarrow> FileReceiver" where
  "hr_SetOnTransferCmd fr cmd = fr\<lparr>hr_onTransferCmd := cmd\<rparr>"

definition hr_SetTransferNotifyFile :: "FileReceiver \<Rightarrow> string \<Rightarrow> FileReceiver" where
  "hr_SetTransferNotifyFile fr path = fr\<lparr>hr_transferNotifyPath := path\<rparr>"

definition hr_SetAllowedExtensions :: "FileReceiver \<Rightarrow> string list \<Rightarrow> FileReceiver" where
  "hr_SetAllowedExtensions fr extensions = fr\<lparr>hr_allowedExtensions := extensions\<rparr>"

definition hr_SetExtensionRouter :: "FileReceiver \<Rightarrow> ExtensionRouter option \<Rightarrow> FileReceiver" where
  "hr_SetExtensionRouter fr router = fr\<lparr>hr_router := router\<rparr>"

text \<open>\<^verbatim>\<open>os.OpenFile(path, O_APPEND|O_CREATE|O_WRONLY)\<close>.\<close>

definition open_append :: "fsys \<Rightarrow> string \<Rightarrow> fsys option" where
  "open_append fs path =
     (if path_key path \<in> set (fs_denied fs) then None
      else case node_at fs (path_key path) of
             Some (FFile _) \<Rightarrow> Some fs
           | Some FDir \<Rightarrow> None
           | None \<Rightarrow> os_create fs path)"

definition hr_SetTransferLog :: "fsys \<Rightarrow> FileReceiver \<Rightarrow> string \<Rightarrow> fsys \<times> FileReceiver" where
  "hr_SetTransferLog fs fr path =
     (let fr1 = fr\<lparr>hr_transferLogFile := None, hr_transferLogPath := path\<rparr> in
      if path = [] then (fs, fr1)
      else case open_append fs path of
             None \<Rightarrow> (fs, fr1)
           | Some fs' \<Rightarrow> (fs', fr1\<lparr>hr_transferLogFile := Some path\<rparr>))"

definition closeTransferLog :: "FileReceiver \<Rightarrow> FileReceiver" where
  "closeTransferLog fr = fr\<lparr>hr_transferLogFile := None\<rparr>"

definition hr_Stop :: "FileReceiver \<Rightarrow> FileReceiver" where
  "hr_Stop fr = closeTransferLog (fr\<lparr>hr_stopped := True, hr_sessman := rsm_Stop (hr_sessman fr)\<rparr>)"

section \<open>The transfer log\<close>

record TransferLogEntry =
  le_timestamp :: string
  le_filename :: string
  le_size :: int
  le_sender :: string

definition log_entry_json :: "TransferLogEntry \<Rightarrow> json" where
  "log_entry_json e =
     JObj [(''timestamp'', JStr (le_timestamp e)), (''filename'', JStr (le_filename e)),
           (''size'', JNum (int_dec (le_size e))), (''sender'', JStr (le_sender e))]"

definition maxCmds :: int where "maxCmds = 4"

text \<open>The command to start, if any: a free slot is taken, and released when it ends.\<close>

definition start_cmd :: "FileReceiver \<Rightarrow> FileReceiver \<times> string option" where
  "start_cmd fr =
     (if hr_stopped fr \<or> hr_onTransferCmd fr = [] then (fr, None)
      else if hr_runningCmds fr < maxCmds
      then (fr\<lparr>hr_runningCmds := hr_runningCmds fr + 1\<rparr>, Some (hr_onTransferCmd fr))
      else (fr, None))"

definition cmd_done :: "FileReceiver \<Rightarrow> FileReceiver" where
  "cmd_done fr = fr\<lparr>hr_runningCmds := hr_runningCmds fr - 1\<rparr>"

definition write_file :: "fsys \<Rightarrow> string \<Rightarrow> bytes \<Rightarrow> fsys" where
  "write_file fs path data =
     (case os_create fs path of None \<Rightarrow> fs | Some fs' \<Rightarrow> fst (file_write fs' path data))"

definition notify_transfer :: "fsys \<Rightarrow> FileReceiver \<Rightarrow> fsys \<times> FileReceiver" where
  "notify_transfer fs fr =
     (if hr_transferNotifyPath fr = [] then (fs, fr)
      else let seq = hr_transferNotifySeq fr + 1 in
           (write_file fs (hr_transferNotifyPath fr) (int_dec (uint seq) @ [byte_of 10]),
            fr\<lparr>hr_transferNotifySeq := seq\<rparr>))"

definition log_line :: "string \<Rightarrow> string \<Rightarrow> int \<Rightarrow> string \<Rightarrow> bytes" where
  "log_line timestamp filename sz sender =
     print_value None (log_entry_json
       \<lparr>le_timestamp = timestamp, le_filename = SanitizeForLog filename, le_size = sz,
        le_sender = SanitizeForLog sender\<rparr>)"

definition LogTransfer ::
    "fsys \<Rightarrow> FileReceiver \<Rightarrow> string \<Rightarrow> string \<Rightarrow> int \<Rightarrow> string \<Rightarrow> fsys \<times> FileReceiver \<times> string option" where
  "LogTransfer fs fr timestamp filename sz sender =
     (let (fr1, cmd) = start_cmd fr;
          (fs1, fr2) = notify_transfer fs fr1
      in case hr_transferLogFile fr2 of
           None \<Rightarrow> (fs1, fr2, cmd)
         | Some path \<Rightarrow>
             let fs2 = fst (file_write fs1 path (log_line timestamp filename sz sender));
                 fs3 = fst (file_write fs2 path [byte_of 10])
             in (fs3, fr2, cmd))"

section \<open>Routing and filtering\<close>

definition hr_GetSaveDir :: "(string \<Rightarrow> string) \<Rightarrow> FileReceiver \<Rightarrow> string \<Rightarrow> string" where
  "hr_GetSaveDir uni fr filename =
     (case hr_router fr of
        Some router \<Rightarrow> er_GetSaveDir uni router filename
      | None \<Rightarrow> hr_saveToDir fr)"

definition GetSaveDirForSession ::
    "(string \<Rightarrow> string) \<Rightarrow> FileReceiver \<Rightarrow> RecvSession \<Rightarrow> string \<Rightarrow> RecvSession \<times> string" where
  "GetSaveDirForSession uni fr session filename =
     (case sess_IsFolderTransfer session of
        (session', isFolder) \<Rightarrow>
          (session', if isFolder then hr_saveToDir fr else hr_GetSaveDir uni fr filename))"

definition hr_IsExtensionAllowed :: "(string \<Rightarrow> string) \<Rightarrow> FileReceiver \<Rightarrow> string \<Rightarrow> bool" where
  "hr_IsExtensionAllowed uni fr filename = IsExtensionAllowed uni filename (hr_allowedExtensions fr)"

definition hasExtensionFilter :: "FileReceiver \<Rightarrow> bool" where
  "hasExtensionFilter fr \<longleftrightarrow> length (hr_allowedExtensions fr) > 0"

definition hasExtensionRouter :: "FileReceiver \<Rightarrow> bool" where
  "hasExtensionRouter fr \<longleftrightarrow> hr_router fr \<noteq> None"

text \<open>The files that pass, or the status to answer.\<close>

definition filterFilesByExtension ::
    "(string \<Rightarrow> string) \<Rightarrow> FileReceiver \<Rightarrow> (string, FileMeta) gomap \<Rightarrow> int + (string, FileMeta) gomap" where
  "filterFilesByExtension uni fr files =
     (let isFolderXfer = metas_IsFolderTransfer files in
      if isFolderXfer \<and> hasExtensionRouter fr \<and> hasExtensionFilter fr then Inl 403
      else if \<not> hasExtensionFilter fr then Inr files
      else let filteredFiles = filter (\<lambda>(_, meta). hr_IsExtensionAllowed uni fr (fm_filename meta)) files in
           if filteredFiles = [] then Inl 403 else Inr filteredFiles)"

section \<open>PIN\<close>

definition given_pin :: "request \<Rightarrow> string option" where
  "given_pin rq = mget (rq_query rq) ''pin''"

definition validatePIN :: "FileReceiver \<Rightarrow> int \<Rightarrow> request \<Rightarrow> FileReceiver \<times> int" where
  "validatePIN fr now rq =
     (case limiter_gate (hr_expectedPin fr) (hr_pinRateLimiter fr) now (rq_ip rq) (given_pin rq) of
        (l, status) \<Rightarrow> (fr\<lparr>hr_pinRateLimiter := l\<rparr>, status))"

definition cleanupExpiredPINAttempts :: "FileReceiver \<Rightarrow> int \<Rightarrow> FileReceiver" where
  "cleanupExpiredPINAttempts fr now =
     fr\<lparr>hr_pinRateLimiter := fst (CleanupExpired (hr_pinRateLimiter fr) now)\<rparr>"

section \<open>Bodies\<close>

definition maxPreUploadBodyBytes :: int where "maxPreUploadBodyBytes = 8 * 1024 * 1024"
definition maxRegisterBodyBytes :: int where "maxRegisterBodyBytes = 1 * 1024 * 1024"
definition maxNonceBodyBytes :: int where "maxNonceBodyBytes = 64 * 1024"

datatype body_err = BodyTooLarge | BodyInvalid

definition parseJSONBodyLimited ::
    "(string \<Rightarrow> json \<Rightarrow> 'x \<Rightarrow> 'x \<times> bool) \<Rightarrow> 'x \<Rightarrow> int \<Rightarrow> request \<Rightarrow> body_err + 'x" where
  "parseJSONBodyLimited put zero maxBytes rq =
     (if rq_contentLength rq > maxBytes then Inl BodyTooLarge
      else let payload = concat (map snd (bd_reads (rq_body rq))) in
           if int (length payload) > maxBytes then Inl BodyTooLarge
           else if bd_fails (rq_body rq) then Inl BodyInvalid
           else case unmarshal put payload zero of None \<Rightarrow> Inl BodyInvalid | Some x \<Rightarrow> Inr x)"

definition body_status :: "body_err \<Rightarrow> int" where
  "body_status e = (case e of BodyTooLarge \<Rightarrow> 413 | BodyInvalid \<Rightarrow> 400)"

section \<open>Handlers\<close>

definition preUploadHandler ::
    "(string \<Rightarrow> string) \<Rightarrow> int \<Rightarrow> int \<Rightarrow> string \<Rightarrow> string list \<Rightarrow> FileReceiver \<Rightarrow> request \<Rightarrow>
     FileReceiver \<times> response" where
  "preUploadHandler uni nowNs now sessionId tokens fr rq =
     (case validatePIN fr nowNs rq of
        (fr1, status) \<Rightarrow>
          if status \<noteq> 0 then (fr1, RespStatus status)
          else case parseJSONBodyLimited put_preupload no_preupload maxPreUploadBodyBytes rq of
            Inl e \<Rightarrow> (fr1, RespStatus (body_status e))
          | Inr metaReq \<Rightarrow>
              if pu_info metaReq = None then (fr1, RespStatus 400)
              else if list_ex (\<lambda>(_, file). fm_size file < 0) (pu_files metaReq) then (fr1, RespStatus 400)
              else (case filterFilesByExtension uni fr1 (pu_files metaReq) of
                 Inl errStatus \<Rightarrow> (fr1, RespStatus errStatus)
               | Inr files \<Rightarrow>
                   (case CreateSessionIfAllowed (hr_sessman fr1) nowNs now sessionId tokens files (rq_ip rq) of
                      Inl e \<Rightarrow> (fr1, RespStatus (if e = ErrTooManySessions then 429 else Status (Some e)))
                    | Inr m \<Rightarrow>
                        let fr2 = fr1\<lparr>hr_sessman := m\<rparr> in
                        (case GeneratePreUploadResp m sessionId of
                           Inl _ \<Rightarrow> (fr2, RespStatus 500)
                         | Inr (sid, toks) \<Rightarrow> (fr2, RespTokens sid toks)))))"

text \<open>The session is updated through its pointer, whatever the outcome.\<close>

definition uploadHandler ::
    "(string \<Rightarrow> string) \<Rightarrow> (bytes \<Rightarrow> bytes) \<Rightarrow> string \<Rightarrow> fsys \<Rightarrow> FileReceiver \<Rightarrow> request \<Rightarrow>
     fsys \<times> FileReceiver \<times> response \<times> string option" where
  "uploadHandler uni sha timestamp fs fr rq =
     (let sessionId = query rq ''sessionId''; fileId = query rq ''fileId''; token = query rq ''token'' in
      if sessionId = [] \<or> fileId = [] \<or> token = [] then (fs, fr, RespStatus 400, None)
      else case GetSession (hr_sessman fr) sessionId of
        Inl _ \<Rightarrow> (fs, fr, RespStatus 403, None)
      | Inr session \<Rightarrow>
          (case GetFileMeta session fileId of
             None \<Rightarrow> (fs, fr, RespStatus 400, None)
           | Some fileMeta \<Rightarrow>
               (case GetSaveDirForSession uni fr session (fm_filename fileMeta) of
                  (session1, saveDir) \<Rightarrow>
                    (case SaveFile sha fs session1 saveDir fileId token (rq_ip rq) (rq_body rq) of
                       (fs1, session2, res) \<Rightarrow>
                         let fr1 = fr\<lparr>hr_sessman := put_session sessionId session2 (hr_sessman fr)\<rparr> in
                         (case res of
                            Inl e \<Rightarrow> (fs1, fr1, RespStatus (Status (Some e)), None)
                          | Inr savedFilename \<Rightarrow>
                              (case LogTransfer fs1 fr1 timestamp savedFilename (fm_size fileMeta) (rq_ip rq) of
                                 (fs2, fr2, cmd) \<Rightarrow> (fs2, fr2, RespStatus 200, cmd)))))))"

definition cancelHandler :: "FileReceiver \<Rightarrow> request \<Rightarrow> FileReceiver \<times> response" where
  "cancelHandler fr rq =
     (let sessionId = query rq ''sessionId'' in
      if sessionId = [] then (fr, RespStatus 400)
      else case KillSessionForClient (hr_sessman fr) sessionId (rq_ip rq) of
             Inl e \<Rightarrow> (fr, RespStatus (Status (Some e)))
           | Inr (m, _) \<Rightarrow> (fr\<lparr>hr_sessman := m\<rparr>, RespStatus 200))"

definition infoHandler :: "FileReceiver \<Rightarrow> response" where
  "infoHandler fr = RespInfo (hr_identity fr)"

text \<open>With the announcement that is handed to the discoverer.\<close>

definition registerHandler :: "FileReceiver \<Rightarrow> request \<Rightarrow> Announcement option \<times> response" where
  "registerHandler fr rq =
     (case parseJSONBodyLimited put_announcement no_announcement maxRegisterBodyBytes rq of
        Inl e \<Rightarrow> (None, RespStatus (body_status e))
      | Inr announcement \<Rightarrow>
          let a1 = (case rq_tlsFingerprint rq of
                      Some fingerprint \<Rightarrow> announcement\<lparr>di_fingerprint := fingerprint\<rparr>
                    | None \<Rightarrow> announcement)
          in (Some (a1\<lparr>di_ip := rq_ip rq\<rparr>), RespInfo (hr_identity fr)))"

definition nonceExchangeHandler ::
    "bytes option \<Rightarrow> FileReceiver \<Rightarrow> request \<Rightarrow> FileReceiver \<times> response" where
  "nonceExchangeHandler rnd fr rq =
     (case parseJSONBodyLimited put_nonce_request [] maxNonceBodyBytes rq of
        Inl e \<Rightarrow> (fr, RespStatus (body_status e))
      | Inr encoded \<Rightarrow>
          (case DecodeNonce encoded of
             Inl _ \<Rightarrow> (fr, RespStatus 400)
           | Inr nonce \<Rightarrow>
               if \<not> ValidateNonce nonce then (fr, RespStatus 400)
               else
                 let clientID = rq_ip rq;
                     fr1 = fr\<lparr>hr_receivedNonces := nc_put (hr_receivedNonces fr) clientID nonce\<rparr>
                 in case GenerateNonce rnd of
                      None \<Rightarrow> (fr1, RespStatus 500)
                    | Some newNonce \<Rightarrow>
                        (fr1\<lparr>hr_generatedNonces := nc_put (hr_generatedNonces fr1) clientID newNonce\<rparr>,
                         RespNonce (EncodeNonce newNonce))))"

text \<open>\<^verbatim>\<open>strings.ToUpper\<close>; \<open>up\<close> is its result on a string that is not all ASCII.\<close>

definition DeviceTypeToV3 :: "(string \<Rightarrow> string) \<Rightarrow> string \<Rightarrow> string" where
  "DeviceTypeToV3 up dt = (if list_all is_ascii dt then map ascii_upper dt else up dt)"

definition no_register_v3 :: RegisterRequestV3 where
  "no_register_v3 = \<lparr>rq3_alias = [], rq3_version = [], rq3_deviceModel = [], rq3_deviceType = [],
     rq3_token = [], rq3_port = 0, rq3_protocol = [], rq3_hasWebInterface = False\<rparr>"

definition registerV3Handler :: "(string \<Rightarrow> string) \<Rightarrow> FileReceiver \<Rightarrow> request \<Rightarrow> response" where
  "registerV3Handler up fr rq =
     (case parseJSONBodyLimited put_register_v3 no_register_v3 maxRegisterBodyBytes rq of
        Inl e \<Rightarrow> RespStatus (body_status e)
      | Inr req \<Rightarrow>
          RespRegister
            \<lparr>rs3_alias = di_alias (hr_identity fr), rs3_version = di_version (hr_identity fr),
             rs3_deviceModel = di_deviceModel (hr_identity fr),
             rs3_deviceType = DeviceTypeToV3 up (di_deviceType (hr_identity fr)),
             rs3_token = di_token (hr_identity fr), rs3_hasWebInterface = False\<rparr>)"

section \<open>The PIN gate at the handler\<close>

lemma validatePIN_zero:
  assumes "validatePIN fr now rq = (fr1, status)"
  shows "fr1 = fr\<lparr>hr_pinRateLimiter := hr_pinRateLimiter fr1\<rparr>"
    and "status = 0 \<Longrightarrow> hr_expectedPin fr = [] \<or> given_pin rq = Some (hr_expectedPin fr)"
    and "status \<in> {0, 401, 429}"
  using assms
  by (auto simp: validatePIN_def pin_gate_def split: prod.splits if_splits bool.splits option.splits)

text \<open>C15: no PIN, no session. When a PIN is set, a prepare request that does not carry it is
  answered 401 or 429, whatever its body, and neither the session table nor any setting changes.\<close>

theorem pin_guards_sessions:
  assumes "hr_expectedPin fr \<noteq> []" and "given_pin rq \<noteq> Some (hr_expectedPin fr)"
  shows "\<exists>l st. st \<in> {401, 429} \<and>
    preUploadHandler uni nowNs now sid tokens fr rq = (fr\<lparr>hr_pinRateLimiter := l\<rparr>, RespStatus st)"
proof -
  obtain fr1 status where v: "validatePIN fr nowNs rq = (fr1, status)" by fastforce
  note f = validatePIN_zero [OF v]
  from f(2,3) assms have "status \<noteq> 0" "status \<in> {401, 429}" by auto
  with v f(1) show ?thesis by (auto simp: preUploadHandler_def)
qed

section \<open>Admission at the handler\<close>

lemma filter_sub:
  assumes "filterFilesByExtension uni fr files = Inr out"
  shows "set out \<subseteq> set files" and "mwf files \<Longrightarrow> mwf out"
    and "hasExtensionFilter fr \<Longrightarrow> \<forall>x \<in> set out. hr_IsExtensionAllowed uni fr (fm_filename (snd x))"
    and "\<not> hasExtensionFilter fr \<Longrightarrow> out = files"
  using assms by (auto simp: filterFilesByExtension_def Let_def split: if_splits)

lemma no_filter_allows: "\<not> hasExtensionFilter fr \<Longrightarrow> hr_IsExtensionAllowed uni fr f"
  by (simp add: hasExtensionFilter_def hr_IsExtensionAllowed_def IsExtensionAllowed_def)

lemma preUpload_InrD:
  assumes "preUploadHandler uni nowNs now sid tokens fr rq = (fr', RespTokens sid' toks)"
  obtains fr1 metaReq files m where "validatePIN fr nowNs rq = (fr1, 0)"
    "parseJSONBodyLimited put_preupload no_preupload maxPreUploadBodyBytes rq = Inr metaReq"
    "pu_info metaReq \<noteq> None" "list_all (\<lambda>x. 0 \<le> fm_size (snd x)) (pu_files metaReq)"
    "filterFilesByExtension uni fr1 (pu_files metaReq) = Inr files"
    "CreateSessionIfAllowed (hr_sessman fr1) nowNs now sid tokens files (rq_ip rq) = Inr m"
    "GeneratePreUploadResp m sid = Inr (sid', toks)" "fr' = fr1\<lparr>hr_sessman := m\<rparr>"
proof -
  obtain fr1 status where v: "validatePIN fr nowNs rq = (fr1, status)" by fastforce
  with assms have s0: "status = 0" by (auto simp: preUploadHandler_def split: if_splits)
  from assms v s0 obtain metaReq where p:
    "parseJSONBodyLimited put_preupload no_preupload maxPreUploadBodyBytes rq = Inr metaReq"
    by (auto simp: preUploadHandler_def split: sum.splits)
  from assms v s0 p have i: "pu_info metaReq \<noteq> None" "\<not> list_ex (\<lambda>(_, file). fm_size file < 0) (pu_files metaReq)"
    by (auto simp: preUploadHandler_def split: if_splits)
  from assms v s0 p i obtain files where f: "filterFilesByExtension uni fr1 (pu_files metaReq) = Inr files"
    by (cases "filterFilesByExtension uni fr1 (pu_files metaReq)") (auto simp: preUploadHandler_def)
  from assms v s0 p i f obtain m where c:
    "CreateSessionIfAllowed (hr_sessman fr1) nowNs now sid tokens files (rq_ip rq) = Inr m"
    by (cases "CreateSessionIfAllowed (hr_sessman fr1) nowNs now sid tokens files (rq_ip rq)")
      (auto simp: preUploadHandler_def)
  from assms v s0 p i f c have g: "GeneratePreUploadResp m sid = Inr (sid', toks)" "fr' = fr1\<lparr>hr_sessman := m\<rparr>"
    by (auto simp: preUploadHandler_def Let_def split: sum.splits)
  have "list_all (\<lambda>x. 0 \<le> fm_size (snd x)) (pu_files metaReq)"
    using i(2) by (auto simp: list_all_iff list_ex_iff case_prod_beta not_less)
  from that [OF v [unfolded s0] p i(1) this f c g] show ?thesis .
qed

lemma parsed_wf:
  assumes "parseJSONBodyLimited put_preupload no_preupload maxB rq = Inr metaReq"
  shows "mwf (pu_files metaReq) \<and> sizes_int64 (pu_files metaReq)"
  using assms preupload_wf
  by (auto simp: parseJSONBodyLimited_def Let_def split: if_splits option.splits)

text \<open>C12: what a granted prepare request means. If tokens are handed out, the PIN was right (or
  none is set), no session was active, and the table now has an active session under the returned
  id that belongs to the requesting address; each of its files has a size that is not negative and
  an allowed extension; and the response has exactly the tokens of these files.\<close>

theorem pre_upload_granted:
  assumes "preUploadHandler uni nowNs now sid tokens fr rq = (fr', RespTokens sid' toks)"
    and "rsm_wf (hr_sessman fr)" and "nowNs - now * 1000000000 \<le> SessionTimeout"
  shows "(hr_expectedPin fr = [] \<or> given_pin rq = Some (hr_expectedPin fr)) \<and> sid' = sid \<and>
    \<not> HasActiveSessions nowNs (hr_sessman fr) \<and> rsm_wf (hr_sessman fr') \<and>
    (\<exists>s. mget (rsm_sessions (hr_sessman fr')) sid = Some s \<and> sess_clientIP s = rq_ip rq \<and>
       fileMetas s \<noteq> [] \<and> \<not> Stopped nowNs s \<and>
       (\<forall>x \<in> set (fileMetas s). 0 \<le> fm_size (snd x) \<and> hr_IsExtensionAllowed uni fr (fm_filename (snd x))) \<and>
       (\<forall>f. mget toks f = mget (fileTokens s) f) \<and>
       fst ` set (fileTokens s) = fst ` set (fileMetas s))"
proof -
  obtain fr1 metaReq files m where p: "validatePIN fr nowNs rq = (fr1, 0)"
    "parseJSONBodyLimited put_preupload no_preupload maxPreUploadBodyBytes rq = Inr metaReq"
    "list_all (\<lambda>x. 0 \<le> fm_size (snd x)) (pu_files metaReq)"
    "filterFilesByExtension uni fr1 (pu_files metaReq) = Inr files"
    "CreateSessionIfAllowed (hr_sessman fr1) nowNs now sid tokens files (rq_ip rq) = Inr m"
    "GeneratePreUploadResp m sid = Inr (sid', toks)" "fr' = fr1\<lparr>hr_sessman := m\<rparr>"
    by (rule preUpload_InrD [OF assms(1)])
  note pin = validatePIN_zero [OF p(1)]
  note sub = filter_sub [OF p(4)]
  have same: "hr_sessman fr1 = hr_sessman fr" "hr_allowedExtensions fr1 = hr_allowedExtensions fr"
    by (subst pin(1), simp)+
  have wf: "mwf files" and sz: "list_all (\<lambda>(_, fm). is_int64 (fm_size fm)) files"
    using parsed_wf [OF p(2)] sub(1,2) by (force simp: sizes_int64_def list_all_iff)+
  have "rsm_wf (hr_sessman fr1)" using assms(2) same(1) by simp
  note adm = admission_facts [OF p(5) this wf sz assms(3)]
  from adm obtain s where s: "mget (rsm_sessions m) sid = Some s" "sess_clientIP s = rq_ip rq"
    "fileMetas s = files" "map fst (fileTokens s) = map fst files" "\<not> Stopped nowNs s" by blast
  have g: "sid' = sid" "toks = FileTokens s"
    using p(6) s(1) by (auto simp: GeneratePreUploadResp_def GetSession_def)
  have "mwf (fileTokens s)" using s(4) wf by simp
  then have toks: "mget toks f = mget (fileTokens s) f" for f
    using mget_fold_mput [of "fileTokens s" id "[]" f] by (simp add: g FileTokens_def split: option.splits)
  have allowed: "hr_IsExtensionAllowed uni fr (fm_filename (snd x))" if "x \<in> set files" for x
  proof (cases "hasExtensionFilter fr1")
    case True
    with sub(3) that same(2) show ?thesis by (auto simp: hr_IsExtensionAllowed_def)
  next
    case False
    with same(2) show ?thesis using no_filter_allows [of fr] by (simp add: hasExtensionFilter_def)
  qed
  have dom: "fst ` set (fileTokens s) = fst ` set (fileMetas s)" using s(3,4) by (metis set_map)
  have nonneg: "\<forall>x \<in> set files. 0 \<le> fm_size (snd x)" using p(3) sub(1) by (auto simp: list_all_iff)
  show ?thesis
    using adm pin(2) same(1) g s(1-3,5) toks allowed dom nonneg p(7) by auto
qed

section \<open>The log\<close>

lemma rune_conts_high:
  assumes "rune_conts (byte_val c) cs = Some n" and "128 \<le> byte_val c" and "x \<in> set (take n cs)"
  shows "128 \<le> byte_val x"
proof -
  have c: "conts k cs \<Longrightarrow> \<forall>x \<in> set (take k cs). 128 \<le> byte_val x" for k
    by (auto simp: conts_def list_all_iff is_cont_def)
  have "conts n cs" using assms(1,2) by (auto simp: rune_conts_def split: if_splits)
  with c assms(3) show ?thesis by blast
qed

lemma esc_ascii_printable: "x \<in> set (esc_ascii c) \<Longrightarrow> 32 \<le> byte_val x"
proof -
  have h: "32 \<le> byte_val (hex_digit (n div 16))" "32 \<le> byte_val (hex_digit (n mod 16))" if "n < 128" for n
    using that by (auto simp: hex_digit_def)
  have k: "32 \<le> byte_val CHR ''u''" "32 \<le> byte_val CHR ''b''" "32 \<le> byte_val CHR ''f''" "32 \<le> byte_val CHR ''n''"
    "32 \<le> byte_val CHR ''r''" "32 \<le> byte_val CHR ''t''" by code_simp+
  show "x \<in> set (esc_ascii c) \<Longrightarrow> 32 \<le> byte_val x"
    using h [of "byte_val c"] k by (auto simp: esc_ascii_def esc_u_def Let_def split: if_splits)
qed

lemma escape_printable: "x \<in> set (escape s) \<Longrightarrow> 32 \<le> byte_val x"
proof (induction s rule: escape.induct)
  case 1
  then show ?case by simp
next
  case (2 c cs)
  have f: "\<forall>y \<in> set (bslash # ''ufffd''). 32 \<le> byte_val y" "\<forall>y \<in> set (bslash # ''u2028''). 32 \<le> byte_val y"
    "\<forall>y \<in> set (bslash # ''u2029''). 32 \<le> byte_val y" by code_simp+
  show ?case
  proof (cases "byte_val c < 128")
    case True
    with 2 esc_ascii_printable [of x c] show ?thesis by auto
  next
    case big: False
    show ?thesis
    proof (cases "rune_conts (byte_val c) cs")
      case None
      with 2 big f show ?thesis by auto
    next
      case (Some n)
      have "\<forall>y \<in> set (take n cs). 32 \<le> byte_val y"
        using rune_conts_high [OF Some] big by force
      then have "\<forall>y \<in> set (esc_rune (c # take n cs)). 32 \<le> byte_val y"
        using f big by (auto simp: esc_rune_def)
      with 2 big Some show ?thesis by auto
    qed
  qed
qed

lemma log_line_printable: "x \<in> set (log_line timestamp filename sz sender) \<Longrightarrow> 32 \<le> byte_val x"
proof -
  have k: "\<forall>y \<in> set (quote_char # ''{}:,-''). 32 \<le> byte_val y" by code_simp
  have str: "\<forall>y \<in> set (print_str s). 32 \<le> byte_val y" for s
    using escape_printable [of _ s] k by (auto simp: print_str_def)
  have "\<forall>y \<in> set (nat_dec n). 32 \<le> byte_val y" for n
    using nat_dec_digits [of _ n] by (force simp: is_digit_def)
  then have int: "\<forall>y \<in> set (int_dec i). 32 \<le> byte_val y" for i using k by (auto simp: int_dec_def)
  show "x \<in> set (log_line timestamp filename sz sender) \<Longrightarrow> 32 \<le> byte_val x"
    using str int k by (auto simp: log_line_def log_entry_json_def nl_def colon_def)
qed

lemma log_names_utf8:
  "fix_utf8 ''timestamp'' = ''timestamp''" "fix_utf8 ''filename'' = ''filename''"
  "fix_utf8 ''size'' = ''size''" "fix_utf8 ''sender'' = ''sender''"
  by (rule fix_utf8_ascii, code_simp)+

text \<open>One line per transfer. Whatever a peer calls its file, the log line has no line break
  and no control character, and it parses back to one JSON object with the sanitised names.\<close>

theorem log_line_safe:
  "byte_of 10 \<notin> set (log_line timestamp filename sz sender) \<and>
   list_all log_char (SanitizeForLog filename) \<and>
   json_decode (log_line timestamp filename sz sender) =
     Some (JObj [(''timestamp'', JStr (fix_utf8 timestamp)),
                 (''filename'', JStr (fix_utf8 (SanitizeForLog filename))),
                 (''size'', JNum (int_dec sz)),
                 (''sender'', JStr (fix_utf8 (SanitizeForLog sender)))])"
proof -
  have "byte_of 10 \<notin> set (log_line timestamp filename sz sender)"
    using log_line_printable [of "byte_of 10" timestamp filename sz sender] by auto
  moreover have "list_all log_char (SanitizeForLog filename)"
    by (simp add: SanitizeForLog_def list_all_iff)
  moreover have "json_decode (log_line timestamp filename sz sender) =
      Some (fix_value (log_entry_json \<lparr>le_timestamp = timestamp, le_filename = SanitizeForLog filename,
        le_size = sz, le_sender = SanitizeForLog sender\<rparr>))"
    unfolding log_line_def
    by (rule decode_print [of "Suc 0"]) (auto simp: log_entry_json_def maxNestingDepth_def)
  ultimately show ?thesis by (simp add: log_entry_json_def log_names_utf8 del: fix_utf8.simps)
qed

section \<open>Nonces\<close>

lemma nc_get_put:
  assumes "nc_ok nc" and "1 \<le> nc_capacity nc"
  shows "snd (nc_get (nc_put nc c n) c) = Some n"
proof -
  have "map_of (nc_abs (nc_put nc c n)) c = Some n"
    using put_refines(2) [OF assms(1), of c n] assms(2) by (auto simp: spec_put_def split: list.split)
  then show ?thesis
    using get_refines(2) [OF put_refines(1) [OF assms(1)], of c n c] by (simp add: spec_get_def prod_eq_iff)
qed

text \<open>A nonce exchange is recorded on both sides. When the handler answers with a nonce, it is
  one that decodes to 32 bytes; the receiver remembers it for that client, together with the valid
  nonce the client sent; and no other part of the receiver changes.\<close>

theorem nonce_exchange_recorded:
  assumes "nonceExchangeHandler (Some rnd) fr rq = (fr', RespNonce answer)"
    and "length rnd \<ge> 32" and "nc_ok (hr_receivedNonces fr)" and "nc_ok (hr_generatedNonces fr)"
    and "1 \<le> nc_capacity (hr_receivedNonces fr)" and "1 \<le> nc_capacity (hr_generatedNonces fr)"
  shows "\<exists>nonce. ValidateNonce nonce \<and>
    snd (nc_get (hr_receivedNonces fr') (rq_ip rq)) = Some nonce \<and>
    DecodeNonce answer = Inr (take 32 rnd) \<and>
    snd (nc_get (hr_generatedNonces fr') (rq_ip rq)) = Some (take 32 rnd) \<and>
    fr' = fr\<lparr>hr_receivedNonces := hr_receivedNonces fr', hr_generatedNonces := hr_generatedNonces fr'\<rparr>"
proof -
  from assms(1) obtain nonce where n: "ValidateNonce nonce" "answer = EncodeNonce (take 32 rnd)"
    "fr' = fr\<lparr>hr_receivedNonces := nc_put (hr_receivedNonces fr) (rq_ip rq) nonce,
       hr_generatedNonces := nc_put (hr_generatedNonces fr) (rq_ip rq) (take 32 rnd)\<rparr>"
    by (auto simp: nonceExchangeHandler_def GenerateNonce_def NonceSize_def Let_def split: sum.splits if_splits)
  have "DecodeNonce answer = Inr (take 32 rnd)"
    using assms(2) n(2) by (simp add: DecodeNonce_def EncodeNonce_def b64_decode_encode ValidateNonce_def)
  with n nc_get_put assms(3-6) show ?thesis by auto
qed

end
