(* ===== verification/HttpProps.thy ===== *)
theory HttpProps
  imports HttpRecv
begin

text \<open>
  An upload through the handler, from the request to the disk, and concrete requests on which the
  properties of \<open>HttpRecv\<close> are applied.
\<close>

section \<open>What else a transfer writes\<close>

text \<open>The keys of the notification file and of the transfer log.\<close>

definition log_keys :: "FileReceiver \<Rightarrow> fkey set" where
  "log_keys fr =
     insert (path_key (hr_transferNotifyPath fr)) (path_key ` set_option (hr_transferLogFile fr))"

lemma write_file_other: "path_key q \<noteq> path_key p \<Longrightarrow> file_content (write_file fs p d) q = file_content fs q"
  by (auto simp: write_file_def os_create_effect(1) go_fs intro!: file_content_cong split: option.split)

lemma file_write_other:
  "path_key q \<noteq> path_key p \<Longrightarrow> file_content (fst (file_write fs p d)) q = file_content fs q"
  by (rule file_content_cong) (simp add: go_fs)

lemma LogTransfer_other:
  assumes "path_key q \<notin> log_keys fr"
  shows "file_content (fst (LogTransfer fs fr ts name sz ip)) q = file_content fs q"
proof -
  obtain fr1 cmd where c: "start_cmd fr = (fr1, cmd)" by fastforce
  then have same: "hr_transferNotifyPath fr1 = hr_transferNotifyPath fr"
    "hr_transferLogFile fr1 = hr_transferLogFile fr" by (auto simp: start_cmd_def split: if_splits)
  obtain fs1 fr2 where n: "notify_transfer fs fr1 = (fs1, fr2)" by fastforce
  have k: "file_content fs1 q = file_content fs q" "hr_transferLogFile fr2 = hr_transferLogFile fr"
    using n assms same by (auto simp: notify_transfer_def log_keys_def Let_def write_file_other split: if_splits)
  show ?thesis
  proof (cases "hr_transferLogFile fr")
    case None
    with c n k show ?thesis by (simp add: LogTransfer_def)
  next
    case (Some p)
    then have "path_key q \<noteq> path_key p" using assms by (auto simp: log_keys_def)
    with Some c n k show ?thesis by (simp add: LogTransfer_def Let_def file_write_other)
  qed
qed

lemma folder_flag_same:
  "sess_IsFolderTransfer s = (s', b) \<Longrightarrow>
   fileMetas s' = fileMetas s \<and> fileStates s' = fileStates s \<and> fileTokens s' = fileTokens s \<and>
   sess_clientIP s' = sess_clientIP s \<and> sess_remap_ok s' = sess_remap_ok s"
  by (auto simp: sess_IsFolderTransfer_def sess_remap_ok_def Let_def split: option.splits)

lemma upload_200D:
  assumes "uploadHandler uni sha ts fs fr rq = (fs', fr', RespStatus 200, cmd)"
    and "mget (rsm_sessions (hr_sessman fr)) (query rq ''sessionId'') = Some s"
    and "mget (fileMetas s) (query rq ''fileId'') = Some meta"
    and "GetSaveDirForSession uni fr s (fm_filename meta) = (s1, dir)"
  obtains fs1 s2 name where
    "SaveFile sha fs s1 dir (query rq ''fileId'') (query rq ''token'') (rq_ip rq) (rq_body rq) = (fs1, s2, Inr name)"
    "fs' = fst (LogTransfer fs1 (fr\<lparr>hr_sessman := put_session (query rq ''sessionId'') s2 (hr_sessman fr)\<rparr>)
       ts name (fm_size meta) (rq_ip rq))"
proof -
  obtain fs1 s2 res where sv: "SaveFile sha fs s1 dir (query rq ''fileId'') (query rq ''token'') (rq_ip rq) (rq_body rq)
      = (fs1, s2, res)" by (cases "SaveFile sha fs s1 dir (query rq ''fileId'') (query rq ''token'') (rq_ip rq) (rq_body rq)")
  have params: "query rq ''sessionId'' \<noteq> []" "query rq ''fileId'' \<noteq> []" "query rq ''token'' \<noteq> []"
    using assms(1) by (auto simp: uploadHandler_def Let_def split: if_splits)
  note run = assms(1) [unfolded uploadHandler_def Let_def GetSession_def assms(2) option.case sum.case GetFileMeta_def
      assms(3,4) prod.case sv]
  show ?thesis
  proof (cases res)
    case (Inl e)
    with run params Status_Some [of e] show ?thesis by auto
  next
    case (Inr name)
    with run params sv that show ?thesis by (auto split: prod.splits)
  qed
qed


section \<open>Concrete requests\<close>

definition demo_fr :: FileReceiver where
  "demo_fr = hr_SetAllowedExtensions (hr_SetPIN (NewFileReceiver ''Kobo'' ''fp'' ''/d'') ''1234'') [''txt'']"

text \<open>A request with the given query and body, as one read at second 7.\<close>

definition demo_rq :: "(string \<times> string) list \<Rightarrow> bytes \<Rightarrow> request" where
  "demo_rq q b = \<lparr>rq_ip = ''ip'', rq_query = q, rq_contentLength = int (length b),
     rq_body = \<lparr>bd_reads = [(7, b)], bd_fails = False\<rparr>, rq_tlsFingerprint = None\<rparr>"

definition demo_prepare :: bytes where
  "demo_prepare = print_value None (JObj
     [(''info'', JObj [(''alias'', JStr ''A'')]),
      (''files'', JObj
        [(''f'', JObj [(''id'', JStr ''f''), (''fileName'', JStr ''b.txt''), (''size'', JNum ''2'')]),
         (''g'', JObj [(''id'', JStr ''g''), (''fileName'', JStr ''c.exe''), (''size'', JNum ''2'')])])])"

lemma demo_pin: "hr_expectedPin demo_fr = ''1234''" "given_pin (demo_rq [(''pin'', p)] b) = Some p"
  by (simp_all add: demo_fr_def hr_SetAllowedExtensions_def hr_SetPIN_def demo_rq_def given_pin_def)

theorem pin_guards_sessions_witness:
  "\<exists>l st. st \<in> {401, 429} \<and>
     preUploadHandler id 0 0 ''S'' [''t''] demo_fr (demo_rq [(''pin'', ''0000'')] demo_prepare) =
       (demo_fr\<lparr>hr_pinRateLimiter := l\<rparr>, RespStatus st)"
proof -
  have "hr_expectedPin demo_fr \<noteq> []" "given_pin (demo_rq [(''pin'', ''0000'')] demo_prepare) \<noteq> Some (hr_expectedPin demo_fr)"
    using demo_pin by simp_all
  then show ?thesis by (rule pin_guards_sessions)
qed

definition demo_granted :: "FileReceiver \<times> response" where
  "demo_granted = preUploadHandler id 0 0 ''S'' [''t''] demo_fr (demo_rq [(''pin'', ''1234'')] demo_prepare)"

lemma demo_granted_resp: "snd demo_granted = RespTokens ''S'' [(''f'', ''t'')]"
  by code_simp

theorem pre_upload_granted_witness:
  "\<exists>s. mget (rsm_sessions (hr_sessman (fst demo_granted))) ''S'' = Some s \<and> \<not> Stopped 0 s \<and>
     (\<forall>x \<in> set (fileMetas s). hr_IsExtensionAllowed id demo_fr (fm_filename (snd x)))"
proof -
  obtain fr' where g: "preUploadHandler id 0 0 ''S'' [''t''] demo_fr (demo_rq [(''pin'', ''1234'')] demo_prepare) =
      (fr', RespTokens ''S'' [(''f'', ''t'')])" and d: "fr' = fst demo_granted"
    using demo_granted_resp unfolding demo_granted_def by (metis prod.collapse)
  have w: "rsm_wf (hr_sessman demo_fr)" "0 - 0 * 1000000000 \<le> SessionTimeout"
    by (simp_all add: demo_fr_def hr_SetAllowedExtensions_def hr_SetPIN_def NewFileReceiver_def rsm_wf_New
        SessionTimeout_def)
  from pre_upload_granted [OF g w] d show ?thesis by auto
qed

definition demo_session :: RecvSession where
  "demo_session = (case mget (rsm_sessions (hr_sessman (fst demo_granted))) ''S'' of
     Some s \<Rightarrow> s | None \<Rightarrow> NewRecvSession 0 [] [])"

definition demo_upload :: request where
  "demo_upload = demo_rq [(''sessionId'', ''S''), (''fileId'', ''f''), (''token'', ''t'')] ''hi''"

definition demo_dir_fs :: fsys where
  "demo_dir_fs = \<lparr>fs_nodes = [((True, [''d'']), FDir)], fs_denied = [], fs_space = None\<rparr>"


theorem nonce_exchange_recorded_witness:
  "\<exists>fr' answer. nonceExchangeHandler (Some (replicate 32 CHR ''n'')) demo_fr
      (demo_rq [] (print_value None (JObj [(''nonce'', JStr (EncodeNonce (replicate 16 CHR ''c'')))]))) = (fr', RespNonce answer) \<and>
     DecodeNonce answer = Inr (replicate 32 CHR ''n'')"
proof -
  let ?rq = "demo_rq [] (print_value None (JObj [(''nonce'', JStr (EncodeNonce (replicate 16 CHR ''c'')))]))"
  obtain fr' r where u: "nonceExchangeHandler (Some (replicate 32 CHR ''n'')) demo_fr ?rq = (fr', r)" by fastforce
  have "snd (nonceExchangeHandler (Some (replicate 32 CHR ''n'')) demo_fr ?rq) =
      RespNonce (EncodeNonce (replicate 32 CHR ''n''))" by code_simp
  with u have r: "r = RespNonce (EncodeNonce (replicate 32 CHR ''n''))" by simp
  have w: "length (replicate 32 CHR ''n'') \<ge> 32" "nc_ok (hr_receivedNonces demo_fr)" "nc_ok (hr_generatedNonces demo_fr)"
    "1 \<le> nc_capacity (hr_receivedNonces demo_fr)" "1 \<le> nc_capacity (hr_generatedNonces demo_fr)"
    by code_simp+
  from nonce_exchange_recorded [OF u [unfolded r] w] r
  have "DecodeNonce r' = Inr (replicate 32 CHR ''n'')" if "r = RespNonce r'" for r' using that by auto
  with u r show ?thesis by auto
qed

end
