(* ===== verification/TrustedStore.thy ===== *)
theory TrustedStore
  imports JsonPrint GoFs Paths "HOL-Library.List_Lexorder" "HOL-Library.Char_ord"
begin

text \<open>
  \<^verbatim>\<open>internal/storage/trusted_devices.go\<close>: the paired devices and their file. The locale
  \<open>device_store\<close> is the contract of the interface \<^verbatim>\<open>DeviceStore\<close> as the WebRTC receiver relies
  on it. SHA-256 is the argument \<open>sha\<close>.
\<close>

section \<open>Data\<close>

definition MaxTrustedDevices :: int where "MaxTrustedDevices = 100"

record TrustedDevice =
  td_alias :: string
  td_publicKey :: string
  td_addedAt :: int

text \<open>The map is \<open>None\<close> when it is Go's nil map, which reads as empty but cannot be written.\<close>

record TrustedDeviceStore =
  ts_configDir :: string
  ts_devices :: "(string, TrustedDevice) gomap option"

abbreviation devs :: "TrustedDeviceStore \<Rightarrow> (string, TrustedDevice) gomap" where
  "devs s \<equiv> (case ts_devices s of None \<Rightarrow> [] | Some m \<Rightarrow> m)"

datatype store_res = StoreOk | StoreFailed | NilMapPanic

section \<open>The file\<close>

definition device_json :: "TrustedDevice \<Rightarrow> json" where
  "device_json d =
     JObj [(''alias'', JStr (td_alias d)), (''publicKey'', JStr (td_publicKey d)),
           (''addedAt'', JNum (int_dec (td_addedAt d)))]"

definition encode_devices :: "(string, TrustedDevice) gomap option \<Rightarrow> bytes" where
  "encode_devices m =
     print_value (Some 0)
       (case m of None \<Rightarrow> JNull | Some ds \<Rightarrow> JObj (map (\<lambda>(k, d). (k, device_json d)) (sort_key fst ds)))
     @ [byte_of 10]"

definition put_device_field :: "string \<Rightarrow> json \<Rightarrow> TrustedDevice \<Rightarrow> TrustedDevice \<times> bool" where
  "put_device_field k v d =
     (if field_is ''alias'' k then
        (case into_str v (td_alias d) of (x, e) \<Rightarrow> (d\<lparr>td_alias := x\<rparr>, e))
      else if field_is ''publicKey'' k then
        (case into_str v (td_publicKey d) of (x, e) \<Rightarrow> (d\<lparr>td_publicKey := x\<rparr>, e))
      else if field_is ''addedAt'' k then
        (case into_int64 v (td_addedAt d) of (x, e) \<Rightarrow> (d\<lparr>td_addedAt := x\<rparr>, e))
      else (d, False))"

definition no_device :: TrustedDevice where
  "no_device = \<lparr>td_alias = [], td_publicKey = [], td_addedAt = 0\<rparr>"

definition decode_devices :: "json \<Rightarrow> (string, TrustedDevice) gomap option \<times> bool" where
  "decode_devices v =
     (case v of
        JObj ms \<Rightarrow>
          (case fold (\<lambda>(k, w) (m, e). case into_struct put_device_field w no_device of
                        (d, e') \<Rightarrow> (mput k d m, e \<or> e')) ms ([], False) of
             (m, e) \<Rightarrow> (Some m, e))
      | JNull \<Rightarrow> (None, False)
      | _ \<Rightarrow> (Some [], True))"

definition devices_path :: "string \<Rightarrow> string" where
  "devices_path configDir = path_join configDir ''trusted_devices.json''"

text \<open>\<^verbatim>\<open>Decoder.Decode\<close> reads one value and does not look at what follows it.\<close>

definition ts_load :: "fsys \<Rightarrow> TrustedDeviceStore \<Rightarrow> TrustedDeviceStore option" where
  "ts_load fs s =
     (case os_read fs (devices_path (ts_configDir s)) of
        RNotExist \<Rightarrow> Some s
      | RErr \<Rightarrow> None
      | RData data \<Rightarrow>
          (case parse_value 0 data of
             None \<Rightarrow> None
           | Some (v, _) \<Rightarrow>
               (case decode_devices v of
                  (m, e) \<Rightarrow> if e then None else Some (s\<lparr>ts_devices := m\<rparr>))))"

definition NewTrustedDeviceStore :: "fsys \<Rightarrow> string \<Rightarrow> TrustedDeviceStore option" where
  "NewTrustedDeviceStore fs configDir =
     ts_load fs \<lparr>ts_configDir = configDir, ts_devices = Some []\<rparr>"

text \<open>\<open>synced\<close> says whether \<^verbatim>\<open>Sync\<close> and \<^verbatim>\<open>Close\<close> succeed.\<close>

definition ts_save :: "bool \<Rightarrow> fsys \<Rightarrow> TrustedDeviceStore \<Rightarrow> fsys \<times> store_res" where
  "ts_save synced fs s =
     (case mkdir_all fs (ts_configDir s) of
        (fs1, False) \<Rightarrow> (fs1, StoreFailed)
      | (fs1, True) \<Rightarrow>
          let filePath = devices_path (ts_configDir s);
              tempPath = filePath @ ''.tmp''
          in case os_create fs1 tempPath of
               None \<Rightarrow> (fs1, StoreFailed)
             | Some fs2 \<Rightarrow>
                 (case file_write fs2 tempPath (encode_devices (ts_devices s)) of
                    (fs3, _, wrote) \<Rightarrow>
                      if \<not> wrote \<or> \<not> synced then (fst (os_remove fs3 tempPath), StoreFailed)
                      else case os_rename fs3 tempPath filePath of
                             (fs4, ok) \<Rightarrow> (fs4, if ok then StoreOk else StoreFailed)))"

section \<open>Operations\<close>

definition GetFingerprint :: "(bytes \<Rightarrow> bytes) \<Rightarrow> string \<Rightarrow> string" where
  "GetFingerprint sha publicKey = hex_encode (sha publicKey)"

text \<open>The oldest entry in the order of the iteration, starting from the largest time.\<close>

definition oldest :: "(string, TrustedDevice) gomap \<Rightarrow> string \<times> int" where
  "oldest m =
     fold (\<lambda>(key, device) (oldestKey, oldestTime).
             if td_addedAt device < oldestTime then (key, td_addedAt device) else (oldestKey, oldestTime))
       m ([], int64_max)"

definition evictOldest :: "(string, TrustedDevice) gomap \<Rightarrow> (string, TrustedDevice) gomap" where
  "evictOldest m = (if fst (oldest m) \<noteq> [] then mdel (fst (oldest m)) m else m)"

definition add_device ::
    "(bytes \<Rightarrow> bytes) \<Rightarrow> TrustedDevice \<Rightarrow> (string, TrustedDevice) gomap \<Rightarrow> (string, TrustedDevice) gomap" where
  "add_device sha device m =
     (let fingerprint = GetFingerprint sha (td_publicKey device);
          m1 = (if \<not> mhas m fingerprint \<and> int (length m) \<ge> MaxTrustedDevices then evictOldest m else m)
      in mput fingerprint device m1)"

definition ts_Add ::
    "(bytes \<Rightarrow> bytes) \<Rightarrow> bool \<Rightarrow> fsys \<Rightarrow> TrustedDeviceStore \<Rightarrow> TrustedDevice \<Rightarrow>
     fsys \<times> TrustedDeviceStore \<times> store_res" where
  "ts_Add sha synced fs s device =
     (case ts_devices s of
        None \<Rightarrow> (fs, s, NilMapPanic)
      | Some m \<Rightarrow>
          let s1 = s\<lparr>ts_devices := Some (add_device sha device m)\<rparr>
          in case ts_save synced fs s1 of (fs1, r) \<Rightarrow> (fs1, s1, r))"

definition ts_Remove ::
    "bool \<Rightarrow> fsys \<Rightarrow> TrustedDeviceStore \<Rightarrow> string \<Rightarrow> fsys \<times> TrustedDeviceStore \<times> store_res" where
  "ts_Remove synced fs s fingerprint =
     (let s1 = s\<lparr>ts_devices := map_option (mdel fingerprint) (ts_devices s)\<rparr>
      in case ts_save synced fs s1 of (fs1, r) \<Rightarrow> (fs1, s1, r))"

definition IsTrusted :: "(bytes \<Rightarrow> bytes) \<Rightarrow> TrustedDeviceStore \<Rightarrow> string \<Rightarrow> bool" where
  "IsTrusted sha s publicKey \<longleftrightarrow> mhas (devs s) (GetFingerprint sha publicKey)"

definition GetPublicKey :: "TrustedDeviceStore \<Rightarrow> string \<Rightarrow> string option" where
  "GetPublicKey s fingerprint = map_option td_publicKey (mget (devs s) fingerprint)"

definition ts_List :: "TrustedDeviceStore \<Rightarrow> TrustedDevice list" where
  "ts_List s = map snd (devs s)"

definition ListPublicKeys :: "TrustedDeviceStore \<Rightarrow> (string, string) gomap" where
  "ListPublicKeys s = fold (\<lambda>(fingerprint, device) m. mput fingerprint (td_publicKey device) m) (devs s) []"

section \<open>The store in memory\<close>

definition store_ok :: "(bytes \<Rightarrow> bytes) \<Rightarrow> TrustedDeviceStore \<Rightarrow> bool" where
  "store_ok sha s \<longleftrightarrow>
     (case ts_devices s of
        None \<Rightarrow> False
      | Some m \<Rightarrow> mwf m \<and> list_all (\<lambda>(f, d). f = GetFingerprint sha (td_publicKey d)) m)"

lemma oldest_fold:
  assumes "fold (\<lambda>(key, device) (oldestKey, oldestTime).
      if td_addedAt device < oldestTime then (key, td_addedAt device) else (oldestKey, oldestTime)) m (k0, t0) = (k, t)"
  shows "t \<le> t0 \<and> (\<forall>x \<in> set m. t \<le> td_addedAt (snd x)) \<and>
    ((k, t) = (k0, t0) \<or> (\<exists>d. (k, d) \<in> set m \<and> td_addedAt d = t \<and> t < t0))"
  using assms
proof (induction m arbitrary: k0 t0)
  case Nil
  then show ?case by simp
next
  case (Cons x m)
  obtain a d where x: "x = (a, d)" by (cases x)
  show ?case
  proof (cases "td_addedAt d < t0")
    case True
    with Cons.prems x Cons.IH [of a "td_addedAt d"] show ?thesis by auto
  next
    case False
    with Cons.prems x Cons.IH [of k0 t0] show ?thesis by auto
  qed
qed

lemma evictOldest_cases:
  assumes "mwf m" and "[] \<notin> fst ` set m"
  obtains (stuck) "evictOldest m = m" "\<forall>x \<in> set m. int64_max \<le> td_addedAt (snd x)"
  | (evicted) k d where "mget m k = Some d" "evictOldest m = mdel k m"
      "\<forall>x \<in> set m. td_addedAt d \<le> td_addedAt (snd x)"
proof -
  obtain k t where o: "oldest m = (k, t)" by fastforce
  note f = oldest_fold [OF o [unfolded oldest_def]]
  show ?thesis
  proof (cases "(k, t) = ([], int64_max)")
    case True
    with f o stuck show ?thesis by (simp add: evictOldest_def)
  next
    case False
    with f obtain d where d: "(k, d) \<in> set m" "td_addedAt d = t" by blast
    with assms(2) have "k \<noteq> []" by force
    with evicted [of k d] d f o assms(1) show ?thesis by (simp add: evictOldest_def)
  qed
qed

lemma evictOldest_subset: "set (evictOldest m) \<subseteq> set m"
  by (auto simp: evictOldest_def set_mdel)

lemma mwf_evictOldest: "mwf m \<Longrightarrow> mwf (evictOldest m)"
  by (simp add: evictOldest_def)

lemma mget_evictOldest: "mget (evictOldest m) f = Some d \<Longrightarrow> mget m f = Some d"
  by (auto simp: evictOldest_def split: if_splits)

lemma mget_add_device:
  "mget (add_device sha d m) f =
     (if f = GetFingerprint sha (td_publicKey d) then Some d
      else mget (if \<not> mhas m (GetFingerprint sha (td_publicKey d)) \<and> int (length m) \<ge> MaxTrustedDevices
                 then evictOldest m else m) f)"
  by (simp add: add_device_def Let_def)

lemma add_device_ok:
  assumes "mwf m" and "list_all (\<lambda>(f, d). f = GetFingerprint sha (td_publicKey d)) m"
  shows "mwf (add_device sha d m)"
    and "list_all (\<lambda>(f, d). f = GetFingerprint sha (td_publicKey d)) (add_device sha d m)"
proof -
  let ?m = "if \<not> mhas m (GetFingerprint sha (td_publicKey d)) \<and> int (length m) \<ge> MaxTrustedDevices
    then evictOldest m else m"
  have w: "mwf ?m" using assms(1) by (simp add: mwf_evictOldest)
  have "set ?m \<subseteq> set m" using evictOldest_subset [of m] by simp
  then have l: "list_all (\<lambda>(f, d). f = GetFingerprint sha (td_publicKey d)) ?m"
    using assms(2) unfolding list_all_iff by blast
  show "mwf (add_device sha d m)" unfolding add_device_def Let_def by (rule mwf_mput [OF w])
  show "list_all (\<lambda>(f, d). f = GetFingerprint sha (td_publicKey d)) (add_device sha d m)"
    using l unfolding add_device_def Let_def list_all_iff set_mput_wf [OF w] by simp
qed

lemma ListPublicKeys_get:
  "mwf (devs s) \<Longrightarrow> mget (ListPublicKeys s) f = map_option td_publicKey (mget (devs s) f)"
  unfolding ListPublicKeys_def by (simp add: mget_fold_mput split: option.split)

section \<open>The contract of \<^verbatim>\<open>DeviceStore\<close>\<close>

text \<open>The state after a sequence of additions (\<open>Inl\<close>) and removals (\<open>Inr\<close>).\<close>

fun run_store :: "('s \<Rightarrow> 'd \<Rightarrow> 's) \<Rightarrow> ('s \<Rightarrow> string \<Rightarrow> 's) \<Rightarrow> 's \<Rightarrow> ('d + string) list \<Rightarrow> 's" where
  "run_store add remove s [] = s"
| "run_store add remove s (Inl d # ops) = run_store add remove (add s d) ops"
| "run_store add remove s (Inr f # ops) = run_store add remove (remove s f) ops"

lemma run_store_append:
  "run_store add remove s (xs @ ys) = run_store add remove (run_store add remove s xs) ys"
  by (induction add remove s xs rule: run_store.induct) simp_all

locale device_store =
  fixes ok :: "'s \<Rightarrow> bool"
    and trusted :: "'s \<Rightarrow> string \<Rightarrow> bool"
    and listed :: "'s \<Rightarrow> (string, string) gomap"
    and fp :: "string \<Rightarrow> string"
    and key :: "'d \<Rightarrow> string"
    and add :: "'s \<Rightarrow> 'd \<Rightarrow> 's"
    and remove :: "'s \<Rightarrow> string \<Rightarrow> 's"
  assumes trusted_listed: "ok s \<Longrightarrow> trusted s k \<longleftrightarrow> mhas (listed s) (fp k)"
    and listed_fp: "ok s \<Longrightarrow> mget (listed s) f = Some k \<Longrightarrow> fp k = f"
    and add_ok: "ok s \<Longrightarrow> ok (add s d)"
    and add_listed: "ok s \<Longrightarrow> mget (listed (add s d)) (fp (key d)) = Some (key d)"
    and add_only: "ok s \<Longrightarrow> f \<noteq> fp (key d) \<Longrightarrow> mget (listed (add s d)) f = Some k \<Longrightarrow> mget (listed s) f = Some k"
    and remove_ok: "ok s \<Longrightarrow> ok (remove s f)"
    and remove_listed: "ok s \<Longrightarrow> mget (listed (remove s f)) g = (if g = f then None else mget (listed s) g)"
begin

lemma listed_trusted: "ok s \<Longrightarrow> mget (listed s) f = Some k \<Longrightarrow> trusted s k"
  using listed_fp [of s f k] by (simp add: trusted_listed)

lemma removed_untrusted: "ok s \<Longrightarrow> \<not> trusted (remove s (fp k)) k"
  by (simp add: trusted_listed remove_ok remove_listed)

lemma run_ok: "ok s \<Longrightarrow> ok (run_store add remove s ops)"
proof (induction ops arbitrary: s)
  case Nil
  then show ?case by simp
next
  case (Cons x ops)
  then show ?case by (cases x) (simp_all add: add_ok remove_ok)
qed

text \<open>Nothing becomes trusted by itself.\<close>

lemma run_origin:
  assumes "ok s" and "mget (listed (run_store add remove s ops)) f = Some k"
  shows "mget (listed s) f = Some k \<or> (\<exists>d. Inl d \<in> set ops \<and> key d = k \<and> fp k = f)"
  using assms
proof (induction ops arbitrary: s)
  case Nil
  then show ?case by simp
next
  case (Cons x ops)
  show ?case
  proof (cases x)
    case (Inl d)
    with Cons add_ok [of s d] have h: "mget (listed (add s d)) f = Some k \<or>
        (\<exists>d. Inl d \<in> set ops \<and> key d = k \<and> fp k = f)" by simp
    show ?thesis
    proof (cases "f = fp (key d) \<and> mget (listed (add s d)) f = Some k")
      case True
      with add_listed [OF Cons.prems(1), of d] Inl show ?thesis by auto
    next
      case False
      with h add_only [OF Cons.prems(1), of f d k] Inl show ?thesis by auto
    qed
  next
    case (Inr g)
    with Cons remove_ok [of s g] remove_listed [of s g f] show ?thesis by (auto split: if_splits)
  qed
qed

end

lemma store_ok_Some:
  assumes "store_ok sha s"
  obtains m where "ts_devices s = Some m" "mwf m"
    "list_all (\<lambda>(f, d). f = GetFingerprint sha (td_publicKey d)) m"
  using assms by (auto simp: store_ok_def split: option.splits)

definition after_Add :: "(bytes \<Rightarrow> bytes) \<Rightarrow> bool \<Rightarrow> fsys \<Rightarrow> TrustedDeviceStore \<Rightarrow> TrustedDevice \<Rightarrow> TrustedDeviceStore" where
  "after_Add sha synced fs s d = fst (snd (ts_Add sha synced fs s d))"

definition after_Remove :: "bool \<Rightarrow> fsys \<Rightarrow> TrustedDeviceStore \<Rightarrow> string \<Rightarrow> TrustedDeviceStore" where
  "after_Remove synced fs s f = fst (snd (ts_Remove synced fs s f))"

lemma after_Add_devices:
  "ts_devices s = Some m \<Longrightarrow> ts_devices (after_Add sha synced fs s d) = Some (add_device sha d m)"
  by (simp add: after_Add_def ts_Add_def Let_def split: prod.split)

lemma after_Remove_devices:
  "ts_devices (after_Remove synced fs s f) = map_option (mdel f) (ts_devices s)"
  by (simp add: after_Remove_def ts_Remove_def Let_def split: prod.split)

lemma store_ok_Add: "store_ok sha s \<Longrightarrow> store_ok sha (after_Add sha synced fs s d)"
  by (erule store_ok_Some) (simp add: store_ok_def after_Add_devices add_device_ok)

lemma store_ok_Remove: "store_ok sha s \<Longrightarrow> store_ok sha (after_Remove synced fs s f)"
  by (erule store_ok_Some) (auto simp: store_ok_def after_Remove_devices list_all_iff set_mdel)

lemma store_ok_listed:
  "store_ok sha s \<Longrightarrow> mget (ListPublicKeys s) f = map_option td_publicKey (mget (devs s) f)"
  by (erule store_ok_Some) (simp add: ListPublicKeys_get)

lemma store_ok_fp:
  assumes "store_ok sha s" and "mget (devs s) f = Some d"
  shows "GetFingerprint sha (td_publicKey d) = f"
proof -
  obtain m where m: "ts_devices s = Some m" "list_all (\<lambda>(f, d). f = GetFingerprint sha (td_publicKey d)) m"
    using assms(1) by (rule store_ok_Some)
  with assms(2) have "(f, d) \<in> set m" by (auto dest: map_of_SomeD)
  with m(2) show ?thesis by (auto simp: list_all_iff)
qed

interpretation tds: device_store "store_ok sha" "IsTrusted sha" ListPublicKeys "GetFingerprint sha"
    td_publicKey "after_Add sha synced fs" "after_Remove synced fs"
  for sha synced fs
proof
  fix s k f d g
  assume ok: "store_ok sha s"
  then obtain m where m: "ts_devices s = Some m" by (rule store_ok_Some)
  note keys = store_ok_listed [OF ok]
  have dev: "devs (after_Add sha synced fs s d) = add_device sha d m" for d
    by (simp add: after_Add_devices [OF m])
  have rem: "devs (after_Remove synced fs s f) = mdel f m" for f
    by (simp add: after_Remove_devices m)
  note add_keys = store_ok_listed [OF store_ok_Add [OF ok], of synced fs]
  note rem_keys = store_ok_listed [OF store_ok_Remove [OF ok], of synced fs]
  show "IsTrusted sha s k \<longleftrightarrow> mhas (ListPublicKeys s) (GetFingerprint sha k)"
    by (simp add: IsTrusted_def keys)
  show "mget (ListPublicKeys s) f = Some k \<Longrightarrow> GetFingerprint sha k = f"
    using store_ok_fp [OF ok] by (auto simp: keys)
  show "store_ok sha (after_Add sha synced fs s d)" by (rule store_ok_Add [OF ok])
  show "mget (ListPublicKeys (after_Add sha synced fs s d)) (GetFingerprint sha (td_publicKey d)) = Some (td_publicKey d)"
    unfolding add_keys dev by (simp add: mget_add_device)
  show "f \<noteq> GetFingerprint sha (td_publicKey d) \<Longrightarrow>
      mget (ListPublicKeys (after_Add sha synced fs s d)) f = Some k \<Longrightarrow> mget (ListPublicKeys s) f = Some k"
    unfolding add_keys dev keys by (auto simp: mget_add_device m split: if_splits dest: mget_evictOldest)
  show "store_ok sha (after_Remove synced fs s f)" by (rule store_ok_Remove [OF ok])
  show "mget (ListPublicKeys (after_Remove synced fs s f)) g = (if g = f then None else mget (ListPublicKeys s) g)"
    unfolding rem_keys rem keys by (simp add: m)
qed

section \<open>The store on disk\<close>

lemma plain_file_names: "plain_comp ''trusted_devices.json''" "plain_comp ''trusted_devices.json.tmp''"
  by code_simp+

lemma path_join_render:
  assumes "a \<noteq> []" and "plain_comp b"
  shows "path_join a b = path_render (path_is_abs a) (clean_list a @ [b])"
proof -
  have "path_clean (path_join a b) = path_join a b"
    using assms(1) by (simp add: path_join_def path_clean_idem)
  then have "path_join a b = path_render (path_is_abs (path_join a b)) (clean_list (path_join a b))"
    by (simp add: path_clean_def)
  then show ?thesis
    unfolding clean_list_join_plain [OF assms] path_is_abs_join [OF assms(1)] .
qed

lemma temp_path:
  assumes "cfg \<noteq> []"
  shows "devices_path cfg @ ''.tmp'' = path_join cfg ''trusted_devices.json.tmp''"
  unfolding devices_path_def path_join_render [OF assms plain_file_names(1)]
    path_join_render [OF assms plain_file_names(2)]
  by (cases "clean_list cfg = []") (simp_all add: path_render_def join_with_snoc)

lemma temp_key:
  assumes "cfg \<noteq> []"
  shows "path_key (devices_path cfg @ ''.tmp'') \<noteq> path_key (devices_path cfg)"
  using clean_list_join_plain [OF assms plain_file_names(1)] clean_list_join_plain [OF assms plain_file_names(2)]
  unfolding temp_path [OF assms] unfolding devices_path_def path_key_def by simp

lemma os_rename_effect:
  assumes "os_rename fs p q = (fs', True)" and "path_key p \<noteq> path_key q"
    and "node_at fs (path_key p) = Some (FFile b)"
  shows "node_at fs' (path_key q) = Some (FFile b)" and "path_key q \<notin> set (fs_denied fs)"
    and "fs_denied fs' = fs_denied fs"
    and "k \<noteq> path_key p \<Longrightarrow> k \<noteq> path_key q \<Longrightarrow> node_at fs' k = node_at fs k"
proof -
  have d: "path_key q \<notin> set (fs_denied fs)" "node_at fs (path_key q) \<noteq> Some FDir"
    "fs' = set_node (path_key q) (FFile b) (del_node (path_key p) fs)"
    using assms by (auto simp: os_rename_def Let_def split: if_splits)
  then have n: "snd (path_key q) \<noteq> []" "snd (path_key p) \<noteq> []"
    using assms(3) by (auto simp: node_at_def)
  show "node_at fs' (path_key q) = Some (FFile b)" "path_key q \<notin> set (fs_denied fs)"
    "fs_denied fs' = fs_denied fs"
    "k \<noteq> path_key p \<Longrightarrow> k \<noteq> path_key q \<Longrightarrow> node_at fs' k = node_at fs k"
    using d n by (simp_all add: go_fs)
qed

lemma os_rename_failed: "os_rename fs p q = (fs', False) \<Longrightarrow> fs' = fs"
  by (auto simp: os_rename_def Let_def split: if_splits option.splits fnode.splits)

lemma os_read_file:
  "node_at fs (path_key p) = Some (FFile b) \<Longrightarrow> path_key p \<notin> set (fs_denied fs) \<Longrightarrow> os_read fs p = RData b"
  by (simp add: os_read_def os_stat_def file_content_def Let_def)

text \<open>From the temporary file on: \<open>t\<close> is the temporary path, \<open>p\<close> the final one.\<close>

definition replace_file :: "bool \<Rightarrow> fsys \<Rightarrow> string \<Rightarrow> string \<Rightarrow> bytes \<Rightarrow> fsys \<times> store_res" where
  "replace_file synced fs t p data =
     (case os_create fs t of
        None \<Rightarrow> (fs, StoreFailed)
      | Some fs2 \<Rightarrow>
          (case file_write fs2 t data of
             (fs3, _, wrote) \<Rightarrow>
               if \<not> wrote \<or> \<not> synced then (fst (os_remove fs3 t), StoreFailed)
               else case os_rename fs3 t p of
                      (fs4, ok) \<Rightarrow> (fs4, if ok then StoreOk else StoreFailed)))"

lemma replace_outcome:
  assumes "replace_file synced fs t p data = (fs', r)" and tp: "path_key t \<noteq> path_key p"
  shows "if r = StoreOk then node_at fs' (path_key p) = Some (FFile data) \<and> path_key p \<notin> set (fs_denied fs')
         else file_content fs' p = file_content fs p"
    and "path_key q \<noteq> path_key p \<Longrightarrow> path_key q \<noteq> path_key t \<Longrightarrow> file_content fs' q = file_content fs q"
proof -
  have "(if r = StoreOk then node_at fs' (path_key p) = Some (FFile data) \<and> path_key p \<notin> set (fs_denied fs')
         else file_content fs' p = file_content fs p) \<and>
    (path_key q \<noteq> path_key p \<longrightarrow> path_key q \<noteq> path_key t \<longrightarrow> file_content fs' q = file_content fs q)"
  proof (cases "os_create fs t")
    case None
    with assms(1) show ?thesis by (auto simp: replace_file_def)
  next
    case (Some fs2)
    note c = os_create_effect [OF Some]
    obtain fs3 n wrote where w: "file_write fs2 t data = (fs3, n, wrote)" by (cases "file_write fs2 t data")
    have f3: "node_at fs3 k = node_at fs k" if "k \<noteq> path_key t" for k
      using that file_write_frame [of k t fs2 data] w c(1) by simp
    show ?thesis
    proof (cases "wrote \<and> synced")
      case False
      with assms(1) Some w have e: "fs' = fst (os_remove fs3 t)" "r = StoreFailed"
        by (auto simp: replace_file_def)
      have "file_content fs' x = file_content fs x" if "path_key x \<noteq> path_key t" for x
        using os_remove_frame [OF that, of fs3] f3 [OF that] e(1) by (intro file_content_cong) simp
      with e(2) tp show ?thesis by simp
    next
      case True
      have n3: "node_at fs3 (path_key t) = Some (FFile data)"
        using file_write_ok [of fs2 t data fs3 n "[]"] w True c(1) by simp
      have d3: "fs_denied fs3 = fs_denied fs" using denied_file_write [of fs2 t data] w c(2) by simp
      obtain fs4 ok where rn: "os_rename fs3 t p = (fs4, ok)" by fastforce
      with assms(1) Some w True have e: "fs' = fs4" "r = (if ok then StoreOk else StoreFailed)"
        by (auto simp: replace_file_def)
      show ?thesis
      proof (cases ok)
        case True
        then have rn': "os_rename fs3 t p = (fs4, True)" using rn by simp
        note r = os_rename_effect [OF rn' tp n3]
        have "file_content fs' x = file_content fs x" if "path_key x \<noteq> path_key t" "path_key x \<noteq> path_key p" for x
          using r(4) [OF that] f3 [OF that(1)] e(1) by (intro file_content_cong) simp
        with e True r(1-3) show ?thesis by simp
      next
        case False
        with os_rename_failed [of fs3 t p fs4] rn have "fs4 = fs3" by simp
        moreover have "file_content fs3 x = file_content fs x" if "path_key x \<noteq> path_key t" for x
          using f3 [OF that] by (rule file_content_cong)
        ultimately show ?thesis using e False tp by simp
      qed
    qed
  qed
  then show "if r = StoreOk then node_at fs' (path_key p) = Some (FFile data) \<and> path_key p \<notin> set (fs_denied fs')
         else file_content fs' p = file_content fs p"
    and "path_key q \<noteq> path_key p \<Longrightarrow> path_key q \<noteq> path_key t \<Longrightarrow> file_content fs' q = file_content fs q"
    by blast+
qed

text \<open>A save either replaces the file by the complete new encoding or leaves it alone, and
  touches no other file but its temporary one.\<close>

lemma save_replace:
  "ts_save synced fs s =
     (case mkdir_all fs (ts_configDir s) of
        (fs1, False) \<Rightarrow> (fs1, StoreFailed)
      | (fs1, True) \<Rightarrow>
          replace_file synced fs1 (devices_path (ts_configDir s) @ ''.tmp'') (devices_path (ts_configDir s))
            (encode_devices (ts_devices s)))"
  by (simp add: ts_save_def replace_file_def Let_def split: prod.split bool.split)

lemma save_outcome:
  assumes "ts_save synced fs s = (fs', r)" and "ts_configDir s \<noteq> []"
  defines "p \<equiv> devices_path (ts_configDir s)"
  shows "if r = StoreOk then node_at fs' (path_key p) = Some (FFile (encode_devices (ts_devices s))) \<and>
           path_key p \<notin> set (fs_denied fs')
         else file_content fs' p = file_content fs p"
    and "path_key q \<noteq> path_key p \<Longrightarrow> path_key q \<noteq> path_key (p @ ''.tmp'') \<Longrightarrow>
      file_content fs' q = file_content fs q"
proof -
  have tk: "path_key (p @ ''.tmp'') \<noteq> path_key p" unfolding p_def by (rule temp_key [OF assms(2)])
  obtain fs1 ok where mk: "mkdir_all fs (ts_configDir s) = (fs1, ok)" by fastforce
  have same1: "file_content fs1 q = file_content fs q" for q
    using mkdir_all_files [of fs "ts_configDir s" q] mk by simp
  have "replace_file synced fs1 (p @ ''.tmp'') p (encode_devices (ts_devices s)) = (fs', r) \<or>
      fs' = fs1 \<and> r = StoreFailed"
    using assms(1) mk unfolding save_replace p_def by (cases ok) auto
  then show "if r = StoreOk then node_at fs' (path_key p) = Some (FFile (encode_devices (ts_devices s))) \<and>
           path_key p \<notin> set (fs_denied fs')
         else file_content fs' p = file_content fs p"
    and "path_key q \<noteq> path_key p \<Longrightarrow> path_key q \<noteq> path_key (p @ ''.tmp'') \<Longrightarrow>
      file_content fs' q = file_content fs q"
    using replace_outcome [OF _ tk] same1 by (auto split: if_splits)
qed

section \<open>Reading the file back\<close>

definition storable_device :: "TrustedDevice \<Rightarrow> bool" where
  "storable_device d \<longleftrightarrow> fix_utf8 (td_alias d) = td_alias d \<and> fix_utf8 (td_publicKey d) = td_publicKey d \<and>
     is_int64 (td_addedAt d)"

definition storable :: "(string, TrustedDevice) gomap \<Rightarrow> bool" where
  "storable m \<longleftrightarrow> list_all (\<lambda>(f, d). fix_utf8 f = f \<and> storable_device d) m"

lemma field_names:
  "\<not> field_is ''alias'' ''publicKey''" "\<not> field_is ''alias'' ''addedAt''"
  "\<not> field_is ''publicKey'' ''addedAt''" "field_is ''alias'' ''alias''"
  "field_is ''publicKey'' ''publicKey''" "field_is ''addedAt'' ''addedAt''"
  by code_simp+

lemma device_names_utf8:
  "fix_utf8 ''alias'' = ''alias''" "fix_utf8 ''publicKey'' = ''publicKey''" "fix_utf8 ''addedAt'' = ''addedAt''"
  by (rule fix_utf8_ascii, code_simp)+

lemma device_read:
  assumes "storable_device d"
  shows "fix_value (device_json d) = device_json d"
    and "into_struct put_device_field (device_json d) no_device = (d, False)"
  using assms
  by (simp_all add: storable_device_def device_json_def device_names_utf8 into_struct_def
      put_device_field_def field_names lit_int64_dec no_device_def del: fix_utf8.simps)

lemma decode_fold:
  assumes "list_all (\<lambda>(f, d). storable_device d) ds"
  shows "fold (\<lambda>(k, w) (m, e). case into_struct put_device_field w no_device of (d, e') \<Rightarrow> (mput k d m, e \<or> e'))
      (map (\<lambda>(k, d). (k, device_json d)) ds) (m0, False)
    = (fold (\<lambda>(k, d) m. mput k (id d) m) ds m0, False)"
  using assms
proof (induction ds arbitrary: m0)
  case Nil
  then show ?case by simp
next
  case (Cons x ds)
  then show ?case by (cases x) (simp add: device_read(2))
qed

lemma mget_sort: "mwf m \<Longrightarrow> mwf (sort_key fst m) \<and> mget (sort_key fst m) f = mget m f"
proof -
  assume w: "mwf m"
  have "distinct (map fst (sort_key fst m))"
    using w by (metis distinct_sort distinct_map set_sort)
  moreover have "set (sort_key fst m) = set m" by simp
  ultimately show ?thesis using w by (metis map_of_inject_set)
qed

lemma devices_printable: "printable 2 (JObj (map (\<lambda>(k, d). (k, device_json d)) ds))"
proof -
  have "2 = Suc (Suc 0)" by simp
  then show ?thesis by (auto simp: list_all_iff device_json_def)
qed

lemma store_file_read:
  assumes "mwf m" and "storable m"
  shows "\<exists>v r m'. parse_value 0 (encode_devices (Some m)) = Some (v, r) \<and>
    decode_devices v = (Some m', False) \<and> (\<forall>f. mget m' f = mget m f)"
proof -
  let ?ds = "sort_key fst m" and ?v = "JObj (map (\<lambda>(k, d). (k, device_json d)) (sort_key fst m))"
  have st: "list_all (\<lambda>(f, d). fix_utf8 f = f \<and> storable_device d) ?ds"
    using assms(2) by (simp add: storable_def list_all_iff)
  have "ends_number [byte_of 10]" by code_simp
  then have "parse_value 0 (encode_devices (Some m)) = Some (fix_value ?v, [byte_of 10])"
    unfolding encode_devices_def option.case
    using print_parse(1) [OF devices_printable [of ?ds], of 0 "[byte_of 10]" "Some 0"]
    by (simp add: maxNestingDepth_def del: print_value.simps)
  moreover have "fix_value ?v = ?v"
    using st device_read(1) by (auto simp: list_all_iff)
  moreover have "decode_devices ?v = (Some (fold (\<lambda>(k, d) m. mput k (id d) m) ?ds []), False)"
    using decode_fold [of ?ds "[]"] st by (simp add: decode_devices_def list_all_iff case_prod_beta)
  moreover have "mget (fold (\<lambda>(k, d) m. mput k (id d) m) ?ds []) f = mget m f" for f
    using mget_fold_mput [of ?ds id "[]" f] mget_sort [OF assms(1), of f] by (simp split: option.split)
  ultimately show ?thesis by metis
qed

section \<open>Properties\<close>

text \<open>C22: pairing persists. When adding a device reports success, a store opened on the same
  directory afterwards knows exactly the devices in memory: the file is written in full, sorted
  and escaped, and parsed back to the same entries.\<close>

theorem store_persists:
  assumes "ts_Add sha synced fs s d = (fs', s', StoreOk)"
    and "store_ok sha s" and "storable (devs s')" and "ts_configDir s \<noteq> []"
  shows "\<exists>t. NewTrustedDeviceStore fs' (ts_configDir s) = Some t \<and> ts_configDir t = ts_configDir s \<and>
    (\<forall>f. mget (devs t) f = mget (devs s') f) \<and> IsTrusted sha t (td_publicKey d)"
proof -
  obtain m where m: "ts_devices s = Some m" "mwf m"
    "list_all (\<lambda>(f, d). f = GetFingerprint sha (td_publicKey d)) m" using assms(2) by (rule store_ok_Some)
  let ?m = "add_device sha d m"
  have s': "s' = s\<lparr>ts_devices := Some ?m\<rparr>" and sv: "ts_save synced fs s' = (fs', StoreOk)"
    using assms(1) m(1) by (auto simp: ts_Add_def Let_def split: prod.splits)
  note w = add_device_ok(1) [OF m(2,3), of d]
  have rd: "os_read fs' (devices_path (ts_configDir s)) = RData (encode_devices (Some ?m))"
    using save_outcome(1) [OF sv] assms(4) by (intro os_read_file) (auto simp: s')
  obtain v r m' where p: "parse_value 0 (encode_devices (Some ?m)) = Some (v, r)"
    "decode_devices v = (Some m', False)" "\<forall>f. mget m' f = mget ?m f"
    using store_file_read [OF w] assms(3) by (auto simp: s')
  have "NewTrustedDeviceStore fs' (ts_configDir s) = Some \<lparr>ts_configDir = ts_configDir s, ts_devices = Some m'\<rparr>"
    by (simp add: NewTrustedDeviceStore_def ts_load_def rd p)
  moreover have "mhas m' (GetFingerprint sha (td_publicKey d))"
    using p(3) by (simp add: mget_add_device)
  ultimately show ?thesis using p(3) by (simp add: s' IsTrusted_def)
qed

text \<open>A failed save is harmless. Whatever fails while the store is written, the old file
  keeps its content, and no file other than the store's own is touched.\<close>

theorem store_save_atomic:
  assumes "ts_configDir s \<noteq> []" and "ts_save synced fs s = (fs', r)"
  shows "(r \<noteq> StoreOk \<longrightarrow> file_content fs' (devices_path (ts_configDir s)) =
      file_content fs (devices_path (ts_configDir s))) \<and>
    (r = StoreOk \<longrightarrow> file_content fs' (devices_path (ts_configDir s)) = Some (encode_devices (ts_devices s))) \<and>
    (\<forall>q. path_key q \<noteq> path_key (devices_path (ts_configDir s)) \<longrightarrow>
       path_key q \<noteq> path_key (devices_path (ts_configDir s) @ ''.tmp'') \<longrightarrow>
       file_content fs' q = file_content fs q)"
  using save_outcome [OF assms(2,1)] by (auto simp: file_content_def split: if_splits)

text \<open>Capacity and eviction. Adding a device makes it trusted; when the table is full, exactly
  one other device goes, one that was added no later than any other; re-pairing a known device
  evicts nobody. The bound of 100 is kept as long as one entry is older than the largest time.\<close>

theorem store_add_evicts_oldest:
  assumes "store_ok sha s" and "ts_devices s = Some m" and "[] \<notin> fst ` set m"
    and "\<exists>x \<in> set m. td_addedAt (snd x) < int64_max" and "int (length m) \<le> MaxTrustedDevices"
    and "ts_Add sha synced fs s d = (fs', s', r)"
  shows "IsTrusted sha s' (td_publicKey d) \<and> int (length (devs s')) \<le> MaxTrustedDevices \<and>
    (\<exists>gone. (\<forall>f. f \<noteq> GetFingerprint sha (td_publicKey d) \<longrightarrow>
         mget (devs s') f = (if Some f = gone then None else mget m f)) \<and>
       (gone = None \<longleftrightarrow> mhas m (GetFingerprint sha (td_publicKey d)) \<or> int (length m) < MaxTrustedDevices) \<and>
       (\<forall>f. gone = Some f \<longrightarrow> (\<exists>old. mget m f = Some old \<and> (\<forall>x \<in> set m. td_addedAt old \<le> td_addedAt (snd x)))))"
proof -
  let ?fp = "GetFingerprint sha (td_publicKey d)"
  have w: "mwf m" using assms(1,2) by (auto simp: store_ok_def)
  have s': "devs s' = add_device sha d m"
    using assms(2,6) by (auto simp: ts_Add_def Let_def split: prod.splits)
  then have tr: "IsTrusted sha s' (td_publicKey d)" by (simp add: IsTrusted_def mget_add_device)
  show ?thesis
  proof (cases "mhas m ?fp \<or> int (length m) < MaxTrustedDevices")
    case True
    then have a: "add_device sha d m = mput ?fp d m" by (auto simp: add_device_def Let_def)
    have "int (length (mput ?fp d m)) \<le> MaxTrustedDevices"
      using True assms(5) by (auto simp: length_mput)
    with True tr show ?thesis by (intro conjI exI [of _ None]) (auto simp: s' a)
  next
    case False
    then have a: "add_device sha d m = mput ?fp d (evictOldest m)" by (auto simp: add_device_def Let_def)
    show ?thesis using w assms(3)
    proof (cases rule: evictOldest_cases)
      case stuck
      with assms(4) show ?thesis by force
    next
      case (evicted k old)
      have "length (mdel k m) < length m" using evicted(1) by (simp add: length_mdel_less)
      then have "int (length (mput ?fp d (mdel k m))) \<le> MaxTrustedDevices"
        using assms(5) by (simp add: length_mput)
      with False tr evicted show ?thesis by (intro conjI exI [of _ "Some k"]) (auto simp: s' a)
    qed
  qed
qed

text \<open>C23: trust is explicit. After any sequence of additions and removals, whether or not their
  saves succeed, a key is trusted only if a device with its fingerprint was already in the store or
  was added since; a removed key is not trusted.\<close>

theorem trust_is_explicit:
  assumes "store_ok sha s"
  shows "(IsTrusted sha (run_store (after_Add sha synced fs) (after_Remove synced fs) s ops) k \<longrightarrow>
      IsTrusted sha s k \<or> (\<exists>d. Inl d \<in> set ops \<and> GetFingerprint sha (td_publicKey d) = GetFingerprint sha k)) \<and>
    \<not> IsTrusted sha (run_store (after_Add sha synced fs) (after_Remove synced fs) s
        (ops @ [Inr (GetFingerprint sha k)])) k"
proof -
  let ?run = "run_store (after_Add sha synced fs) (after_Remove synced fs) s"
  have ok: "store_ok sha (?run ops)" by (rule tds.run_ok [OF assms])
  have "IsTrusted sha s k \<or> (\<exists>d. Inl d \<in> set ops \<and> GetFingerprint sha (td_publicKey d) = GetFingerprint sha k)"
    if "IsTrusted sha (?run ops) k"
  proof -
    obtain k' where "mget (ListPublicKeys (?run ops)) (GetFingerprint sha k) = Some k'"
      using \<open>IsTrusted sha (?run ops) k\<close> tds.trusted_listed [OF ok] by auto
    from tds.run_origin [OF assms this] tds.trusted_listed [OF assms, of k] show ?thesis by auto
  qed
  then show ?thesis by (simp add: run_store_append tds.removed_untrusted [OF ok])
qed

section \<open>Concrete cases\<close>

definition demo_device :: TrustedDevice where
  "demo_device = \<lparr>td_alias = ''Reader <1>'', td_publicKey = ''PEM'', td_addedAt = 17\<rparr>"

definition demo_store :: TrustedDeviceStore where
  "demo_store = \<lparr>ts_configDir = ''/c'', ts_devices = Some []\<rparr>"

definition empty_fs :: fsys where
  "empty_fs = \<lparr>fs_nodes = [], fs_denied = [], fs_space = None\<rparr>"

lemma demo_store_ok: "store_ok id demo_store" "ts_configDir demo_store \<noteq> []"
  by (simp_all add: store_ok_def demo_store_def)

theorem store_persists_witness:
  "\<exists>t. NewTrustedDeviceStore (fst (ts_Add id True empty_fs demo_store demo_device)) ''/c'' = Some t \<and>
     IsTrusted id t ''PEM''"
proof -
  obtain fs' s' r where a: "ts_Add id True empty_fs demo_store demo_device = (fs', s', r)"
    by (cases "ts_Add id True empty_fs demo_store demo_device")
  have "snd (snd (ts_Add id True empty_fs demo_store demo_device)) = StoreOk" by code_simp
  with a have r: "r = StoreOk" by simp
  have "storable (devs (fst (snd (ts_Add id True empty_fs demo_store demo_device))))" by code_simp
  with a have st: "storable (devs s')" by simp
  from store_persists [OF a [unfolded r] demo_store_ok(1) st demo_store_ok(2)] a show ?thesis
    by (auto simp: demo_store_def demo_device_def)
qed

theorem store_save_atomic_witness:
  "file_content (fst (ts_save False empty_fs demo_store)) (devices_path ''/c'') = None"
proof -
  obtain fs' r where a: "ts_save False empty_fs demo_store = (fs', r)" by fastforce
  have "snd (ts_save False empty_fs demo_store) = StoreFailed" by code_simp
  with a have "r \<noteq> StoreOk" by simp
  moreover have "file_content empty_fs (devices_path ''/c'') = None" by code_simp
  ultimately show ?thesis
    using store_save_atomic [OF demo_store_ok(2) a] a by (simp add: demo_store_def)
qed

definition demo_full :: "(string, TrustedDevice) gomap" where
  "demo_full = [(hex_encode ''PEM'', demo_device)]"

theorem store_add_evicts_oldest_witness:
  "IsTrusted id (fst (snd (ts_Add id True empty_fs (demo_store\<lparr>ts_devices := Some demo_full\<rparr>)
     (demo_device\<lparr>td_publicKey := ''OTHER''\<rparr>)))) ''OTHER''"
proof -
  let ?s = "demo_store\<lparr>ts_devices := Some demo_full\<rparr>" and ?d = "demo_device\<lparr>td_publicKey := ''OTHER''\<rparr>"
  obtain fs' s' r where a: "ts_Add id True empty_fs ?s ?d = (fs', s', r)"
    by (cases "ts_Add id True empty_fs ?s ?d")
  have h: "store_ok id ?s" "[] \<notin> fst ` set demo_full" "int (length demo_full) \<le> MaxTrustedDevices"
    by code_simp+
  have "\<exists>x \<in> set demo_full. td_addedAt (snd x) < int64_max"
    by (simp add: demo_full_def demo_device_def int64_max_def)
  from store_add_evicts_oldest [OF h(1) _ h(2) this h(3) a] a show ?thesis by simp
qed

theorem trust_is_explicit_witness:
  "\<not> IsTrusted id (run_store (after_Add id True empty_fs) (after_Remove True empty_fs) demo_store
      [Inl demo_device, Inr (GetFingerprint id ''PEM'')]) ''PEM''"
  using trust_is_explicit [OF demo_store_ok(1), of True empty_fs "[Inl demo_device]" "''PEM''"] by simp

text \<open>Two corners of the file. A store file that holds \<^verbatim>\<open>null\<close> opens without an error, and the
  first device added to it panics; and a full table whose entries all carry the largest time never
  evicts, so that it grows past its bound.\<close>

theorem store_corner_cases:
  "(case parse_value 0 ''null'' of
      None \<Rightarrow> False
    | Some (v, _) \<Rightarrow>
        decode_devices v = (None, False) \<and>
        snd (snd (ts_Add sha synced fs \<lparr>ts_configDir = dir, ts_devices = fst (decode_devices v)\<rparr> d)) = NilMapPanic) \<and>
   (list_all (\<lambda>(_, x). td_addedAt x = int64_max) m \<longrightarrow> evictOldest m = m)"
proof -
  have "parse_value 0 ''null'' = Some (JNull, [])" by code_simp
  moreover have "evictOldest m = m" if h: "list_all (\<lambda>(_, x). td_addedAt x = int64_max) m"
  proof -
    obtain k t where o: "oldest m = (k, t)" by fastforce
    from oldest_fold [OF o [unfolded oldest_def]] h have "(k, t) = ([], int64_max)"
      by (auto simp: list_all_iff)
    with o show ?thesis by (simp add: evictOldest_def)
  qed
  ultimately show ?thesis by (simp add: decode_devices_def ts_Add_def)
qed

end
