(* ===== verification/RtcProtocol.thy ===== *)
theory RtcProtocol
  imports JsonPrint "HOL-Library.List_Lexorder" "HOL-Library.Char_ord"
begin

text \<open>
  \<^verbatim>\<open>internal/webrtc/transfer/rtc_protocol.go\<close> and \<^verbatim>\<open>status.go\<close>: the messages of the WebRTC data channel,
  their JSON text, and \<^verbatim>\<open>ParseRTCMessage\<close>, which guesses from the fields of an object which
  message it is. The theorems state that the guess is right for every message the program sends.
\<close>

section \<open>Messages\<close>

definition StatusOK :: string where "StatusOK = ''OK''"
definition StatusPINRequired :: string where "StatusPINRequired = ''PIN_REQUIRED''"
definition StatusTooManyAttempts :: string where "StatusTooManyAttempts = ''TOO_MANY_ATTEMPTS''"
definition StatusInvalidSignature :: string where "StatusInvalidSignature = ''INVALID_SIGNATURE''"
definition StatusDeclined :: string where "StatusDeclined = ''DECLINED''"
definition StatusPair :: string where "StatusPair = ''PAIR''"
definition StatusPairDeclined :: string where "StatusPairDeclined = ''PAIR_DECLINED''"

record RTCFileMetadata =
  rm_modified :: string
  rm_accessed :: string

record RTCFileDto =
  rf_id :: string
  rf_fileName :: string
  rf_size :: int
  rf_fileType :: string
  rf_sha256 :: string
  rf_preview :: string
  rf_metadata :: RTCFileMetadata

text \<open>One constructor per message struct, with its fields in the order of the source, and the
  generic map that stands for a status message.\<close>

datatype rtc_message =
    RTCNonceMessage string
  | RTCTokenRequest string
  | RTCTokenResponse string string
  | RTCPinMessage string
  | RTCPinReceivingResponse string
  | RTCPinSendingResponse string "RTCFileDto list"
  | RTCFileListResponse string "(string, string) gomap" string
  | RTCPairResponse string string
  | RTCSendFileHeader string string
  | RTCSendFileResponse string bool "string option"
  | RTCErrorResponse string
  | Generic "(string, json) gomap"

section \<open>Reading\<close>

text \<open>Every struct of the protocol is filled from the same decoded document.\<close>

definition from_json :: "(string \<Rightarrow> json \<Rightarrow> 'x \<Rightarrow> 'x \<times> bool) \<Rightarrow> 'x \<Rightarrow> json \<Rightarrow> 'x option" where
  "from_json put zero v = (case into_struct put v zero of (y, err) \<Rightarrow> if err then None else Some y)"

definition generic_from :: "json \<Rightarrow> (string, json) gomap \<times> bool" where
  "generic_from v =
     (case v of
        JObj ms \<Rightarrow> (fold (\<lambda>(k, w) m. mput k w m) ms [], \<not> floats_ok v)
      | JNull \<Rightarrow> ([], False)
      | _ \<Rightarrow> ([], True))"

lemma unmarshal_from:
  "unmarshal put data zero = Option.bind (json_decode data) (from_json put zero)"
  "json_decode data = Some v \<Longrightarrow> unmarshal_generic data = generic_from v"
  by (auto simp: unmarshal_def from_json_def unmarshal_generic_def generic_from_def split: option.split json.split)

definition put_str_field :: "string \<Rightarrow> string \<Rightarrow> json \<Rightarrow> string \<Rightarrow> string \<times> bool" where
  "put_str_field name k v x = (if field_is name k then into_str v x else (x, False))"

definition put_str_fields ::
    "string \<Rightarrow> string \<Rightarrow> string \<Rightarrow> json \<Rightarrow> string \<times> string \<Rightarrow> (string \<times> string) \<times> bool" where
  "put_str_fields name1 name2 k v p =
     (if field_is name1 k then (case into_str v (fst p) of (x, e) \<Rightarrow> ((x, snd p), e))
      else if field_is name2 k then (case into_str v (snd p) of (x, e) \<Rightarrow> ((fst p, x), e))
      else (p, False))"

definition put_rtc_metadata :: "string \<Rightarrow> json \<Rightarrow> RTCFileMetadata \<Rightarrow> RTCFileMetadata \<times> bool" where
  "put_rtc_metadata k v d =
     (if field_is ''modified'' k then
        (case into_str v (rm_modified d) of (x, e) \<Rightarrow> (d\<lparr>rm_modified := x\<rparr>, e))
      else if field_is ''accessed'' k then
        (case into_str v (rm_accessed d) of (x, e) \<Rightarrow> (d\<lparr>rm_accessed := x\<rparr>, e))
      else (d, False))"

definition put_rtc_file :: "string \<Rightarrow> json \<Rightarrow> RTCFileDto \<Rightarrow> RTCFileDto \<times> bool" where
  "put_rtc_file k v d =
     (if field_is ''id'' k then (case into_str v (rf_id d) of (x, e) \<Rightarrow> (d\<lparr>rf_id := x\<rparr>, e))
      else if field_is ''fileName'' k then
        (case into_str v (rf_fileName d) of (x, e) \<Rightarrow> (d\<lparr>rf_fileName := x\<rparr>, e))
      else if field_is ''size'' k then
        (case into_int64 v (rf_size d) of (x, e) \<Rightarrow> (d\<lparr>rf_size := x\<rparr>, e))
      else if field_is ''fileType'' k then
        (case into_str v (rf_fileType d) of (x, e) \<Rightarrow> (d\<lparr>rf_fileType := x\<rparr>, e))
      else if field_is ''sha256'' k then
        (case into_str v (rf_sha256 d) of (x, e) \<Rightarrow> (d\<lparr>rf_sha256 := x\<rparr>, e))
      else if field_is ''preview'' k then
        (case into_str v (rf_preview d) of (x, e) \<Rightarrow> (d\<lparr>rf_preview := x\<rparr>, e))
      else if field_is ''metadata'' k then
        (case into_struct put_rtc_metadata v (rf_metadata d) of (x, e) \<Rightarrow> (d\<lparr>rf_metadata := x\<rparr>, e))
      else (d, False))"

definition no_rtc_file :: RTCFileDto where
  "no_rtc_file = \<lparr>rf_id = [], rf_fileName = [], rf_size = 0, rf_fileType = [], rf_sha256 = [],
     rf_preview = [], rf_metadata = \<lparr>rm_modified = [], rm_accessed = []\<rparr>\<rparr>"

text \<open>
  Decoding into a slice writes over the elements that its backing array already holds, so a
  member given twice merges. The slice is its backing array (as far as it was written) and its
  length.
\<close>

fun into_elems ::
    "(string \<Rightarrow> json \<Rightarrow> 'x \<Rightarrow> 'x \<times> bool) \<Rightarrow> 'x \<Rightarrow> json list \<Rightarrow> 'x list \<Rightarrow> 'x list \<times> bool" where
  "into_elems put zero [] bk = (bk, False)"
| "into_elems put zero (v # vs) bk =
     (case into_struct put v (case bk of [] \<Rightarrow> zero | b # _ \<Rightarrow> b) of
        (x, e) \<Rightarrow> (case into_elems put zero vs (tl bk) of (xs, e') \<Rightarrow> (x # xs, e \<or> e')))"

definition into_slice ::
    "(string \<Rightarrow> json \<Rightarrow> 'x \<Rightarrow> 'x \<times> bool) \<Rightarrow> 'x \<Rightarrow> json \<Rightarrow> 'x list \<times> nat \<Rightarrow> ('x list \<times> nat) \<times> bool" where
  "into_slice put zero v s =
     (case v of
        JArr [] \<Rightarrow> (([], 0), False)
      | JArr vs \<Rightarrow> (case into_elems put zero vs (fst s) of (bk, e) \<Rightarrow> ((bk, length vs), e))
      | JNull \<Rightarrow> (([], 0), False)
      | _ \<Rightarrow> (s, True))"

definition put_pin_sending ::
    "string \<Rightarrow> json \<Rightarrow> string \<times> RTCFileDto list \<times> nat \<Rightarrow> (string \<times> RTCFileDto list \<times> nat) \<times> bool" where
  "put_pin_sending k v p =
     (if field_is ''status'' k then (case into_str v (fst p) of (x, e) \<Rightarrow> ((x, snd p), e))
      else if field_is ''files'' k then
        (case into_slice put_rtc_file no_rtc_file v (snd p) of (x, e) \<Rightarrow> ((fst p, x), e))
      else (p, False))"

definition read_pin_sending :: "json \<Rightarrow> (string \<times> RTCFileDto list) option" where
  "read_pin_sending v =
     map_option (\<lambda>(status, bk, n). (status, take n bk)) (from_json put_pin_sending ([], [], 0) v)"

definition put_send_response ::
    "string \<Rightarrow> json \<Rightarrow> string \<times> bool \<times> string option \<Rightarrow> (string \<times> bool \<times> string option) \<times> bool" where
  "put_send_response k v p =
     (if field_is ''id'' k then (case into_str v (fst p) of (x, e) \<Rightarrow> ((x, snd p), e))
      else if field_is ''success'' k then
        (case into_bool v (fst (snd p)) of (x, e) \<Rightarrow> ((fst p, x, snd (snd p)), e))
      else if field_is ''error'' k then
        (case into_opt_str v (snd (snd p)) of (x, e) \<Rightarrow> ((fst p, fst (snd p), x), e))
      else (p, False))"

text \<open>A map of strings: a member of another type leaves an empty string and an error.\<close>

definition into_str_map :: "json \<Rightarrow> (string, string) gomap \<Rightarrow> (string, string) gomap \<times> bool" where
  "into_str_map v cur =
     (case v of
        JObj ms \<Rightarrow> fold (\<lambda>(k, w) (m, e). case into_str w [] of (x, e') \<Rightarrow> (mput k x m, e \<or> e')) ms (cur, False)
      | JNull \<Rightarrow> ([], False)
      | _ \<Rightarrow> (cur, True))"

definition put_file_list_response ::
    "string \<Rightarrow> json \<Rightarrow> string \<times> (string, string) gomap \<times> string \<Rightarrow>
     (string \<times> (string, string) gomap \<times> string) \<times> bool" where
  "put_file_list_response k v p =
     (if field_is ''status'' k then (case into_str v (fst p) of (x, e) \<Rightarrow> ((x, snd p), e))
      else if field_is ''files'' k then
        (case into_str_map v (fst (snd p)) of (x, e) \<Rightarrow> ((fst p, x, snd (snd p)), e))
      else if field_is ''publicKey'' k then
        (case into_str v (snd (snd p)) of (x, e) \<Rightarrow> ((fst p, fst (snd p), x), e))
      else (p, False))"

section \<open>ParseRTCMessage\<close>

definition fitting :: "('x \<Rightarrow> bool) \<Rightarrow> 'x option \<Rightarrow> 'x option" where
  "fitting P r = (case r of Some x \<Rightarrow> if P x then Some x else None | None \<Rightarrow> None)"

definition detect_status :: "json \<Rightarrow> (rtc_message \<times> string) option" where
  "detect_status v =
     (case generic_from v of
        (_, True) \<Rightarrow> None
      | (generic, False) \<Rightarrow>
          (case mget generic ''status'' of
             Some (JStr status) \<Rightarrow>
               (let hasFiles = mhas generic ''files'';
                    pinResp = (if hasFiles then read_pin_sending v else None);
                    pairResp = (if mhas generic ''publicKey'' \<and> status \<noteq> StatusPair \<and> \<not> hasFiles
                                then from_json (put_str_fields ''status'' ''publicKey'') ([], []) v else None)
                in case pinResp of
                     Some (st, fs) \<Rightarrow> Some (RTCPinSendingResponse st fs, ''file_list'')
                   | None \<Rightarrow>
                       (case pairResp of
                          Some (st, pk) \<Rightarrow> Some (RTCPairResponse st pk, ''pair_response'')
                        | None \<Rightarrow> Some (Generic generic, ''status_'' @ status)))
           | _ \<Rightarrow> None))"

definition detect_token :: "json \<Rightarrow> (rtc_message \<times> string) option" where
  "detect_token v =
     (case fitting (\<lambda>t. t \<noteq> []) (from_json (put_str_field ''token'') [] v) of
        Some t \<Rightarrow> Some (RTCTokenRequest t, ''token_request'')
      | None \<Rightarrow>
          (case mget (fst (generic_from v)) ''pin'' of
             Some (JStr pinValue) \<Rightarrow> Some (RTCPinMessage pinValue, ''pin'')
           | _ \<Rightarrow>
               (case fitting (\<lambda>(i, _). i \<noteq> []) (from_json put_send_response ([], False, None) v) of
                  Some (i, ok, err) \<Rightarrow> Some (RTCSendFileResponse i ok err, ''file_response'')
                | None \<Rightarrow> None)))"

definition detect :: "json \<Rightarrow> (rtc_message \<times> string) option" where
  "detect v =
     (case fitting (\<lambda>n. n \<noteq> []) (from_json (put_str_field ''nonce'') [] v) of
        Some n \<Rightarrow> Some (RTCNonceMessage n, ''nonce'')
      | None \<Rightarrow>
          (case fitting (\<lambda>(i, t). i \<noteq> [] \<and> t \<noteq> []) (from_json (put_str_fields ''id'' ''token'') ([], []) v) of
             Some (i, t) \<Rightarrow> Some (RTCSendFileHeader i t, ''file_header'')
           | None \<Rightarrow> (case detect_status v of Some r \<Rightarrow> Some r | None \<Rightarrow> detect_token v)))"

definition ParseRTCMessage :: "bytes \<Rightarrow> (rtc_message \<times> string) option" where
  "ParseRTCMessage data = Option.bind (json_decode data) detect"

section \<open>Writing\<close>

definition opt_str :: "string \<Rightarrow> string \<Rightarrow> (string \<times> json) list" where
  "opt_str k s = (if s = [] then [] else [(k, JStr s)])"

definition rtc_file_json :: "RTCFileDto \<Rightarrow> json" where
  "rtc_file_json f =
     JObj ([(''id'', JStr (rf_id f)), (''fileName'', JStr (rf_fileName f)),
            (''size'', JNum (int_dec (rf_size f))), (''fileType'', JStr (rf_fileType f))] @
           opt_str ''sha256'' (rf_sha256 f) @ opt_str ''preview'' (rf_preview f) @
           [(''metadata'', JObj (opt_str ''modified'' (rm_modified (rf_metadata f)) @
                                opt_str ''accessed'' (rm_accessed (rf_metadata f))))])"

fun msg_json :: "rtc_message \<Rightarrow> json" where
  "msg_json (RTCNonceMessage n) = JObj [(''nonce'', JStr n)]"
| "msg_json (RTCTokenRequest t) = JObj [(''token'', JStr t)]"
| "msg_json (RTCTokenResponse s t) = JObj ((''status'', JStr s) # opt_str ''token'' t)"
| "msg_json (RTCPinMessage p) = JObj [(''pin'', JStr p)]"
| "msg_json (RTCPinReceivingResponse s) = JObj [(''status'', JStr s)]"
| "msg_json (RTCPinSendingResponse s fs) =
     JObj ((''status'', JStr s) # (if fs = [] then [] else [(''files'', JArr (map rtc_file_json fs))]))"
| "msg_json (RTCFileListResponse s m k) =
     JObj ((''status'', JStr s) #
       (if m = [] then [] else [(''files'', JObj (map (\<lambda>(i, t). (i, JStr t)) (sort_key fst m)))]) @
       opt_str ''publicKey'' k)"
| "msg_json (RTCPairResponse s k) = JObj ((''status'', JStr s) # opt_str ''publicKey'' k)"
| "msg_json (RTCSendFileHeader i t) = JObj [(''id'', JStr i), (''token'', JStr t)]"
| "msg_json (RTCSendFileResponse i ok err) =
     JObj ([(''id'', JStr i), (''success'', JBool ok)] @
       (case err of None \<Rightarrow> [] | Some e \<Rightarrow> [(''error'', JStr e)]))"
| "msg_json (RTCErrorResponse e) = JObj [(''error'', JStr e)]"
| "msg_json (Generic m) = JObj (sort_key fst m)"

definition wire :: "rtc_message \<Rightarrow> bytes" where
  "wire m = print_value None (msg_json m)"


section \<open>The guess is right\<close>

definition rtc_names :: "string list" where
  "rtc_names = [''nonce'', ''token'', ''id'', ''status'', ''files'', ''publicKey'', ''pin'', ''success'', ''error'',
     ''fileName'', ''size'', ''fileType'', ''sha256'', ''preview'', ''metadata'', ''modified'', ''accessed'']"

lemma rtc_names_check:
  "list_all (\<lambda>n. fix_utf8 n = n \<and> list_all (\<lambda>k. field_is n k \<longleftrightarrow> n = k) rtc_names) rtc_names"
  by code_simp

lemma field_is_name [simp]:
  "n \<in> set rtc_names \<Longrightarrow> k \<in> set rtc_names \<Longrightarrow> field_is n k \<longleftrightarrow> n = k"
  and fix_name [simp]: "n \<in> set rtc_names \<Longrightarrow> fix_utf8 n = n"
  using rtc_names_check by (auto simp: list_all_iff)

lemma rtc_name [simp]:
  "''nonce'' \<in> set rtc_names" "''token'' \<in> set rtc_names" "''id'' \<in> set rtc_names"
  "''status'' \<in> set rtc_names" "''files'' \<in> set rtc_names" "''publicKey'' \<in> set rtc_names"
  "''pin'' \<in> set rtc_names" "''success'' \<in> set rtc_names" "''error'' \<in> set rtc_names"
  "''fileName'' \<in> set rtc_names" "''size'' \<in> set rtc_names" "''fileType'' \<in> set rtc_names"
  "''sha256'' \<in> set rtc_names" "''preview'' \<in> set rtc_names" "''metadata'' \<in> set rtc_names"
  "''modified'' \<in> set rtc_names" "''accessed'' \<in> set rtc_names"
  by code_simp+

text \<open>The members of a message.\<close>

lemma from_json_obj [simp]:
  "from_json put x (JObj ms) =
     (case fold (\<lambda>(k, w) (y, e). case put k w y of (y', e') \<Rightarrow> (y', e \<or> e')) ms (x, False) of
        (y, err) \<Rightarrow> if err then None else Some y)"
  by (simp add: from_json_def into_struct_def)

lemma fold_put_str_other:
  assumes "\<forall>(k, w) \<in> set ms. \<not> field_is n k"
  shows "fold (\<lambda>(k, w) (y, e). case put_str_field n k w y of (y', e') \<Rightarrow> (y', e \<or> e')) ms (x, b) = (x, b)"
  using assms by (induction ms) (auto simp: put_str_field_def)

named_theorems rtc_detect

lemmas [rtc_detect] = detect_def detect_status_def detect_token_def fitting_def generic_from_def
  put_str_field_def put_str_fields_def put_send_response_def opt_str_def

lemma detect_simple:
  "n \<noteq> [] \<Longrightarrow> detect (msg_json (RTCNonceMessage n)) = Some (RTCNonceMessage n, ''nonce'')"
  "i \<noteq> [] \<Longrightarrow> t \<noteq> [] \<Longrightarrow> detect (msg_json (RTCSendFileHeader i t)) = Some (RTCSendFileHeader i t, ''file_header'')"
  "t \<noteq> [] \<Longrightarrow> detect (msg_json (RTCTokenRequest t)) = Some (RTCTokenRequest t, ''token_request'')"
  "detect (msg_json (RTCPinMessage p)) = Some (RTCPinMessage p, ''pin'')"
  "i \<noteq> [] \<Longrightarrow> detect (msg_json (RTCSendFileResponse i ok e)) = Some (RTCSendFileResponse i ok e, ''file_response'')"
  "detect (msg_json (RTCErrorResponse x)) = None"
  by (auto simp: rtc_detect split: option.split)


definition utf8 :: "string \<Rightarrow> bool" where "utf8 s \<longleftrightarrow> fix_utf8 s = s"

definition file_ok :: "RTCFileDto \<Rightarrow> bool" where
  "file_ok f \<longleftrightarrow> utf8 (rf_id f) \<and> utf8 (rf_fileName f) \<and> is_int64 (rf_size f) \<and> utf8 (rf_fileType f) \<and>
     utf8 (rf_sha256 f) \<and> utf8 (rf_preview f) \<and> utf8 (rm_modified (rf_metadata f)) \<and>
     utf8 (rm_accessed (rf_metadata f))"

text \<open>The messages the program builds: text in UTF-8, and what identifies a message not empty.\<close>

fun sendable :: "rtc_message \<Rightarrow> bool" where
  "sendable (RTCNonceMessage n) \<longleftrightarrow> n \<noteq> [] \<and> utf8 n"
| "sendable (RTCTokenRequest t) \<longleftrightarrow> t \<noteq> [] \<and> utf8 t"
| "sendable (RTCTokenResponse s t) \<longleftrightarrow> utf8 s \<and> utf8 t"
| "sendable (RTCPinMessage p) \<longleftrightarrow> utf8 p"
| "sendable (RTCPinReceivingResponse s) \<longleftrightarrow> utf8 s"
| "sendable (RTCPinSendingResponse s fs) \<longleftrightarrow> utf8 s \<and> list_all file_ok fs"
| "sendable (RTCFileListResponse s m k) \<longleftrightarrow> utf8 s \<and> utf8 k \<and> list_all (\<lambda>x. utf8 (fst x) \<and> utf8 (snd x)) m"
| "sendable (RTCPairResponse s k) \<longleftrightarrow> utf8 s \<and> utf8 k"
| "sendable (RTCSendFileHeader i t) \<longleftrightarrow> i \<noteq> [] \<and> t \<noteq> [] \<and> utf8 i \<and> utf8 t"
| "sendable (RTCSendFileResponse i ok e) \<longleftrightarrow> i \<noteq> [] \<and> utf8 i \<and> (case e of None \<Rightarrow> True | Some x \<Rightarrow> utf8 x)"
| "sendable (RTCErrorResponse e) \<longleftrightarrow> utf8 e"
| "sendable (Generic m) \<longleftrightarrow> False"

text \<open>What the other side makes of a message: its struct, or the generic map under the tag of its
  status. An error report is not recognised at all.\<close>

definition as_status :: "string \<Rightarrow> json \<Rightarrow> (rtc_message \<times> string) option" where
  "as_status s v = (case v of JObj ms \<Rightarrow> Some (Generic ms, ''status_'' @ s) | _ \<Rightarrow> None)"

fun expected :: "rtc_message \<Rightarrow> (rtc_message \<times> string) option" where
  "expected (RTCNonceMessage n) = Some (RTCNonceMessage n, ''nonce'')"
| "expected (RTCTokenRequest t) = Some (RTCTokenRequest t, ''token_request'')"
| "expected (RTCTokenResponse s t) = as_status s (msg_json (RTCTokenResponse s t))"
| "expected (RTCPinMessage p) = Some (RTCPinMessage p, ''pin'')"
| "expected (RTCPinReceivingResponse s) = as_status s (msg_json (RTCPinReceivingResponse s))"
| "expected (RTCPinSendingResponse s fs) =
     (if fs = [] then as_status s (msg_json (RTCPinSendingResponse s fs))
      else Some (RTCPinSendingResponse s fs, ''file_list''))"
| "expected (RTCFileListResponse s m k) =
     (if m = [] \<and> k \<noteq> [] \<and> s \<noteq> StatusPair then Some (RTCPairResponse s k, ''pair_response'')
      else as_status s (msg_json (RTCFileListResponse s m k)))"
| "expected (RTCPairResponse s k) =
     (if k \<noteq> [] \<and> s \<noteq> StatusPair then Some (RTCPairResponse s k, ''pair_response'')
      else as_status s (msg_json (RTCPairResponse s k)))"
| "expected (RTCSendFileHeader i t) = Some (RTCSendFileHeader i t, ''file_header'')"
| "expected (RTCSendFileResponse i ok e) = Some (RTCSendFileResponse i ok e, ''file_response'')"
| "expected (RTCErrorResponse e) = None"
| "expected (Generic m) = None"

lemma read_rtc_file:
  assumes "file_ok f"
  shows "into_struct put_rtc_file (rtc_file_json f) no_rtc_file = (f, False)"
  using assms by (simp add: into_struct_def rtc_file_json_def put_rtc_file_def no_rtc_file_def
      put_rtc_metadata_def file_ok_def lit_int64_dec opt_str_def)

lemma read_files:
  "list_all file_ok fs \<Longrightarrow> into_elems put_rtc_file no_rtc_file (map rtc_file_json fs) [] = (fs, False)"
  by (induction fs) (auto simp: read_rtc_file)

lemma into_files:
  assumes "list_all file_ok fs" and "fs \<noteq> []"
  shows "into_slice put_rtc_file no_rtc_file (JArr (map rtc_file_json fs)) ([], 0) = ((fs, length fs), False)"
proof -
  obtain f gs where "fs = f # gs" using assms(2) by (cases fs) auto
  with read_files [OF assms(1)] show ?thesis by (simp add: into_slice_def)
qed

text \<open>The sizes are far inside the range of floats.\<close>

lemma float_int: 
  assumes "is_int64 i"
  shows "float_in_range (int_dec i)"
proof -
  have d: "list_all is_digit (nat_dec n)" for n by (auto simp: list_all_iff dest: nat_dec_digits)
  have v: "dec_int 0 (nat_dec n) = int n" for n
    using dec_int_val [of 0 "nat_dec n"] by (simp add: dec_val_nat_dec)
  have "\<not> is_digit CHR ''e''" "\<not> is_digit CHR ''E''" "\<not> is_digit CHR ''.''" by code_simp+
  then have no: "\<forall>c \<in> set (nat_dec n). c \<noteq> CHR ''e'' \<and> c \<noteq> CHR ''E'' \<and> c \<noteq> CHR ''.'' \<and> c \<noteq> CHR ''-''" for n
    using d [of n] minus_not_digit by (auto simp: list_all_iff)
  define n where "n = nat \<bar>i\<bar>"
  have "dropWhile (\<lambda>c. c = CHR ''-'') (int_dec i) = nat_dec n"
  proof -
    have "dropWhile (\<lambda>c. c = CHR ''-'') (nat_dec n) = nat_dec n"
      using no [of n] by (cases "nat_dec n") auto
    then show ?thesis by (auto simp: int_dec_def n_def)
  qed
  moreover have "split_exp (nat_dec n) = (nat_dec n, 0)"
  proof -
    have t: "takeWhile (\<lambda>c. c \<noteq> CHR ''e'' \<and> c \<noteq> CHR ''E'') (nat_dec n) = nat_dec n" using no [of n] by simp
    show ?thesis unfolding split_exp_def t by simp
  qed
  moreover have "takeWhile (\<lambda>c. c \<noteq> CHR ''.'') (nat_dec n) = nat_dec n" using no [of n] by simp
  moreover have "int n < 2 ^ 1024 - 2 ^ 970"
  proof -
    have "int n \<le> 2 ^ 63" using assms by (simp add: n_def is_int64_def int64_min_def int64_max_def abs_le_iff)
    also have "\<dots> < (2 ^ 1024 - 2 ^ 970 :: int)" by simp
    finally show ?thesis .
  qed
  ultimately show ?thesis
    unfolding float_in_range_def by (simp only: prod.case Let_def) (simp add: v)
qed

lemma floats_simps [simp]:
  "list_all file_ok fs \<Longrightarrow> list_all floats_ok (map rtc_file_json fs)"
  "list_all (\<lambda>(uu, y). floats_ok y) (map (\<lambda>(i, t). (i, JStr t)) m)"
  by (auto simp: list_all_iff rtc_file_json_def opt_str_def float_int file_ok_def)

lemma detect_files:
  assumes "list_all file_ok fs"
  shows "detect (msg_json (RTCPinSendingResponse s fs)) = expected (RTCPinSendingResponse s fs)"
proof (cases "fs = []")
  case False
  with into_files [OF assms] assms show ?thesis
    by (simp add: rtc_detect read_pin_sending_def put_pin_sending_def)
qed (simp add: rtc_detect as_status_def)

lemma detect_tokens:
  "detect (msg_json (RTCFileListResponse s m k)) = expected (RTCFileListResponse s m k)"
  by (auto simp: rtc_detect as_status_def read_pin_sending_def put_pin_sending_def into_slice_def)

lemma detect_states:
  "detect (msg_json (RTCTokenResponse s t)) = expected (RTCTokenResponse s t)"
  "detect (msg_json (RTCPinReceivingResponse s)) = expected (RTCPinReceivingResponse s)"
  "detect (msg_json (RTCPairResponse s k)) = expected (RTCPairResponse s k)"
  by (auto simp: rtc_detect as_status_def)

lemma printable_file: "printable 2 (rtc_file_json f)"
  by (auto simp: rtc_file_json_def opt_str_def numeral_eq_Suc)

lemma printable_deeper: "printable d v \<Longrightarrow> printable (Suc d) v"
proof (induction d v rule: printable.induct)
  case (2 d vs)
  then show ?case by (cases d) (auto simp: list_all_iff)
next
  case (3 d ms)
  then show ?case by (cases d) (fastforce simp: list_all_iff)+
qed auto

lemma sendable_printable: "sendable m \<Longrightarrow> printable 4 (msg_json m)"
  using printable_file
  by (cases m) (auto simp: opt_str_def list_all_iff eval_nat_numeral split: option.split)

lemma fix_file: "file_ok f \<Longrightarrow> fix_value (rtc_file_json f) = rtc_file_json f"
  by (auto simp: rtc_file_json_def file_ok_def opt_str_def utf8_def simp del: fix_utf8.simps)

lemma sendable_fix: "sendable m \<Longrightarrow> fix_value (msg_json m) = msg_json m"
  by (cases m) (auto simp: opt_str_def utf8_def list_all_iff fix_file simp del: fix_utf8.simps
      split: option.split)

lemma sendable_decode: "sendable m \<Longrightarrow> json_decode (wire m) = Some (msg_json m)"
  using decode_print [OF sendable_printable, of m None] sendable_fix [of m]
  by (simp add: wire_def maxNestingDepth_def)

lemma sendable_detect: "sendable m \<Longrightarrow> detect (msg_json m) = expected m"
  using detect_simple detect_files detect_tokens detect_states
  by (cases m) (simp_all del: msg_json.simps expected.simps(3,5,6,7,8))

text \<open>C25: messages are recognised. Every message the program sends, as JSON text, is recognised by
  the peer's \<^verbatim>\<open>ParseRTCMessage\<close> as the message it is, with the fields it was sent with: only
  error reports are not, so a peer never learns why its handshake was refused.\<close>

theorem messages_recognised:
  assumes "sendable m"
  shows "ParseRTCMessage (wire m) = expected m"
  by (simp add: ParseRTCMessage_def sendable_decode [OF assms] sendable_detect [OF assms])

theorem messages_recognised_witness:
  "ParseRTCMessage (wire (RTCPinSendingResponse ''OK''
       [no_rtc_file\<lparr>rf_id := ''f1'', rf_fileName := ''a & b.epub'', rf_size := 12\<rparr>])) =
     Some (RTCPinSendingResponse ''OK''
       [no_rtc_file\<lparr>rf_id := ''f1'', rf_fileName := ''a & b.epub'', rf_size := 12\<rparr>], ''file_list'')"
proof -
  have "sendable (RTCPinSendingResponse ''OK''
       [no_rtc_file\<lparr>rf_id := ''f1'', rf_fileName := ''a & b.epub'', rf_size := 12\<rparr>])" by code_simp
  from messages_recognised [OF this] show ?thesis by simp
qed

text \<open>The Go type that goes with each tag; no other message is ever returned.\<close>

fun tag_fits :: "rtc_message \<Rightarrow> string \<Rightarrow> bool" where
  "tag_fits (RTCNonceMessage n) tag \<longleftrightarrow> tag = ''nonce'' \<and> n \<noteq> []"
| "tag_fits (RTCSendFileHeader i t) tag \<longleftrightarrow> tag = ''file_header'' \<and> i \<noteq> [] \<and> t \<noteq> []"
| "tag_fits (RTCPinSendingResponse s fs) tag \<longleftrightarrow> tag = ''file_list''"
| "tag_fits (RTCPairResponse s k) tag \<longleftrightarrow> tag = ''pair_response''"
| "tag_fits (Generic g) tag \<longleftrightarrow> (\<exists>s. mget g ''status'' = Some (JStr s) \<and> tag = ''status_'' @ s)"
| "tag_fits (RTCTokenRequest t) tag \<longleftrightarrow> tag = ''token_request'' \<and> t \<noteq> []"
| "tag_fits (RTCPinMessage p) tag \<longleftrightarrow> tag = ''pin''"
| "tag_fits (RTCSendFileResponse i ok e) tag \<longleftrightarrow> tag = ''file_response'' \<and> i \<noteq> []"
| "tag_fits _ tag \<longleftrightarrow> False"

fun go_type :: "rtc_message \<Rightarrow> string" where
  "go_type (RTCNonceMessage _) = ''RTCNonceMessage''"
| "go_type (RTCTokenRequest _) = ''RTCTokenRequest''"
| "go_type (RTCTokenResponse _ _) = ''RTCTokenResponse''"
| "go_type (RTCPinMessage _) = ''RTCPinMessage''"
| "go_type (RTCPinReceivingResponse _) = ''RTCPinReceivingResponse''"
| "go_type (RTCPinSendingResponse _ _) = ''RTCPinSendingResponse''"
| "go_type (RTCFileListResponse _ _ _) = ''RTCFileListResponse''"
| "go_type (RTCPairResponse _ _) = ''RTCPairResponse''"
| "go_type (RTCSendFileHeader _ _) = ''RTCSendFileHeader''"
| "go_type (RTCSendFileResponse _ _ _) = ''RTCSendFileResponse''"
| "go_type (RTCErrorResponse _) = ''RTCErrorResponse''"
| "go_type (Generic _) = ''map[string]interface{}''"

lemma detect_token_fits: "detect_token v = Some (m, tag) \<Longrightarrow> tag_fits m tag"
  unfolding detect_token_def fitting_def
  by (auto split: option.splits json.splits if_splits)

lemma detect_status_fits:
  assumes "detect_status v = Some (m, tag)"
  shows "tag_fits m tag"
proof -
  obtain generic where g: "generic_from v = (generic, False)"
    using assms by (auto simp: detect_status_def split: prod.splits bool.splits)
  obtain status where s: "mget generic ''status'' = Some (JStr status)"
    using assms by (auto simp: detect_status_def g split: option.splits json.splits)
  show ?thesis
    using assms s unfolding detect_status_def g Let_def by (auto split: option.splits)
qed

lemma parsed_tag_fits:
  assumes "ParseRTCMessage data = Some (m, tag)"
  shows "tag_fits m tag"
proof -
  obtain v where "detect v = Some (m, tag)" using assms by (auto simp: ParseRTCMessage_def bind_eq_Some_conv)
  then show ?thesis
    unfolding detect_def fitting_def
    by (auto split: option.splits if_splits dest: detect_token_fits detect_status_fits)
qed

text \<open>The tag determines the type. The type assertions of the handlers on a parsed message
  cannot fail, whatever the peer sends.\<close>

theorem parsed_tag_type:
  assumes "ParseRTCMessage data = Some (m, tag)"
  shows "tag_fits m tag \<and> (\<forall>m'. tag_fits m' tag \<longrightarrow> go_type m' = go_type m)"
proof -
  note f = parsed_tag_fits [OF assms]
  have "go_type m' = go_type m" if "tag_fits m' tag" for m'
    using f that by (cases m; cases m') auto
  with f show ?thesis by blast
qed

theorem parsed_tag_type_witness:
  "go_type (RTCTokenRequest ''t'') = ''RTCTokenRequest'' \<and> tag_fits (RTCTokenRequest ''t'') ''token_request''"
proof -
  have "ParseRTCMessage (wire (RTCTokenRequest ''t'')) = Some (RTCTokenRequest ''t'', ''token_request'')"
    by code_simp
  from parsed_tag_type [OF this] show ?thesis by simp
qed

end
