(* ===== verification/RtcReceiver.thy ===== *)
theory RtcReceiver
  imports RtcProtocol RecvSession Token TrustedStore
begin

text \<open>
  \<^verbatim>\<open>internal/webrtc/transfer/receiver.go\<close>: the WebRTC receiver, one function per handler. The
  world is the receiver, the file system, the table of blocked peers, the outcomes of the coming
  sends (none left: they succeed) and what was done so far. A send that fails is not recorded;
  a callback of the embedding program is recorded as an event, or is a function of the receiver
  (\<open>rr_onSelectFiles\<close>, \<open>rr_pinProvider\<close>). Callbacks run while the mutex is released; here they are
  part of the handler's step. A panic is \<open>None\<close>.

  An open file is named by its path. The peer connection and the signalling are outside: a
  connection is a number, and the results of \<^verbatim>\<open>DecompressSDP\<close>, \<^verbatim>\<open>NewPeerConnection\<close> and of sending
  the answer are arguments.
\<close>

section \<open>State\<close>

datatype rstate =
    stateWaitNonce | stateWaitToken | stateWaitPin | stateWaitFileList | stateWaitPairResponse
  | stateWaitFiles | stateReceivingFiles | stateDone

definition maxPINAttempts :: int where "maxPINAttempts = MaxPINAttempts"

definition pinBlockDuration :: int where "pinBlockDuration = PINBlockDuration"

definition maxControlMessageBytes :: int where "maxControlMessageBytes = 2 * 1024 * 1024"

text \<open>\<^verbatim>\<open>bufio.Writer\<close>: the pending bytes, and whether a write failed (the error sticks).\<close>

record bufw =
  bw_path :: string
  bw_data :: bytes
  bw_failed :: bool

record RTCReceiver =
  rr_signingKey :: SigningKey
  rr_peer :: "nat option"
  rr_accepting :: bool
  rr_pin :: string
  rr_pinAttempts :: int
  rr_providedPINAttempts :: int
  rr_saveDir :: string
  rr_extRoutes :: "(string, string) gomap option"
  rr_folderRemapper :: "FolderRemapper option"
  rr_state :: rstate
  rr_remoteNonce :: bytes
  rr_localNonce :: bytes
  rr_finalNonce :: bytes
  rr_senderPublicKey :: "VerifyingKey option"
  rr_requirePairing :: bool
  rr_pendingFiles :: "RTCFileDto list"
  rr_pinProvider :: "(int \<Rightarrow> string) option"
  rr_files :: "RTCFileDto list"
  rr_fileByID :: "(string, RTCFileDto) gomap"
  rr_fileTokens :: "(string, string) gomap"
  rr_acceptedIDs :: "string list"
  rr_folderTransferKnown :: bool
  rr_folderTransfer :: bool
  rr_currentFileID :: string
  rr_fileWriters :: "(string, string) gomap"
  rr_fileBuffers :: "(string, bufw) gomap"
  rr_filePaths :: "(string, string) gomap"
  rr_fileHashers :: "(string, bytes) gomap"
  rr_currentBytes :: int
  rr_controlBuffer :: bytes
  rr_ensuredDirs :: "string list"
  rr_uniqueFiles :: allocator
  rr_onSelectFiles :: "(RTCFileDto list \<Rightarrow> string list) option"
  rr_transferActive :: bool
  rr_trustedStore :: "TrustedDeviceStore option"
  rr_senderAlias :: string
  rr_senderPublicPEM :: string
  rr_senderToken :: string
  rr_senderSignalingID :: string
  rr_stunServers :: "string list"

datatype rtc_event =
    SentText rtc_message
  | SentBinary rtc_message
  | SentDelimiter
  | ClosedPeer nat
  | FileReceived string int
  | TransferStart
  | TransferDone

record rtc_world =
  rw_rcv :: RTCReceiver
  rw_fs :: fsys
  rw_blocked :: "(string, int) gomap"
  rw_sends :: "bool list"
  rw_log :: "rtc_event list"

text \<open>What one call gets from outside: the crypto library, lower casing beyond ASCII, the clock
  (nanoseconds), random bytes, and whether closing and syncing files succeeds.\<close>

record rtc_env =
  re_crypto :: crypto_ops
  re_uni :: "string \<Rightarrow> string"
  re_now :: int
  re_random :: "bytes option"
  re_tokens :: "nat \<Rightarrow> bytes"
  re_closed :: bool
  re_synced :: bool

definition NewRTCReceiver :: "SigningKey \<Rightarrow> string \<Rightarrow> string \<Rightarrow> RTCReceiver" where
  "NewRTCReceiver key pin saveDir =
     \<lparr>rr_signingKey = key, rr_peer = None, rr_accepting = False, rr_pin = pin, rr_pinAttempts = 0,
      rr_providedPINAttempts = 0, rr_saveDir = saveDir, rr_extRoutes = None, rr_folderRemapper = None,
      rr_state = stateWaitNonce, rr_remoteNonce = [], rr_localNonce = [], rr_finalNonce = [],
      rr_senderPublicKey = None, rr_requirePairing = False, rr_pendingFiles = [], rr_pinProvider = None,
      rr_files = [], rr_fileByID = [], rr_fileTokens = [], rr_acceptedIDs = [],
      rr_folderTransferKnown = False, rr_folderTransfer = False, rr_currentFileID = [],
      rr_fileWriters = [], rr_fileBuffers = [], rr_filePaths = [], rr_fileHashers = [],
      rr_currentBytes = 0, rr_controlBuffer = [], rr_ensuredDirs = [], rr_uniqueFiles = [],
      rr_onSelectFiles = None, rr_transferActive = False, rr_trustedStore = None, rr_senderAlias = [],
      rr_senderPublicPEM = [], rr_senderToken = [], rr_senderSignalingID = [], rr_stunServers = []\<rparr>"

definition rtc_OnSelectFiles :: "(RTCFileDto list \<Rightarrow> string list) option \<Rightarrow> RTCReceiver \<Rightarrow> RTCReceiver" where
  "rtc_OnSelectFiles handler r = r\<lparr>rr_onSelectFiles := handler\<rparr>"

definition rtc_SetSenderPublicKey :: "VerifyingKey option \<Rightarrow> RTCReceiver \<Rightarrow> RTCReceiver" where
  "rtc_SetSenderPublicKey key r = r\<lparr>rr_senderPublicKey := key\<rparr>"

definition rtc_SetPINProvider :: "(int \<Rightarrow> string) option \<Rightarrow> RTCReceiver \<Rightarrow> RTCReceiver" where
  "rtc_SetPINProvider provider r = r\<lparr>rr_pinProvider := provider\<rparr>"

definition rtc_SetRequirePairing :: "bool \<Rightarrow> RTCReceiver \<Rightarrow> RTCReceiver" where
  "rtc_SetRequirePairing require r = r\<lparr>rr_requirePairing := require\<rparr>"

definition rtc_SetExtensionRoutes :: "(string, string) gomap option \<Rightarrow> RTCReceiver \<Rightarrow> RTCReceiver" where
  "rtc_SetExtensionRoutes routes r = r\<lparr>rr_extRoutes := routes\<rparr>"

definition rtc_SetTrustedStore :: "TrustedDeviceStore option \<Rightarrow> RTCReceiver \<Rightarrow> RTCReceiver" where
  "rtc_SetTrustedStore store r = r\<lparr>rr_trustedStore := store\<rparr>"

definition rtc_SetSenderInfo :: "string \<Rightarrow> RTCReceiver \<Rightarrow> RTCReceiver" where
  "rtc_SetSenderInfo alias r = r\<lparr>rr_senderAlias := alias\<rparr>"

definition rtc_SetSTUNServers :: "string list \<Rightarrow> RTCReceiver \<Rightarrow> RTCReceiver" where
  "rtc_SetSTUNServers servers r = r\<lparr>rr_stunServers := servers\<rparr>"

section \<open>Blocked peers\<close>

definition isPeerBlocked :: "int \<Rightarrow> string \<Rightarrow> (string, int) gomap \<Rightarrow> (string, int) gomap \<times> bool" where
  "isPeerBlocked now peerID blocked =
     (let b = filter (\<lambda>(_, until). \<not> now > until) blocked
      in (b, case mget b peerID of None \<Rightarrow> False | Some until \<Rightarrow> now < until))"

definition blockPeer :: "int \<Rightarrow> string \<Rightarrow> (string, int) gomap \<Rightarrow> (string, int) gomap" where
  "blockPeer now peerID blocked = mput peerID (now + pinBlockDuration) blocked"

section \<open>Effects\<close>

definition upd :: "(RTCReceiver \<Rightarrow> RTCReceiver) \<Rightarrow> rtc_world \<Rightarrow> rtc_world" where
  "upd f w = w\<lparr>rw_rcv := f (rw_rcv w)\<rparr>"

definition emit :: "rtc_event \<Rightarrow> rtc_world \<Rightarrow> rtc_world" where
  "emit e w = w\<lparr>rw_log := rw_log w @ [e]\<rparr>"

definition send_event :: "rtc_event \<Rightarrow> rtc_world \<Rightarrow> rtc_world \<times> bool" where
  "send_event e w =
     (if rr_peer (rw_rcv w) = None then (w, False)
      else case rw_sends w of
             [] \<Rightarrow> (emit e w, True)
           | ok # rest \<Rightarrow> (let w' = w\<lparr>rw_sends := rest\<rparr> in (if ok then emit e w' else w', ok)))"

definition sendJSON :: "rtc_message \<Rightarrow> rtc_world \<Rightarrow> rtc_world \<times> bool" where
  "sendJSON m w = send_event (SentText m) w"

definition sendJSONBinary :: "rtc_message \<Rightarrow> rtc_world \<Rightarrow> rtc_world \<times> bool" where
  "sendJSONBinary m w = send_event (SentBinary m) w"

definition sendDelimiter :: "rtc_world \<Rightarrow> rtc_world \<times> bool" where
  "sendDelimiter w = send_event SentDelimiter w"

definition sendErrorLocked :: "string \<Rightarrow> rtc_world \<Rightarrow> rtc_world" where
  "sendErrorLocked message w =
     (if rr_peer (rw_rcv w) = None then w else fst (sendJSON (RTCErrorResponse message) w))"

definition markTransferStartedLocked :: "rtc_world \<Rightarrow> rtc_world" where
  "markTransferStartedLocked w =
     (if rr_transferActive (rw_rcv w) then w
      else emit TransferStart (upd (\<lambda>r. r\<lparr>rr_transferActive := True\<rparr>) w))"

definition markTransferDoneLocked :: "rtc_world \<Rightarrow> rtc_world" where
  "markTransferDoneLocked w =
     (if \<not> rr_transferActive (rw_rcv w) then w
      else emit TransferDone (upd (\<lambda>r. r\<lparr>rr_transferActive := False\<rparr>) w))"

text \<open>The reference to the peer is dropped and the connection closed in the background.\<close>

definition drop_peer :: "rtc_world \<Rightarrow> rtc_world" where
  "drop_peer w =
     (case rr_peer (rw_rcv w) of
        None \<Rightarrow> w
      | Some p \<Rightarrow> emit (ClosedPeer p) (upd (\<lambda>r. r\<lparr>rr_peer := None\<rparr>) w))"

definition remove_all :: "(string, string) gomap \<Rightarrow> fsys \<Rightarrow> fsys" where
  "remove_all paths fs = fold (\<lambda>(_, path) fs. fst (os_remove fs path)) paths fs"

definition cleanupPartialFilesLocked :: "rtc_world \<Rightarrow> rtc_world" where
  "cleanupPartialFilesLocked w =
     (let w1 = w\<lparr>rw_fs := remove_all (rr_filePaths (rw_rcv w)) (rw_fs w)\<rparr>;
          w2 = upd (\<lambda>r. r\<lparr>rr_fileWriters := [], rr_fileBuffers := [], rr_filePaths := [], rr_fileHashers := []\<rparr>) w1
      in upd (\<lambda>r. r\<lparr>rr_currentFileID := [], rr_currentBytes := 0\<rparr>) (markTransferDoneLocked w2))"

definition terminateLocked :: "rtc_world \<Rightarrow> rtc_world" where
  "terminateLocked w = drop_peer (upd (\<lambda>r. r\<lparr>rr_state := stateDone\<rparr>) (cleanupPartialFilesLocked w))"

definition handlePeerClosed :: "nat \<Rightarrow> rtc_world \<Rightarrow> rtc_world" where
  "handlePeerClosed peer w =
     (if rr_peer (rw_rcv w) \<noteq> Some peer then w
      else upd (\<lambda>r. r\<lparr>rr_peer := None, rr_accepting := False, rr_state := stateDone\<rparr>)
             (cleanupPartialFilesLocked w))"

definition rtc_Close :: "rtc_world \<Rightarrow> rtc_world" where
  "rtc_Close w =
     (let w1 = cleanupPartialFilesLocked w;
          w2 = upd (\<lambda>r. r\<lparr>rr_accepting := False, rr_state := stateDone\<rparr>) w1
      in drop_peer w2)"

section \<open>The file list\<close>

definition rebuildFileIndex :: "RTCReceiver \<Rightarrow> RTCReceiver" where
  "rebuildFileIndex r =
     r\<lparr>rr_fileByID := fold (\<lambda>file m. if mhas m (rf_id file) then m else mput (rf_id file) file m) (rr_files r) []\<rparr>"

definition fileMetaByID :: "string \<Rightarrow> RTCReceiver \<Rightarrow> RTCReceiver \<times> RTCFileDto option" where
  "fileMetaByID fid r =
     (case mget (rr_fileByID r) fid of
        Some meta \<Rightarrow> (r, Some meta)
      | None \<Rightarrow>
          (case find (\<lambda>file. rf_id file = fid) (rr_files r) of
             Some file \<Rightarrow> (r\<lparr>rr_fileByID := mput fid file (rr_fileByID r)\<rparr>, Some file)
           | None \<Rightarrow> (r, None)))"

definition nul_char :: char where "nul_char = byte_of 0"

definition remap_names :: "RTCFileDto list \<Rightarrow> string list" where
  "remap_names files =
     concat (map (\<lambda>f. if nul_char \<in> set (rf_fileName f) then []
                      else case SanitizePathWithFallback (rf_fileName f) of Inl _ \<Rightarrow> [] | Inr p \<Rightarrow> [p]) files)"

definition rtc_prepareFolderRemap :: "fsys \<Rightarrow> RTCReceiver \<Rightarrow> RTCReceiver" where
  "rtc_prepareFolderRemap fs r =
     (case NewFolderRemapper fs (rr_saveDir r) (remap_names (rr_files r)) of
        Inl _ \<Rightarrow> r
      | Inr remapper \<Rightarrow> r\<lparr>rr_folderRemapper := Some remapper\<rparr>)"

definition rtc_applyFolderRemap :: "RTCReceiver \<Rightarrow> string \<Rightarrow> string" where
  "rtc_applyFolderRemap r p = (case rr_folderRemapper r of None \<Rightarrow> p | Some m \<Rightarrow> remap_apply m p)"

text \<open>The loop over the accepted ids; \<open>n\<close> numbers the random tokens.\<close>

fun grant_tokens ::
    "(nat \<Rightarrow> bytes) \<Rightarrow> nat \<Rightarrow> string list \<Rightarrow> RTCReceiver \<Rightarrow> (string, string) gomap \<Rightarrow>
     RTCReceiver \<times> (string, string) gomap" where
  "grant_tokens rnd n [] r granted = (r, granted)"
| "grant_tokens rnd n (i # ids) r granted =
     (case fileMetaByID i r of
        (r1, None) \<Rightarrow> grant_tokens rnd n ids r1 granted
      | (r1, Some targetFile) \<Rightarrow>
          if nul_char \<in> set (rf_fileName targetFile) then grant_tokens rnd n ids r1 granted
          else (case SanitizePathWithFallback (rf_fileName targetFile) of
             Inl _ \<Rightarrow> grant_tokens rnd n ids r1 granted
           | Inr _ \<Rightarrow>
               let token = GenerateSecureToken (rnd n) in
               grant_tokens rnd (Suc n) ids (r1\<lparr>rr_fileTokens := mput i token (rr_fileTokens r1)\<rparr>)
                 (mput i token granted)))"

definition prepareFilesForReceive ::
    "rtc_env \<Rightarrow> string list \<Rightarrow> rtc_world \<Rightarrow> rtc_world \<times> (string, string) gomap" where
  "prepareFilesForReceive env acceptedIDs w =
     (case grant_tokens (re_tokens env) 0 acceptedIDs (rtc_prepareFolderRemap (rw_fs w) (rw_rcv w)) [] of
        (r, granted) \<Rightarrow> (w\<lparr>rw_rcv := r\<rparr>, granted))"

definition rtc_isFolderTransfer :: "RTCReceiver \<Rightarrow> RTCReceiver \<times> bool" where
  "rtc_isFolderTransfer r =
     (if rr_folderTransferKnown r then (r, rr_folderTransfer r)
      else let b = (list_ex (\<lambda>file. str_contains (rf_fileName file) [sep]) (rr_files r) \<or> rr_folderTransfer r)
           in (r\<lparr>rr_folderTransfer := b, rr_folderTransferKnown := True\<rparr>, b))"

definition rtc_getSaveDir :: "(string \<Rightarrow> string) \<Rightarrow> string \<Rightarrow> RTCReceiver \<Rightarrow> RTCReceiver \<times> string" where
  "rtc_getSaveDir uni filename r =
     (case rtc_isFolderTransfer r of
        (r1, True) \<Rightarrow> (r1, rr_saveDir r1)
      | (r1, False) \<Rightarrow>
          (r1, case rr_extRoutes r1 of
             None \<Rightarrow> rr_saveDir r1
           | Some routes \<Rightarrow>
               let ext = path_ext filename in
               if ext = [] then rr_saveDir r1
               else case mget routes (to_lower uni (tl ext)) of
                      Some dir \<Rightarrow> dir
                    | None \<Rightarrow> (case mget routes ''default'' of Some dir \<Rightarrow> dir | None \<Rightarrow> rr_saveDir r1)))"

definition rtc_ensureSaveDir :: "string \<Rightarrow> rtc_world \<Rightarrow> rtc_world \<times> bool" where
  "rtc_ensureSaveDir dir w =
     (if dir \<in> set (rr_ensuredDirs (rw_rcv w)) then (w, True)
      else case mkdir_all (rw_fs w) dir of
             (fs, False) \<Rightarrow> (w\<lparr>rw_fs := fs\<rparr>, False)
           | (fs, True) \<Rightarrow>
               (upd (\<lambda>r. r\<lparr>rr_ensuredDirs := dir # rr_ensuredDirs r\<rparr>) (w\<lparr>rw_fs := fs\<rparr>), True))"

section \<open>Receiving one file\<close>

definition bufw_flush :: "fsys \<Rightarrow> bufw \<Rightarrow> fsys \<times> bufw \<times> bool" where
  "bufw_flush fs b =
     (if bw_failed b then (fs, b, False)
      else case file_write fs (bw_path b) (bw_data b) of
             (fs1, n, ok) \<Rightarrow> (fs1, b\<lparr>bw_data := drop n (bw_data b), bw_failed := \<not> ok\<rparr>, ok))"

definition bufw_rest :: "fsys \<Rightarrow> bufw \<Rightarrow> bytes \<Rightarrow> fsys \<times> bufw \<times> bool" where
  "bufw_rest fs b p =
     (if int (length p) \<le> FileIOBufferSize then (fs, b\<lparr>bw_data := p\<rparr>, True)
      else case file_write fs (bw_path b) p of (fs1, _, ok) \<Rightarrow> (fs1, b\<lparr>bw_failed := \<not> ok\<rparr>, ok))"

text \<open>\<^verbatim>\<open>bufio.Writer.Write\<close>: fill and flush a started buffer; write a long remainder directly.\<close>

definition bufw_write :: "fsys \<Rightarrow> bufw \<Rightarrow> bytes \<Rightarrow> fsys \<times> bufw \<times> bool" where
  "bufw_write fs b p =
     (let avail = FileIOBufferSize - int (length (bw_data b)) in
      if bw_failed b then (fs, b, False)
      else if int (length p) \<le> avail then (fs, b\<lparr>bw_data := bw_data b @ p\<rparr>, True)
      else if bw_data b = [] then bufw_rest fs b p
      else case bufw_flush fs (b\<lparr>bw_data := bw_data b @ take (nat avail) p\<rparr>) of
             (fs1, b1, False) \<Rightarrow> (fs1, b1, False)
           | (fs1, b1, True) \<Rightarrow> bufw_rest fs1 b1 (drop (nat avail) p))"

definition rejectFileTransfer :: "rtc_world \<Rightarrow> rtc_world" where
  "rejectFileTransfer w =
     upd (\<lambda>r. r\<lparr>rr_currentFileID := [], rr_state := stateWaitFiles\<rparr>) (drop_peer w)"

definition validateFileHeader :: "RTCReceiver \<Rightarrow> string \<Rightarrow> string \<Rightarrow> bool" where
  "validateFileHeader r fid token =
     (case mget (rr_fileTokens r) fid of None \<Rightarrow> False | Some expectedToken \<Rightarrow> token = expectedToken)"

definition open_current :: "string \<Rightarrow> RTCFileDto \<Rightarrow> string \<Rightarrow> rtc_world \<Rightarrow> rtc_world" where
  "open_current fid meta path w =
     (let w1 = upd (\<lambda>r. r\<lparr>rr_fileWriters := mput fid path (rr_fileWriters r),
                         rr_fileBuffers := mput fid \<lparr>bw_path = path, bw_data = [], bw_failed = False\<rparr> (rr_fileBuffers r),
                         rr_filePaths := mput fid path (rr_filePaths r),
                         rr_fileHashers := (if rf_sha256 meta \<noteq> [] then mput fid [] (rr_fileHashers r)
                                            else rr_fileHashers r)\<rparr>) w
      in upd (\<lambda>r. r\<lparr>rr_currentFileID := fid, rr_currentBytes := 0, rr_state := stateReceivingFiles\<rparr>)
           (markTransferStartedLocked w1))"

text \<open>The file that a header announces: its metadata, directory and base name.\<close>

definition header_target ::
    "(string \<Rightarrow> string) \<Rightarrow> string \<Rightarrow> RTCReceiver \<Rightarrow> RTCReceiver \<times> (RTCFileDto \<times> string \<times> string) option" where
  "header_target uni fid r =
     (case fileMetaByID fid r of
        (r1, None) \<Rightarrow> (r1, None)
      | (r1, Some meta) \<Rightarrow>
          (case SanitizePathWithFallback (rf_fileName meta) of
             Inl _ \<Rightarrow> (r1, None)
           | Inr sp \<Rightarrow>
               let sanitizedPath = rtc_applyFolderRemap r1 sp in
               (case rtc_getSaveDir uni (rf_fileName meta) r1 of
                  (r2, dir) \<Rightarrow> (r2, Some (meta, full_dir dir (path_dir sanitizedPath), path_base sanitizedPath)))))"

definition startReceivingFile ::
    "(string \<Rightarrow> string) \<Rightarrow> string \<Rightarrow> string \<Rightarrow> rtc_world \<Rightarrow> rtc_world \<times> bool" where
  "startReceivingFile uni fid token w =
     (if \<not> validateFileHeader (rw_rcv w) fid token then (rejectFileTransfer w, False)
      else case header_target uni fid (rw_rcv w) of
        (r, None) \<Rightarrow> (rejectFileTransfer (w\<lparr>rw_rcv := r\<rparr>), False)
      | (r, Some (meta, saveDir, baseName)) \<Rightarrow>
          (case rtc_ensureSaveDir saveDir (w\<lparr>rw_rcv := r\<rparr>) of
             (w1, False) \<Rightarrow> (rejectFileTransfer w1, False)
           | (w1, True) \<Rightarrow>
               (case alloc_create (rr_uniqueFiles (rw_rcv w1)) (rw_fs w1) saveDir baseName of
                  Inl _ \<Rightarrow> (rejectFileTransfer w1, False)
                | Inr (a, fs, path) \<Rightarrow>
                    (open_current fid meta path (upd (\<lambda>r. r\<lparr>rr_uniqueFiles := a\<rparr>) (w1\<lparr>rw_fs := fs\<rparr>)), True))))"

definition cleanupCurrentFile :: "rtc_world \<Rightarrow> rtc_world" where
  "cleanupCurrentFile w =
     (let fid = rr_currentFileID (rw_rcv w);
          w1 = (case mget (rr_filePaths (rw_rcv w)) fid of
                  None \<Rightarrow> w
                | Some path \<Rightarrow> if path = [] then w else w\<lparr>rw_fs := fst (os_remove (rw_fs w) path)\<rparr>);
          w2 = upd (\<lambda>r. r\<lparr>rr_fileBuffers := mdel fid (rr_fileBuffers r),
                         rr_fileWriters := mdel fid (rr_fileWriters r),
                         rr_filePaths := mdel fid (rr_filePaths r),
                         rr_fileHashers := mdel fid (rr_fileHashers r)\<rparr>) w1
      in upd (\<lambda>r. r\<lparr>rr_currentFileID := [], rr_currentBytes := 0\<rparr>) (markTransferDoneLocked w2))"

text \<open>The write itself: through the buffer, else straight to the file; \<open>None\<close> without a writer.\<close>

definition write_current :: "string \<Rightarrow> bytes \<Rightarrow> rtc_world \<Rightarrow> (rtc_world \<times> bool) option" where
  "write_current fid data w =
     (case mget (rr_fileBuffers (rw_rcv w)) fid of
        Some b \<Rightarrow>
          (case bufw_write (rw_fs w) b data of
             (fs, b', ok) \<Rightarrow>
               Some (upd (\<lambda>r. r\<lparr>rr_fileBuffers := mput fid b' (rr_fileBuffers r)\<rparr>) (w\<lparr>rw_fs := fs\<rparr>), ok))
      | None \<Rightarrow>
          (case mget (rr_fileWriters (rw_rcv w)) fid of
             Some path \<Rightarrow> (case file_write (rw_fs w) path data of (fs, _, ok) \<Rightarrow> Some (w\<lparr>rw_fs := fs\<rparr>, ok))
           | None \<Rightarrow> None))"

definition count_current :: "string \<Rightarrow> bytes \<Rightarrow> rtc_world \<Rightarrow> rtc_world" where
  "count_current fid data w =
     upd (\<lambda>r. r\<lparr>rr_currentBytes := wrap64 (rr_currentBytes r + int (length data)),
               rr_fileHashers := (case mget (rr_fileHashers r) fid of
                                    None \<Rightarrow> rr_fileHashers r
                                  | Some h \<Rightarrow> mput fid (h @ data) (rr_fileHashers r))\<rparr>) w"

definition handleBinaryData :: "bytes \<Rightarrow> rtc_world \<Rightarrow> rtc_world" where
  "handleBinaryData data w0 =
     (let fid = rr_currentFileID (rw_rcv w0) in
      case fileMetaByID fid (rw_rcv w0) of
        (r, found) \<Rightarrow>
          let w = w0\<lparr>rw_rcv := r\<rparr> in
          if (case found of
                None \<Rightarrow> True
              | Some meta \<Rightarrow> int (length data) > wrap64 (rf_size meta - rr_currentBytes r))
          then rejectFileTransfer (cleanupCurrentFile w)
          else (case write_current fid data w of
                  None \<Rightarrow> w
                | Some (w1, False) \<Rightarrow> w1
                | Some (w1, True) \<Rightarrow> count_current fid data w1))"

text \<open>Flushing, closing and hashing: the error message, the last one noted, if any.\<close>

definition finish_flush :: "string \<Rightarrow> rtc_world \<times> string option \<Rightarrow> rtc_world \<times> string option" where
  "finish_flush fid st =
     (case st of (w, err) \<Rightarrow>
       (case mget (rr_fileBuffers (rw_rcv w)) fid of
          None \<Rightarrow> st
        | Some b \<Rightarrow>
            (case bufw_flush (rw_fs w) b of
               (fs, _, ok) \<Rightarrow>
                 (upd (\<lambda>r. r\<lparr>rr_fileBuffers := mdel fid (rr_fileBuffers r)\<rparr>) (w\<lparr>rw_fs := fs\<rparr>),
                  if ok then err else Some ''failed to save file''))))"

definition finish_close :: "bool \<Rightarrow> string \<Rightarrow> rtc_world \<times> string option \<Rightarrow> rtc_world \<times> string option" where
  "finish_close closed fid st =
     (case st of (w, err) \<Rightarrow>
       (if mhas (rr_fileWriters (rw_rcv w)) fid
        then (upd (\<lambda>r. r\<lparr>rr_fileWriters := mdel fid (rr_fileWriters r)\<rparr>) w,
              if closed then err else Some ''failed to save file'')
        else st))"

definition finish_hash ::
    "(bytes \<Rightarrow> bytes) \<Rightarrow> RTCFileDto option \<Rightarrow> string \<Rightarrow> rtc_world \<times> string option \<Rightarrow> rtc_world \<times> string option" where
  "finish_hash sha found fid st =
     (case st of (w, err) \<Rightarrow>
        (upd (\<lambda>r. r\<lparr>rr_fileHashers := mdel fid (rr_fileHashers r)\<rparr>) w,
         case (mget (rr_fileHashers (rw_rcv w)) fid, found) of
           (Some h, Some meta) \<Rightarrow>
             if rf_sha256 meta \<noteq> [] \<and> hex_encode (sha h) \<noteq> rf_sha256 meta
             then Some ''checksum mismatch'' else err
         | _ \<Rightarrow> err))"

definition finish_path :: "RTCFileDto option \<Rightarrow> string \<Rightarrow> rtc_world \<times> string option \<Rightarrow> rtc_world" where
  "finish_path found fid st =
     (case st of (w, err) \<Rightarrow>
        upd (\<lambda>r. r\<lparr>rr_filePaths := mdel fid (rr_filePaths r)\<rparr>)
          (case mget (rr_filePaths (rw_rcv w)) fid of
             None \<Rightarrow> w
           | Some path \<Rightarrow>
               if err \<noteq> None then w\<lparr>rw_fs := fst (os_remove (rw_fs w) path)\<rparr>
               else emit (FileReceived (path_base path)
                      (case found of None \<Rightarrow> 0 | Some meta \<Rightarrow> rf_size meta)) w))"

definition finishCurrentFile :: "rtc_env \<Rightarrow> rtc_world \<Rightarrow> rtc_world" where
  "finishCurrentFile env w0 =
     (let fid = rr_currentFileID (rw_rcv w0) in
      if fid = [] then w0
      else case fileMetaByID fid (rw_rcv w0) of
        (r, found) \<Rightarrow>
          let ok = (case found of None \<Rightarrow> False | Some meta \<Rightarrow> rr_currentBytes r = rf_size meta);
              st = finish_hash (cr_sha256 (re_crypto env)) found fid
                     (finish_close (re_closed env) fid
                       (finish_flush fid
                         (w0\<lparr>rw_rcv := r\<rparr>, if ok then None else Some ''file size does not match declaration'')));
              w1 = finish_path found fid st;
              w2 = (if rr_peer (rw_rcv w1) = None then w1
                    else fst (sendJSON (RTCSendFileResponse fid (snd st = None) (snd st)) w1))
          in upd (\<lambda>r. r\<lparr>rr_currentFileID := [], rr_currentBytes := 0\<rparr>) (markTransferDoneLocked w2))"

end
