(* ===== verification/RtcHandlers.thy ===== *)
theory RtcHandlers
  imports RtcReceiver
begin

text \<open>
  The handshake of the WebRTC receiver (\<^verbatim>\<open>receiver.go\<close>): accepting an offer, the handlers of the
  control messages and \<^verbatim>\<open>handleDataMessage\<close>, which dispatches a frame.
\<close>

section \<open>Accepting an offer\<close>

datatype offer_err = MissingPeer | PeerBlocked | ErrReceiverBusy | BadSDP | NoConnection | NoAnswer

text \<open>The reservation of the receiver, up to the point where the mutex is released.\<close>

definition reset_for_offer :: "string \<Rightarrow> string \<Rightarrow> RTCReceiver \<Rightarrow> RTCReceiver" where
  "reset_for_offer alias peerID r =
     r\<lparr>rr_fileTokens := [], rr_files := [], rr_fileByID := [], rr_acceptedIDs := [],
       rr_folderTransferKnown := False, rr_folderTransfer := False, rr_ensuredDirs := [],
       rr_uniqueFiles := alloc_reset (rr_uniqueFiles r), rr_controlBuffer := [],
       rr_remoteNonce := [], rr_localNonce := [], rr_finalNonce := [], rr_pinAttempts := 0,
       rr_providedPINAttempts := 0, rr_senderPublicKey := None, rr_senderPublicPEM := [],
       rr_senderToken := [], rr_pendingFiles := [], rr_senderAlias := alias,
       rr_senderSignalingID := peerID, rr_state := stateWaitNonce\<rparr>"

definition accept_begin ::
    "int \<Rightarrow> string \<Rightarrow> string \<Rightarrow> rtc_world \<Rightarrow> rtc_world \<times> offer_err option" where
  "accept_begin now peerID alias w0 =
     (case isPeerBlocked now peerID (rw_blocked w0) of
        (b, isBlocked) \<Rightarrow>
          let w = w0\<lparr>rw_blocked := b\<rparr> in
          if isBlocked then (w, Some PeerBlocked)
          else if rr_accepting (rw_rcv w) \<or>
                  (rr_peer (rw_rcv w) \<noteq> None \<and> rr_state (rw_rcv w) \<noteq> stateDone)
          then (w, Some ErrReceiverBusy)
          else
            let w1 = cleanupPartialFilesLocked (upd (\<lambda>r. r\<lparr>rr_peer := None, rr_accepting := True\<rparr>) w);
                w2 = upd (reset_for_offer alias peerID) w1
            in (case rr_peer (rw_rcv w) of None \<Rightarrow> w2 | Some old \<Rightarrow> emit (ClosedPeer old) w2, None))"

definition failAccept :: "rtc_world \<Rightarrow> rtc_world" where
  "failAccept w = upd (\<lambda>r. r\<lparr>rr_accepting := False, rr_state := stateDone\<rparr>) w"

text \<open>The new connection becomes the receiver's, unless the receiver was closed meanwhile.\<close>

definition accept_install :: "nat \<Rightarrow> rtc_world \<Rightarrow> rtc_world \<times> offer_err option" where
  "accept_install peer w =
     (if \<not> rr_accepting (rw_rcv w) then (emit (ClosedPeer peer) w, Some ErrReceiverBusy)
      else (upd (\<lambda>r. r\<lparr>rr_peer := Some peer, rr_accepting := False\<rparr>) w, None))"

text \<open>\<open>sdpOk\<close>, \<open>conn\<close> and \<open>answered\<close>: the results of \<^verbatim>\<open>DecompressSDP\<close>, of \<^verbatim>\<open>NewPeerConnection\<close>, and of
  making and sending the answer. Closing the connection calls its close handler.\<close>

definition AcceptOffer ::
    "int \<Rightarrow> (string \<times> string) option \<Rightarrow> bool \<Rightarrow> nat option \<Rightarrow> bool \<Rightarrow> rtc_world \<Rightarrow> rtc_world \<times> offer_err option" where
  "AcceptOffer now offerPeer sdpOk conn answered w =
     (case offerPeer of
        None \<Rightarrow> (w, Some MissingPeer)
      | Some (peerID, alias) \<Rightarrow>
          (case accept_begin now peerID alias w of
             (w1, Some e) \<Rightarrow> (w1, Some e)
           | (w1, None) \<Rightarrow>
               if \<not> sdpOk then (failAccept w1, Some BadSDP)
               else (case conn of
                  None \<Rightarrow> (failAccept w1, Some NoConnection)
                | Some peer \<Rightarrow>
                    (case accept_install peer w1 of
                       (w2, Some e) \<Rightarrow> (w2, Some e)
                     | (w2, None) \<Rightarrow>
                         if answered then (w2, None)
                         else (emit (ClosedPeer peer) (handlePeerClosed peer w2), Some NoAnswer)))))"

section \<open>Nonce, token and PIN\<close>

definition handleNonce :: "rtc_env \<Rightarrow> rtc_message \<Rightarrow> string \<Rightarrow> rtc_world \<Rightarrow> rtc_world" where
  "handleNonce env msg msgType w =
     (if msgType \<noteq> ''nonce'' then w
      else case msg of
        RTCNonceMessage nonce \<Rightarrow>
          (case DecodeNonce nonce of
             Inl _ \<Rightarrow> sendErrorLocked ''invalid nonce format'' w
           | Inr remoteNonce \<Rightarrow>
               let w1 = upd (\<lambda>r. r\<lparr>rr_remoteNonce := remoteNonce\<rparr>) w in
               (case GenerateNonce (re_random env) of
                  None \<Rightarrow> sendErrorLocked ''internal error: nonce generation failed'' w1
                | Some localNonce \<Rightarrow>
                    let w2 = upd (\<lambda>r. r\<lparr>rr_localNonce := localNonce,
                                        rr_finalNonce := CombineNonces remoteNonce localNonce\<rparr>) w1 in
                    (case sendJSON (RTCNonceMessage (EncodeNonce localNonce)) w2 of
                       (w3, False) \<Rightarrow> w3
                     | (w3, True) \<Rightarrow> upd (\<lambda>r. r\<lparr>rr_state := stateWaitToken\<rparr>) w3)))
      | _ \<Rightarrow> sendErrorLocked ''internal error: message type mismatch'' w)"

fun trusted_match :: "crypto_ops \<Rightarrow> string \<Rightarrow> bytes \<Rightarrow> string list \<Rightarrow> (VerifyingKey \<times> string) option" where
  "trusted_match c token nonce [] = None"
| "trusted_match c token nonce (pem # pems) =
     (case ParsePublicKeyPEM c pem of
        None \<Rightarrow> trusted_match c token nonce pems
      | Some key \<Rightarrow>
          (case VerifyTokenNonce c key token nonce of
             Inr _ \<Rightarrow> Some (key, pem)
           | Inl _ \<Rightarrow> trusted_match c token nonce pems))"

definition findTrustedSender :: "crypto_ops \<Rightarrow> string \<Rightarrow> RTCReceiver \<Rightarrow> (VerifyingKey \<times> string) option" where
  "findTrustedSender c token r =
     (case rr_trustedStore r of
        None \<Rightarrow> None
      | Some store \<Rightarrow> trusted_match c token (rr_finalNonce r) (map snd (ListPublicKeys store)))"

text \<open>The token is kept for the pairing; a paired sender is found again by its token.\<close>

definition learn_sender :: "rtc_env \<Rightarrow> string \<Rightarrow> rtc_world \<Rightarrow> rtc_world" where
  "learn_sender env token w =
     (let w1 = upd (\<lambda>r. r\<lparr>rr_senderToken := token\<rparr>) w;
          r = rw_rcv w1
      in if rr_senderPublicKey r = None \<and> rr_trustedStore r \<noteq> None \<and> rr_requirePairing r
         then case findTrustedSender (re_crypto env) token r of
                None \<Rightarrow> w1
              | Some (key, pem) \<Rightarrow>
                  upd (\<lambda>r. r\<lparr>rr_senderPublicKey := Some key, rr_senderPublicPEM := pem\<rparr>) w1
         else w1)"

definition sender_verified :: "rtc_env \<Rightarrow> string \<Rightarrow> RTCReceiver \<Rightarrow> bool" where
  "sender_verified env token r =
     (case rr_senderPublicKey r of
        None \<Rightarrow> True
      | Some key \<Rightarrow> VerifyTokenNonce (re_crypto env) key token (rr_finalNonce r) = Inr ())"

definition answer_token :: "rtc_env \<Rightarrow> string \<Rightarrow> rtc_world \<Rightarrow> rtc_world" where
  "answer_token env token w =
     (let r = rw_rcv w in
      if \<not> sender_verified env token r
      then terminateLocked (fst (sendJSON (RTCTokenResponse StatusInvalidSignature []) w))
      else case GenerateTokenWithNonce (re_crypto env) (rr_signingKey r) (rr_finalNonce r) of
        None \<Rightarrow> sendErrorLocked ''internal error: token generation failed'' w
      | Some ours \<Rightarrow>
          let status = (if rr_pin r \<noteq> [] then ''PIN_REQUIRED'' else ''OK'') in
          upd (\<lambda>r. r\<lparr>rr_state := (if status = ''PIN_REQUIRED'' then stateWaitPin else stateWaitFileList)\<rparr>)
            (fst (sendJSON (RTCTokenResponse status ours) w)))"

definition handleToken :: "rtc_env \<Rightarrow> rtc_message \<Rightarrow> string \<Rightarrow> rtc_world \<Rightarrow> rtc_world" where
  "handleToken env msg msgType w =
     (if msgType \<noteq> ''token_request'' then w
      else case msg of
        RTCTokenRequest token \<Rightarrow> answer_token env token (learn_sender env token w)
      | _ \<Rightarrow> sendErrorLocked ''internal error: message type mismatch'' w)"

text \<open>The last of too many attempts blocks the peer, if it is known, and ends the connection.\<close>

definition block_sender :: "int \<Rightarrow> rtc_world \<Rightarrow> rtc_world" where
  "block_sender now w =
     (if rr_senderSignalingID (rw_rcv w) \<noteq> []
      then w\<lparr>rw_blocked := blockPeer now (rr_senderSignalingID (rw_rcv w)) (rw_blocked w)\<rparr>
      else w)"

definition wrong_pin :: "rtc_env \<Rightarrow> rtc_world \<Rightarrow> rtc_world" where
  "wrong_pin env w =
     (let w1 = upd (\<lambda>r. r\<lparr>rr_pinAttempts := rr_pinAttempts r + 1\<rparr>) w in
      if rr_pinAttempts (rw_rcv w1) \<ge> maxPINAttempts
      then terminateLocked (fst (sendJSON (RTCPinReceivingResponse StatusTooManyAttempts)
             (block_sender (re_now env) w1)))
      else fst (sendJSON (RTCPinReceivingResponse ''PIN_REQUIRED'') w1))"

definition handlePin :: "rtc_env \<Rightarrow> rtc_message \<Rightarrow> string \<Rightarrow> rtc_world \<Rightarrow> rtc_world" where
  "handlePin env msg msgType w =
     (if msgType \<noteq> ''pin'' then w
      else case msg of
        RTCPinMessage pin \<Rightarrow>
          if pin = rr_pin (rw_rcv w)
          then upd (\<lambda>r. r\<lparr>rr_state := stateWaitFileList\<rparr>)
                 (fst (sendJSON (RTCPinReceivingResponse ''OK'') w))
          else wrong_pin env w
      | _ \<Rightarrow> sendErrorLocked ''internal error: message type mismatch'' w)"

section \<open>The file list\<close>

definition decline_files :: "rtc_world \<Rightarrow> rtc_world" where
  "decline_files w = fst (sendDelimiter (fst (sendJSONBinary (RTCFileListResponse ''DECLINED'' [] []) w)))"

text \<open>A list response, its delimiter, and the next state if both were sent.\<close>

definition send_list_response :: "rtc_message \<Rightarrow> rstate \<Rightarrow> rtc_world \<Rightarrow> rtc_world" where
  "send_list_response m next w =
     (case sendJSONBinary m w of
        (w1, False) \<Rightarrow> w1
      | (w1, True) \<Rightarrow>
          (case sendDelimiter w1 of
             (w2, False) \<Rightarrow> w2
           | (w2, True) \<Rightarrow> upd (\<lambda>r. r\<lparr>rr_state := next\<rparr>) w2))"

definition accept_files :: "rtc_env \<Rightarrow> string list \<Rightarrow> rtc_world \<Rightarrow> rtc_world" where
  "accept_files env ids w =
     (case prepareFilesForReceive env ids w of
        (w1, granted) \<Rightarrow> send_list_response (RTCFileListResponse ''OK'' granted []) stateWaitFiles w1)"

definition acceptFilesAfterPair :: "rtc_env \<Rightarrow> rtc_world \<Rightarrow> rtc_world" where
  "acceptFilesAfterPair env w = accept_files env (rr_acceptedIDs (rw_rcv w)) w"

text \<open>The list itself: indexed, chosen from, answered.\<close>

definition index_files :: "RTCFileDto list \<Rightarrow> RTCReceiver \<Rightarrow> RTCReceiver" where
  "index_files files r =
     fst (rtc_isFolderTransfer ((rebuildFileIndex (r\<lparr>rr_files := files\<rparr>))\<lparr>rr_folderTransferKnown := False\<rparr>))"

definition select_files :: "RTCReceiver \<Rightarrow> string list" where
  "select_files r =
     (case rr_onSelectFiles r of
        Some callback \<Rightarrow> callback (rr_files r)
      | None \<Rightarrow> map rf_id (rr_files r))"

definition request_pair :: "rtc_env \<Rightarrow> rtc_world \<Rightarrow> rtc_world" where
  "request_pair env w =
     send_list_response
       (RTCFileListResponse ''PAIR'' [] (PublicKeyPEM (re_crypto env) (rr_signingKey (rw_rcv w))))
       stateWaitPairResponse (upd (\<lambda>r. r\<lparr>rr_pendingFiles := rr_files r\<rparr>) w)"

definition answer_files :: "rtc_env \<Rightarrow> string list \<Rightarrow> rtc_world \<Rightarrow> rtc_world" where
  "answer_files env acceptedIDs w =
     (if rr_peer (rw_rcv w) = None then w
      else if acceptedIDs = [] then decline_files w
      else if rr_requirePairing (rw_rcv w) \<and> rr_senderPublicKey (rw_rcv w) = None then request_pair env w
      else accept_files env acceptedIDs w)"

definition offer_files :: "rtc_env \<Rightarrow> RTCFileDto list \<Rightarrow> rtc_world \<Rightarrow> rtc_world" where
  "offer_files env files w =
     (let w1 = upd (index_files files) w;
          acceptedIDs = select_files (rw_rcv w1)
      in answer_files env acceptedIDs (upd (\<lambda>r. r\<lparr>rr_acceptedIDs := acceptedIDs\<rparr>) w1))"

text \<open>The sender may ask for a PIN of its own.\<close>

definition challenge_pin :: "RTCReceiver \<Rightarrow> string" where
  "challenge_pin r =
     (case rr_pinProvider r of None \<Rightarrow> rr_pin r | Some provider \<Rightarrow> provider (rr_providedPINAttempts r))"

definition answer_challenge :: "rtc_world \<Rightarrow> rtc_world" where
  "answer_challenge w =
     (let w1 = upd (\<lambda>r. r\<lparr>rr_providedPINAttempts := rr_providedPINAttempts r + 1\<rparr>) w
      in case sendJSON (RTCPinMessage (challenge_pin (rw_rcv w1))) w1 of
           (w2, True) \<Rightarrow> w2
         | (w2, False) \<Rightarrow> terminateLocked w2)"

definition handleFileList :: "rtc_env \<Rightarrow> string \<Rightarrow> bytes \<Rightarrow> rtc_world \<Rightarrow> rtc_world" where
  "handleFileList env msgType data w =
     (if msgType = ''status_PIN_REQUIRED'' then answer_challenge w
      else if msgType = ''status_TOO_MANY_ATTEMPTS'' then terminateLocked w
      else if msgType \<noteq> ''file_list'' \<and> msgType \<noteq> ''status_OK'' then w
      else case Option.bind (json_decode data) read_pin_sending of
        None \<Rightarrow> w
      | Some (_, files) \<Rightarrow>
          if int (length files) > MaxFilesPerSession then decline_files w
          else offer_files env files w)"

section \<open>Pairing\<close>

text \<open>The key of the sender's answer, checked against the token it gave, is remembered.\<close>

definition remember_sender :: "rtc_env \<Rightarrow> VerifyingKey \<Rightarrow> string \<Rightarrow> rtc_world \<Rightarrow> rtc_world option" where
  "remember_sender env key pem w =
     (let w1 = upd (\<lambda>r. r\<lparr>rr_senderPublicKey := Some key, rr_senderPublicPEM := pem\<rparr>) w;
          r = rw_rcv w1
      in case rr_trustedStore r of
           None \<Rightarrow> Some w1
         | Some store \<Rightarrow>
             (let device = \<lparr>td_alias = (if rr_senderAlias r = [] then ''Unknown Device'' else rr_senderAlias r),
                            td_publicKey = pem, td_addedAt = re_now env div 1000000000\<rparr>
              in case ts_Add (cr_sha256 (re_crypto env)) (re_synced env) (rw_fs w1) store device of
                   (fs, store', NilMapPanic) \<Rightarrow> None
                 | (fs, store', _) \<Rightarrow>
                     Some (upd (\<lambda>r. r\<lparr>rr_trustedStore := Some store'\<rparr>) (w1\<lparr>rw_fs := fs\<rparr>))))"

definition pair_ok :: "rtc_env \<Rightarrow> string \<Rightarrow> rtc_world \<Rightarrow> rtc_world option" where
  "pair_ok env pem w =
     (if pem = [] then Some (acceptFilesAfterPair env w)
      else case ParsePublicKeyPEM (re_crypto env) pem of
        None \<Rightarrow> Some w
      | Some key \<Rightarrow>
          if rr_senderToken (rw_rcv w) \<noteq> [] \<and>
             VerifyTokenNonce (re_crypto env) key (rr_senderToken (rw_rcv w)) (rr_finalNonce (rw_rcv w)) \<noteq> Inr ()
          then Some w
          else map_option (acceptFilesAfterPair env) (remember_sender env key pem w))"

definition handlePairResponse :: "rtc_env \<Rightarrow> string \<Rightarrow> bytes \<Rightarrow> rtc_world \<Rightarrow> rtc_world option" where
  "handlePairResponse env msgType data w =
     (if msgType \<noteq> ''pair_response'' \<and> msgType \<noteq> ''status_OK'' \<and> msgType \<noteq> ''status_PAIR_DECLINED'' \<and>
         msgType \<noteq> ''status_INVALID_SIGNATURE'' then Some w
      else case Option.bind (json_decode data) (from_json (put_str_fields ''status'' ''publicKey'') ([], [])) of
        None \<Rightarrow> Some w
      | Some (status, pem) \<Rightarrow>
          if status = ''OK'' then pair_ok env pem w
          else if status = ''PAIR_DECLINED'' then
            Some (if rr_requirePairing (rw_rcv w) then terminateLocked w else acceptFilesAfterPair env w)
          else Some w)"

section \<open>Frames\<close>

definition handleFileHeader :: "rtc_env \<Rightarrow> rtc_message \<Rightarrow> string \<Rightarrow> rtc_world \<Rightarrow> rtc_world" where
  "handleFileHeader env msg msgType w =
     (if msgType \<noteq> ''file_header'' then w
      else case msg of
        RTCSendFileHeader fid token \<Rightarrow> fst (startReceivingFile (re_uni env) fid token w)
      | _ \<Rightarrow> w)"

text \<open>A frame while a file is open: content, the next header, or the end.\<close>

definition receiving_frame :: "rtc_env \<Rightarrow> bytes \<Rightarrow> bool \<Rightarrow> rtc_world \<Rightarrow> rtc_world" where
  "receiving_frame env data isString w =
     (if \<not> isString then handleBinaryData data w
      else
        let w1 = finishCurrentFile env w in
        if data = ''0'' then drop_peer (upd (\<lambda>r. r\<lparr>rr_state := stateDone\<rparr>) w1)
        else case Option.bind (json_decode data) (from_json (put_str_fields ''id'' ''token'') ([], [])) of
               Some (fid, token) \<Rightarrow>
                 if fid = [] then terminateLocked w1
                 else fst (startReceivingFile (re_uni env) fid token w1)
             | None \<Rightarrow> terminateLocked w1)"

text \<open>A complete control message. An empty text frame that cannot be parsed while the receiver
  waits for files is indexed without a check.\<close>

definition control_message :: "rtc_env \<Rightarrow> bytes \<Rightarrow> rtc_world \<Rightarrow> rtc_world option" where
  "control_message env data w =
     (case ParseRTCMessage data of
        None \<Rightarrow>
          if rr_state (rw_rcv w) = stateWaitFiles
          then (case data of
                  [] \<Rightarrow> None
                | c # _ \<Rightarrow> Some (if c \<noteq> CHR ''{'' then handleBinaryData data w else w))
          else Some w
      | Some (msg, msgType) \<Rightarrow>
          (case rr_state (rw_rcv w) of
             stateWaitNonce \<Rightarrow> Some (handleNonce env msg msgType w)
           | stateWaitToken \<Rightarrow> Some (handleToken env msg msgType w)
           | stateWaitPin \<Rightarrow> Some (handlePin env msg msgType w)
           | stateWaitFileList \<Rightarrow> Some (handleFileList env msgType data w)
           | stateWaitPairResponse \<Rightarrow> handlePairResponse env msgType data w
           | stateWaitFiles \<Rightarrow> Some (handleFileHeader env msg msgType w)
           | _ \<Rightarrow> Some w))"

definition handleDataMessage :: "rtc_env \<Rightarrow> bytes \<Rightarrow> bool \<Rightarrow> rtc_world \<Rightarrow> rtc_world option" where
  "handleDataMessage env data isString w =
     (let r = rw_rcv w in
      if rr_state r = stateReceivingFiles \<and> rr_currentFileID r \<noteq> [] then
        Some (receiving_frame env data isString w)
      else if isString \<and> data = ''0'' then
        (if rr_controlBuffer r \<noteq> []
         then control_message env (rr_controlBuffer r) (upd (\<lambda>r. r\<lparr>rr_controlBuffer := []\<rparr>) w)
         else Some w)
      else if \<not> isString then
        (if int (length (rr_controlBuffer r)) + int (length data) > maxControlMessageBytes
         then Some (upd (\<lambda>r. r\<lparr>rr_controlBuffer := []\<rparr>) w)
         else Some (upd (\<lambda>r. r\<lparr>rr_controlBuffer := rr_controlBuffer r @ data\<rparr>) w))
      else control_message env data w)"

text \<open>\<^verbatim>\<open>handleMessage\<close>, for callers that do not know the kind of a frame.\<close>

definition handleMessage :: "rtc_env \<Rightarrow> bytes \<Rightarrow> rtc_world \<Rightarrow> rtc_world option" where
  "handleMessage env data w =
     handleDataMessage env data (data = ''0'' \<or> json_decode data \<noteq> None) w"

end
