(* ===== verification/RtcFiles.thy ===== *)
theory RtcFiles
  imports RtcHandlers SaveFileProps
begin

text \<open>
  The files of the WebRTC receiver: at most one is open, what was received for it is on disk or
  in its buffer, and every file that was reported as received stays on disk with its size, in a
  path of its own inside the configured directories. The theorems hold for every sequence of
  frames, offers and closings.
\<close>

section \<open>Projections\<close>

lemma upd_simps [simp]:
  "rw_rcv (upd f w) = f (rw_rcv w)" "rw_fs (upd f w) = rw_fs w" "rw_log (upd f w) = rw_log w"
  "rw_blocked (upd f w) = rw_blocked w" "rw_sends (upd f w) = rw_sends w"
  by (simp_all add: upd_def)

lemma emit_simps [simp]:
  "rw_rcv (emit e w) = rw_rcv w" "rw_fs (emit e w) = rw_fs w" "rw_log (emit e w) = rw_log w @ [e]"
  "rw_blocked (emit e w) = rw_blocked w" "rw_sends (emit e w) = rw_sends w"
  by (simp_all add: emit_def)

fun received_of :: "rtc_event \<Rightarrow> (string \<times> int) list" where
  "received_of (FileReceived name sz) = [(name, sz)]"
| "received_of _ = []"

definition received :: "rtc_event list \<Rightarrow> (string \<times> int) list" where
  "received log = concat (map received_of log)"

lemma received_append [simp]: "received (xs @ ys) = received xs @ received ys"
  and received_simps [simp]: "received [] = []" "received (e # es) = received_of e @ received es"
  by (simp_all add: received_def)

text \<open>A send changes the log only, by one event if it succeeds.\<close>

lemma send_event_simps [simp]:
  "rw_rcv (fst (send_event e w)) = rw_rcv w" "rw_fs (fst (send_event e w)) = rw_fs w"
  "rw_blocked (fst (send_event e w)) = rw_blocked w"
  "rw_log (fst (send_event e w)) = rw_log w @ (if snd (send_event e w) then [e] else [])"
  by (auto simp: send_event_def Let_def split: list.split)

lemma send_event_nopeer: "rr_peer (rw_rcv w) = None \<Longrightarrow> send_event e w = (w, False)"
  by (simp add: send_event_def)

lemma send_event_sent:
  "rr_peer (rw_rcv w) \<noteq> None \<Longrightarrow> rw_sends w = [] \<Longrightarrow> send_event e w = (emit e w, True)"
  by (auto simp: send_event_def)

lemmas sends = sendJSON_def sendJSONBinary_def sendDelimiter_def

lemma mark_simps [simp]:
  "rw_fs (markTransferStartedLocked w) = rw_fs w" "rw_fs (markTransferDoneLocked w) = rw_fs w"
  "rw_blocked (markTransferStartedLocked w) = rw_blocked w"
  "rw_blocked (markTransferDoneLocked w) = rw_blocked w"
  "rw_rcv (markTransferStartedLocked w) = (rw_rcv w)\<lparr>rr_transferActive := True\<rparr>"
  "rw_rcv (markTransferDoneLocked w) = (rw_rcv w)\<lparr>rr_transferActive := False\<rparr>"
  "received (rw_log (markTransferStartedLocked w)) = received (rw_log w)"
  "received (rw_log (markTransferDoneLocked w)) = received (rw_log w)"
  by (simp_all add: markTransferStartedLocked_def markTransferDoneLocked_def)

lemma drop_peer_simps [simp]:
  "rw_fs (drop_peer w) = rw_fs w" "rw_blocked (drop_peer w) = rw_blocked w"
  "rw_rcv (drop_peer w) = (rw_rcv w)\<lparr>rr_peer := None\<rparr>"
  "received (rw_log (drop_peer w)) = received (rw_log w)"
  by (simp_all add: drop_peer_def split: option.split)

lemma sendError_simps [simp]:
  "rw_rcv (sendErrorLocked m w) = rw_rcv w" "rw_fs (sendErrorLocked m w) = rw_fs w"
  "rw_blocked (sendErrorLocked m w) = rw_blocked w"
  "received (rw_log (sendErrorLocked m w)) = received (rw_log w)"
  by (simp_all add: sendErrorLocked_def sends)

lemma cleanup_simps [simp]:
  "rw_fs (cleanupPartialFilesLocked w) = remove_all (rr_filePaths (rw_rcv w)) (rw_fs w)"
  "rw_blocked (cleanupPartialFilesLocked w) = rw_blocked w"
  "received (rw_log (cleanupPartialFilesLocked w)) = received (rw_log w)"
  "rw_rcv (cleanupPartialFilesLocked w) = (rw_rcv w)\<lparr>rr_fileWriters := [], rr_fileBuffers := [],
     rr_filePaths := [], rr_fileHashers := [], rr_transferActive := False, rr_currentFileID := [],
     rr_currentBytes := 0\<rparr>"
  by (simp_all add: cleanupPartialFilesLocked_def Let_def)

section \<open>The invariant\<close>

definition rtc_dirs :: "RTCReceiver \<Rightarrow> string set" where
  "rtc_dirs r = insert (rr_saveDir r) (case rr_extRoutes r of None \<Rightarrow> {} | Some m \<Rightarrow> snd ` set m)"

definition within :: "string set \<Rightarrow> string \<Rightarrow> bool" where
  "within D p \<longleftrightarrow> (\<exists>d \<in> D. path_under d p)"

text \<open>A reported file on disk, and all of them in paths of their own, none of them open.\<close>

definition saved_at :: "string set \<Rightarrow> fsys \<Rightarrow> string \<Rightarrow> string \<times> int \<Rightarrow> bool" where
  "saved_at D fs p x \<longleftrightarrow> within D p \<and> path_base p = fst x \<and>
     (\<exists>b. file_content fs p = Some b \<and> int (length b) = snd x)"

definition saved :: "string set \<Rightarrow> fsys \<Rightarrow> string set \<Rightarrow> (string \<times> int) list \<Rightarrow> bool" where
  "saved D fs opn xs \<longleftrightarrow>
     (\<exists>ps. list_all2 (saved_at D fs) ps xs \<and> distinct (map path_key ps) \<and>
           path_key ` opn \<inter> path_key ` set ps = {})"

lemma saved_frame:
  assumes "saved D fs opn xs"
    and "\<And>q b. within D q \<Longrightarrow> path_key q \<notin> path_key ` opn \<Longrightarrow> file_content fs q = Some b \<Longrightarrow>
      file_content fs' q = Some b"
  shows "saved D fs' opn xs"
proof -
  obtain ps where ps: "list_all2 (saved_at D fs) ps xs" "distinct (map path_key ps)"
    "path_key ` opn \<inter> path_key ` set ps = {}" using assms(1) by (auto simp: saved_def)
  have "list_all2 (saved_at D fs') ps xs"
    using ps(1)
  proof (rule list.rel_mono_strong)
    fix q x assume q: "q \<in> set ps" "saved_at D fs q x"
    then have "path_key q \<notin> path_key ` opn" using ps(3) by auto
    with q(2) assms(2) show "saved_at D fs' q x" unfolding saved_at_def by blast
  qed
  with ps show ?thesis unfolding saved_def by blast
qed

lemma saved_open: "saved D fs {} xs \<Longrightarrow> file_content fs p = None \<Longrightarrow> saved D fs {p} xs"
proof -
  assume s: "saved D fs {} xs" and p: "file_content fs p = None"
  obtain ps where ps: "list_all2 (saved_at D fs) ps xs" "distinct (map path_key ps)"
    using s by (auto simp: saved_def)
  have "file_content fs q \<noteq> None" if "q \<in> set ps" for q
    using ps(1) that by (auto simp: list_all2_conv_all_nth in_set_conv_nth saved_at_def)
  moreover have "file_content fs q = None" if "path_key q = path_key p" for q
    using p that by (simp add: file_content_def)
  ultimately have "path_key p \<notin> path_key ` set ps" by force
  with ps show ?thesis unfolding saved_def by auto
qed

lemma saved_add: "saved D fs {p} xs \<Longrightarrow> saved_at D fs p x \<Longrightarrow> saved D fs {} (xs @ [x])"
proof -
  assume s: "saved D fs {p} xs" and x: "saved_at D fs p x"
  obtain ps where "list_all2 (saved_at D fs) ps xs" "distinct (map path_key ps)"
    "path_key p \<notin> path_key ` set ps" using s by (auto simp: saved_def)
  then have "list_all2 (saved_at D fs) (ps @ [p]) (xs @ [x])" "distinct (map path_key (ps @ [p]))"
    using x by (auto simp: list_all2_appendI)
  then show ?thesis unfolding saved_def by blast
qed

lemma saved_close: "saved D fs opn xs \<Longrightarrow> saved D fs {} xs"
  by (auto simp: saved_def)

text \<open>The open file: \<open>d\<close> is what was received for it.\<close>

definition open_file :: "string set \<Rightarrow> fsys \<Rightarrow> RTCReceiver \<Rightarrow> RTCFileDto \<Rightarrow> string \<Rightarrow> bufw \<Rightarrow> bytes \<Rightarrow> bool" where
  "open_file D fs r meta path b d \<longleftrightarrow>
     (let fid = rr_currentFileID r in
      mget (rr_fileByID r) fid = Some meta \<and> rr_fileWriters r = [(fid, path)] \<and>
      rr_fileBuffers r = [(fid, b)] \<and> rr_filePaths r = [(fid, path)] \<and>
      rr_fileHashers r = (if rf_sha256 meta \<noteq> [] then [(fid, d)] else []) \<and>
      bw_path b = path \<and> path \<noteq> [] \<and> within D path \<and> path_key path \<notin> set (fs_denied fs) \<and>
      (\<exists>c. file_content fs path = Some c \<and> (\<not> bw_failed b \<longrightarrow> c @ bw_data b = d)) \<and>
      rr_currentBytes r = int (length d) \<and> (int (length d) \<le> rf_size meta \<or> d = []))"

definition no_file :: "RTCReceiver \<Rightarrow> bool" where
  "no_file r \<longleftrightarrow> rr_fileWriters r = [] \<and> rr_fileBuffers r = [] \<and> rr_filePaths r = [] \<and> rr_fileHashers r = []"

text \<open>The file of the trusted devices, and its temporary, are not where files are received.\<close>

definition store_apart :: "string set \<Rightarrow> TrustedDeviceStore option \<Rightarrow> bool" where
  "store_apart D store \<longleftrightarrow>
     (case store of
        None \<Rightarrow> True
      | Some s \<Rightarrow> ts_configDir s \<noteq> [] \<and>
          (\<forall>q. within D q \<longrightarrow> path_key q \<noteq> path_key (devices_path (ts_configDir s)) \<and>
                                path_key q \<noteq> path_key (devices_path (ts_configDir s) @ ''.tmp'')))"

definition setup_ok :: "string set \<Rightarrow> RTCReceiver \<Rightarrow> bool" where
  "setup_ok D r \<longleftrightarrow> rtc_dirs r \<subseteq> D \<and> [] \<notin> D \<and> store_apart D (rr_trustedStore r) \<and>
     list_all (\<lambda>f. is_int64 (rf_size f)) (rr_files r) \<and>
     list_all (\<lambda>x. is_int64 (rf_size (snd x))) (rr_fileByID r) \<and>
     (case rr_folderRemapper r of None \<Rightarrow> True | Some m \<Rightarrow> remap_plain (remap m))"

definition files_inv :: "string set \<Rightarrow> rtc_world \<Rightarrow> bool" where
  "files_inv D w \<longleftrightarrow>
     (let r = rw_rcv w in
      setup_ok D r \<and>
      saved D (rw_fs w) (snd ` set (rr_filePaths r)) (received (rw_log w)) \<and>
      (if rr_currentFileID r = [] then no_file r \<and> rr_currentBytes r = 0
       else \<exists>meta path b d. open_file D (rw_fs w) r meta path b d) \<and>
      (rr_state r = stateReceivingFiles \<longleftrightarrow> rr_currentFileID r \<noteq> []) \<and>
      (rr_accepting r \<longrightarrow> rr_peer r = None \<and> rr_state r \<in> {stateWaitNonce, stateDone}))"

definition idle_inv :: "string set \<Rightarrow> rtc_world \<Rightarrow> bool" where
  "idle_inv D w \<longleftrightarrow> setup_ok D (rw_rcv w) \<and> saved D (rw_fs w) {} (received (rw_log w)) \<and>
     no_file (rw_rcv w) \<and> rr_currentFileID (rw_rcv w) = [] \<and> rr_currentBytes (rw_rcv w) = 0"

definition free_ok :: "RTCReceiver \<Rightarrow> bool" where
  "free_ok r \<longleftrightarrow> rr_state r \<noteq> stateReceivingFiles \<and>
     (rr_accepting r \<longrightarrow> rr_peer r = None \<and> rr_state r \<in> {stateWaitNonce, stateDone})"

lemma files_inv_cong:
  "rw_rcv w' = rw_rcv w \<Longrightarrow> rw_fs w' = rw_fs w \<Longrightarrow> received (rw_log w') = received (rw_log w) \<Longrightarrow>
   files_inv D w' \<longleftrightarrow> files_inv D w"
  by (simp add: files_inv_def)

lemma idle_files_inv: "idle_inv D w \<Longrightarrow> free_ok (rw_rcv w) \<Longrightarrow> files_inv D w"
  by (simp add: idle_inv_def free_ok_def files_inv_def Let_def no_file_def)

lemma files_idle_inv:
  assumes "files_inv D w" and "rr_state (rw_rcv w) \<noteq> stateReceivingFiles"
  shows "idle_inv D w" and "free_ok (rw_rcv w)"
  using assms by (auto simp: idle_inv_def free_ok_def files_inv_def Let_def no_file_def)

text \<open>Handshake steps leave the files alone.\<close>

definition same_files :: "rtc_world \<Rightarrow> rtc_world \<Rightarrow> bool" where
  "same_files w w' \<longleftrightarrow> rw_fs w' = rw_fs w \<and> received (rw_log w') = received (rw_log w) \<and>
     (let r = rw_rcv w; r' = rw_rcv w' in
      rr_saveDir r' = rr_saveDir r \<and> rr_extRoutes r' = rr_extRoutes r \<and> rr_files r' = rr_files r \<and>
      rr_fileByID r' = rr_fileByID r \<and> rr_folderRemapper r' = rr_folderRemapper r \<and>
      rr_trustedStore r' = rr_trustedStore r \<and> rr_fileWriters r' = rr_fileWriters r \<and> rr_fileBuffers r' = rr_fileBuffers r \<and>
      rr_filePaths r' = rr_filePaths r \<and> rr_fileHashers r' = rr_fileHashers r \<and>
      rr_currentFileID r' = rr_currentFileID r \<and> rr_currentBytes r' = rr_currentBytes r)"

lemma idle_same: "idle_inv D w \<Longrightarrow> same_files w w' \<Longrightarrow> idle_inv D w'"
  by (auto simp: idle_inv_def same_files_def setup_ok_def rtc_dirs_def no_file_def Let_def)

section \<open>Each operation keeps it\<close>

lemma remove_frame: "path_key q \<noteq> path_key p \<Longrightarrow> file_content (fst (os_remove fs p)) q = file_content fs q"
  by (rule file_content_cong) (simp add: go_fs)

lemma cleanup_inv:
  assumes "files_inv D w"
  shows "idle_inv D (cleanupPartialFilesLocked w)"
proof (cases "rr_currentFileID (rw_rcv w) = []")
  case True
  with assms have "no_file (rw_rcv w)" "setup_ok D (rw_rcv w)"
    "saved D (rw_fs w) (snd ` set (rr_filePaths (rw_rcv w))) (received (rw_log w))"
    by (simp_all add: files_inv_def Let_def)
  then show ?thesis
    by (auto simp: idle_inv_def no_file_def remove_all_def setup_ok_def rtc_dirs_def)
next
  case False
  with assms obtain meta path b d where o: "open_file D (rw_fs w) (rw_rcv w) meta path b d"
    and s: "setup_ok D (rw_rcv w)"
    and sv: "saved D (rw_fs w) (snd ` set (rr_filePaths (rw_rcv w))) (received (rw_log w))"
    by (auto simp: files_inv_def Let_def)
  then have p: "rr_filePaths (rw_rcv w) = [(rr_currentFileID (rw_rcv w), path)]" by (simp add: open_file_def Let_def)
  with sv have "saved D (fst (os_remove (rw_fs w) path)) {path} (received (rw_log w))"
    by (auto intro: saved_frame simp: remove_frame)
  then show ?thesis using s p
    by (auto simp: idle_inv_def no_file_def remove_all_def setup_ok_def rtc_dirs_def dest: saved_close)
qed

lemma terminate_inv: "files_inv D w \<Longrightarrow> files_inv D (terminateLocked w)"
  by (rule idle_files_inv, rule idle_same [OF cleanup_inv])
    (simp_all add: terminateLocked_def same_files_def free_ok_def Let_def)

lemma closed_inv:
  assumes "files_inv D w"
  shows "files_inv D (handlePeerClosed p w)"
proof (cases "rr_peer (rw_rcv w) = Some p")
  case True
  show ?thesis
    by (rule idle_files_inv, rule idle_same [OF cleanup_inv [OF assms]])
      (simp_all add: True handlePeerClosed_def same_files_def free_ok_def Let_def)
qed (simp add: handlePeerClosed_def assms)

lemma close_inv: "files_inv D w \<Longrightarrow> files_inv D (rtc_Close w)"
  by (rule idle_files_inv, rule idle_same [OF cleanup_inv])
    (simp_all add: rtc_Close_def same_files_def free_ok_def Let_def)

lemma reset_idle: "idle_inv D w \<Longrightarrow> idle_inv D (upd (reset_for_offer alias peerID) w)"
  by (simp add: idle_inv_def reset_for_offer_def setup_ok_def rtc_dirs_def no_file_def)

lemma begin_inv:
  assumes "files_inv D w" and "accept_begin now peerID alias w = (w', e)"
  shows "files_inv D w'"
proof -
  let ?wb = "w\<lparr>rw_blocked := fst (isPeerBlocked now peerID (rw_blocked w))\<rparr>"
  let ?w1 = "cleanupPartialFilesLocked (upd (\<lambda>r. r\<lparr>rr_peer := None, rr_accepting := True\<rparr>) ?wb)"
  let ?w2 = "upd (reset_for_offer alias peerID) ?w1"
  have b: "files_inv D ?wb" using assms(1) by (subst files_inv_cong [where w = w]) simp_all
  have "idle_inv D (cleanupPartialFilesLocked ?wb)" by (rule cleanup_inv [OF b])
  then have "idle_inv D ?w1" by (rule idle_same) (simp add: same_files_def Let_def)
  then have r: "files_inv D ?w2"
    by (auto intro!: idle_files_inv reset_idle simp: free_ok_def reset_for_offer_def)
  then have "files_inv D (emit (ClosedPeer p) ?w2)" for p
    by (subst files_inv_cong [where w = ?w2]) simp_all
  with r b assms(2) show ?thesis
    by (auto simp: accept_begin_def Let_def split: prod.splits if_splits option.splits)
qed

lemma accepting_free: "files_inv D w \<Longrightarrow> rr_accepting (rw_rcv w) \<Longrightarrow> rr_state (rw_rcv w) \<noteq> stateReceivingFiles"
  by (auto simp: files_inv_def Let_def)

lemma fail_inv: "files_inv D w \<Longrightarrow> rr_accepting (rw_rcv w) \<Longrightarrow> files_inv D (failAccept w)"
  by (rule idle_files_inv, rule idle_same [OF files_idle_inv(1)])
    (simp_all add: accepting_free failAccept_def same_files_def free_ok_def Let_def)

lemma install_inv:
  assumes "files_inv D w" and "accept_install p w = (w', e)"
  shows "files_inv D w'"
proof (cases "rr_accepting (rw_rcv w)")
  case True
  with assms(2) have w': "w' = upd (\<lambda>r. r\<lparr>rr_peer := Some p, rr_accepting := False\<rparr>) w"
    by (simp add: accept_install_def)
  show ?thesis unfolding w'
    by (rule idle_files_inv, rule idle_same [OF files_idle_inv(1) [OF assms(1) accepting_free [OF assms(1) True]]])
      (use accepting_free [OF assms(1) True] in \<open>simp_all add: same_files_def free_ok_def Let_def\<close>)
next
  case False
  with assms(2) have "w' = emit (ClosedPeer p) w" by (simp add: accept_install_def)
  with assms(1) show ?thesis by (subst files_inv_cong [where w = w]) simp_all
qed

lemma metaByID:
  assumes "setup_ok D r" and "fileMetaByID fid r = (r', found)"
  shows "r' = r\<lparr>rr_fileByID := rr_fileByID r'\<rparr>" and "setup_ok D r'"
    and "found = Some meta \<Longrightarrow> mget (rr_fileByID r') fid = Some meta \<and> is_int64 (rf_size meta)"
    and "mget (rr_fileByID r) fid = Some m \<Longrightarrow> r' = r \<and> found = Some m"
proof -
  have sz: "is_int64 (rf_size m)" if "mget (rr_fileByID r) fid = Some m \<or> find (\<lambda>f. rf_id f = fid) (rr_files r) = Some m" for m
    using that assms(1) by (auto simp: setup_ok_def list_all_iff find_Some_iff dest!: map_of_SomeD)
  show r': "r' = r\<lparr>rr_fileByID := rr_fileByID r'\<rparr>"
    and "mget (rr_fileByID r) fid = Some m \<Longrightarrow> r' = r \<and> found = Some m"
    using assms(2) by (auto simp: fileMetaByID_def split: option.splits)
  show "found = Some meta \<Longrightarrow> mget (rr_fileByID r') fid = Some meta \<and> is_int64 (rf_size meta)"
    using assms(2) sz by (auto simp: fileMetaByID_def split: option.splits)
  have "list_all (\<lambda>x. is_int64 (rf_size (snd x))) (rr_fileByID r')"
    using assms sz by (auto simp: fileMetaByID_def setup_ok_def list_all_iff split: option.splits
        dest!: set_mput_subset [THEN subsetD])
  then show "setup_ok D r'"
    using assms(1) by (subst r') (simp add: setup_ok_def rtc_dirs_def)
qed

lemma reject_inv:
  assumes "idle_inv D w" and "\<not> rr_accepting (rw_rcv w)"
  shows "files_inv D (rejectFileTransfer w)"
proof (rule idle_files_inv)
  have "rr_currentFileID (rw_rcv w) = []" using assms(1) by (simp add: idle_inv_def)
  then show "idle_inv D (rejectFileTransfer w)"
    by (intro idle_same [OF assms(1)]) (simp add: rejectFileTransfer_def same_files_def Let_def)
  show "free_ok (rw_rcv (rejectFileTransfer w))"
    using assms(2) by (simp add: rejectFileTransfer_def free_ok_def)
qed

text \<open>A header opens a fresh file inside the directories.\<close>

lemma getSaveDir_ok:
  assumes "setup_ok D r" and "rtc_getSaveDir uni name r = (r', dir)"
  shows "dir \<in> D" and "\<exists>b k. r' = r\<lparr>rr_folderTransfer := b, rr_folderTransferKnown := k\<rparr>"
proof -
  obtain b where f: "rtc_isFolderTransfer r = (fst (rtc_isFolderTransfer r), b)" by (metis prod.collapse)
  have r1: "\<exists>b k. fst (rtc_isFolderTransfer r) = r\<lparr>rr_folderTransfer := b, rr_folderTransferKnown := k\<rparr>"
  proof (cases "rr_folderTransferKnown r")
    case True
    then have "fst (rtc_isFolderTransfer r) = r\<lparr>rr_folderTransfer := rr_folderTransfer r, rr_folderTransferKnown := True\<rparr>"
      by (simp add: rtc_isFolderTransfer_def)
    then show ?thesis by blast
  qed (auto simp: rtc_isFolderTransfer_def Let_def)
  have r': "r' = fst (rtc_isFolderTransfer r)"
    using assms(2) f by (cases b) (auto simp: rtc_getSaveDir_def split: prod.splits)
  with r1 show "\<exists>b k. r' = r\<lparr>rr_folderTransfer := b, rr_folderTransferKnown := k\<rparr>" by simp
  have d: "rr_saveDir r \<in> D" "rr_extRoutes r = Some m \<Longrightarrow> mget m k = Some x \<Longrightarrow> x \<in> D" for m k x
    using assms(1) by (auto simp: setup_ok_def rtc_dirs_def dest!: map_of_SomeD)
  have "rr_saveDir r' = rr_saveDir r" "rr_extRoutes r' = rr_extRoutes r" using r1 r' by auto
  with d show "dir \<in> D"
    using assms(2) r' f by (cases b)
      (auto simp: rtc_getSaveDir_def Let_def split: prod.splits option.splits if_splits)
qed

text \<open>Looking up a file touches the caches only.\<close>

definition kept :: "RTCReceiver \<Rightarrow> RTCReceiver \<Rightarrow> bool" where
  "kept r r' \<longleftrightarrow> rr_state r' = rr_state r \<and> rr_accepting r' = rr_accepting r \<and> rr_peer r' = rr_peer r \<and>
     rr_currentFileID r' = rr_currentFileID r \<and> rr_currentBytes r' = rr_currentBytes r \<and>
     rr_fileWriters r' = rr_fileWriters r \<and> rr_fileBuffers r' = rr_fileBuffers r \<and>
     rr_filePaths r' = rr_filePaths r \<and> rr_fileHashers r' = rr_fileHashers r"

lemma kept_trans: "kept a b \<Longrightarrow> kept b c \<Longrightarrow> kept a c"
  by (simp add: kept_def)

lemma metaByID_kept: "fileMetaByID fid r = (r', found) \<Longrightarrow> kept r r'"
  by (auto simp: fileMetaByID_def kept_def split: option.splits)

lemma header_target_ok:
  assumes "setup_ok D r" and "header_target uni fid r = (r', res)"
  shows "kept r r'" and "setup_ok D r'"
    and "res = Some (meta, dir, base) \<Longrightarrow> mget (rr_fileByID r') fid = Some meta \<and> is_int64 (rf_size meta) \<and>
      dir \<noteq> [] \<and> plain_comp base \<and> (\<forall>q. path_under dir q \<longrightarrow> within D q)"
proof -
  obtain r1 found where f: "fileMetaByID fid r = (r1, found)" by fastforce
  note m = metaByID [OF assms(1) f] metaByID_kept [OF f]
  have "kept r r' \<and> setup_ok D r' \<and> (res = Some (meta, dir, base) \<longrightarrow>
      mget (rr_fileByID r') fid = Some meta \<and> is_int64 (rf_size meta) \<and>
      dir \<noteq> [] \<and> plain_comp base \<and> (\<forall>q. path_under dir q \<longrightarrow> within D q))" (is ?goal)
  proof (cases found)
    case None
    with assms(2) f m show ?thesis by (simp add: header_target_def)
  next
    case (Some mt)
    show ?thesis
    proof (cases "SanitizePathWithFallback (rf_fileName mt)")
      case (Inl e)
      with assms(2) f m Some show ?thesis by (simp add: header_target_def)
    next
      case (Inr sp)
      let ?p = "rtc_applyFolderRemap r1 sp"
      obtain r2 d where g: "rtc_getSaveDir uni (rf_fileName mt) r1 = (r2, d)" by fastforce
      note g' = getSaveDir_ok [OF m(2) g]
      have res: "r' = r2" "res = Some (mt, full_dir d (path_dir ?p), path_base ?p)"
        using assms(2) f Some Inr g by (simp_all add: header_target_def Let_def)
      have "safe_rel sp" by (rule SanitizePathWithFallback_InrD [OF Inr])
      then have sp: "safe_rel ?p"
        using m(2) by (auto simp: rtc_applyFolderRemap_def setup_ok_def remap_apply_comps split: option.splits)
      have d: "d \<noteq> []" using g'(1) m(2) by (auto simp: setup_ok_def)
      obtain b k where r2: "r2 = r1\<lparr>rr_folderTransfer := b, rr_folderTransferKnown := k\<rparr>" using g'(2) by blast
      have "kept r1 r2" "setup_ok D r2" using m(2) by (simp_all add: r2 kept_def setup_ok_def rtc_dirs_def)
      moreover have "within D q" if "path_under (full_dir d (path_dir ?p)) q" for q
        using full_dir_safe(2) [OF sp d that] g'(1) by (auto simp: within_def)
      ultimately show ?thesis
        using res m(3) [of mt] Some kept_trans [OF m(5)] base_safe [OF sp] full_dir_safe(1) [OF sp d]
        by (auto simp: r2)
    qed
  qed
  then show "kept r r'" and "setup_ok D r'" and "res = Some (meta, dir, base) \<Longrightarrow> mget (rr_fileByID r') fid = Some meta \<and>
      is_int64 (rf_size meta) \<and> dir \<noteq> [] \<and> plain_comp base \<and> (\<forall>q. path_under dir q \<longrightarrow> within D q)" by blast+
qed

lemma ensure_ok:
  assumes "rtc_ensureSaveDir dir w = (w', ok)"
  shows "rw_rcv w' = (rw_rcv w)\<lparr>rr_ensuredDirs := rr_ensuredDirs (rw_rcv w')\<rparr>" and "rw_log w' = rw_log w"
    and "file_content (rw_fs w') q = file_content (rw_fs w) q"
proof -
  obtain fs b where m: "mkdir_all (rw_fs w) dir = (fs, b)" by fastforce
  have "file_content fs q = file_content (rw_fs w) q"
    using mkdir_all_files [of "rw_fs w" dir q] m by simp
  with assms m show "rw_rcv w' = (rw_rcv w)\<lparr>rr_ensuredDirs := rr_ensuredDirs (rw_rcv w')\<rparr>" and "rw_log w' = rw_log w"
    and "file_content (rw_fs w') q = file_content (rw_fs w) q"
    by (auto simp: rtc_ensureSaveDir_def split: if_splits bool.splits)
qed

text \<open>Steps that keep the receiver's file state but may add directories or caches.\<close>

lemma idle_kept:
  assumes "idle_inv D w" and "kept (rw_rcv w) (rw_rcv w')" and "setup_ok D (rw_rcv w')"
    and "\<And>q. within D q \<Longrightarrow> file_content (rw_fs w') q = file_content (rw_fs w) q"
    and "received (rw_log w') = received (rw_log w)"
  shows "idle_inv D w'"
proof -
  have "saved D (rw_fs w) {} (received (rw_log w))" using assms(1) by (simp add: idle_inv_def)
  then have "saved D (rw_fs w') {} (received (rw_log w))"
    by (rule saved_frame) (simp add: assms(4))
  then show ?thesis using assms(1,2,3,5) by (simp add: idle_inv_def kept_def no_file_def)
qed

lemma alloc_create_denied:
  assumes "alloc_create a fs dir base = Inr (a', fs', p)"
  shows "path_key p \<notin> set (fs_denied fs')"
proof -
  obtain j where "createUniqueFileFrom fs dir base (alloc_hint a (dir, base)) = Inr (fs', p, j)"
    using assms by (rule alloc_create_InrD)
  then have "open_excl fs p = Inr fs'" by (rule createUniqueFileFrom_InrD(1))
  from open_excl_denied [OF this] denied_open_excl [OF this] show ?thesis by simp
qed

lemma open_current_inv:
  assumes "idle_inv D w0" and "\<not> rr_accepting (rw_rcv w0)" and "fid \<noteq> []"
    and "mget (rr_fileByID (rw_rcv w0)) fid = Some meta"
    and "alloc_create a (rw_fs w0) dir base = Inr (a', fs, path)"
    and "dir \<noteq> []" and "plain_comp base" and "\<forall>q. path_under dir q \<longrightarrow> within D q"
  shows "files_inv D (open_current fid meta path (upd (\<lambda>r. r\<lparr>rr_uniqueFiles := a'\<rparr>) (w0\<lparr>rw_fs := fs\<rparr>)))"
    (is "files_inv D ?w")
proof -
  note c = ua.create_fresh [OF assms(5)] ua.create_empty [OF assms(5)] ua.create_frame [OF assms(5)]
    ua.create_under [OF assms(5-7)]
  have fr: "file_content (rw_fs w0) path = None" "file_content fs path = Some []"
    using c(1,2) by (simp_all add: file_content_def)
  have other: "file_content fs q = file_content (rw_fs w0) q" if "path_key q \<noteq> path_key path" for q
    using c(3) that by (simp add: file_content_def)
  have wi: "within D path" using c(4) assms(8) by blast
  have pne: "path \<noteq> []"
  proof
    assume "path = []"
    then have "snd (path_key path) = []" by (simp add: path_key_def clean_list_def path_comps_def)
    with c(2) show False by (simp add: node_at_def)
  qed
  have den: "path_key path \<notin> set (fs_denied fs)"
    using assms(5) by (rule alloc_create_denied)
  have "saved D (rw_fs w0) {path} (received (rw_log w0))"
    using assms(1) by (auto simp: idle_inv_def intro: saved_open fr(1))
  then have sv: "saved D fs {path} (received (rw_log w0))"
    by (rule saved_frame) (use other in auto)
  have "open_file D (rw_fs ?w) (rw_rcv ?w) meta path \<lparr>bw_path = path, bw_data = [], bw_failed = False\<rparr> []"
    using assms(1,4) fr(2) wi pne den
    by (simp add: open_file_def open_current_def Let_def idle_inv_def no_file_def)
  moreover have "setup_ok D (rw_rcv ?w)"
    using assms(1) by (simp add: open_current_def Let_def idle_inv_def setup_ok_def rtc_dirs_def)
  moreover have "rr_currentFileID (rw_rcv ?w) = fid" "rr_state (rw_rcv ?w) = stateReceivingFiles"
    "\<not> rr_accepting (rw_rcv ?w)" "snd ` set (rr_filePaths (rw_rcv ?w)) = {path}"
    "rw_fs ?w = fs" "received (rw_log ?w) = received (rw_log w0)"
    using assms(1,2) by (simp_all add: open_current_def Let_def idle_inv_def no_file_def)
  ultimately show ?thesis
    using sv assms(3) unfolding files_inv_def Let_def by auto
qed

text \<open>The two outcomes of a header.\<close>

lemma start_outcome:
  assumes "idle_inv D w" and "\<not> rr_accepting (rw_rcv w)"
  obtains (rejected) w1 where "startReceivingFile uni fid token w = (rejectFileTransfer w1, False)"
      and "idle_inv D w1" and "\<not> rr_accepting (rw_rcv w1)" and "rw_log w1 = rw_log w"
      and "\<And>q. file_content (rw_fs w1) q = file_content (rw_fs w) q"
  | (opened) w1 meta dir base a fs path where "startReceivingFile uni fid token w =
        (open_current fid meta path (upd (\<lambda>r. r\<lparr>rr_uniqueFiles := a\<rparr>) (w1\<lparr>rw_fs := fs\<rparr>)), True)"
      and "alloc_create (rr_uniqueFiles (rw_rcv w1)) (rw_fs w1) dir base = Inr (a, fs, path)"
      and "idle_inv D w1" and "\<not> rr_accepting (rw_rcv w1)" and "rw_log w1 = rw_log w"
      and "\<And>q. file_content (rw_fs w1) q = file_content (rw_fs w) q"
      and "mget (rr_fileByID (rw_rcv w1)) fid = Some meta" and "dir \<noteq> []" and "plain_comp base"
      and "\<And>q. path_under dir q \<Longrightarrow> within D q"
proof (cases "validateFileHeader (rw_rcv w) fid token")
  case False
  then show ?thesis by (intro rejected [of w] assms) (simp_all add: startReceivingFile_def)
next
  case True
  obtain r res where h: "header_target uni fid (rw_rcv w) = (r, res)" by fastforce
  have su: "setup_ok D (rw_rcv w)" using assms(1) by (simp add: idle_inv_def)
  note hk = header_target_ok [OF su h]
  let ?wr = "w\<lparr>rw_rcv := r\<rparr>"
  have ir: "idle_inv D ?wr" by (rule idle_kept [OF assms(1)]) (use hk in simp_all)
  have ar: "\<not> rr_accepting (rw_rcv ?wr)" using assms(2) hk(1) by (simp add: kept_def)
  show ?thesis
  proof (cases res)
    case None
    with True h ir ar show ?thesis by (intro rejected [of ?wr]) (simp_all add: startReceivingFile_def)
  next
    case (Some t)
    obtain meta dir base where t: "t = (meta, dir, base)" by (cases t)
    note ht = hk(3) [of meta dir base, unfolded Some t, OF refl]
    obtain w1 ok where e: "rtc_ensureSaveDir dir ?wr = (w1, ok)" by fastforce
    obtain ds where r1: "rw_rcv w1 = r\<lparr>rr_ensuredDirs := ds\<rparr>" "rw_log w1 = rw_log w"
      using ensure_ok(1,2) [OF e] by auto
    have i1: "idle_inv D w1"
      by (rule idle_kept [OF ir]) (use hk(2) ensure_ok(3) [OF e] in
          \<open>simp_all add: r1 kept_def setup_ok_def rtc_dirs_def\<close>)
    have w1: "\<not> rr_accepting (rw_rcv w1)" "\<And>q. file_content (rw_fs w1) q = file_content (rw_fs w) q"
      using ar ensure_ok(3) [OF e] by (simp_all add: r1)
    show ?thesis
    proof (cases "ok")
      case False
      with True h Some t e i1 w1 r1 show ?thesis by (intro rejected [of w1]) (simp_all add: startReceivingFile_def)
    next
      case okT: True
      show ?thesis
      proof (cases "alloc_create (rr_uniqueFiles (rw_rcv w1)) (rw_fs w1) dir base")
        case (Inl x)
        with True h Some t e okT i1 w1 r1 show ?thesis by (intro rejected [of w1]) (simp_all add: startReceivingFile_def)
      next
        case (Inr y)
        obtain a' fs path where y: "y = (a', fs, path)" by (cases y)
        show ?thesis
          by (rule opened [of meta path a' fs w1 dir base])
            (use True h Some t e okT Inr y i1 w1 r1 ht in \<open>simp_all add: startReceivingFile_def\<close>)
      qed
    qed
  qed
qed

lemma start_inv:
  assumes "idle_inv D w" and "\<not> rr_accepting (rw_rcv w)" and "fid \<noteq> []"
  shows "files_inv D (fst (startReceivingFile uni fid token w))"
proof (cases rule: start_outcome [OF assms(1,2), of uni fid token])
  case (1 w1)
  then show ?thesis by (simp add: reject_inv)
next
  case (2 w1 meta dir base a fs path)
  with open_current_inv [OF 2(3,4) assms(3) 2(7) 2(2) 2(8,9)] show ?thesis by simp
qed

text \<open>Writing to the open file.\<close>

lemma file_write_content:
  assumes "file_write fs p bs = (fs', n, ok)" and "file_content fs p = Some c"
  shows "file_content fs' p = Some (c @ take n bs)" and "n \<le> length bs" and "ok \<longleftrightarrow> n = length bs"
    and "path_key q \<noteq> path_key p \<Longrightarrow> file_content fs' q = file_content fs q"
    and "fs_denied fs' = fs_denied fs"
proof -
  have k: "snd (path_key p) \<noteq> []" "mget (fs_nodes fs) (path_key p) = Some (FFile c)"
    using assms(2) by (auto simp: file_content_def node_at_def split: if_splits option.splits fnode.splits)
  with assms(1) show "file_content fs' p = Some (c @ take n bs)" and "n \<le> length bs" and "ok \<longleftrightarrow> n = length bs"
    by (auto simp: file_write_def Let_def file_content_def node_at_def set_node_def split: option.splits)
  show "fs_denied fs' = fs_denied fs" using denied_file_write [of fs p bs] assms(1) by simp
  assume "path_key q \<noteq> path_key p"
  then show "file_content fs' q = file_content fs q"
    using file_write_frame [of "path_key q" p fs bs] assms(1) by (simp add: file_content_def)
qed

definition writes_to :: "string \<Rightarrow> fsys \<Rightarrow> fsys \<Rightarrow> bool" where
  "writes_to p fs fs' \<longleftrightarrow> fs_denied fs' = fs_denied fs \<and>
     (\<forall>q. path_key q \<noteq> path_key p \<longrightarrow> file_content fs' q = file_content fs q)"

lemma bufw_flush_effect:
  assumes "bufw_flush fs b = (fs', b', ok)" and "file_content fs (bw_path b) = Some c"
  shows "bw_path b' = bw_path b" and "ok \<longleftrightarrow> \<not> bw_failed b'" and "writes_to (bw_path b) fs fs'"
    and "ok \<Longrightarrow> bw_data b' = [] \<and> \<not> bw_failed b"
    and "\<exists>c'. file_content fs' (bw_path b) = Some c' \<and> (ok \<longrightarrow> c' = c @ bw_data b)"
proof -
  obtain fs1 n k where w: "file_write fs (bw_path b) (bw_data b) = (fs1, n, k)" using prod_cases3 by blast
  note f = file_write_content [OF w assms(2)]
  show "bw_path b' = bw_path b" and "ok \<longleftrightarrow> \<not> bw_failed b'" and "writes_to (bw_path b) fs fs'"
    and "ok \<Longrightarrow> bw_data b' = [] \<and> \<not> bw_failed b"
    and "\<exists>c'. file_content fs' (bw_path b) = Some c' \<and> (ok \<longrightarrow> c' = c @ bw_data b)"
    using assms w f by (auto simp: bufw_flush_def writes_to_def split: if_splits)
qed

lemma bufw_rest_effect:
  assumes "bufw_rest fs b p = (fs', b', ok)" and "file_content fs (bw_path b) = Some c"
    and "bw_data b = []" and "\<not> bw_failed b"
  shows "bw_path b' = bw_path b \<and> (ok \<longleftrightarrow> \<not> bw_failed b') \<and> writes_to (bw_path b) fs fs' \<and>
    (\<exists>c'. file_content fs' (bw_path b) = Some c' \<and> (ok \<longrightarrow> c' @ bw_data b' = c @ p))"
proof -
  obtain fs1 n k where w: "file_write fs (bw_path b) p = (fs1, n, k)" using prod_cases3 by blast
  note f = file_write_content [OF w assms(2)]
  show ?thesis
    using assms w f by (auto simp: bufw_rest_def writes_to_def split: if_splits)
qed

lemma bufw_write_effect:
  assumes "bufw_write fs b p = (fs', b', ok)" and "file_content fs (bw_path b) = Some c"
  shows "bw_path b' = bw_path b \<and> (ok \<longleftrightarrow> \<not> bw_failed b') \<and> writes_to (bw_path b) fs fs' \<and>
    (\<exists>c'. file_content fs' (bw_path b) = Some c' \<and> (ok \<longrightarrow> c' @ bw_data b' = c @ bw_data b @ p)) \<and>
    (ok \<longrightarrow> \<not> bw_failed b)"
proof -
  define avail where "avail = FileIOBufferSize - int (length (bw_data b))"
  consider "bw_failed b" | "\<not> bw_failed b" "int (length p) \<le> avail"
    | "\<not> bw_failed b" "\<not> int (length p) \<le> avail" "bw_data b = []"
    | "\<not> bw_failed b" "\<not> int (length p) \<le> avail" "bw_data b \<noteq> []" by blast
  then show ?thesis
  proof cases
    case 4
    let ?b = "b\<lparr>bw_data := bw_data b @ take (nat avail) p\<rparr>"
    obtain fs1 b1 k where fl: "bufw_flush fs ?b = (fs1, b1, k)" using prod_cases3 by blast
    have "file_content fs (bw_path ?b) = Some c" using assms(2) by simp
    note f = bufw_flush_effect [OF fl this]
    show ?thesis
    proof (cases k)
      case False
      with assms 4 fl f show ?thesis by (auto simp: bufw_write_def Let_def avail_def [symmetric])
    next
      case True
      then have r: "bufw_rest fs1 b1 (drop (nat avail) p) = (fs', b', ok)"
        using assms(1) 4 fl by (simp add: bufw_write_def Let_def avail_def [symmetric])
      obtain c1 where c1: "file_content fs1 (bw_path b1) = Some c1" "c1 = c @ bw_data b @ take (nat avail) p"
        using f True by auto
      from bufw_rest_effect [OF r c1(1)] f True c1(2) 4(1) show ?thesis
        by (auto simp: writes_to_def)
    qed
  next
    case 3
    then have "bufw_rest fs b p = (fs', b', ok)"
      using assms(1) by (simp add: bufw_write_def avail_def)
    from bufw_rest_effect [OF this assms(2) 3(3,1)] 3 show ?thesis by auto
  qed (use assms in \<open>auto simp: bufw_write_def Let_def avail_def [symmetric] writes_to_def\<close>)
qed

section \<open>Content\<close>

lemma open_file_saved:
  assumes "files_inv D w" and "open_file D (rw_fs w) (rw_rcv w) meta path b d"
  shows "saved D (rw_fs w) {path} (received (rw_log w))" and "setup_ok D (rw_rcv w)"
  using assms by (simp_all add: files_inv_def open_file_def Let_def)

lemma saved_writes:
  "saved D fs {path} xs \<Longrightarrow> writes_to path fs fs' \<Longrightarrow> saved D fs' {path} xs"
  by (erule saved_frame) (simp add: writes_to_def)

lemma denied_os_remove [simp]: "fs_denied (fst (os_remove fs p)) = fs_denied fs"
  by (auto simp: os_remove_def Let_def split: option.splits fnode.splits)

lemma os_remove_writes: "writes_to p fs (fst (os_remove fs p))"
  by (simp add: writes_to_def remove_frame)

lemma cleanup_current_inv:
  assumes "files_inv D w"
  shows "idle_inv D (cleanupCurrentFile w)"
proof (cases "rr_currentFileID (rw_rcv w) = []")
  case True
  with assms have "no_file (rw_rcv w)" "setup_ok D (rw_rcv w)"
    "saved D (rw_fs w) (snd ` set (rr_filePaths (rw_rcv w))) (received (rw_log w))"
    by (simp_all add: files_inv_def Let_def)
  with True show ?thesis
    by (auto simp: cleanupCurrentFile_def Let_def idle_inv_def no_file_def setup_ok_def rtc_dirs_def)
next
  case False
  with assms obtain meta path b d where o: "open_file D (rw_fs w) (rw_rcv w) meta path b d"
    by (auto simp: files_inv_def Let_def)
  note s = open_file_saved [OF assms o]
  from saved_writes [OF s(1) os_remove_writes] have
    sv: "saved D (fst (os_remove (rw_fs w) path)) {} (received (rw_log w))" by (rule saved_close)
  from o have r: "mget (rr_filePaths (rw_rcv w)) (rr_currentFileID (rw_rcv w)) = Some path" "path \<noteq> []"
    "no_file ((rw_rcv w)\<lparr>rr_fileBuffers := mdel (rr_currentFileID (rw_rcv w)) (rr_fileBuffers (rw_rcv w)),
      rr_fileWriters := mdel (rr_currentFileID (rw_rcv w)) (rr_fileWriters (rw_rcv w)),
      rr_filePaths := mdel (rr_currentFileID (rw_rcv w)) (rr_filePaths (rw_rcv w)),
      rr_fileHashers := mdel (rr_currentFileID (rw_rcv w)) (rr_fileHashers (rw_rcv w))\<rparr>)"
    by (simp_all add: open_file_def Let_def no_file_def)
  then show ?thesis using sv s(2)
    by (simp add: cleanupCurrentFile_def Let_def idle_inv_def no_file_def setup_ok_def rtc_dirs_def)
qed

lemma cleanup_current_simps [simp]:
  "rr_accepting (rw_rcv (cleanupCurrentFile w)) = rr_accepting (rw_rcv w)"
  by (simp add: cleanupCurrentFile_def Let_def split: option.split)

text \<open>The room left in the open file.\<close>

lemma room_left:
  assumes "open_file D fs r meta path b d" and "is_int64 (rf_size meta)"
  shows "wrap64 (rf_size meta - rr_currentBytes r) = rf_size meta - int (length d)"
proof -
  have "is_int64 (rf_size meta - int (length d))"
    using assms by (auto simp: open_file_def Let_def is_int64_def int64_min_def int64_max_def)
  then show ?thesis using assms(1) by (simp add: open_file_def Let_def)
qed

lemma files_inv_open:
  assumes "open_file D (rw_fs w) (rw_rcv w) meta path b d" and "setup_ok D (rw_rcv w)"
    and "saved D (rw_fs w) {path} (received (rw_log w))"
    and "rr_currentFileID (rw_rcv w) \<noteq> []" and "rr_state (rw_rcv w) = stateReceivingFiles"
    and "\<not> rr_accepting (rw_rcv w)"
  shows "files_inv D w"
proof -
  have "snd ` set (rr_filePaths (rw_rcv w)) = {path}" using assms(1) by (simp add: open_file_def Let_def)
  moreover have "\<exists>meta path b d. open_file D (rw_fs w) (rw_rcv w) meta path b d" using assms(1) by blast
  ultimately show ?thesis using assms(2-6) unfolding files_inv_def Let_def by simp
qed

lemma files_inv_openE:
  assumes "files_inv D w" and "rr_currentFileID (rw_rcv w) \<noteq> []"
  obtains meta path b d where "open_file D (rw_fs w) (rw_rcv w) meta path b d"
    and "setup_ok D (rw_rcv w)" and "saved D (rw_fs w) {path} (received (rw_log w))"
    and "rr_state (rw_rcv w) = stateReceivingFiles" and "\<not> rr_accepting (rw_rcv w)"
    and "is_int64 (rf_size meta)"
proof -
  obtain meta path b d where o: "open_file D (rw_fs w) (rw_rcv w) meta path b d"
    using assms by (auto simp: files_inv_def Let_def)
  have "is_int64 (rf_size meta)"
    using o open_file_saved(2) [OF assms(1) o]
    by (auto simp: open_file_def Let_def setup_ok_def list_all_iff dest!: map_of_SomeD)
  then show thesis
    using that [OF o] open_file_saved [OF assms(1) o] assms by (auto simp: files_inv_def Let_def)
qed

lemma binary_open_inv:
  assumes "files_inv D w" and "rr_currentFileID (rw_rcv w) \<noteq> []"
  shows "files_inv D (handleBinaryData data w)"
proof -
  let ?fid = "rr_currentFileID (rw_rcv w)"
  obtain meta path b d where o: "open_file D (rw_fs w) (rw_rcv w) meta path b d"
    and su: "setup_ok D (rw_rcv w)" and sv: "saved D (rw_fs w) {path} (received (rw_log w))"
    and st: "rr_state (rw_rcv w) = stateReceivingFiles" "\<not> rr_accepting (rw_rcv w)"
    and sz: "is_int64 (rf_size meta)" by (rule files_inv_openE [OF assms])
  have m: "fileMetaByID ?fid (rw_rcv w) = (rw_rcv w, Some meta)"
    using o by (simp add: open_file_def Let_def fileMetaByID_def)
  show ?thesis
  proof (cases "int (length data) > rf_size meta - int (length d)")
    case True
    with m room_left [OF o sz] have
      "handleBinaryData data w = rejectFileTransfer (cleanupCurrentFile w)"
      by (simp add: handleBinaryData_def Let_def)
    with reject_inv [OF cleanup_current_inv [OF assms(1)]] st(2) show ?thesis by simp
  next
    case False
    obtain fs b' ok where wr: "bufw_write (rw_fs w) b data = (fs, b', ok)" using prod_cases3 by blast
    obtain c where c: "file_content (rw_fs w) (bw_path b) = Some c" "\<not> bw_failed b \<Longrightarrow> c @ bw_data b = d"
      "bw_path b = path" using o by (auto simp: open_file_def Let_def)
    note e = bufw_write_effect [OF wr c(1)]
    let ?w1 = "upd (\<lambda>r. r\<lparr>rr_fileBuffers := mput ?fid b' (rr_fileBuffers r)\<rparr>) (w\<lparr>rw_fs := fs\<rparr>)"
    have h: "handleBinaryData data w = (if ok then count_current ?fid data ?w1 else ?w1)"
      using m room_left [OF o sz] False wr o
      by (simp add: handleBinaryData_def Let_def write_current_def open_file_def)
    have sv1: "saved D fs {path} (received (rw_log w))" using saved_writes [OF sv] e c(3) by simp
    show ?thesis
    proof (cases ok)
      case True
      have "is_int64 (int (length d) + int (length data))"
        using False sz by (auto simp: is_int64_def int64_min_def int64_max_def)
      then have "open_file D fs (rw_rcv (count_current ?fid data ?w1)) meta path b' (d @ data)"
        using o e c(2,3) True False by (auto simp: open_file_def Let_def count_current_def writes_to_def)
      with sv1 su st assms(2) True show ?thesis
        unfolding h by (intro files_inv_open) (auto simp: count_current_def setup_ok_def rtc_dirs_def)
    next
      case notok: False
      have "open_file D fs (rw_rcv ?w1) meta path b' d"
        using o e c(3) notok by (auto simp: open_file_def Let_def writes_to_def)
      with sv1 su st assms(2) notok show ?thesis
        unfolding h by (intro files_inv_open) (auto simp: setup_ok_def rtc_dirs_def)
    qed
  qed
qed

lemma binary_idle_inv:
  assumes "idle_inv D w" and "free_ok (rw_rcv w)" and "\<not> rr_accepting (rw_rcv w)"
  shows "files_inv D (handleBinaryData data w)"
proof -
  have cur: "rr_currentFileID (rw_rcv w) = []" using assms(1) by (simp add: idle_inv_def)
  obtain r found where m: "fileMetaByID [] (rw_rcv w) = (r, found)" by fastforce
  have su: "setup_ok D (rw_rcv w)" using assms(1) by (simp add: idle_inv_def)
  have i: "idle_inv D (w\<lparr>rw_rcv := r\<rparr>)"
    by (rule idle_kept [OF assms(1)]) (use metaByID(2) [OF su m] metaByID_kept [OF m] in simp_all)
  have k: "free_ok r" "\<not> rr_accepting r" using metaByID_kept [OF m] assms(2,3) by (simp_all add: kept_def free_ok_def)
  have f: "files_inv D (w\<lparr>rw_rcv := r\<rparr>)" using idle_files_inv [OF i] k by simp
  have "write_current [] data (w\<lparr>rw_rcv := r\<rparr>) = None"
    using i by (simp add: idle_inv_def no_file_def write_current_def)
  with f m cur reject_inv [OF cleanup_current_inv [OF f]] k show ?thesis
    by (auto simp: handleBinaryData_def Let_def)
qed

section \<open>Finishing a file\<close>

text \<open>When a file is complete: its size, its buffer written out, its checksum.\<close>

definition complete :: "rtc_env \<Rightarrow> fsys \<Rightarrow> RTCFileDto \<Rightarrow> bufw \<Rightarrow> bytes \<Rightarrow> bool" where
  "complete env fs meta b d \<longleftrightarrow> int (length d) = rf_size meta \<and> snd (snd (bufw_flush fs b)) \<and> re_closed env \<and>
     (rf_sha256 meta \<noteq> [] \<longrightarrow> hex_encode (cr_sha256 (re_crypto env) d) = rf_sha256 meta)"

lemma mark_done_log:
  "\<exists>evs. rw_log (markTransferDoneLocked w) = rw_log w @ evs \<and> set evs \<subseteq> {TransferDone}"
  by (simp add: markTransferDoneLocked_def)

lemma file_write_space: "fs_space fs = None \<Longrightarrow> fs_space (fst (file_write fs p bs)) = None"
  and file_write_all: "fs_space fs = None \<Longrightarrow> snd (snd (file_write fs p bs))"
  and os_remove_space: "fs_space (fst (os_remove fs p)) = fs_space fs"
  by (auto simp: file_write_def os_remove_def del_node_def set_node_def Let_def split: option.splits fnode.splits)

lemma finish_open:
  assumes "files_inv D w" and o: "open_file D (rw_fs w) (rw_rcv w) meta path b d"
    and cur: "rr_currentFileID (rw_rcv w) \<noteq> []"
  obtains err where "err = None \<longleftrightarrow> complete env (rw_fs w) meta b d"
    and "idle_inv D (finishCurrentFile env w)"
    and "\<exists>a. rw_rcv (finishCurrentFile env w) = (rw_rcv w)\<lparr>rr_fileWriters := [], rr_fileBuffers := [],
      rr_filePaths := [], rr_fileHashers := [], rr_transferActive := a, rr_currentFileID := [], rr_currentBytes := 0\<rparr>"
    and "\<exists>evs done. rw_log (finishCurrentFile env w) = rw_log w @
      (if err = None then [FileReceived (path_base path) (rf_size meta)] else []) @ evs @ done \<and>
      set done \<subseteq> {TransferDone} \<and>
      set evs \<subseteq> {SentText (RTCSendFileResponse (rr_currentFileID (rw_rcv w)) (err = None) err)} \<and>
      (rr_peer (rw_rcv w) \<noteq> None \<and> rw_sends w = [] \<longrightarrow>
         evs = [SentText (RTCSendFileResponse (rr_currentFileID (rw_rcv w)) (err = None) err)] \<and>
         rw_sends (finishCurrentFile env w) = [])"
    and "file_content (rw_fs (finishCurrentFile env w)) path = (if err = None then Some d else None)"
    and "writes_to path (rw_fs w) (rw_fs (finishCurrentFile env w))"
    and "fs_space (rw_fs w) = None \<Longrightarrow> fs_space (rw_fs (finishCurrentFile env w)) = None"
proof -
  let ?r = "rw_rcv w" and ?fid = "rr_currentFileID (rw_rcv w)"
  obtain fs1 b1 fok where fl: "bufw_flush (rw_fs w) b = (fs1, b1, fok)" using prod_cases3 by blast
  obtain c where c: "file_content (rw_fs w) (bw_path b) = Some c" "\<not> bw_failed b \<Longrightarrow> c @ bw_data b = d"
    "bw_path b = path" "path_key path \<notin> set (fs_denied (rw_fs w))" "within D path"
    using o by (auto simp: open_file_def Let_def)
  note f = bufw_flush_effect [OF fl c(1)]
  have m: "fileMetaByID ?fid ?r = (?r, Some meta)" using o by (simp add: open_file_def Let_def fileMetaByID_def)
  define err0 where "err0 = (if rr_currentBytes ?r = rf_size meta then None
    else Some ''file size does not match declaration'')"
  define err2 where "err2 = (if re_closed env then if fok then err0 else Some ''failed to save file''
    else Some ''failed to save file'')"
  define err where "err = (if rf_sha256 meta \<noteq> [] \<and> hex_encode (cr_sha256 (re_crypto env) d) \<noteq> rf_sha256 meta
    then Some ''checksum mismatch'' else err2)"
  have eok: "err = None \<longleftrightarrow> complete env (rw_fs w) meta b d"
    using o by (auto simp: err_def err2_def err0_def complete_def fl open_file_def Let_def)
  define r1 where "r1 = ?r\<lparr>rr_fileBuffers := [], rr_fileWriters := [], rr_fileHashers := []\<rparr>"
  define wh where "wh = upd (\<lambda>_. r1) (w\<lparr>rw_fs := fs1\<rparr>)"
  have st: "finish_hash (cr_sha256 (re_crypto env)) (Some meta) ?fid
      (finish_close (re_closed env) ?fid (finish_flush ?fid (w\<lparr>rw_rcv := ?r\<rparr>, err0))) = (wh, err)"
    using o fl by (auto simp: finish_flush_def finish_close_def finish_hash_def open_file_def Let_def
        wh_def r1_def err_def err2_def upd_def)
  define wp where "wp = finish_path (Some meta) ?fid (wh, err)"
  have fp: "mget (rr_filePaths r1) ?fid = Some path" "rr_filePaths r1 = [(?fid, path)]"
    using o by (simp_all add: r1_def open_file_def Let_def)
  have wp: "rw_rcv wp = r1\<lparr>rr_filePaths := []\<rparr>"
    "rw_fs wp = (if err = None then fs1 else fst (os_remove fs1 path))"
    "rw_log wp = rw_log w @ (if err = None then [FileReceived (path_base path) (rf_size meta)] else [])"
    "rw_sends wp = rw_sends w"
    using fp by (auto simp: wp_def finish_path_def wh_def)
  define ack where "ack = SentText (RTCSendFileResponse ?fid (err = None) err)"
  define ws where "ws = (if rr_peer (rw_rcv wp) = None then wp
    else fst (sendJSON (RTCSendFileResponse ?fid (err = None) err) wp))"
  have ws: "rw_rcv ws = rw_rcv wp" "rw_fs ws = rw_fs wp"
    "\<exists>evs. rw_log ws = rw_log wp @ evs \<and> set evs \<subseteq> {ack} \<and>
       (rr_peer ?r \<noteq> None \<and> rw_sends w = [] \<longrightarrow> evs = [ack] \<and> rw_sends ws = [])"
  proof -
    show "rw_rcv ws = rw_rcv wp" "rw_fs ws = rw_fs wp" by (simp_all add: ws_def sends)
    show "\<exists>evs. rw_log ws = rw_log wp @ evs \<and> set evs \<subseteq> {ack} \<and>
       (rr_peer ?r \<noteq> None \<and> rw_sends w = [] \<longrightarrow> evs = [ack] \<and> rw_sends ws = [])"
    proof (cases "rr_peer ?r = None")
      case True
      then show ?thesis using wp(1) by (intro exI [of _ "[]"]) (simp add: ws_def r1_def)
    next
      case False
      then have w: "ws = fst (send_event ack wp)" using wp(1) by (auto simp: ws_def r1_def sends ack_def)
      have "snd (send_event ack wp) \<and> rw_sends ws = []" if "rw_sends w = []"
        using that False wp(1,4) by (simp add: w send_event_sent r1_def)
      then show ?thesis
        by (intro exI [of _ "if snd (send_event ack wp) then [ack] else []"]) (auto simp: w)
    qed
  qed
  let ?w' = "upd (\<lambda>r. r\<lparr>rr_currentFileID := [], rr_currentBytes := 0\<rparr>) (markTransferDoneLocked ws)"
  have fin: "finishCurrentFile env w = ?w'"
    using cur m st by (simp add: finishCurrentFile_def Let_def err0_def wp_def ws_def)
  have r': "rw_rcv ?w' = ?r\<lparr>rr_fileWriters := [], rr_fileBuffers := [],
      rr_filePaths := [], rr_fileHashers := [], rr_transferActive := False, rr_currentFileID := [], rr_currentBytes := 0\<rparr>"
    by (simp add: ws(1) wp(1) r1_def)
  have fs': "rw_fs ?w' = (if err = None then fs1 else fst (os_remove fs1 path))" by (simp add: ws(2) wp(2))
  have content: "file_content (rw_fs ?w') path = (if err = None then Some d else None)"
  proof (cases "err = None")
    case True
    then have "fok" by (simp add: eok complete_def fl)
    with f c(2,3) True show ?thesis by (auto simp: ws(2) wp(2))
  next
    case False
    obtain c' where "file_content fs1 path = Some c'" using f(5) c(3) by auto
    then have "node_at fs1 (path_key path) = Some (FFile c')"
      by (auto simp: file_content_def split: option.splits fnode.splits)
    then have "node_at (fst (os_remove fs1 path)) (path_key path) = None"
      using f(3) c(4) by (intro os_remove_file) (auto simp: writes_to_def)
    with False show ?thesis by (auto simp: ws(2) wp(2) file_content_def)
  qed
  have wr: "writes_to path (rw_fs w) (rw_fs ?w')"
    using f(3) c(3) os_remove_writes [of path fs1] by (auto simp: ws(2) wp(2) writes_to_def)
  have sp: "fs_space (rw_fs ?w') = None" if "fs_space (rw_fs w) = None"
    using that file_write_space [of "rw_fs w" "bw_path b" "bw_data b"] fl os_remove_space [of fs1 path]
    by (auto simp: ws(2) wp(2) bufw_flush_def split: if_splits prod.splits)
  have su: "setup_ok D ?r" and sv: "saved D (rw_fs w) {path} (received (rw_log w))"
    using open_file_saved [OF assms(1) o] by simp_all
  have sv1: "saved D (rw_fs ?w') {path} (received (rw_log w))" by (rule saved_writes [OF sv wr])
  obtain evs where evs: "rw_log ws = rw_log wp @ evs" "set evs \<subseteq> {ack}"
    "rr_peer ?r \<noteq> None \<and> rw_sends w = [] \<longrightarrow> evs = [ack] \<and> rw_sends ws = []" using ws(3) by blast
  obtain dn where dn: "rw_log ?w' = rw_log ws @ dn" "set dn \<subseteq> {TransferDone}"
    using mark_done_log [of ws] by auto
  have rec: "received (rw_log ?w') = received (rw_log w) @ (if err = None then [(path_base path, rf_size meta)] else [])"
  proof -
    have "received evs = []" "received dn = []"
      using evs(2) dn(2) by (auto simp: received_def ack_def)
    then show ?thesis by (simp add: dn(1) evs(1) wp(3))
  qed
  have sv2: "saved D (rw_fs ?w') {} (received (rw_log ?w'))"
  proof (cases "err = None")
    case True
    then have "saved_at D (rw_fs ?w') path (path_base path, rf_size meta)"
      using content c(5) eok by (auto simp: saved_at_def complete_def)
    from saved_add [OF sv1 this] True rec show ?thesis by simp
  next
    case False
    with rec saved_close [OF sv1] show ?thesis by simp
  qed
  have idle: "idle_inv D ?w'"
    using sv2 su unfolding idle_inv_def r' by (simp add: setup_ok_def rtc_dirs_def no_file_def)
  have sends': "rw_sends ?w' = rw_sends ws" by (simp add: markTransferDoneLocked_def)
  show thesis
  proof (rule that [of err, unfolded fin])
    show "\<exists>evs done. rw_log ?w' = rw_log w @
      (if err = None then [FileReceived (path_base path) (rf_size meta)] else []) @ evs @ done \<and>
      set done \<subseteq> {TransferDone} \<and>
      set evs \<subseteq> {SentText (RTCSendFileResponse ?fid (err = None) err)} \<and>
      (rr_peer ?r \<noteq> None \<and> rw_sends w = [] \<longrightarrow>
         evs = [SentText (RTCSendFileResponse ?fid (err = None) err)] \<and> rw_sends ?w' = [])"
      using evs dn wp(3) sends' by (intro exI [of _ evs] exI [of _ dn]) (simp add: ack_def)
  qed (use eok idle r' content wr sp in auto)
qed

end
