(* ===== verification/RtcSteps.thy ===== *)
theory RtcSteps
  imports RtcFiles Models
begin

text \<open>
  The steps of the WebRTC receiver as a relation, and the invariant of its files over every
  sequence of steps.
\<close>

section \<open>The handshake leaves the files alone\<close>

lemma idle_step:
  "idle_inv D w \<Longrightarrow> same_files w w' \<Longrightarrow> free_ok (rw_rcv w') \<Longrightarrow> files_inv D w'"
  by (rule idle_files_inv [OF idle_same])

lemma same_refl [simp]: "same_files w w"
  by (simp add: same_files_def Let_def)

lemma same_trans: "same_files a b \<Longrightarrow> same_files b c \<Longrightarrow> same_files a c"
  by (simp add: same_files_def Let_def)

lemma send_pair:
  assumes "send_event e w = (w', ok)"
  shows "rw_rcv w' = rw_rcv w \<and> rw_fs w' = rw_fs w \<and> rw_blocked w' = rw_blocked w \<and>
    rw_log w' = rw_log w @ (if ok then [e] else []) \<and> (ok \<longrightarrow> rr_peer (rw_rcv w) \<noteq> None)"
  using send_event_simps [of e w] send_event_nopeer [of w e] assms by (auto split: if_splits)

lemma nonce_inv:
  assumes "idle_inv D w" and "free_ok (rw_rcv w)" and "rr_state (rw_rcv w) = stateWaitNonce"
  shows "files_inv D (handleNonce env msg ty w)"
proof (rule idle_step [OF assms(1)])
  show "same_files w (handleNonce env msg ty w)"
    by (auto simp: handleNonce_def same_files_def Let_def sends dest!: send_pair
        split: rtc_message.split sum.split option.split prod.split bool.split)
  show "free_ok (rw_rcv (handleNonce env msg ty w))"
    using assms(2,3) by (auto simp: handleNonce_def free_ok_def Let_def sends dest!: send_pair
        split: rtc_message.split sum.split option.split prod.split bool.split)
qed

definition busy_ok :: "RTCReceiver \<Rightarrow> bool" where
  "busy_ok r \<longleftrightarrow> rr_state r \<noteq> stateReceivingFiles \<and> \<not> rr_accepting r"

lemma busy_free: "busy_ok r \<Longrightarrow> free_ok r"
  by (simp add: busy_ok_def free_ok_def)

lemma idle_terminate:
  assumes "idle_inv D w" and "same_files w w'" and "busy_ok (rw_rcv w')"
  shows "files_inv D (terminateLocked w')"
  by (rule terminate_inv, rule idle_step [OF assms(1,2) busy_free [OF assms(3)]])

lemma learn_sender_same: "same_files w (learn_sender env token w)"
  and learn_sender_busy: "busy_ok (rw_rcv w) \<Longrightarrow> busy_ok (rw_rcv (learn_sender env token w))"
  by (auto simp: learn_sender_def same_files_def busy_ok_def Let_def split: option.split)

lemma token_inv:
  assumes "idle_inv D w" and "busy_ok (rw_rcv w)"
  shows "files_inv D (handleToken env msg ty w)"
proof -
  have ok: "files_inv D w'" if "same_files w w'" "busy_ok (rw_rcv w')" for w'
    using idle_step [OF assms(1) that(1) busy_free [OF that(2)]] .
  have "files_inv D (answer_token env token (learn_sender env token w))" for token
  proof -
    let ?w = "learn_sender env token w"
    note s = same_trans [OF learn_sender_same [of w env token]] learn_sender_busy [OF assms(2), of env token]
    show ?thesis
      unfolding answer_token_def Let_def
      by (auto split: option.split intro!: ok idle_terminate [OF assms(1)] s(1))
        (use s(2) in \<open>auto simp: same_files_def busy_ok_def sends Let_def\<close>)
  qed
  moreover have "files_inv D (sendErrorLocked m w)" for m
    using assms(2) by (intro ok) (simp_all add: same_files_def Let_def)
  moreover have "files_inv D w" using assms(2) by (intro ok) simp_all
  ultimately show ?thesis by (auto simp: handleToken_def split: rtc_message.split)
qed

lemma block_sender_simps [simp]:
  "rw_rcv (block_sender now w) = rw_rcv w" "rw_fs (block_sender now w) = rw_fs w"
  "rw_log (block_sender now w) = rw_log w" "rw_sends (block_sender now w) = rw_sends w"
  by (simp_all add: block_sender_def)

lemma pin_inv:
  assumes "idle_inv D w" and "busy_ok (rw_rcv w)"
  shows "files_inv D (handlePin env msg ty w)"
proof -
  have ok: "files_inv D w'" if "same_files w w'" "busy_ok (rw_rcv w')" for w'
    using idle_step [OF assms(1) that(1) busy_free [OF that(2)]] .
  have "files_inv D (wrong_pin env w)"
    unfolding wrong_pin_def Let_def using assms(2)
    by (simp add: idle_terminate [OF assms(1)] ok same_files_def busy_ok_def sends Let_def)
  moreover have "files_inv D (upd (\<lambda>r. r\<lparr>rr_state := stateWaitFileList\<rparr>) (fst (sendJSON m w)))" for m
    using assms(2) by (simp add: ok same_files_def busy_ok_def sends Let_def)
  moreover have "files_inv D (sendErrorLocked m w)" "files_inv D w" for m
    using assms(2) by (simp_all add: ok same_files_def busy_ok_def Let_def)
  ultimately show ?thesis by (simp add: handlePin_def split: rtc_message.split)
qed

section \<open>The file list\<close>

lemma grant_tokens_keeps:
  assumes "grant_tokens rnd n ids r g = (r', g')" and "P r"
    and meta: "\<And>i r r1 f. P r \<Longrightarrow> fileMetaByID i r = (r1, f) \<Longrightarrow> P r1"
    and token: "\<And>r t. P r \<Longrightarrow> P (r\<lparr>rr_fileTokens := t\<rparr>)"
  shows "P r'"
  using assms(1,2)
proof (induction ids arbitrary: n r g)
  case (Cons i ids)
  obtain r1 found where f: "fileMetaByID i r = (r1, found)" by fastforce
  note P1 = meta [OF Cons.prems(2) f]
  from Cons.prems(1) f show ?case
    by (auto simp: Let_def split: option.splits if_splits sum.splits dest!: Cons.IH intro: P1 token)
qed simp

lemma grant_tokens_ok:
  assumes "setup_ok D r" and "grant_tokens rnd n ids r g = (r', g')"
  shows "setup_ok D r' \<and> kept r r'"
proof (rule grant_tokens_keeps [OF assms(2), where P = "\<lambda>r'. setup_ok D r' \<and> kept r r'"])
  show "setup_ok D r \<and> kept r r" using assms(1) by (simp add: kept_def)
  fix r1 r2 i f assume p: "setup_ok D r1 \<and> kept r r1" and f: "fileMetaByID i r1 = (r2, f)"
  show "setup_ok D r2 \<and> kept r r2" using p metaByID(2) [OF _ f] kept_trans [OF _ metaByID_kept [OF f]] by blast
next
  fix r1 t assume "setup_ok D r1 \<and> kept r r1"
  then show "setup_ok D (r1\<lparr>rr_fileTokens := t\<rparr>) \<and> kept r (r1\<lparr>rr_fileTokens := t\<rparr>)"
    by (simp add: setup_ok_def rtc_dirs_def kept_def)
qed

lemma remap_setup: "setup_ok D r \<Longrightarrow> setup_ok D (rtc_prepareFolderRemap fs r)"
  using NewFolderRemapper_InrD(1)
  by (fastforce simp: rtc_prepareFolderRemap_def setup_ok_def rtc_dirs_def dest: remap_wf_plain split: sum.split)

lemma remap_kept: "kept r (rtc_prepareFolderRemap fs r)"
  by (simp add: rtc_prepareFolderRemap_def kept_def split: sum.split)

lemma list_response_inv:
  assumes "idle_inv D w" and "busy_ok (rw_rcv w)" and "next \<noteq> stateReceivingFiles"
  shows "files_inv D (send_list_response m next w)"
  by (rule idle_step [OF assms(1)])
    (use assms(2,3) in \<open>auto simp: send_list_response_def same_files_def free_ok_def busy_ok_def Let_def sends
      dest!: send_pair split: prod.split bool.split\<close>)

lemma accept_files_inv:
  assumes "idle_inv D w" and "busy_ok (rw_rcv w)"
  shows "files_inv D (accept_files env ids w)"
proof -
  obtain r g where p: "grant_tokens (re_tokens env) 0 ids (rtc_prepareFolderRemap (rw_fs w) (rw_rcv w)) [] = (r, g)"
    by fastforce
  have su: "setup_ok D (rw_rcv w)" using assms(1) by (simp add: idle_inv_def)
  have k: "setup_ok D r" "kept (rw_rcv w) r"
    using grant_tokens_ok [OF remap_setup [OF su] p] kept_trans [OF remap_kept] by blast+
  have "idle_inv D (w\<lparr>rw_rcv := r\<rparr>)" by (rule idle_kept [OF assms(1)]) (use k in simp_all)
  moreover have "busy_ok r" using assms(2) k(2) by (simp add: busy_ok_def kept_def)
  ultimately show ?thesis
    by (simp add: accept_files_def prepareFilesForReceive_def p list_response_inv)
qed

lemma into_elems_sizes:
  "list_all (\<lambda>f. is_int64 (rf_size f)) bk \<Longrightarrow>
   list_all (\<lambda>f. is_int64 (rf_size f)) (fst (into_elems put_rtc_file no_rtc_file vs bk))"
proof (induction put_rtc_file no_rtc_file vs bk rule: into_elems.induct)
  case (1 bk)
  then show ?case by simp
next
  case (2 v vs bk)
  have put: "is_int64 (rf_size y) \<Longrightarrow> is_int64 (rf_size (fst (put_rtc_file k w y)))" for k w y
    using into_int64_range [of "rf_size y" w] by (auto simp: put_rtc_file_def split: prod.split)
  have "is_int64 (rf_size (case bk of [] \<Rightarrow> no_rtc_file | b # _ \<Rightarrow> b))"
    using 2 by (cases bk) (auto simp: no_rtc_file_def is_int64_def int64_min_def int64_max_def)
  from into_struct_inv [where P = "\<lambda>f. is_int64 (rf_size f)", OF put this]
  have "is_int64 (rf_size (fst (into_struct put_rtc_file v (case bk of [] \<Rightarrow> no_rtc_file | b # _ \<Rightarrow> b))))" .
  moreover have "list_all (\<lambda>f. is_int64 (rf_size f)) (tl bk)" using 2 by (cases bk) auto
  ultimately show ?case using 2(1) by (auto split: prod.split)
qed

lemma into_slice_sizes:
  assumes "list_all (\<lambda>f. is_int64 (rf_size f)) (fst s)"
  shows "list_all (\<lambda>f. is_int64 (rf_size f)) (fst (fst (into_slice put_rtc_file no_rtc_file v s)))"
proof (cases v)
  case (JArr vs)
  with into_elems_sizes [OF assms, of vs] show ?thesis
    by (cases vs) (simp_all add: into_slice_def case_prod_beta)
qed (use assms in \<open>simp_all add: into_slice_def\<close>)

lemma read_pin_sizes:
  assumes "read_pin_sending v = Some (st, fs)"
  shows "list_all (\<lambda>f. is_int64 (rf_size f)) fs"
proof -
  let ?P = "\<lambda>p :: string \<times> RTCFileDto list \<times> nat. list_all (\<lambda>f. is_int64 (rf_size f)) (fst (snd p))"
  have put: "?P (fst (put_pin_sending k w y))" if "?P y" for k w y
    using into_slice_sizes [OF that, of w] that
    by (cases "field_is ''status'' k"; cases "field_is ''files'' k")
      (simp_all add: put_pin_sending_def case_prod_beta)
  obtain y where y: "from_json put_pin_sending ([], [], 0) v = Some y" "fs = take (snd (snd y)) (fst (snd y))"
    using assms by (auto simp: read_pin_sending_def)
  have "?P (fst (into_struct put_pin_sending v ([], [], 0)))" by (rule into_struct_inv [where P = ?P and put = put_pin_sending, OF put]) auto
  with y show ?thesis by (auto simp: from_json_def list_all_iff split: prod.splits if_splits dest: in_set_takeD)
qed

lemma rebuild_sizes:
  "list_all (\<lambda>f. is_int64 (rf_size f)) fs \<Longrightarrow> list_all (\<lambda>x. is_int64 (rf_size (snd x))) m \<Longrightarrow>
   list_all (\<lambda>x. is_int64 (rf_size (snd x)))
     (fold (\<lambda>file m. if mhas m (rf_id file) then m else mput (rf_id file) file m) fs m)"
proof (induction fs arbitrary: m)
  case (Cons f fs)
  have "list_all (\<lambda>x. is_int64 (rf_size (snd x))) (mput (rf_id f) f m)"
    using Cons.prems set_mput_subset [of "rf_id f" f m] by (auto simp: list_all_iff)
  with Cons show ?case by simp
qed simp

lemma folder_caches:
  "\<exists>b. fst (rtc_isFolderTransfer r) = r\<lparr>rr_folderTransfer := b, rr_folderTransferKnown := True\<rparr>"
proof (cases "rr_folderTransferKnown r")
  case True
  then have "fst (rtc_isFolderTransfer r) = r\<lparr>rr_folderTransfer := rr_folderTransfer r, rr_folderTransferKnown := True\<rparr>"
    by (simp add: rtc_isFolderTransfer_def)
  then show ?thesis by blast
qed (auto simp: rtc_isFolderTransfer_def Let_def)

lemma index_files_ok:
  assumes "setup_ok D r" and "list_all (\<lambda>f. is_int64 (rf_size f)) fs"
  shows "setup_ok D (index_files fs r) \<and> kept r (index_files fs r)"
proof -
  define r0 where "r0 = (rebuildFileIndex (r\<lparr>rr_files := fs\<rparr>))\<lparr>rr_folderTransferKnown := False\<rparr>"
  obtain b where r1: "index_files fs r = r0\<lparr>rr_folderTransfer := b, rr_folderTransferKnown := True\<rparr>"
    using folder_caches [of r0] unfolding index_files_def r0_def by blast
  show ?thesis unfolding r1 r0_def rebuildFileIndex_def
    using assms(1) rebuild_sizes [OF assms(2), of "[]"] assms(2)
    by (simp add: setup_ok_def rtc_dirs_def kept_def)
qed

lemma answer_files_inv:
  assumes "idle_inv D w" and "busy_ok (rw_rcv w)"
  shows "files_inv D (answer_files env ids w)"
proof -
  have ok: "files_inv D w'" if "same_files w w'" "busy_ok (rw_rcv w')" for w'
    using idle_step [OF assms(1) that(1) busy_free [OF that(2)]] .
  have "idle_inv D (upd (\<lambda>r. r\<lparr>rr_pendingFiles := rr_files r\<rparr>) w)"
    by (rule idle_same [OF assms(1)]) (simp add: same_files_def Let_def)
  then have "files_inv D (request_pair env w)"
    unfolding request_pair_def by (rule list_response_inv) (use assms(2) in \<open>simp_all add: busy_ok_def\<close>)
  moreover have "files_inv D w" "files_inv D (decline_files w)"
    using assms(2) by (auto intro!: ok simp: decline_files_def sends same_files_def Let_def)
  ultimately show ?thesis using accept_files_inv [OF assms] unfolding answer_files_def by simp
qed

lemma offer_files_inv:
  assumes "idle_inv D w" and "busy_ok (rw_rcv w)" and "list_all (\<lambda>f. is_int64 (rf_size f)) fs"
  shows "files_inv D (offer_files env fs w)"
proof -
  have su: "setup_ok D (rw_rcv w)" using assms(1) by (simp add: idle_inv_def)
  note k = index_files_ok [OF su assms(3)]
  let ?w2 = "upd (\<lambda>r. r\<lparr>rr_acceptedIDs := select_files (rw_rcv (upd (index_files fs) w))\<rparr>) (upd (index_files fs) w)"
  have "idle_inv D (upd (index_files fs) w)" by (rule idle_kept [OF assms(1)]) (use k in simp_all)
  then have "idle_inv D ?w2" by (rule idle_same) (simp add: same_files_def Let_def)
  moreover have "busy_ok (rw_rcv ?w2)" using assms(2) k by (simp add: busy_ok_def kept_def)
  ultimately show ?thesis unfolding offer_files_def Let_def by (rule answer_files_inv)
qed

lemma challenge_inv:
  assumes "idle_inv D w" and "busy_ok (rw_rcv w)"
  shows "files_inv D (answer_challenge w)"
proof -
  let ?w1 = "upd (\<lambda>r. r\<lparr>rr_providedPINAttempts := rr_providedPINAttempts r + 1\<rparr>) w"
  have w1: "same_files w ?w1" "busy_ok (rw_rcv ?w1)" using assms(2) by (simp_all add: same_files_def busy_ok_def Let_def)
  obtain w2 k where s: "send_event (SentText (RTCPinMessage (challenge_pin (rw_rcv ?w1)))) ?w1 = (w2, k)" by fastforce
  have w2: "same_files w w2" "busy_ok (rw_rcv w2)"
    using send_pair [OF s] w1 by (auto simp: same_files_def busy_ok_def Let_def)
  have "answer_challenge w = (if k then w2 else terminateLocked w2)"
    unfolding answer_challenge_def Let_def sends s by (cases k) simp_all
  then show ?thesis
    using idle_step [OF assms(1) w2(1) busy_free [OF w2(2)]] idle_terminate [OF assms(1) w2] by simp
qed

lemma file_list_inv:
  assumes "idle_inv D w" and "busy_ok (rw_rcv w)"
  shows "files_inv D (handleFileList env ty data w)"
proof -
  have ok: "files_inv D w'" if "same_files w w'" "busy_ok (rw_rcv w')" for w'
    using idle_step [OF assms(1) that(1) busy_free [OF that(2)]] .
  have "files_inv D w" "files_inv D (decline_files w)"
    using assms(2) by (auto intro!: ok simp: decline_files_def sends same_files_def Let_def)
  moreover have "files_inv D (offer_files env fs w)" if "read_pin_sending v = Some (st, fs)" for v st fs
    by (rule offer_files_inv [OF assms read_pin_sizes [OF that]])
  ultimately show ?thesis
    using challenge_inv [OF assms] idle_terminate [OF assms(1) same_refl assms(2)]
    unfolding handleFileList_def by (auto simp: bind_eq_Some_conv split: option.split)
qed

section \<open>Pairing\<close>

lemma ts_Add_effect:
  assumes "ts_Add sha synced fs s d = (fs', s', res)" and "ts_configDir s \<noteq> []"
  shows "ts_configDir s' = ts_configDir s"
    and "path_key q \<noteq> path_key (devices_path (ts_configDir s)) \<Longrightarrow>
      path_key q \<noteq> path_key (devices_path (ts_configDir s) @ ''.tmp'') \<Longrightarrow> file_content fs' q = file_content fs q"
proof -
  show "ts_configDir s' = ts_configDir s"
    using assms(1) by (auto simp: ts_Add_def Let_def split: option.splits prod.splits)
  assume q: "path_key q \<noteq> path_key (devices_path (ts_configDir s))"
    "path_key q \<noteq> path_key (devices_path (ts_configDir s) @ ''.tmp'')"
  show "file_content fs' q = file_content fs q"
  proof (cases "ts_devices s")
    case None
    with assms(1) show ?thesis by (simp add: ts_Add_def)
  next
    case (Some m)
    let ?s1 = "s\<lparr>ts_devices := Some (add_device sha d m)\<rparr>"
    have "ts_save synced fs ?s1 = (fs', res)"
      using assms(1) Some by (auto simp: ts_Add_def Let_def split: prod.splits)
    from save_outcome(2) [OF this, of q] assms(2) q show ?thesis by simp
  qed
qed

lemma remember_inv:
  assumes "idle_inv D w" and "remember_sender env key pem w = Some w'"
  shows "idle_inv D w' \<and> kept (rw_rcv w) (rw_rcv w')"
proof -
  let ?w1 = "upd (\<lambda>r. r\<lparr>rr_senderPublicKey := Some key, rr_senderPublicPEM := pem\<rparr>) w"
  have i1: "idle_inv D ?w1" by (rule idle_same [OF assms(1)]) (simp add: same_files_def Let_def)
  show ?thesis
  proof (cases "rr_trustedStore (rw_rcv w)")
    case None
    with assms(2) have "w' = ?w1" by (simp add: remember_sender_def Let_def)
    with i1 show ?thesis by (simp add: kept_def)
  next
    case (Some store)
    define device where "device = \<lparr>td_alias = (if rr_senderAlias (rw_rcv w) = [] then ''Unknown Device''
        else rr_senderAlias (rw_rcv w)), td_publicKey = pem, td_addedAt = re_now env div 1000000000\<rparr>"
    obtain fs store' res where a: "ts_Add (cr_sha256 (re_crypto env)) (re_synced env) (rw_fs w) store device = (fs, store', res)"
      using prod_cases3 by blast
    have su: "setup_ok D (rw_rcv w)" using assms(1) by (simp add: idle_inv_def)
    then have ap: "store_apart D (Some store)" using Some by (simp add: setup_ok_def)
    then have c: "ts_configDir store \<noteq> []" by (simp add: store_apart_def)
    note e = ts_Add_effect [OF a c]
    have w': "w' = upd (\<lambda>r. r\<lparr>rr_trustedStore := Some store'\<rparr>) (?w1\<lparr>rw_fs := fs\<rparr>)"
      using assms(2) Some a by (cases res) (simp_all add: remember_sender_def Let_def device_def cong: if_cong)
    have "store_apart D (Some store')" using ap e(1) by (simp add: store_apart_def)
    then have "setup_ok D (rw_rcv w')" using su by (simp add: w' setup_ok_def rtc_dirs_def)
    moreover have "file_content (rw_fs w') q = file_content (rw_fs ?w1) q" if "within D q" for q
      using e(2) ap that by (simp add: w' store_apart_def)
    moreover have "kept (rw_rcv ?w1) (rw_rcv w')" "kept (rw_rcv w) (rw_rcv w')" by (simp_all add: w' kept_def)
    ultimately show ?thesis using idle_kept [OF i1] by (simp add: w')
  qed
qed

lemma after_pair_inv:
  assumes "idle_inv D w" and "busy_ok (rw_rcv w)"
  shows "files_inv D (acceptFilesAfterPair env w)"
  unfolding acceptFilesAfterPair_def by (rule accept_files_inv [OF assms])

lemma pair_ok_inv:
  assumes "idle_inv D w" and "busy_ok (rw_rcv w)" and "pair_ok env pem w = Some w'"
  shows "files_inv D w'"
proof -
  have self: "files_inv D w" by (rule idle_files_inv [OF assms(1) busy_free [OF assms(2)]])
  have "files_inv D (acceptFilesAfterPair env w1)" if r: "remember_sender env key pem w = Some w1" for key w1
  proof -
    note m = remember_inv [OF assms(1) r]
    have "busy_ok (rw_rcv w1)" using assms(2) m by (simp add: busy_ok_def kept_def)
    with m show ?thesis by (blast intro: after_pair_inv)
  qed
  with assms(3) self after_pair_inv [OF assms(1,2)] show ?thesis
    by (auto simp: pair_ok_def split: if_splits option.splits)
qed

lemma pair_response_inv:
  assumes "idle_inv D w" and "busy_ok (rw_rcv w)" and "handlePairResponse env ty data w = Some w'"
  shows "files_inv D w'"
  using assms(3) idle_files_inv [OF assms(1) busy_free [OF assms(2)]] after_pair_inv [OF assms(1,2)]
    idle_terminate [OF assms(1) same_refl assms(2)] pair_ok_inv [OF assms(1,2)]
  by (auto simp: handlePairResponse_def split: if_splits option.splits)

section \<open>Frames\<close>

lemma files_inv_busy:
  assumes "files_inv D w" and "rr_state (rw_rcv w) \<notin> {stateReceivingFiles, stateWaitNonce, stateDone}"
  shows "idle_inv D w \<and> busy_ok (rw_rcv w)"
  using files_idle_inv [OF assms(1)] assms(2) by (auto simp: busy_ok_def free_ok_def)

lemma header_inv:
  assumes "idle_inv D w" and "busy_ok (rw_rcv w)" and "ParseRTCMessage data = Some (msg, ty)"
  shows "files_inv D (handleFileHeader env msg ty w)"
proof -
  have self: "files_inv D w" by (rule idle_files_inv [OF assms(1) busy_free [OF assms(2)]])
  have "files_inv D (fst (startReceivingFile (re_uni env) fid token w))" if "msg = RTCSendFileHeader fid token" for fid token
    using start_inv [OF assms(1)] assms(2) parsed_tag_fits [OF assms(3)] that by (auto simp: busy_ok_def)
  with self show ?thesis by (auto simp: handleFileHeader_def split: rtc_message.split)
qed

lemma control_inv:
  assumes "files_inv D w" and "control_message env data w = Some w'"
    and "rr_state (rw_rcv w) \<noteq> stateReceivingFiles"
  shows "files_inv D w'"
proof (cases "ParseRTCMessage data")
  case None
  with assms have "w' = w \<or> rr_state (rw_rcv w) = stateWaitFiles \<and> w' = handleBinaryData data w"
    by (auto simp: control_message_def split: if_splits list.splits)
  moreover have "files_inv D (handleBinaryData data w)" if "rr_state (rw_rcv w) = stateWaitFiles"
    using binary_idle_inv files_inv_busy [OF assms(1)] that by (auto simp: busy_ok_def busy_free)
  ultimately show ?thesis using assms(1) by blast
next
  case (Some p)
  obtain msg ty where p: "ParseRTCMessage data = Some (msg, ty)" using Some by (cases p) simp
  note idle = files_idle_inv [OF assms(1,3)]
  show ?thesis
  proof (cases "rr_state (rw_rcv w)")
    case stateWaitNonce
    with p assms(2) nonce_inv [OF idle] show ?thesis by (simp add: control_message_def) blast
  qed (use p assms files_inv_busy [OF assms(1)] in \<open>auto simp: control_message_def
      intro: token_inv pin_inv file_list_inv pair_response_inv header_inv [OF _ _ p]\<close>)
qed

lemma finish_inv:
  assumes "files_inv D w" and "rr_currentFileID (rw_rcv w) \<noteq> []"
  shows "idle_inv D (finishCurrentFile env w)"
    and "rr_accepting (rw_rcv (finishCurrentFile env w)) = rr_accepting (rw_rcv w)"
    and "rr_peer (rw_rcv (finishCurrentFile env w)) = rr_peer (rw_rcv w)"
proof -
  obtain meta path b d where o: "open_file D (rw_fs w) (rw_rcv w) meta path b d"
    by (rule files_inv_openE [OF assms])
  obtain err where f: "idle_inv D (finishCurrentFile env w)"
    "\<exists>a. rw_rcv (finishCurrentFile env w) = (rw_rcv w)\<lparr>rr_fileWriters := [], rr_fileBuffers := [],
      rr_filePaths := [], rr_fileHashers := [], rr_transferActive := a, rr_currentFileID := [], rr_currentBytes := 0\<rparr>"
    by (rule finish_open [OF assms(1) o assms(2), of env]) blast
  then show "idle_inv D (finishCurrentFile env w)"
    and "rr_accepting (rw_rcv (finishCurrentFile env w)) = rr_accepting (rw_rcv w)"
    and "rr_peer (rw_rcv (finishCurrentFile env w)) = rr_peer (rw_rcv w)" by auto
qed

lemma receiving_inv:
  assumes "files_inv D w" and "rr_currentFileID (rw_rcv w) \<noteq> []"
  shows "files_inv D (receiving_frame env data isString w)"
proof (cases isString)
  case False
  with binary_open_inv [OF assms] show ?thesis by (simp add: receiving_frame_def)
next
  case True
  let ?w1 = "finishCurrentFile env w"
  have acc: "\<not> rr_accepting (rw_rcv ?w1)"
    using finish_inv(2) [OF assms] assms by (auto simp: files_inv_def Let_def)
  note i1 = finish_inv(1) [OF assms, of env]
  have "files_inv D (drop_peer (upd (\<lambda>r. r\<lparr>rr_state := stateDone\<rparr>) ?w1))"
    by (rule idle_step [OF i1]) (simp_all add: same_files_def free_ok_def Let_def)
  moreover have "files_inv D (terminateLocked ?w1)"
  proof -
    have eq: "terminateLocked ?w1 = terminateLocked (upd (\<lambda>r. r\<lparr>rr_state := stateDone\<rparr>) ?w1)"
      by (simp add: terminateLocked_def cleanupPartialFilesLocked_def markTransferDoneLocked_def upd_def emit_def Let_def)
    show ?thesis unfolding eq
      by (rule idle_terminate [OF i1]) (use acc in \<open>simp_all add: same_files_def busy_ok_def Let_def\<close>)
  qed
  moreover have "files_inv D (fst (startReceivingFile (re_uni env) fid token ?w1))" if "fid \<noteq> []" for fid token
    by (rule start_inv [OF i1 acc that])
  ultimately show ?thesis using True
    by (auto simp: receiving_frame_def Let_def split: option.split)
qed

lemma frame_inv:
  assumes "files_inv D w" and "handleDataMessage env data isString w = Some w'"
  shows "files_inv D w'"
proof (cases "rr_state (rw_rcv w) = stateReceivingFiles")
  case True
  then have c: "rr_currentFileID (rw_rcv w) \<noteq> []" using assms(1) by (auto simp: files_inv_def Let_def)
  with True receiving_inv [OF assms(1) c, of env data isString] assms(2) show ?thesis
    by (simp add: handleDataMessage_def Let_def)
next
  case False
  have buf: "files_inv D (upd (\<lambda>r. r\<lparr>rr_controlBuffer := g r\<rparr>) w)" for g
    by (rule idle_step [OF files_idle_inv(1) [OF assms(1) False]])
      (use files_idle_inv(2) [OF assms(1) False] in \<open>simp_all add: same_files_def free_ok_def Let_def\<close>)
  show ?thesis
    using assms False control_inv [OF assms(1)] control_inv [OF buf [of "\<lambda>_. []"]]
    by (auto simp: handleDataMessage_def Let_def intro: buf split: if_splits)
qed

section \<open>Steps\<close>

text \<open>Every call that changes a receiver.\<close>

inductive rtc_step :: "rtc_world \<Rightarrow> rtc_world \<Rightarrow> bool" where
  frame: "handleDataMessage env data isString w = Some w' \<Longrightarrow> rtc_step w w'"
| closed: "rtc_step w (handlePeerClosed p w)"
| close: "rtc_step w (rtc_Close w)"
| unanswered: "rtc_step w (emit (ClosedPeer p) (handlePeerClosed p w))"
| offer_begin: "accept_begin now peerID alias w = (w', e) \<Longrightarrow> rtc_step w w'"
| offer_fail: "rr_accepting (rw_rcv w) \<Longrightarrow> rtc_step w (failAccept w)"
| offer_install: "accept_install p w = (w', e) \<Longrightarrow> rtc_step w w'"
| set_select: "rtc_step w (upd (rtc_OnSelectFiles h) w)"
| set_key: "rtc_step w (upd (rtc_SetSenderPublicKey k) w)"
| set_provider: "rtc_step w (upd (rtc_SetPINProvider pp) w)"
| set_pairing: "rtc_step w (upd (rtc_SetRequirePairing b) w)"
| set_info: "rtc_step w (upd (rtc_SetSenderInfo a) w)"
| set_stun: "rtc_step w (upd (rtc_SetSTUNServers ss) w)"
| clear_blocked: "rtc_step w (w\<lparr>rw_blocked := []\<rparr>)"

inductive_cases rtc_stepE: "rtc_step w w'"

abbreviation rtc_reach :: "rtc_world \<Rightarrow> rtc_world \<Rightarrow> bool" where
  "rtc_reach \<equiv> rtc_step\<^sup>*\<^sup>*"

lemmas setter_defs = rtc_OnSelectFiles_def rtc_SetSenderPublicKey_def rtc_SetPINProvider_def
  rtc_SetRequirePairing_def rtc_SetSenderInfo_def rtc_SetSTUNServers_def

lemma setter_simps [simp]:
  "open_file D fs (r\<lparr>rr_onSelectFiles := h\<rparr>) = open_file D fs r" "open_file D fs (r\<lparr>rr_senderPublicKey := k\<rparr>) = open_file D fs r"
  "open_file D fs (r\<lparr>rr_pinProvider := pp\<rparr>) = open_file D fs r" "open_file D fs (r\<lparr>rr_requirePairing := b\<rparr>) = open_file D fs r"
  "open_file D fs (r\<lparr>rr_senderAlias := a\<rparr>) = open_file D fs r" "open_file D fs (r\<lparr>rr_stunServers := ss\<rparr>) = open_file D fs r"
  "no_file (r\<lparr>rr_onSelectFiles := h\<rparr>) = no_file r" "no_file (r\<lparr>rr_senderPublicKey := k\<rparr>) = no_file r"
  "no_file (r\<lparr>rr_pinProvider := pp\<rparr>) = no_file r" "no_file (r\<lparr>rr_requirePairing := b\<rparr>) = no_file r"
  "no_file (r\<lparr>rr_senderAlias := a\<rparr>) = no_file r" "no_file (r\<lparr>rr_stunServers := ss\<rparr>) = no_file r"
  "setup_ok D (r\<lparr>rr_onSelectFiles := h\<rparr>) = setup_ok D r" "setup_ok D (r\<lparr>rr_senderPublicKey := k\<rparr>) = setup_ok D r"
  "setup_ok D (r\<lparr>rr_pinProvider := pp\<rparr>) = setup_ok D r" "setup_ok D (r\<lparr>rr_requirePairing := b\<rparr>) = setup_ok D r"
  "setup_ok D (r\<lparr>rr_senderAlias := a\<rparr>) = setup_ok D r" "setup_ok D (r\<lparr>rr_stunServers := ss\<rparr>) = setup_ok D r"
  by (simp_all add: open_file_def no_file_def setup_ok_def rtc_dirs_def Let_def fun_eq_iff)

lemma configure_inv:
  assumes "files_inv D w"
  shows "files_inv D (upd (rtc_OnSelectFiles h) w)" "files_inv D (upd (rtc_SetSenderPublicKey k) w)"
    "files_inv D (upd (rtc_SetPINProvider pp) w)" "files_inv D (upd (rtc_SetRequirePairing b) w)"
    "files_inv D (upd (rtc_SetSenderInfo a) w)" "files_inv D (upd (rtc_SetSTUNServers ss) w)"
  using assms unfolding files_inv_def Let_def upd_simps setter_defs by simp_all

lemma step_inv: "rtc_step w w' \<Longrightarrow> files_inv D w \<Longrightarrow> files_inv D w'"
proof (induction rule: rtc_step.induct)
  case (clear_blocked w)
  then show ?case by (subst files_inv_cong [where w = w]) simp_all
next
  case (unanswered w p)
  then show ?case by (subst files_inv_cong [where w = "handlePeerClosed p w"]) (simp_all add: closed_inv)
qed (auto intro: frame_inv closed_inv close_inv begin_inv fail_inv install_inv configure_inv)

lemma reach_inv: "rtc_reach w w' \<Longrightarrow> files_inv D w \<Longrightarrow> files_inv D w'"
  by (induction rule: rtranclp_induct) (auto intro: step_inv)

definition rtc_start :: "RTCReceiver \<Rightarrow> fsys \<Rightarrow> rtc_world" where
  "rtc_start r fs = \<lparr>rw_rcv = r, rw_fs = fs, rw_blocked = [], rw_sends = [], rw_log = []\<rparr>"

text \<open>A receiver as it is set up before the first offer.\<close>

definition fresh_receiver :: "RTCReceiver \<Rightarrow> bool" where
  "fresh_receiver r \<longleftrightarrow> (\<exists>key pin saveDir routes store.
     r = (NewRTCReceiver key pin saveDir)\<lparr>rr_extRoutes := routes, rr_trustedStore := store\<rparr>)"

lemma start_files_inv:
  assumes "fresh_receiver r" and "[] \<notin> rtc_dirs r" and "store_apart (rtc_dirs r) (rr_trustedStore r)"
  shows "files_inv (rtc_dirs r) (w\<lparr>rw_rcv := r, rw_log := []\<rparr>)"
proof -
  have "saved D fs {} []" for D fs by (auto simp: saved_def intro: exI [of _ "[]"])
  with assms show ?thesis
    by (auto simp: files_inv_def fresh_receiver_def NewRTCReceiver_def setup_ok_def no_file_def)
qed

end
