(* ===== verification/RtcRun.thy ===== *)
theory RtcRun
  imports RtcSteps
begin

text \<open>
  Runs of the WebRTC receiver: a sequence of frames, a run of a receiver that was set up before its
  first offer, and one concrete run (offer, nonce, token, optionally PIN, file list, header) that
  the witnesses of the other theories start from.
\<close>

section \<open>Runs\<close>

fun run_frames :: "(rtc_env \<times> bytes \<times> bool) list \<Rightarrow> rtc_world \<Rightarrow> rtc_world option" where
  "run_frames [] w = Some w"
| "run_frames ((env, data, isString) # fs) w =
     Option.bind (handleDataMessage env data isString w) (run_frames fs)"

lemma run_frames_append: "run_frames (xs @ ys) w = Option.bind (run_frames xs w) (run_frames ys)"
  by (induction xs arbitrary: w) (auto split: Option.bind_split)

lemma run_frames_reach: "run_frames fs w = Some w' \<Longrightarrow> rtc_reach w w'"
  by (induction fs w rule: run_frames.induct)
    (auto simp: bind_eq_Some_conv intro: converse_rtranclp_into_rtranclp rtc_step.frame)

lemma offer_reach: "rtc_reach w (fst (AcceptOffer now offer sdpOk conn answered w))"
proof (cases offer)
  case None
  then show ?thesis by (simp add: AcceptOffer_def)
next
  case (Some pa)
  obtain w1 e where b: "accept_begin now (fst pa) (snd pa) w = (w1, e)" by fastforce
  note s1 = r_into_rtranclp [of rtc_step, OF rtc_step.offer_begin [OF b]]
  have a: "rr_accepting (rw_rcv w1)" if "e = None"
    using b that by (auto simp: accept_begin_def reset_for_offer_def Let_def split: if_splits prod.splits option.splits)
  have s2: "rtc_reach w (failAccept w1)" if "e = None"
    using s1 rtc_step.offer_fail [OF a [OF that]] by (metis rtranclp.rtrancl_into_rtrancl)
  have s3: "rtc_reach w w2" if "accept_install p w1 = (w2, e2)" for p w2 e2
    using s1 rtc_step.offer_install [OF that] by (rule rtranclp.rtrancl_into_rtrancl)
  have s4: "rtc_reach w (emit (ClosedPeer p) (handlePeerClosed p w2))" if "accept_install p w1 = (w2, e2)" for p w2 e2
    using s3 [OF that] rtc_step.unanswered by (rule rtranclp.rtrancl_into_rtrancl)
  show ?thesis
    using Some b s1 by (auto simp: AcceptOffer_def s2 s3 s4 split: prod.splits option.splits if_splits)
qed

text \<open>A run of a receiver that was set up before its first offer; the store of trusted devices is
  not kept where files are received.\<close>

definition rtc_run :: "rtc_world \<Rightarrow> rtc_world \<Rightarrow> bool" where
  "rtc_run w0 w \<longleftrightarrow> rtc_reach w0 w \<and> fresh_receiver (rw_rcv w0) \<and> rw_log w0 = [] \<and>
     [] \<notin> rtc_dirs (rw_rcv w0) \<and> store_apart (rtc_dirs (rw_rcv w0)) (rr_trustedStore (rw_rcv w0))"

lemma rtc_run_inv:
  assumes "rtc_run w0 w"
  shows "files_inv (rtc_dirs (rw_rcv w0)) w"
proof -
  note a = assms [unfolded rtc_run_def]
  have "w0\<lparr>rw_rcv := rw_rcv w0, rw_log := []\<rparr> = w0" using a by (cases w0) simp
  then have "files_inv (rtc_dirs (rw_rcv w0)) w0" using start_files_inv [of "rw_rcv w0" w0] a by metis
  then show ?thesis using reach_inv a by blast
qed

section \<open>A concrete run\<close>

definition demo_env :: rtc_env where
  "demo_env = \<lparr>re_crypto = demo_crypto, re_uni = id, re_now = 0, re_random = Some (replicate 32 CHR ''n''),
     re_tokens = (\<lambda>_. ''0123456789abcdef''), re_closed = True, re_synced = True\<rparr>"

definition demo_disk :: fsys where
  "demo_disk = \<lparr>fs_nodes = [((True, [''d'']), FDir)], fs_denied = [], fs_space = None\<rparr>"

definition demo_start :: "string \<Rightarrow> rtc_world" where
  "demo_start pin = rtc_start (NewRTCReceiver demo_key pin ''/d'') demo_disk"

definition demo_offered :: "string \<Rightarrow> rtc_world" where
  "demo_offered pin = fst (AcceptOffer 0 (Some (''peer'', ''Kobo'')) True (Some 1) True (demo_start pin))"

definition demo_file :: RTCFileDto where
  "demo_file = no_rtc_file\<lparr>rf_id := ''f'', rf_fileName := ''a.txt'', rf_size := 5\<rparr>"

definition demo_grant :: string where "demo_grant = GenerateSecureToken ''0123456789abcdef''"

definition demo_nonce :: bytes where "demo_nonce = wire (RTCNonceMessage (EncodeNonce (replicate 16 CHR ''c'')))"
definition demo_token :: bytes where "demo_token = wire (RTCTokenRequest ''t'')"
definition demo_pin :: bytes where "demo_pin = wire (RTCPinMessage ''1234'')"
definition demo_list :: bytes where "demo_list = wire (RTCPinSendingResponse ''OK'' [demo_file])"
definition demo_header :: bytes where "demo_header = wire (RTCSendFileHeader ''f'' demo_grant)"

lemma demo_parses:
  "ParseRTCMessage demo_nonce = Some (RTCNonceMessage (EncodeNonce (replicate 16 CHR ''c'')), ''nonce'')"
  "ParseRTCMessage demo_token = Some (RTCTokenRequest ''t'', ''token_request'')"
  "ParseRTCMessage demo_pin = Some (RTCPinMessage ''1234'', ''pin'')"
  "ParseRTCMessage demo_list = Some (RTCPinSendingResponse ''OK'' [demo_file], ''file_list'')"
  "ParseRTCMessage demo_header = Some (RTCSendFileHeader ''f'' demo_grant, ''file_header'')"
  "Option.bind (json_decode demo_list) read_pin_sending = Some (''OK'', [demo_file])"
  "DecodeNonce (EncodeNonce (replicate 16 CHR ''c'')) = Inr (replicate 16 CHR ''c'')"
  by code_simp+

lemma demo_not_end:
  "demo_nonce \<noteq> ''0''" "demo_token \<noteq> ''0''" "demo_pin \<noteq> ''0''" "demo_list \<noteq> ''0''" "demo_header \<noteq> ''0''"
proof -
  have "ParseRTCMessage ''0'' = None" by code_simp
  then show "demo_nonce \<noteq> ''0''" "demo_token \<noteq> ''0''" "demo_pin \<noteq> ''0''" "demo_list \<noteq> ''0''" "demo_header \<noteq> ''0''"
    using demo_parses by auto
qed

definition demo_common :: bytes where
  "demo_common = CombineNonces (replicate 16 CHR ''c'') (replicate 32 CHR ''n'')"

lemma demo_random: "GenerateNonce (re_random demo_env) = Some (replicate 32 CHR ''n'')"
  by (simp add: demo_env_def GenerateNonce_def NonceSize_def)

lemma demo_signed: "\<exists>t. GenerateTokenWithNonce demo_crypto demo_key demo_common = Some t"
  by (simp add: GenerateTokenWithNonce_def GenerateToken_def demo_crypto_def demo_key_def Let_def)

lemma demo_offered_eq:
  "demo_offered pin = (demo_start pin)\<lparr>rw_rcv := (NewRTCReceiver demo_key pin ''/d'')\<lparr>rr_peer := Some 1,
     rr_senderAlias := ''Kobo'', rr_senderSignalingID := ''peer''\<rparr>\<rparr>"
  by (simp add: demo_offered_def demo_start_def AcceptOffer_def accept_begin_def isPeerBlocked_def rtc_start_def
      NewRTCReceiver_def accept_install_def reset_for_offer_def Let_def remove_all_def drop_peer_def
      cleanupPartialFilesLocked_def markTransferDoneLocked_def upd_def alloc_reset_def)

definition demo_greeted :: "string \<Rightarrow> rtc_world" where
  "demo_greeted pin = the (run_frames [(demo_env, demo_nonce, True), (demo_env, demo_token, True)] (demo_offered pin))"

lemma demo_hello:
  "run_frames [(demo_env, demo_nonce, True), (demo_env, demo_token, True)] (demo_offered pin) = Some (demo_greeted pin)"
  "rw_fs (demo_greeted pin) = demo_disk" "rw_sends (demo_greeted pin) = [] \<and> received (rw_log (demo_greeted pin)) = []"
  "rw_rcv (demo_greeted pin) = (rw_rcv (demo_offered pin))\<lparr>rr_remoteNonce := replicate 16 CHR ''c'',
     rr_localNonce := replicate 32 CHR ''n'', rr_finalNonce := demo_common, rr_senderToken := ''t'',
     rr_state := (if pin = [] then stateWaitFileList else stateWaitPin)\<rparr>"
proof -
  obtain t where t: "GenerateTokenWithNonce demo_crypto demo_key demo_common = Some t" using demo_signed by blast
  have e: "re_crypto demo_env = demo_crypto" by (simp add: demo_env_def)
  let ?w1 = "emit (SentText (RTCNonceMessage (EncodeNonce (replicate 32 CHR ''n'')))) (upd (\<lambda>r. r\<lparr>
      rr_remoteNonce := replicate 16 CHR ''c'', rr_localNonce := replicate 32 CHR ''n'',
      rr_finalNonce := demo_common, rr_state := stateWaitToken\<rparr>) (demo_offered pin))"
  have 1: "handleDataMessage demo_env demo_nonce True (demo_offered pin) = Some ?w1"
    by (simp add: demo_offered_eq demo_start_def rtc_start_def NewRTCReceiver_def handleDataMessage_def demo_not_end
        control_message_def demo_parses handleNonce_def demo_random demo_common_def [symmetric] sends send_event_def
        Let_def upd_def emit_def)
  have "\<exists>w. run_frames [(demo_env, demo_nonce, True), (demo_env, demo_token, True)] (demo_offered pin) = Some w \<and>
     rw_fs w = demo_disk \<and> (rw_sends w = [] \<and> received (rw_log w) = []) \<and>
     rw_rcv w = (rw_rcv (demo_offered pin))\<lparr>rr_remoteNonce := replicate 16 CHR ''c'',
       rr_localNonce := replicate 32 CHR ''n'', rr_finalNonce := demo_common, rr_senderToken := ''t'',
       rr_state := (if pin = [] then stateWaitFileList else stateWaitPin)\<rparr>"
    using t by (simp add: 1) (simp add: demo_offered_eq demo_start_def rtc_start_def NewRTCReceiver_def
        handleDataMessage_def demo_not_end control_message_def demo_parses handleToken_def learn_sender_def
        answer_token_def sender_verified_def e sends send_event_def Let_def upd_def emit_def)
  then show "run_frames [(demo_env, demo_nonce, True), (demo_env, demo_token, True)] (demo_offered pin) = Some (demo_greeted pin)"
    "rw_fs (demo_greeted pin) = demo_disk" "rw_sends (demo_greeted pin) = [] \<and> received (rw_log (demo_greeted pin)) = []"
    "rw_rcv (demo_greeted pin) = (rw_rcv (demo_offered pin))\<lparr>rr_remoteNonce := replicate 16 CHR ''c'',
     rr_localNonce := replicate 32 CHR ''n'', rr_finalNonce := demo_common, rr_senderToken := ''t'',
     rr_state := (if pin = [] then stateWaitFileList else stateWaitPin)\<rparr>"
    by (auto simp: demo_greeted_def)
qed

lemma demo_fields [simp]:
  "rf_id demo_file = ''f''" "rf_fileName demo_file = ''a.txt''" "rf_size demo_file = 5" "rf_sha256 demo_file = []"
  "re_crypto demo_env = demo_crypto" "re_uni demo_env = id" "re_tokens demo_env n = ''0123456789abcdef''"
  "re_closed demo_env" "re_synced demo_env" "re_now demo_env = 0"
  by (simp_all add: demo_file_def no_rtc_file_def demo_env_def)

lemma demo_places:
  "NewFolderRemapper demo_disk ''/d'' (remap_names [demo_file]) = Inr \<lparr>remap = [], fr_saveDir = ''/d''\<rparr>"
  "SanitizePathWithFallback ''a.txt'' = Inr ''a.txt''"
  "remap_apply \<lparr>remap = [], fr_saveDir = ''/d''\<rparr> ''a.txt'' = ''a.txt''"
  "full_dir ''/d'' (path_dir ''a.txt'') = ''/d'' \<and> path_base ''a.txt'' = ''a.txt''"
  "mkdir_all demo_disk ''/d'' = (demo_disk, True)"
  "alloc_create [] demo_disk ''/d'' ''a.txt'' =
     Inr ([((''/d'', ''a.txt''), 1)], set_node (path_key ''/d/a.txt'') (FFile []) demo_disk, ''/d/a.txt'')"
  "nul_char \<notin> set ''a.txt''" "sep \<notin> set ''a.txt''"
  by code_simp+

text \<open>The file list is granted and the header opens the file.\<close>

definition demo_listed :: rtc_world where
  "demo_listed = the (handleDataMessage demo_env demo_list True (demo_greeted []))"

definition demo_opened :: rtc_world where
  "demo_opened = fst (startReceivingFile id ''f'' demo_grant demo_listed)"

lemma demo_granting:
  "handleDataMessage demo_env demo_list True (demo_greeted []) = Some demo_listed"
  "rw_fs demo_listed = demo_disk" "rw_sends demo_listed = [] \<and> received (rw_log demo_listed) = []"
  "rw_rcv demo_listed = (rw_rcv (demo_greeted []))\<lparr>rr_files := [demo_file], rr_fileByID := [(''f'', demo_file)],
     rr_folderTransferKnown := True, rr_acceptedIDs := [''f''],
     rr_folderRemapper := Some \<lparr>remap = [], fr_saveDir = ''/d''\<rparr>, rr_fileTokens := [(''f'', demo_grant)],
     rr_state := stateWaitFiles\<rparr>"
proof -
  have "\<exists>w. handleDataMessage demo_env demo_list True (demo_greeted []) = Some w \<and>
    rw_fs w = demo_disk \<and> (rw_sends w = [] \<and> received (rw_log w) = []) \<and>
    rw_rcv w = (rw_rcv (demo_greeted []))\<lparr>rr_files := [demo_file], rr_fileByID := [(''f'', demo_file)],
     rr_folderTransferKnown := True, rr_acceptedIDs := [''f''],
     rr_folderRemapper := Some \<lparr>remap = [], fr_saveDir = ''/d''\<rparr>, rr_fileTokens := [(''f'', demo_grant)],
     rr_state := stateWaitFiles\<rparr>"
    by (simp add: demo_offered_eq demo_start_def rtc_start_def NewRTCReceiver_def
        handleDataMessage_def demo_not_end control_message_def demo_parses demo_hello handleFileList_def offer_files_def
        index_files_def rebuildFileIndex_def rtc_isFolderTransfer_def select_files_def answer_files_def accept_files_def
        prepareFilesForReceive_def rtc_prepareFolderRemap_def demo_places fileMetaByID_def send_list_response_def
        sends send_event_def Let_def emit_def upd_def MaxFilesPerSession_def demo_grant_def)
      code_simp
  then show "handleDataMessage demo_env demo_list True (demo_greeted []) = Some demo_listed"
  "rw_fs demo_listed = demo_disk" "rw_sends demo_listed = [] \<and> received (rw_log demo_listed) = []"
  "rw_rcv demo_listed = (rw_rcv (demo_greeted []))\<lparr>rr_files := [demo_file], rr_fileByID := [(''f'', demo_file)],
     rr_folderTransferKnown := True, rr_acceptedIDs := [''f''],
     rr_folderRemapper := Some \<lparr>remap = [], fr_saveDir = ''/d''\<rparr>, rr_fileTokens := [(''f'', demo_grant)],
     rr_state := stateWaitFiles\<rparr>"
    by (auto simp: demo_listed_def)
qed

lemma demo_opening:
  "startReceivingFile id ''f'' demo_grant demo_listed = (demo_opened, True)"
  "rw_fs demo_opened = set_node (path_key ''/d/a.txt'') (FFile []) demo_disk" "rw_sends demo_opened = [] \<and> received (rw_log demo_opened) = []"
  "rw_rcv demo_opened = (rw_rcv demo_listed)\<lparr>rr_ensuredDirs := [''/d''],
     rr_uniqueFiles := [((''/d'', ''a.txt''), 1)], rr_fileWriters := [(''f'', ''/d/a.txt'')],
     rr_fileBuffers := [(''f'', \<lparr>bw_path = ''/d/a.txt'', bw_data = [], bw_failed = False\<rparr>)],
     rr_filePaths := [(''f'', ''/d/a.txt'')], rr_currentFileID := ''f'', rr_transferActive := True,
     rr_state := stateReceivingFiles\<rparr>"
proof -
  have f: "''/d/a.txt'' \<noteq> []" by simp
  have "\<exists>w. startReceivingFile id ''f'' demo_grant demo_listed = (w, True) \<and>
    rw_fs w = set_node (path_key ''/d/a.txt'') (FFile []) demo_disk \<and> (rw_sends w = [] \<and> received (rw_log w) = []) \<and>
    rw_rcv w = (rw_rcv demo_listed)\<lparr>rr_ensuredDirs := [''/d''],
     rr_uniqueFiles := [((''/d'', ''a.txt''), 1)], rr_fileWriters := [(''f'', ''/d/a.txt'')],
     rr_fileBuffers := [(''f'', \<lparr>bw_path = ''/d/a.txt'', bw_data = [], bw_failed = False\<rparr>)],
     rr_filePaths := [(''f'', ''/d/a.txt'')], rr_currentFileID := ''f'', rr_transferActive := True,
     rr_state := stateReceivingFiles\<rparr>"
    by (simp add: demo_granting demo_hello demo_offered_eq demo_start_def rtc_start_def NewRTCReceiver_def
        startReceivingFile_def validateFileHeader_def header_target_def fileMetaByID_def demo_places
        rtc_applyFolderRemap_def rtc_getSaveDir_def rtc_isFolderTransfer_def rtc_ensureSaveDir_def open_current_def
        markTransferStartedLocked_def Let_def emit_def upd_def)
  then show "startReceivingFile id ''f'' demo_grant demo_listed = (demo_opened, True)"
  "rw_fs demo_opened = set_node (path_key ''/d/a.txt'') (FFile []) demo_disk" "rw_sends demo_opened = [] \<and> received (rw_log demo_opened) = []"
  "rw_rcv demo_opened = (rw_rcv demo_listed)\<lparr>rr_ensuredDirs := [''/d''],
     rr_uniqueFiles := [((''/d'', ''a.txt''), 1)], rr_fileWriters := [(''f'', ''/d/a.txt'')],
     rr_fileBuffers := [(''f'', \<lparr>bw_path = ''/d/a.txt'', bw_data = [], bw_failed = False\<rparr>)],
     rr_filePaths := [(''f'', ''/d/a.txt'')], rr_currentFileID := ''f'', rr_transferActive := True,
     rr_state := stateReceivingFiles\<rparr>"
    by (auto simp: demo_opened_def)
qed

text \<open>The content, still in the buffer, and the end of the transfer.\<close>

definition demo_filled :: rtc_world where
  "demo_filled = the (handleDataMessage demo_env ''hello'' False demo_opened)"

lemma demo_filling:
  "handleDataMessage demo_env ''hello'' False demo_opened = Some demo_filled"
  "rw_fs demo_filled = rw_fs demo_opened" "rw_sends demo_filled = [] \<and> received (rw_log demo_filled) = []"
  "rw_rcv demo_filled = (rw_rcv demo_opened)\<lparr>rr_currentBytes := 5,
     rr_fileBuffers := [(''f'', \<lparr>bw_path = ''/d/a.txt'', bw_data = ''hello'', bw_failed = False\<rparr>)]\<rparr>"
proof -
  have "\<exists>w. handleDataMessage demo_env ''hello'' False demo_opened = Some w \<and> rw_fs w = rw_fs demo_opened \<and>
    (rw_sends w = [] \<and> received (rw_log w) = []) \<and>
    rw_rcv w = (rw_rcv demo_opened)\<lparr>rr_currentBytes := 5,
     rr_fileBuffers := [(''f'', \<lparr>bw_path = ''/d/a.txt'', bw_data = ''hello'', bw_failed = False\<rparr>)]\<rparr>"
    by (simp add: demo_opening demo_granting demo_hello demo_offered_eq demo_start_def rtc_start_def NewRTCReceiver_def
        handleDataMessage_def receiving_frame_def handleBinaryData_def fileMetaByID_def write_current_def bufw_write_def
        FileIOBufferSize_def count_current_def Let_def upd_def wrap64_def)
  then show "handleDataMessage demo_env ''hello'' False demo_opened = Some demo_filled"
  "rw_fs demo_filled = rw_fs demo_opened" "rw_sends demo_filled = [] \<and> received (rw_log demo_filled) = []"
  "rw_rcv demo_filled = (rw_rcv demo_opened)\<lparr>rr_currentBytes := 5,
     rr_fileBuffers := [(''f'', \<lparr>bw_path = ''/d/a.txt'', bw_data = ''hello'', bw_failed = False\<rparr>)]\<rparr>"
    by (auto simp: demo_filled_def)
qed

lemma demo_flushed:
  "file_write (set_node (path_key ''/d/a.txt'') (FFile []) demo_disk) ''/d/a.txt'' ''hello'' =
     (set_node (path_key ''/d/a.txt'') (FFile ''hello'') (set_node (path_key ''/d/a.txt'') (FFile []) demo_disk), 5, True)"
  by code_simp

lemma demo_finish:
  "rw_log (finishCurrentFile demo_env demo_filled) = rw_log demo_filled @
     [FileReceived ''a.txt'' 5, SentText (RTCSendFileResponse ''f'' True None), TransferDone]"
proof -
  have "path_base ''/d/a.txt'' = ''a.txt''" by code_simp
  then show ?thesis
    using demo_flushed
    by (simp add: finishCurrentFile_def demo_filling demo_opening demo_granting demo_hello demo_offered_eq demo_start_def
        rtc_start_def NewRTCReceiver_def fileMetaByID_def finish_flush_def finish_close_def finish_hash_def finish_path_def
        bufw_flush_def sends send_event_def markTransferDoneLocked_def Let_def)
qed

text \<open>The worlds of the demonstration are runs.\<close>

lemma demo_run:
  "rtc_run (demo_start pin) (demo_offered pin)" "rtc_run (demo_start pin) (demo_greeted pin)"
  "rtc_run (demo_start []) demo_listed" "rtc_run (demo_start []) demo_opened" "rtc_run (demo_start []) demo_filled"
proof -
  have fr: "fresh_receiver (NewRTCReceiver demo_key pin ''/d'')" for pin
    unfolding fresh_receiver_def by (intro exI [of _ demo_key] exI [of _ pin] exI [of _ "''/d''"] exI [of _ None])
      (simp add: NewRTCReceiver_def)
  have r0: "rtc_reach (demo_start pin) (demo_offered pin)" for pin
    unfolding demo_offered_def by (rule offer_reach)
  have r1: "rtc_reach (demo_start pin) (demo_greeted pin)" for pin
    using r0 run_frames_reach [OF demo_hello(1)] by (rule rtranclp_trans)
  have r2: "rtc_reach (demo_start []) demo_listed"
    using r1 rtc_step.frame [OF demo_granting(1)] by (rule rtranclp.rtrancl_into_rtrancl)
  have "handleDataMessage demo_env demo_header True demo_listed = Some demo_opened"
    using demo_opening(1)
    by (simp add: handleDataMessage_def demo_not_end control_message_def demo_parses demo_granting handleFileHeader_def
        demo_hello Let_def)
  with r2 have r3: "rtc_reach (demo_start []) demo_opened"
    using rtc_step.frame by (metis rtranclp.rtrancl_into_rtrancl)
  have r4: "rtc_reach (demo_start []) demo_filled"
    using r3 rtc_step.frame [OF demo_filling(1)] by (rule rtranclp.rtrancl_into_rtrancl)
  have "rtc_run (demo_start pin) w \<longleftrightarrow> rtc_reach (demo_start pin) w" for pin w
    using fr by (simp add: rtc_run_def demo_start_def rtc_start_def NewRTCReceiver_def rtc_dirs_def store_apart_def)
  with r0 r1 r2 r3 r4 show "rtc_run (demo_start pin) (demo_offered pin)" "rtc_run (demo_start pin) (demo_greeted pin)"
    "rtc_run (demo_start []) demo_listed" "rtc_run (demo_start []) demo_opened" "rtc_run (demo_start []) demo_filled" by simp_all
qed

end
