(* ===== verification/RtcProps.thy ===== *)
theory RtcProps
  imports RtcRun
begin

text \<open>
  What the WebRTC receiver promises: files that were reported are on disk, an acknowledgement
  means a complete file, a started file completes, the PIN comes first, a known sender key has
  verified the sender's token, offers cannot disturb a transfer, and buffers are bounded. The last
  section holds the cases in which the code does not do what its comments say.
\<close>

section \<open>Files\<close>

lemma finish_frame_end:
  "rr_state (rw_rcv w) = stateReceivingFiles \<Longrightarrow> rr_currentFileID (rw_rcv w) \<noteq> [] \<Longrightarrow>
   handleDataMessage env ''0'' True w =
     Some (drop_peer (upd (\<lambda>r. r\<lparr>rr_state := stateDone\<rparr>) (finishCurrentFile env w)))"
  by (simp add: handleDataMessage_def receiving_frame_def Let_def)

text \<open>C1: what was reported is there. After any sequence of frames, offers and closings, every file
  that the receiver reported as received is on disk with the announced size, under the reported
  name, inside the configured directories, and no two reports share a file.\<close>

theorem rtc_received_on_disk:
  assumes "rtc_run w0 w"
  shows "\<exists>paths. distinct (map path_key paths) \<and>
    list_all2 (\<lambda>p (name, sz). path_base p = name \<and> within (rtc_dirs (rw_rcv w0)) p \<and>
      (\<exists>b. file_content (rw_fs w) p = Some b \<and> int (length b) = sz)) paths (received (rw_log w))"
proof -
  obtain ps where "list_all2 (saved_at (rtc_dirs (rw_rcv w0)) (rw_fs w)) ps (received (rw_log w))"
    "distinct (map path_key ps)" using rtc_run_inv [OF assms] by (auto simp: files_inv_def Let_def saved_def)
  then show ?thesis
    by (intro exI [of _ ps]) (auto simp: saved_at_def elim: list.rel_mono_strong)
qed

theorem rtc_received_on_disk_witness:
  "\<exists>(w :: rtc_world) path b. received (rw_log w) = [(''a.txt'', 5)] \<and> path_base path = ''a.txt'' \<and>
     file_content (rw_fs w) path = Some b \<and> length b = 5"
proof -
  let ?w = "drop_peer (upd (\<lambda>r. r\<lparr>rr_state := stateDone\<rparr>) (finishCurrentFile demo_env demo_filled))"
  have "handleDataMessage demo_env ''0'' True demo_filled = Some ?w"
    by (rule finish_frame_end) (simp_all add: demo_filling demo_opening)
  then have "rtc_run (demo_start []) ?w"
    using demo_run(5) rtc_step.frame unfolding rtc_run_def by (metis rtranclp.rtrancl_into_rtrancl)
  from rtc_received_on_disk [OF this] have
    "\<exists>paths. list_all2 (\<lambda>p (name, sz). path_base p = name \<and> within (rtc_dirs (rw_rcv (demo_start []))) p \<and>
      (\<exists>b. file_content (rw_fs ?w) p = Some b \<and> int (length b) = sz)) paths (received (rw_log ?w))" by blast
  moreover have r: "received (rw_log ?w) = [(''a.txt'', 5)]" by (simp add: demo_finish demo_filling)
  ultimately obtain p b where "path_base p = ''a.txt''" "file_content (rw_fs ?w) p = Some b" "int (length b) = 5"
    unfolding r by (auto simp only: list_all2_Cons2 prod.case)
  moreover from this(3) have "length b = 5" by simp
  ultimately show ?thesis using r by blast
qed

text \<open>C3: an acknowledgement is exact. When a boundary frame ends the open file, the answer says
  success only if the file on disk has exactly the announced size and, if one was announced, the
  checksum; a file that is refused is gone; and no other file changes.\<close>

theorem rtc_ack_exact:
  assumes "rtc_run w0 w" and "rr_state (rw_rcv w) = stateReceivingFiles"
    and "mget (rr_fileByID (rw_rcv w)) (rr_currentFileID (rw_rcv w)) = Some meta"
    and "mget (rr_filePaths (rw_rcv w)) (rr_currentFileID (rw_rcv w)) = Some path"
    and "SentText (RTCSendFileResponse fid ok err) \<in> set (drop (length (rw_log w)) (rw_log (finishCurrentFile env w)))"
  shows "fid = rr_currentFileID (rw_rcv w) \<and> (ok \<longleftrightarrow> err = None) \<and>
    (if ok then \<exists>d. file_content (rw_fs (finishCurrentFile env w)) path = Some d \<and> int (length d) = rf_size meta \<and>
       (rf_sha256 meta \<noteq> [] \<longrightarrow> hex_encode (cr_sha256 (re_crypto env) d) = rf_sha256 meta)
     else file_content (rw_fs (finishCurrentFile env w)) path = None) \<and>
    (\<forall>q. path_key q \<noteq> path_key path \<longrightarrow>
       file_content (rw_fs (finishCurrentFile env w)) q = file_content (rw_fs w) q)"
proof -
  note inv = rtc_run_inv [OF assms(1)]
  have cur: "rr_currentFileID (rw_rcv w) \<noteq> []" using inv assms(2) by (simp add: files_inv_def Let_def)
  obtain m p b d where o: "open_file (rtc_dirs (rw_rcv w0)) (rw_fs w) (rw_rcv w) m p b d"
    by (rule files_inv_openE [OF inv cur])
  then have mp: "m = meta" "p = path" using assms(3,4) by (simp_all add: open_file_def Let_def)
  obtain e evs dn where f: "e = None \<longleftrightarrow> complete env (rw_fs w) meta b d"
    "rw_log (finishCurrentFile env w) = rw_log w @ (if e = None then [FileReceived (path_base path) (rf_size meta)] else []) @ evs @ dn"
    "set dn \<subseteq> {TransferDone}"
    "set evs \<subseteq> {SentText (RTCSendFileResponse (rr_currentFileID (rw_rcv w)) (e = None) e)}"
    "file_content (rw_fs (finishCurrentFile env w)) path = (if e = None then Some d else None)"
    "writes_to path (rw_fs w) (rw_fs (finishCurrentFile env w))"
    by (rule finish_open [OF inv o cur, of env, unfolded mp]) blast
  have "fid = rr_currentFileID (rw_rcv w) \<and> ok = (e = None) \<and> err = e"
    using assms(5) f(2-4) by (auto split: if_splits)
  with f(1,5,6) show ?thesis by (auto simp: complete_def writes_to_def)
qed

theorem rtc_ack_exact_witness:
  "\<exists>d. file_content (rw_fs (finishCurrentFile demo_env demo_filled)) ''/d/a.txt'' = Some d \<and> length d = 5"
proof -
  have "rr_state (rw_rcv demo_filled) = stateReceivingFiles"
    "mget (rr_fileByID (rw_rcv demo_filled)) (rr_currentFileID (rw_rcv demo_filled)) = Some demo_file"
    "mget (rr_filePaths (rw_rcv demo_filled)) (rr_currentFileID (rw_rcv demo_filled)) = Some ''/d/a.txt''"
    "SentText (RTCSendFileResponse ''f'' True None) \<in>
       set (drop (length (rw_log demo_filled)) (rw_log (finishCurrentFile demo_env demo_filled)))"
    by (simp_all add: demo_filling demo_opening demo_granting demo_finish)
  from rtc_ack_exact [OF demo_run(5) this] show ?thesis by auto
qed

section \<open>A file from its header to its end\<close>

lemma bufw_write_space:
  assumes "bufw_write fs b p = (fs', b', ok)" and "\<not> bw_failed b" and "fs_space fs = None"
  shows "ok \<and> fs_space fs' = None"
proof -
  have w: "snd (snd (file_write fs q x))" "fs_space (fst (file_write fs q x)) = None" if "fs_space fs = None" for fs q x
    using file_write_all [OF that] file_write_space [OF that] by auto
  have fl: "k \<and> fs_space fs1 = None" if "bufw_flush fs0 c = (fs1, c1, k)" "\<not> bw_failed c" "fs_space fs0 = None" for fs0 c fs1 c1 k
    using that w [of fs0 "bw_path c" "bw_data c"] by (auto simp: bufw_flush_def split: prod.splits)
  have rs: "k \<and> fs_space fs1 = None" if "bufw_rest fs0 c x = (fs1, c1, k)" "fs_space fs0 = None" for fs0 c x fs1 c1 k
    using that w [of fs0 "bw_path c" x] by (auto simp: bufw_rest_def split: prod.splits if_splits)
  show ?thesis
    using assms by (auto simp: bufw_write_def Let_def dest: rs dest!: fl split: if_splits prod.splits bool.splits)
qed

text \<open>Content frames of the open file.\<close>

lemma chunks_content:
  assumes "open_file D (rw_fs w) (rw_rcv w) meta path b d" and "\<not> bw_failed b" and "is_int64 (rf_size meta)"
    and "fs_space (rw_fs w) = None" and "int (length d) + int (length (concat cs)) \<le> rf_size meta"
    and "rr_state (rw_rcv w) = stateReceivingFiles" and "rr_currentFileID (rw_rcv w) \<noteq> []"
  shows "\<exists>w' b'. run_frames (map (\<lambda>c. (env, c, False)) cs) w = Some w' \<and>
    open_file D (rw_fs w') (rw_rcv w') meta path b' (d @ concat cs) \<and> \<not> bw_failed b' \<and>
    fs_space (rw_fs w') = None \<and> rw_log w' = rw_log w \<and> rw_sends w' = rw_sends w \<and>
    rw_rcv w' = (rw_rcv w)\<lparr>rr_fileBuffers := rr_fileBuffers (rw_rcv w'),
      rr_fileHashers := rr_fileHashers (rw_rcv w'), rr_currentBytes := rr_currentBytes (rw_rcv w')\<rparr>"
  using assms
proof (induction cs arbitrary: w b d)
  case Nil
  then show ?case by (intro exI [of _ w] exI [of _ b]) simp
next
  case (Cons c cs)
  let ?fid = "rr_currentFileID (rw_rcv w)"
  note o = Cons.prems(1)
  obtain fs b' ok where wr: "bufw_write (rw_fs w) b c = (fs, b', ok)" using prod_cases3 by blast
  obtain x where x: "file_content (rw_fs w) (bw_path b) = Some x" "x @ bw_data b = d"
    "bw_path b = path" using o Cons.prems(2) by (auto simp: open_file_def Let_def)
  note e = bufw_write_effect [OF wr x(1)]
  have sp: "ok \<and> fs_space fs = None" by (rule bufw_write_space [OF wr Cons.prems(2,4)])
  let ?w1 = "upd (\<lambda>r. r\<lparr>rr_fileBuffers := mput ?fid b' (rr_fileBuffers r)\<rparr>) (w\<lparr>rw_fs := fs\<rparr>)"
  let ?w2 = "count_current ?fid c ?w1"
  have m: "fileMetaByID ?fid (rw_rcv w) = (rw_rcv w, Some meta)"
    using o by (simp add: open_file_def Let_def fileMetaByID_def)
  have h: "handleDataMessage env c False w = Some ?w2"
    using m room_left [OF o Cons.prems(3)] Cons.prems(5-7) wr o sp
    by (simp add: handleDataMessage_def receiving_frame_def handleBinaryData_def Let_def write_current_def open_file_def)
  have "is_int64 (int (length d) + int (length c))"
    using Cons.prems(3,5) by (auto simp: is_int64_def int64_min_def int64_max_def)
  then have "open_file D (rw_fs ?w2) (rw_rcv ?w2) meta path b' (d @ c)"
    using o e x(2,3) sp Cons.prems(5) by (auto simp: open_file_def Let_def count_current_def writes_to_def)
  from Cons.IH [OF this] e sp Cons.prems(3,5-7) obtain w' b'' where r:
    "run_frames (map (\<lambda>c. (env, c, False)) cs) ?w2 = Some w'"
    "open_file D (rw_fs w') (rw_rcv w') meta path b'' ((d @ c) @ concat cs)" "\<not> bw_failed b''"
    "fs_space (rw_fs w') = None" "rw_log w' = rw_log ?w2" "rw_sends w' = rw_sends ?w2"
    "rw_rcv w' = (rw_rcv ?w2)\<lparr>rr_fileBuffers := rr_fileBuffers (rw_rcv w'),
      rr_fileHashers := rr_fileHashers (rw_rcv w'), rr_currentBytes := rr_currentBytes (rw_rcv w')\<rparr>"
    by (auto simp: count_current_def)
  show ?case
    using h r by (intro exI [of _ w'] exI [of _ b'']) (simp add: count_current_def)
qed

lemma started_fresh:
  assumes "startReceivingFile uni fid token w = (w', True)"
  shows "rr_currentFileID (rw_rcv w') = fid" and "rr_state (rw_rcv w') = stateReceivingFiles"
    and "\<exists>path. mget (rr_fileBuffers (rw_rcv w')) fid = Some \<lparr>bw_path = path, bw_data = [], bw_failed = False\<rparr>"
    and "rr_currentBytes (rw_rcv w') = 0"
  using assms by (auto simp: startReceivingFile_def open_current_def Let_def split: if_splits option.splits prod.splits
      bool.splits sum.splits)

text \<open>C4: a started file completes. Once a header was accepted, content frames of exactly the
  announced size (and checksum) followed by the end frame store the file, are acknowledged with
  success and end the transfer, as long as the disk has room and the connection holds.\<close>

theorem rtc_file_completes:
  assumes "rtc_run w0 w" and "rr_state (rw_rcv w) = stateWaitFiles" and "fid \<noteq> []"
    and "startReceivingFile uni fid token w = (w1, True)"
    and "mget (rr_fileByID (rw_rcv w1)) fid = Some meta"
    and "fs_space (rw_fs w1) = None" and "rr_peer (rw_rcv w1) \<noteq> None" and "rw_sends w1 = []"
    and "re_closed env" and "int (length (concat chunks)) = rf_size meta"
    and "rf_sha256 meta = [] \<or> rf_sha256 meta = hex_encode (cr_sha256 (re_crypto env) (concat chunks))"
  shows "\<exists>w2 path. run_frames (map (\<lambda>c. (env, c, False)) chunks @ [(env, ''0'', True)]) w1 = Some w2 \<and>
    SentText (RTCSendFileResponse fid True None) \<in> set (rw_log w2) \<and> rr_state (rw_rcv w2) = stateDone \<and>
    mget (rr_filePaths (rw_rcv w1)) fid = Some path \<and> within (rtc_dirs (rw_rcv w0)) path \<and>
    file_content (rw_fs w2) path = Some (concat chunks)"
proof -
  let ?D = "rtc_dirs (rw_rcv w0)"
  note inv = rtc_run_inv [OF assms(1)]
  have idle: "idle_inv ?D w" "busy_ok (rw_rcv w)" using files_inv_busy [OF inv] assms(2) by auto
  then have inv1: "files_inv ?D w1"
    using start_inv [OF idle(1) _ assms(3), of uni token] assms(4) by (simp add: busy_ok_def)
  note st = started_fresh [OF assms(4)]
  have cur1: "rr_currentFileID (rw_rcv w1) \<noteq> []" using st(1) assms(3) by simp
  obtain m path b d where o: "open_file ?D (rw_fs w1) (rw_rcv w1) m path b d"
    and su: "setup_ok ?D (rw_rcv w1)" and sv: "saved ?D (rw_fs w1) {path} (received (rw_log w1))"
    and acc: "\<not> rr_accepting (rw_rcv w1)" and sz: "is_int64 (rf_size m)"
    by (rule files_inv_openE [OF inv1 cur1])
  have b: "\<not> bw_failed b" "d = []" "m = meta" "mget (rr_filePaths (rw_rcv w1)) fid = Some path"
    using o st assms(5) by (auto simp: open_file_def Let_def)
  obtain w2 b2 where r: "run_frames (map (\<lambda>c. (env, c, False)) chunks) w1 = Some w2"
    "open_file ?D (rw_fs w2) (rw_rcv w2) meta path b2 (concat chunks)" "\<not> bw_failed b2"
    "fs_space (rw_fs w2) = None" "rw_log w2 = rw_log w1" "rw_sends w2 = rw_sends w1"
    "rw_rcv w2 = (rw_rcv w1)\<lparr>rr_fileBuffers := rr_fileBuffers (rw_rcv w2),
      rr_fileHashers := rr_fileHashers (rw_rcv w2), rr_currentBytes := rr_currentBytes (rw_rcv w2)\<rparr>"
    using chunks_content [OF o b(1) sz assms(6) _ st(2) cur1, of chunks env] assms(10) b by auto
  have keep: "rr_currentFileID (rw_rcv w2) = fid" "rr_state (rw_rcv w2) = stateReceivingFiles"
    "rr_peer (rw_rcv w2) = rr_peer (rw_rcv w1)"
    by (subst r(7), simp add: st)+
  have reach: "files_inv ?D w2"
  proof -
    have "run_frames fs w = Some w' \<Longrightarrow> files_inv ?D w \<Longrightarrow> files_inv ?D w'" for fs w w'
      by (induction fs w rule: run_frames.induct) (auto simp: bind_eq_Some_conv dest: frame_inv)
    from this [OF r(1) inv1] show ?thesis .
  qed
  have cur2: "rr_currentFileID (rw_rcv w2) \<noteq> []" using keep(1) assms(3) by simp
  obtain err evs dn where f: "err = None \<longleftrightarrow> complete env (rw_fs w2) meta b2 (concat chunks)"
    "rw_log (finishCurrentFile env w2) = rw_log w2 @ (if err = None then [FileReceived (path_base path) (rf_size meta)] else []) @ evs @ dn"
    "rr_peer (rw_rcv w2) \<noteq> None \<and> rw_sends w2 = [] \<longrightarrow>
       evs = [SentText (RTCSendFileResponse (rr_currentFileID (rw_rcv w2)) (err = None) err)]"
    "file_content (rw_fs (finishCurrentFile env w2)) path = (if err = None then Some (concat chunks) else None)"
    by (rule finish_open [OF reach r(2) cur2, of env]) blast
  have "snd (snd (bufw_flush (rw_fs w2) b2))"
    using r(3) file_write_all [OF r(4)] by (simp add: bufw_flush_def case_prod_beta)
  then have err: "err = None" using f(1) assms(9-11) by (auto simp: complete_def)
  let ?w3 = "drop_peer (upd (\<lambda>r. r\<lparr>rr_state := stateDone\<rparr>) (finishCurrentFile env w2))"
  have "run_frames (map (\<lambda>c. (env, c, False)) chunks @ [(env, ''0'', True)]) w1 = Some ?w3"
    using r(1) finish_frame_end [OF keep(2) cur2] by (simp add: run_frames_append)
  moreover have "SentText (RTCSendFileResponse fid True None) \<in> set (rw_log ?w3)"
    using f(2,3) err keep assms(7,8) r(6) by (auto simp: drop_peer_def split: option.split)
  moreover have "within ?D path" using o by (simp add: open_file_def Let_def)
  ultimately show ?thesis using f(4) err b(4) by (intro exI [of _ ?w3] exI [of _ path]) simp
qed

theorem rtc_file_completes_witness:
  "\<exists>w path. run_frames [(demo_env, ''he'', False), (demo_env, ''llo'', False), (demo_env, ''0'', True)] demo_opened = Some w \<and>
     SentText (RTCSendFileResponse ''f'' True None) \<in> set (rw_log w) \<and>
     file_content (rw_fs w) path = Some ''hello''"
proof -
  have "rr_state (rw_rcv demo_listed) = stateWaitFiles" "''f'' \<noteq> []"
    "mget (rr_fileByID (rw_rcv demo_opened)) ''f'' = Some demo_file" "fs_space (rw_fs demo_opened) = None"
    "rr_peer (rw_rcv demo_opened) \<noteq> None" "rw_sends demo_opened = []" "re_closed demo_env"
    "int (length (concat [''he'', ''llo''])) = rf_size demo_file"
    "rf_sha256 demo_file = [] \<or> rf_sha256 demo_file = hex_encode (cr_sha256 (re_crypto demo_env) (concat [''he'', ''llo'']))"
    by (simp_all add: demo_opening demo_granting demo_hello demo_offered_eq demo_disk_def set_node_def)
  from rtc_file_completes [OF demo_run(3) this(1,2) demo_opening(1) this(3-9)] show ?thesis by auto
qed

end
