(* ===== verification/RtcGate.thy ===== *)
theory RtcGate
  imports RtcRun
begin

text \<open>
  What the handshake of the WebRTC receiver protects: nothing is written before the right PIN, wrong
  PINs run out, a known sender has proved its identity, an offer cannot disturb a running transfer
  and leaves nothing of an earlier one, and which frames make the handler panic.
\<close>

section \<open>What the file operations leave alone\<close>

text \<open>The part of a receiver that the handshake establishes.\<close>

definition session_part :: "RTCReceiver \<Rightarrow> _" where
  "session_part r = (rr_signingKey r, rr_pin r, rr_pinAttempts r, rr_remoteNonce r, rr_localNonce r, rr_finalNonce r,
     rr_senderPublicKey r, rr_requirePairing r, rr_senderToken r, rr_senderSignalingID r, rr_controlBuffer r)"

lemma session_updates [simp]:
  "session_part (r\<lparr>rr_peer := x0\<rparr>) = session_part r" 
  "session_part (r\<lparr>rr_accepting := x1\<rparr>) = session_part r" 
  "session_part (r\<lparr>rr_providedPINAttempts := x2\<rparr>) = session_part r" 
  "session_part (r\<lparr>rr_saveDir := x3\<rparr>) = session_part r" 
  "session_part (r\<lparr>rr_extRoutes := x4\<rparr>) = session_part r" 
  "session_part (r\<lparr>rr_folderRemapper := x5\<rparr>) = session_part r" 
  "session_part (r\<lparr>rr_state := x6\<rparr>) = session_part r" 
  "session_part (r\<lparr>rr_pendingFiles := x7\<rparr>) = session_part r" 
  "session_part (r\<lparr>rr_pinProvider := x8\<rparr>) = session_part r" 
  "session_part (r\<lparr>rr_files := x9\<rparr>) = session_part r" 
  "session_part (r\<lparr>rr_fileByID := x10\<rparr>) = session_part r" 
  "session_part (r\<lparr>rr_fileTokens := x11\<rparr>) = session_part r" 
  "session_part (r\<lparr>rr_acceptedIDs := x12\<rparr>) = session_part r" 
  "session_part (r\<lparr>rr_folderTransferKnown := x13\<rparr>) = session_part r" 
  "session_part (r\<lparr>rr_folderTransfer := x14\<rparr>) = session_part r" 
  "session_part (r\<lparr>rr_currentFileID := x15\<rparr>) = session_part r" 
  "session_part (r\<lparr>rr_fileWriters := x16\<rparr>) = session_part r" 
  "session_part (r\<lparr>rr_fileBuffers := x17\<rparr>) = session_part r" 
  "session_part (r\<lparr>rr_filePaths := x18\<rparr>) = session_part r" 
  "session_part (r\<lparr>rr_fileHashers := x19\<rparr>) = session_part r" 
  "session_part (r\<lparr>rr_currentBytes := x20\<rparr>) = session_part r" 
  "session_part (r\<lparr>rr_ensuredDirs := x21\<rparr>) = session_part r" 
  "session_part (r\<lparr>rr_uniqueFiles := x22\<rparr>) = session_part r" 
  "session_part (r\<lparr>rr_onSelectFiles := x23\<rparr>) = session_part r" 
  "session_part (r\<lparr>rr_transferActive := x24\<rparr>) = session_part r" 
  "session_part (r\<lparr>rr_trustedStore := x25\<rparr>) = session_part r" 
  "session_part (r\<lparr>rr_senderAlias := x26\<rparr>) = session_part r" 
  "session_part (r\<lparr>rr_senderPublicPEM := x27\<rparr>) = session_part r" 
  "session_part (r\<lparr>rr_stunServers := x28\<rparr>) = session_part r" 
  by (simp_all add: session_part_def)

abbreviation same_session :: "RTCReceiver \<Rightarrow> RTCReceiver \<Rightarrow> bool" where
  "same_session r r' \<equiv> session_part r' = session_part r"

definition late :: "RTCReceiver \<Rightarrow> bool" where
  "late r \<longleftrightarrow> rr_state r \<in> {stateWaitFileList, stateWaitPairResponse, stateWaitFiles, stateReceivingFiles, stateDone}"

lemma late_updates [simp]:
  "late (r\<lparr>rr_peer := x0\<rparr>) = late r"
  "late (r\<lparr>rr_accepting := x1\<rparr>) = late r"
  "late (r\<lparr>rr_saveDir := x2\<rparr>) = late r"
  "late (r\<lparr>rr_folderRemapper := x3\<rparr>) = late r"
  "late (r\<lparr>rr_pendingFiles := x4\<rparr>) = late r"
  "late (r\<lparr>rr_files := x5\<rparr>) = late r"
  "late (r\<lparr>rr_fileByID := x6\<rparr>) = late r"
  "late (r\<lparr>rr_fileTokens := x7\<rparr>) = late r"
  "late (r\<lparr>rr_acceptedIDs := x8\<rparr>) = late r"
  "late (r\<lparr>rr_folderTransferKnown := x9\<rparr>) = late r"
  "late (r\<lparr>rr_folderTransfer := x10\<rparr>) = late r"
  "late (r\<lparr>rr_currentFileID := x11\<rparr>) = late r"
  "late (r\<lparr>rr_fileWriters := x12\<rparr>) = late r"
  "late (r\<lparr>rr_fileBuffers := x13\<rparr>) = late r"
  "late (r\<lparr>rr_filePaths := x14\<rparr>) = late r"
  "late (r\<lparr>rr_fileHashers := x15\<rparr>) = late r"
  "late (r\<lparr>rr_currentBytes := x16\<rparr>) = late r"
  "late (r\<lparr>rr_ensuredDirs := x17\<rparr>) = late r"
  "late (r\<lparr>rr_uniqueFiles := x18\<rparr>) = late r"
  "late (r\<lparr>rr_transferActive := x19\<rparr>) = late r"
  "late (r\<lparr>rr_trustedStore := x20\<rparr>) = late r"
  "late (r\<lparr>rr_senderPublicKey := x21\<rparr>) = late r"
  "late (r\<lparr>rr_senderPublicPEM := x22\<rparr>) = late r"
  "late (r\<lparr>rr_controlBuffer := x23\<rparr>) = late r"
  "late (r\<lparr>rr_providedPINAttempts := x24\<rparr>) = late r"
  by (simp_all add: late_def)

text \<open>An operation that keeps the session and does not go back to the handshake.\<close>

definition forward :: "rtc_world \<Rightarrow> rtc_world \<Rightarrow> bool" where
  "forward w w' \<longleftrightarrow> same_session (rw_rcv w) (rw_rcv w') \<and>
     (rr_state (rw_rcv w') = rr_state (rw_rcv w) \<or> late (rw_rcv w'))"

lemma forward_refl [simp]: "forward w w"
  by (simp add: forward_def)

lemma forward_trans: "forward a b \<Longrightarrow> forward b c \<Longrightarrow> forward a c"
  by (auto simp: forward_def late_def)

lemma forward_upd:
  "session_part (f (rw_rcv w)) = session_part (rw_rcv w) \<Longrightarrow>
   rr_state (f (rw_rcv w)) = rr_state (rw_rcv w) \<or> late (f (rw_rcv w)) \<Longrightarrow> forward w (upd f w)"
  by (simp add: forward_def)

lemma forward_eq: "rw_rcv w' = rw_rcv w \<Longrightarrow> forward w w'"
  by (simp add: forward_def)

lemma remove_all_nil [simp]: "remove_all [] fs = fs"
  by (simp add: remove_all_def)

lemma terminate_simps [simp]:
  "rw_fs (terminateLocked w) = remove_all (rr_filePaths (rw_rcv w)) (rw_fs w)"
  "rw_blocked (terminateLocked w) = rw_blocked w"
  "rw_rcv (terminateLocked w) = (rw_rcv w)\<lparr>rr_fileWriters := [], rr_fileBuffers := [],
     rr_filePaths := [], rr_fileHashers := [], rr_transferActive := False, rr_currentFileID := [],
     rr_currentBytes := 0, rr_state := stateDone, rr_peer := None\<rparr>"
  by (simp_all add: terminateLocked_def)

lemma meta_session:
  "fileMetaByID fid r = (r', found) \<Longrightarrow> same_session r r' \<and> rr_state r' = rr_state r"
  by (auto simp: fileMetaByID_def split: option.splits)

lemma folder_session:
  "rtc_isFolderTransfer r = (r', b) \<Longrightarrow> same_session r r' \<and> rr_state r' = rr_state r"
  by (auto simp: rtc_isFolderTransfer_def Let_def split: if_splits)

lemma saveDir_session:
  "rtc_getSaveDir uni name r = (r', d) \<Longrightarrow> same_session r r' \<and> rr_state r' = rr_state r"
  by (auto simp: rtc_getSaveDir_def dest!: folder_session split: prod.splits bool.splits)

lemma target_session:
  "header_target uni fid r = (r', t) \<Longrightarrow> same_session r r' \<and> rr_state r' = rr_state r"
  by (auto simp: header_target_def Let_def dest!: meta_session saveDir_session split: prod.splits option.splits sum.splits)

lemma ensure_session:
  "rtc_ensureSaveDir dir w = (w', ok) \<Longrightarrow> same_session (rw_rcv w) (rw_rcv w') \<and> rr_state (rw_rcv w') = rr_state (rw_rcv w)"
  by (auto simp: rtc_ensureSaveDir_def split: if_splits prod.splits bool.splits)

lemma reject_forward: "forward w (rejectFileTransfer w)"
  by (simp add: rejectFileTransfer_def forward_def late_def)

lemma start_forward: "forward w (fst (startReceivingFile uni fid token w))"
proof -
  have rj: "forward w (rejectFileTransfer w')" if "same_session (rw_rcv w) (rw_rcv w')" for w'
    using that by (simp add: rejectFileTransfer_def forward_def late_def)
  show ?thesis
    by (auto simp: startReceivingFile_def intro!: rj dest!: target_session ensure_session
        split: prod.splits option.splits bool.splits sum.splits)
      (auto simp: open_current_def forward_def late_def Let_def)
qed

lemma cleanup_current_forward: "forward w (cleanupCurrentFile w)"
  by (simp add: cleanupCurrentFile_def forward_def Let_def split: option.split)

lemma binary_forward: "forward w (handleBinaryData data w)"
proof -
  obtain r found where m: "fileMetaByID (rr_currentFileID (rw_rcv w)) (rw_rcv w) = (r, found)" by fastforce
  let ?w = "w\<lparr>rw_rcv := r\<rparr>"
  have w: "forward w ?w" using meta_session [OF m] by (simp add: forward_def)
  have wr: "forward w w1" if "write_current fid data ?w = Some (w1, ok)" for fid w1 ok
    using that w by (auto simp: write_current_def forward_def split: option.splits prod.splits)
  have ct: "forward w (count_current fid data v)" if "forward w v" for fid v
    using that by (simp add: count_current_def forward_def)
  show ?thesis
    using w forward_trans [OF w forward_trans [OF cleanup_current_forward reject_forward]]
    by (auto simp: handleBinaryData_def m Let_def split: option.splits bool.splits dest!: wr intro: ct)
qed

lemma finish_forward: "forward w (finishCurrentFile env w)"
proof -
  define K where "K v \<longleftrightarrow> session_part (rw_rcv v) = session_part (rw_rcv w) \<and> rr_state (rw_rcv v) = rr_state (rw_rcv w)" for v :: rtc_world
  have K [simp]: "K (upd f v) \<longleftrightarrow> session_part (f (rw_rcv v)) = session_part (rw_rcv w) \<and> rr_state (f (rw_rcv v)) = rr_state (rw_rcv w)"
    "K (v\<lparr>rw_fs := fs\<rparr>) \<longleftrightarrow> K v" "K (emit e v) \<longleftrightarrow> K v" for f v fs e by (simp_all add: K_def)
  have fl: "K (fst st) \<Longrightarrow> K (fst (finish_flush fid st))" for fid st
    by (cases st) (simp add: finish_flush_def split: option.split prod.split, simp add: K_def)
  have cl: "K (fst st) \<Longrightarrow> K (fst (finish_close b fid st))" for b fid st
    by (cases st) (simp add: finish_close_def K_def)
  have hs: "K (fst st) \<Longrightarrow> K (fst (finish_hash sha found fid st))" for sha found fid st
    by (cases st) (simp add: finish_hash_def K_def)
  have pt: "K (fst st) \<Longrightarrow> K (finish_path found fid st)" for found fid st
    by (cases st) (simp add: finish_path_def K_def split: option.split)
  have en: "K v \<Longrightarrow> K (upd (\<lambda>r. r\<lparr>rr_currentFileID := [], rr_currentBytes := 0\<rparr>) (markTransferDoneLocked
      (if rr_peer (rw_rcv v) = None then v else fst (sendJSON m v))))" for v m
    by (simp add: K_def sends)
  obtain r found where m: "fileMetaByID (rr_currentFileID (rw_rcv w)) (rw_rcv w) = (r, found)" by fastforce
  have k0: "K (fst (w\<lparr>rw_rcv := r\<rparr>, e))" for e using meta_session [OF m] by (simp add: K_def)
  have "K (finishCurrentFile env w)"
    unfolding finishCurrentFile_def Let_def m prod.case
    by (cases "rr_currentFileID (rw_rcv w) = []") (simp add: K_def, simp only: if_False, rule en [OF pt [OF hs [OF cl [OF fl [OF k0]]]]])
  then show ?thesis by (simp add: K_def forward_def)
qed

section \<open>The later handlers\<close>

lemma grant_session:
  assumes "grant_tokens rnd n ids r g = (r', g')"
  shows "same_session r r' \<and> rr_state r' = rr_state r"
  by (rule grant_tokens_keeps [OF assms, where P = "\<lambda>r'. same_session r r' \<and> rr_state r' = rr_state r"])
    (auto dest: meta_session)

lemma prepare_forward: "forward w (fst (prepareFilesForReceive env ids w))"
proof -
  let ?r = "rtc_prepareFolderRemap (rw_fs w) (rw_rcv w)"
  obtain r g where p: "grant_tokens (re_tokens env) 0 ids ?r [] = (r, g)" by fastforce
  have "same_session (rw_rcv w) ?r \<and> rr_state ?r = rr_state (rw_rcv w)"
    by (simp add: rtc_prepareFolderRemap_def split: sum.split)
  with grant_session [OF p] show ?thesis by (simp add: prepareFilesForReceive_def p forward_def)
qed

lemma list_response_forward:
  assumes "next \<in> {stateWaitFileList, stateWaitPairResponse, stateWaitFiles}"
  shows "forward w (send_list_response m next w)"
proof -
  obtain w1 k1 where 1: "sendJSONBinary m w = (w1, k1)" by fastforce
  obtain w2 k2 where 2: "sendDelimiter w1 = (w2, k2)" by fastforce
  have "rw_rcv w1 = rw_rcv w" "rw_rcv w2 = rw_rcv w1"
    using send_pair [OF 1 [unfolded sends]] send_pair [OF 2 [unfolded sends]] by simp_all
  then show ?thesis using assms by (cases k1; cases k2) (auto simp: send_list_response_def 1 2 forward_def late_def)
qed

lemma accept_forward: "forward w (accept_files env ids w)"
  using prepare_forward [of w env ids] list_response_forward [of stateWaitFiles]
  by (auto simp: accept_files_def split: prod.split intro: forward_trans)

lemma decline_forward: "forward w (decline_files w)"
  by (rule forward_eq) (simp add: decline_files_def sends)

lemma index_session: "same_session r (index_files files r) \<and> rr_state (index_files files r) = rr_state r"
  by (simp add: index_files_def rtc_isFolderTransfer_def rebuildFileIndex_def Let_def)

lemma answer_forward: "forward w (answer_files env ids w)"
proof -
  have "forward w (request_pair env w)"
    unfolding request_pair_def by (rule forward_trans [OF _ list_response_forward]) (simp_all add: forward_def)
  then show ?thesis using decline_forward accept_forward by (simp add: answer_files_def)
qed

lemma challenge_forward: "forward w (answer_challenge w)"
proof -
  let ?w1 = "upd (\<lambda>r. r\<lparr>rr_providedPINAttempts := rr_providedPINAttempts r + 1\<rparr>) w"
  obtain w2 k where 2: "sendJSON (RTCPinMessage (challenge_pin (rw_rcv ?w1))) ?w1 = (w2, k)" by fastforce
  have "rw_rcv w2 = rw_rcv ?w1" using send_pair [OF 2 [unfolded sends]] by simp
  then show ?thesis by (cases k) (simp_all add: answer_challenge_def Let_def 2 [simplified] forward_def late_def)
qed

lemma terminate_forward: "forward w (terminateLocked w)"
  by (simp add: forward_def late_def)

lemma file_list_forward: "forward w (handleFileList env ty data w)"
proof -
  have "forward w (offer_files env files w)" for files
    unfolding offer_files_def Let_def
    by (rule forward_trans [OF _ answer_forward]) (use index_session in \<open>simp add: forward_def\<close>)
  then show ?thesis
    by (auto simp: handleFileList_def challenge_forward terminate_forward decline_forward split: option.split)
qed

lemma header_forward: "forward w (handleFileHeader env msg ty w)"
  by (simp add: handleFileHeader_def start_forward split: rtc_message.split)

lemma receiving_forward: "forward w (receiving_frame env data isString w)"
proof -
  have "forward w (drop_peer (upd (\<lambda>r. r\<lparr>rr_state := stateDone\<rparr>) (finishCurrentFile env w)))"
    by (rule forward_trans [OF finish_forward [of w env]]) (simp add: forward_def late_def)
  then show ?thesis
    using binary_forward forward_trans [OF finish_forward terminate_forward] forward_trans [OF finish_forward start_forward]
    by (auto simp: receiving_frame_def Let_def split: option.split)
qed

text \<open>Pairing is the only way to a new sender key, and needs a token that verifies.\<close>

definition pairs_with :: "crypto_ops \<Rightarrow> rtc_world \<Rightarrow> VerifyingKey \<Rightarrow> bool" where
  "pairs_with c w key \<longleftrightarrow> (rr_senderToken (rw_rcv w) \<noteq> [] \<longrightarrow>
     VerifyTokenNonce c key (rr_senderToken (rw_rcv w)) (rr_finalNonce (rw_rcv w)) = Inr ())"

definition advanced :: "crypto_ops \<Rightarrow> rtc_world \<Rightarrow> rtc_world \<Rightarrow> bool" where
  "advanced c w w' \<longleftrightarrow> forward w w' \<or>
     (\<exists>key. pairs_with c w key \<and> forward (upd (\<lambda>r. r\<lparr>rr_senderPublicKey := Some key\<rparr>) w) w')"

lemma advanced_forward: "forward w w' \<Longrightarrow> advanced c w w'"
  by (simp add: advanced_def)

lemma after_pair_forward: "forward w (acceptFilesAfterPair env w)"
  by (simp add: acceptFilesAfterPair_def accept_forward)

lemma remember_forward:
  "remember_sender env key pem w = Some v \<Longrightarrow> forward (upd (\<lambda>r. r\<lparr>rr_senderPublicKey := Some key\<rparr>) w) v"
  by (auto simp: remember_sender_def Let_def forward_def split: option.splits prod.splits store_res.splits)

lemma pair_ok_advanced: "pair_ok env pem w = Some v \<Longrightarrow> advanced (re_crypto env) w v"
  unfolding advanced_def
  by (auto simp: pair_ok_def pairs_with_def after_pair_forward split: option.splits if_splits
      dest!: remember_forward intro: forward_trans [OF _ after_pair_forward])

lemma pair_response_advanced: "handlePairResponse env ty data w = Some w' \<Longrightarrow> advanced (re_crypto env) w w'"
  by (auto simp: handlePairResponse_def split: if_splits option.splits
      intro: pair_ok_advanced advanced_forward [OF forward_refl] advanced_forward [OF terminate_forward]
        advanced_forward [OF after_pair_forward])

lemma learn_same [simp]:
  "rw_fs (learn_sender env t w) = rw_fs w" "rw_blocked (learn_sender env t w) = rw_blocked w"
  "rr_pin (rw_rcv (learn_sender env t w)) = rr_pin (rw_rcv w)"
  "rr_filePaths (rw_rcv (learn_sender env t w)) = rr_filePaths (rw_rcv w)"
  "rr_currentFileID (rw_rcv (learn_sender env t w)) = rr_currentFileID (rw_rcv w)"
  "rr_state (rw_rcv (learn_sender env t w)) = rr_state (rw_rcv w)"
  "rr_pinAttempts (rw_rcv (learn_sender env t w)) = rr_pinAttempts (rw_rcv w)"
  "rr_controlBuffer (rw_rcv (learn_sender env t w)) = rr_controlBuffer (rw_rcv w)"
  by (auto simp: learn_sender_def Let_def split: option.split)

text \<open>What a frame does to the session, by phase of the handshake.\<close>

lemma early_frame:
  "rw_fs (handleNonce env msg ty w) = rw_fs w"
  "rr_pin (rw_rcv (handleNonce env msg ty w)) = rr_pin (rw_rcv w)"
  "rr_pin (rw_rcv (handleToken env msg ty w)) = rr_pin (rw_rcv w)"
  "rr_pin (rw_rcv (handlePin env msg ty w)) = rr_pin (rw_rcv w)"
  by (auto simp: handleNonce_def Let_def sends dest!: send_pair split: rtc_message.split sum.split option.split prod.split bool.split)
    (auto simp: handleToken_def answer_token_def handlePin_def wrong_pin_def Let_def sends split: rtc_message.split option.split)

text \<open>A control message in a late state.\<close>

lemma late_control:
  assumes "control_message env m w = Some w'" and "late (rw_rcv w)"
  shows "advanced (re_crypto env) w w'"
proof (cases "ParseRTCMessage m")
  case None
  then show ?thesis using assms advanced_forward [OF binary_forward] advanced_forward [OF forward_refl]
    by (auto simp: control_message_def split: if_splits list.splits)
next
  case (Some p)
  then show ?thesis using assms advanced_forward [OF file_list_forward] advanced_forward [OF header_forward]
      advanced_forward [OF forward_refl]
    by (cases p; cases "rr_state (rw_rcv w)")
      (auto simp: control_message_def late_def dest: pair_response_advanced)
qed

section \<open>Frames by phase\<close>

text \<open>The control message that a frame completes, if it does.\<close>

definition frame_text :: "RTCReceiver \<Rightarrow> bytes \<Rightarrow> bool \<Rightarrow> bytes option" where
  "frame_text r data isString =
     (if \<not> isString then None
      else if data = ''0'' then (if rr_controlBuffer r \<noteq> [] then Some (rr_controlBuffer r) else None)
      else Some data)"

text \<open>A frame that is not content either completes a control message or only changes the buffer.\<close>

lemma outside_frame:
  assumes "handleDataMessage env data isString w = Some w'"
    and "rr_state (rw_rcv w) \<noteq> stateReceivingFiles \<or> rr_currentFileID (rw_rcv w) = []"
  obtains (complete) m b where "frame_text (rw_rcv w) data isString = Some m" "b \<in> {[], rr_controlBuffer (rw_rcv w)}"
      "control_message env m (upd (\<lambda>r. r\<lparr>rr_controlBuffer := b\<rparr>) w) = Some w'"
    | (part) b where "frame_text (rw_rcv w) data isString = None"
      "b = rr_controlBuffer (rw_rcv w) \<or> int (length b) \<le> maxControlMessageBytes"
      "w' = upd (\<lambda>r. r\<lparr>rr_controlBuffer := b\<rparr>) w"
proof -
  have id: "upd (\<lambda>r. r\<lparr>rr_controlBuffer := rr_controlBuffer (rw_rcv w)\<rparr>) w = w"
    and app: "upd (\<lambda>r. r\<lparr>rr_controlBuffer := rr_controlBuffer r @ data\<rparr>) w =
      upd (\<lambda>r. r\<lparr>rr_controlBuffer := rr_controlBuffer (rw_rcv w) @ data\<rparr>) w"
    by (simp_all add: upd_def)
  consider "\<not> isString" | "isString" "data = ''0''" | "isString" "data \<noteq> ''0''" by blast
  then show thesis
  proof cases
    case 1
    then have ft: "frame_text (rw_rcv w) data isString = None" by (simp add: frame_text_def)
    show thesis
    proof (cases "int (length (rr_controlBuffer (rw_rcv w))) + int (length data) > maxControlMessageBytes")
      case True
      then have "w' = upd (\<lambda>r. r\<lparr>rr_controlBuffer := []\<rparr>) w"
        using assms 1 by (auto simp: handleDataMessage_def Let_def split: if_splits)
      then show thesis using part [OF ft, of "[]"] by (simp add: maxControlMessageBytes_def)
    next
      case False
      then have "w' = upd (\<lambda>r. r\<lparr>rr_controlBuffer := rr_controlBuffer (rw_rcv w) @ data\<rparr>) w"
        using assms 1 by (auto simp: handleDataMessage_def Let_def app split: if_splits)
      then show thesis using part [OF ft, of "rr_controlBuffer (rw_rcv w) @ data"] False by simp
    qed
  next
    case 2
    show thesis
    proof (cases "rr_controlBuffer (rw_rcv w) = []")
      case True
      then have "w' = w" using assms 2 by (auto simp: handleDataMessage_def Let_def split: if_splits)
      then show thesis using part [of "rr_controlBuffer (rw_rcv w)"] 2 True id by (simp add: frame_text_def)
    next
      case False
      then show thesis using complete [of "rr_controlBuffer (rw_rcv w)" "[]"] assms 2
        by (auto simp: handleDataMessage_def Let_def frame_text_def split: if_splits)
    qed
  next
    case 3
    then have "control_message env data (upd (\<lambda>r. r\<lparr>rr_controlBuffer := rr_controlBuffer (rw_rcv w)\<rparr>) w) = Some w'"
      using assms by (auto simp: handleDataMessage_def Let_def id split: if_splits)
    then show thesis using complete [of data "rr_controlBuffer (rw_rcv w)"] 3 by (simp add: frame_text_def)
  qed
qed

text \<open>An offer is refused and changes only the table of blocked peers, or resets the receiver.\<close>

lemma accept_begin_rcv:
  assumes "accept_begin now peer name w = (w', e)"
  obtains (refused) "e \<noteq> None" "rw_rcv w' = rw_rcv w" "rw_fs w' = rw_fs w"
    | (taken) "e = None" "rw_fs w' = remove_all (rr_filePaths (rw_rcv w)) (rw_fs w)"
      "rw_rcv w' = reset_for_offer name peer ((rw_rcv w)\<lparr>rr_peer := None, rr_accepting := True, rr_fileWriters := [],
         rr_fileBuffers := [], rr_filePaths := [], rr_fileHashers := [], rr_transferActive := False,
         rr_currentFileID := [], rr_currentBytes := 0\<rparr>)"
  using assms by (auto simp: accept_begin_def Let_def split: prod.splits if_splits option.splits)

lemma reset_simps [simp]:
  "rr_pin (reset_for_offer name peer r) = rr_pin r" "rr_filePaths (reset_for_offer name peer r) = rr_filePaths r"
  "rr_currentFileID (reset_for_offer name peer r) = rr_currentFileID r"
  "rr_state (reset_for_offer name peer r) = stateWaitNonce" "rr_pinAttempts (reset_for_offer name peer r) = 0"
  "rr_controlBuffer (reset_for_offer name peer r) = []"
  by (simp_all add: reset_for_offer_def)

text \<open>Bounds: the control buffer and the number of wrong PINs.\<close>

definition bounds_ok :: "RTCReceiver \<Rightarrow> bool" where
  "bounds_ok r \<longleftrightarrow> (rr_state r \<in> {stateWaitNonce, stateWaitToken} \<longrightarrow> rr_pinAttempts r = 0) \<and>
     (rr_state r = stateWaitPin \<longrightarrow> rr_pinAttempts r < maxPINAttempts) \<and>
     0 \<le> rr_pinAttempts r \<and> rr_pinAttempts r \<le> maxPINAttempts \<and>
     int (length (rr_controlBuffer r)) \<le> maxControlMessageBytes"

lemma forward_bounds: "forward w w' \<Longrightarrow> bounds_ok (rw_rcv w) \<Longrightarrow> bounds_ok (rw_rcv w')"
  by (auto simp: forward_def bounds_ok_def session_part_def late_def)

lemma nonce_bounds:
  "bounds_ok (rw_rcv w) \<Longrightarrow> rr_state (rw_rcv w) = stateWaitNonce \<Longrightarrow> bounds_ok (rw_rcv (handleNonce env msg ty w))"
  by (auto simp: handleNonce_def bounds_ok_def Let_def sends dest!: send_pair
      split: rtc_message.split sum.split option.split prod.split bool.split)

lemma token_bounds:
  "bounds_ok (rw_rcv w) \<Longrightarrow> rr_state (rw_rcv w) = stateWaitToken \<Longrightarrow> bounds_ok (rw_rcv (handleToken env msg ty w))"
  by (auto simp: handleToken_def answer_token_def bounds_ok_def maxPINAttempts_def MaxPINAttempts_def Let_def sends
      split: rtc_message.split option.split)

lemma pin_bounds:
  "bounds_ok (rw_rcv w) \<Longrightarrow> rr_state (rw_rcv w) = stateWaitPin \<Longrightarrow> bounds_ok (rw_rcv (handlePin env msg ty w))"
  by (auto simp: handlePin_def wrong_pin_def bounds_ok_def Let_def sends split: rtc_message.split)

lemma control_bounds:
  assumes "control_message env m w = Some w'" and "bounds_ok (rw_rcv w)"
  shows "bounds_ok (rw_rcv w')"
proof (cases "late (rw_rcv w)")
  case True
  have "bounds_ok (rw_rcv (upd (\<lambda>r. r\<lparr>rr_senderPublicKey := k\<rparr>) w))" for k
    using assms(2) by (simp add: bounds_ok_def)
  then show ?thesis using late_control [OF assms(1) True] assms(2) forward_bounds unfolding advanced_def by blast
next
  case False
  then show ?thesis using assms nonce_bounds token_bounds pin_bounds
    by (cases "rr_state (rw_rcv w)") (auto simp: control_message_def late_def split: option.splits prod.splits)
qed

lemma frame_bounds:
  assumes "handleDataMessage env data isString w = Some w'" and "bounds_ok (rw_rcv w)"
  shows "bounds_ok (rw_rcv w')"
proof (cases "rr_state (rw_rcv w) = stateReceivingFiles \<and> rr_currentFileID (rw_rcv w) \<noteq> []")
  case True
  then have "w' = receiving_frame env data isString w" using assms(1) by (simp add: handleDataMessage_def)
  then show ?thesis using forward_bounds [OF receiving_forward] assms(2) by simp
next
  case False
  then have "rr_state (rw_rcv w) \<noteq> stateReceivingFiles \<or> rr_currentFileID (rw_rcv w) = []" by blast
  with assms(1) show ?thesis
  proof (cases rule: outside_frame)
    case (complete m b)
    have "bounds_ok (rw_rcv (upd (\<lambda>r. r\<lparr>rr_controlBuffer := b\<rparr>) w))"
      using assms(2) complete(2) by (auto simp: bounds_ok_def maxControlMessageBytes_def)
    then show ?thesis by (rule control_bounds [OF complete(3)])
  next
    case (part b)
    then show ?thesis using assms(2) by (auto simp: bounds_ok_def)
  qed
qed

lemma step_bounds:
  assumes "rtc_step w w'" and "bounds_ok (rw_rcv w)"
  shows "bounds_ok (rw_rcv w')"
  using assms
proof (cases rule: rtc_step.cases)
  case (offer_begin now peer name e)
  then show ?thesis using assms(2)
    by (cases rule: accept_begin_rcv) (simp_all add: bounds_ok_def maxPINAttempts_def MaxPINAttempts_def maxControlMessageBytes_def)
next
  case (offer_install p e)
  then show ?thesis using assms(2) by (auto simp: accept_install_def bounds_ok_def split: if_splits)
next
  case (frame env data isString)
  then show ?thesis using frame_bounds assms(2) by blast
qed (use assms(2) in \<open>simp_all add: bounds_ok_def maxPINAttempts_def MaxPINAttempts_def handlePeerClosed_def rtc_Close_def
    failAccept_def setter_defs Let_def\<close>)

lemma reach_bounds: "rtc_reach w w' \<Longrightarrow> bounds_ok (rw_rcv w) \<Longrightarrow> bounds_ok (rw_rcv w')"
  by (induction rule: rtranclp_induct) (auto intro: step_bounds)

text \<open>C26: memory and guesses are bounded. In every reachable state at most two MiB of control message
  are buffered and at most three wrong PINs were counted, fewer while another one may be tried.\<close>

theorem rtc_bounded:
  assumes "rtc_run w0 w"
  shows "int (length (rr_controlBuffer (rw_rcv w))) \<le> maxControlMessageBytes \<and>
    0 \<le> rr_pinAttempts (rw_rcv w) \<and> rr_pinAttempts (rw_rcv w) \<le> maxPINAttempts \<and>
    (rr_state (rw_rcv w) = stateWaitPin \<longrightarrow> rr_pinAttempts (rw_rcv w) < maxPINAttempts)"
proof -
  have "bounds_ok (rw_rcv w0)" using assms
    by (auto simp: rtc_run_def fresh_receiver_def NewRTCReceiver_def bounds_ok_def maxControlMessageBytes_def
        maxPINAttempts_def MaxPINAttempts_def)
  then have "bounds_ok (rw_rcv w)" using reach_bounds assms by (auto simp: rtc_run_def)
  then show ?thesis by (simp add: bounds_ok_def)
qed

theorem rtc_bounded_witness:
  "rr_pinAttempts (rw_rcv (demo_greeted ''1234'')) < maxPINAttempts"
  using rtc_bounded [OF demo_run(2) [of "''1234''"]] by (simp add: demo_hello)

lemma step_pin:
  assumes "rtc_step w w'"
  shows "rr_pin (rw_rcv w') = rr_pin (rw_rcv w)"
  using assms
proof (cases rule: rtc_step.cases)
  case (frame env data isString)
  have fw: "forward u v \<Longrightarrow> rr_pin (rw_rcv v) = rr_pin (rw_rcv u)" for u v by (simp add: forward_def session_part_def)
  have ct: "rr_pin (rw_rcv v) = rr_pin (rw_rcv u)" if "control_message env m u = Some v" for m u v
  proof (cases "late (rw_rcv u)")
    case True
    from late_control [OF that True] show ?thesis by (auto simp: advanced_def dest: fw)
  next
    case False
    then show ?thesis using that
      by (cases "rr_state (rw_rcv u)") (auto simp: control_message_def late_def early_frame split: option.splits prod.splits)
  qed
  show ?thesis
  proof (cases "rr_state (rw_rcv w) = stateReceivingFiles \<and> rr_currentFileID (rw_rcv w) \<noteq> []")
    case True
    then have "w' = receiving_frame env data isString w" using frame by (simp add: handleDataMessage_def)
    then show ?thesis using fw [OF receiving_forward] by simp
  next
    case False
    then have "rr_state (rw_rcv w) \<noteq> stateReceivingFiles \<or> rr_currentFileID (rw_rcv w) = []" by blast
    with frame show ?thesis by (cases rule: outside_frame) (auto dest: ct)
  qed
next
  case (offer_begin now peer name e)
  then show ?thesis by (cases rule: accept_begin_rcv) simp_all
next
  case (offer_install p e)
  then show ?thesis by (auto simp: accept_install_def split: if_splits)
qed (auto simp: handlePeerClosed_def rtc_Close_def failAccept_def setter_defs Let_def)

section \<open>The PIN comes first\<close>

definition locked :: "RTCReceiver \<Rightarrow> bool" where
  "locked r \<longleftrightarrow> rr_pin r \<noteq> [] \<and> rr_state r \<in> {stateWaitNonce, stateWaitToken, stateWaitPin, stateDone} \<and>
     rr_filePaths r = [] \<and> rr_currentFileID r = []"

definition right_pin :: "RTCReceiver \<Rightarrow> bytes \<Rightarrow> bool \<Rightarrow> bool" where
  "right_pin r data isString \<longleftrightarrow> rr_state r = stateWaitPin \<and>
     (\<exists>m. frame_text r data isString = Some m \<and> ParseRTCMessage m = Some (RTCPinMessage (rr_pin r), ''pin''))"

definition same_lock :: "rtc_world \<Rightarrow> rtc_world \<Rightarrow> bool" where
  "same_lock w w' \<longleftrightarrow> rw_fs w' = rw_fs w \<and> rr_pin (rw_rcv w') = rr_pin (rw_rcv w) \<and>
     rr_filePaths (rw_rcv w') = [] \<and> rr_currentFileID (rw_rcv w') = []"

lemma locked_same:
  "locked (rw_rcv w) \<Longrightarrow> same_lock w w' \<Longrightarrow>
   rr_state (rw_rcv w') \<in> {stateWaitNonce, stateWaitToken, stateWaitPin, stateDone} \<Longrightarrow> locked (rw_rcv w')"
  by (simp add: locked_def same_lock_def)

lemma nonce_lock:
  assumes "locked (rw_rcv w)"
  shows "same_lock w (handleNonce env msg ty w) \<and>
    rr_state (rw_rcv (handleNonce env msg ty w)) \<in> {rr_state (rw_rcv w), stateWaitToken}"
  using assms by (auto simp: handleNonce_def same_lock_def locked_def Let_def sends dest!: send_pair
      split: rtc_message.split sum.split option.split prod.split bool.split)

lemma token_lock:
  assumes "locked (rw_rcv w)"
  shows "same_lock w (handleToken env msg ty w) \<and>
    rr_state (rw_rcv (handleToken env msg ty w)) \<in> {rr_state (rw_rcv w), stateWaitPin, stateDone}"
  using assms by (auto simp: handleToken_def answer_token_def same_lock_def locked_def Let_def sends
      split: rtc_message.split option.split)

lemma pin_lock:
  assumes "locked (rw_rcv w)"
  shows "same_lock w (handlePin env msg ty w) \<and>
    (rr_state (rw_rcv (handlePin env msg ty w)) \<in> {rr_state (rw_rcv w), stateDone} \<or>
     msg = RTCPinMessage (rr_pin (rw_rcv w)) \<and> ty = ''pin'')"
  using assms by (auto simp: handlePin_def wrong_pin_def same_lock_def locked_def Let_def sends
      split: rtc_message.split)

lemma locked_frame:
  assumes "locked (rw_rcv w)" and "handleDataMessage env data isString w = Some w'"
  shows "same_lock w w' \<and> (locked (rw_rcv w') \<or> right_pin (rw_rcv w) data isString)"
proof -
  have ctl: "same_lock w w' \<and> (locked (rw_rcv w') \<or>
      rr_state (rw_rcv w) = stateWaitPin \<and> ParseRTCMessage m = Some (RTCPinMessage (rr_pin (rw_rcv w)), ''pin''))"
    if c: "control_message env m (upd (\<lambda>r. r\<lparr>rr_controlBuffer := b\<rparr>) w) = Some w'" for m b
  proof -
    let ?w = "upd (\<lambda>r. r\<lparr>rr_controlBuffer := b\<rparr>) w"
    have l: "locked (rw_rcv ?w)" "rr_state (rw_rcv w) \<in> {stateWaitNonce, stateWaitToken, stateWaitPin, stateDone}"
      using assms(1) by (simp_all add: locked_def)
    have s: "same_lock ?w v \<longleftrightarrow> same_lock w v" for v by (simp add: same_lock_def)
    have st: "locked (rw_rcv v)" if "same_lock w v" "rr_state (rw_rcv v) \<in> {stateWaitNonce, stateWaitToken, stateWaitPin, stateDone}" for v
      using locked_same [OF assms(1) that] .
    have w: "same_lock w ?w" using assms(1) by (simp add: same_lock_def locked_def)
    have keep: ?thesis if "w' = ?w" using that w l(1) by simp
    show ?thesis
    proof (cases "ParseRTCMessage m")
      case None
      then have "w' = ?w" using c l(2) by (auto simp: control_message_def)
      then show ?thesis by (rule keep)
    next
      case (Some p)
      obtain msg ty where p: "ParseRTCMessage m = Some (msg, ty)" using Some by (cases p) simp
      note n = nonce_lock [OF l(1), unfolded s, of env msg ty] and t = token_lock [OF l(1), unfolded s, of env msg ty]
        and q = pin_lock [OF l(1), unfolded s, of env msg ty]
      consider (n) "rr_state (rw_rcv w) = stateWaitNonce" | (t) "rr_state (rw_rcv w) = stateWaitToken"
        | (p) "rr_state (rw_rcv w) = stateWaitPin" | (d) "rr_state (rw_rcv w) = stateDone" using l(2) by blast
      then show ?thesis
      proof cases
        case n
        then have e: "w' = handleNonce env msg ty ?w" using c p by (simp add: control_message_def)
        have "same_lock w w'" "rr_state (rw_rcv w') \<in> {stateWaitNonce, stateWaitToken}" using \<open>same_lock w (handleNonce env msg ty ?w) \<and> _\<close> n by (simp_all add: e)
        then show ?thesis using st by auto
      next
        case t
        then have e: "w' = handleToken env msg ty ?w" using c p by (simp add: control_message_def)
        have "same_lock w w'" "rr_state (rw_rcv w') \<in> {stateWaitToken, stateWaitPin, stateDone}" using \<open>same_lock w (handleToken env msg ty ?w) \<and> _\<close> t by (simp_all add: e)
        then show ?thesis using st by auto
      next
        case p
        then have e: "w' = handlePin env msg ty ?w" using c \<open>ParseRTCMessage m = Some (msg, ty)\<close> by (simp add: control_message_def)
        have "same_lock w w'" using q by (simp add: e)
        moreover have "rr_state (rw_rcv w') \<in> {stateWaitPin, stateDone} \<or>
            ParseRTCMessage m = Some (RTCPinMessage (rr_pin (rw_rcv w)), ''pin'')"
          using q p \<open>ParseRTCMessage m = Some (msg, ty)\<close> by (auto simp: e)
        ultimately show ?thesis using st p by auto
      next
        case d
        then have "w' = ?w" using c p by (simp add: control_message_def)
        then show ?thesis by (rule keep)
      qed
    qed
  qed
  have buf: "same_lock w (upd (\<lambda>r. r\<lparr>rr_controlBuffer := b\<rparr>) w) \<and> locked (rw_rcv (upd (\<lambda>r. r\<lparr>rr_controlBuffer := b\<rparr>) w))" for b
    using assms(1) by (simp add: same_lock_def locked_def)
  have "rr_currentFileID (rw_rcv w) = []" using assms(1) by (simp add: locked_def)
  then have free: "rr_state (rw_rcv w) \<noteq> stateReceivingFiles \<or> rr_currentFileID (rw_rcv w) = []" by simp
  from assms(2) free show ?thesis
  proof (cases rule: outside_frame)
    case (complete m b)
    then show ?thesis using ctl [of m b] by (auto simp: right_pin_def)
  next
    case (part b)
    then show ?thesis using buf by simp
  qed
qed

text \<open>Every other step keeps the lock as well.\<close>

lemma locked_step:
  assumes "rtc_step w w'" and "locked (rw_rcv w)"
  shows "same_lock w w' \<and> (locked (rw_rcv w') \<or>
    (\<exists>env data isString. handleDataMessage env data isString w = Some w' \<and> right_pin (rw_rcv w) data isString))"
  using assms
proof (cases rule: rtc_step.cases)
  case (frame env data isString)
  then show ?thesis using locked_frame [OF assms(2)] by blast
next
  case (offer_begin now peer name e)
  then show ?thesis using assms(2) by (cases rule: accept_begin_rcv) (simp_all add: same_lock_def locked_def)
next
  case (offer_install p e)
  then show ?thesis using assms(2) by (auto simp: accept_install_def same_lock_def locked_def split: if_splits)
qed (auto simp: same_lock_def locked_def handlePeerClosed_def rtc_Close_def failAccept_def setter_defs Let_def)

lemma offer_locks:
  "accept_begin now peerID alias w0 = (w, None) \<Longrightarrow> rr_pin (rw_rcv w0) \<noteq> [] \<Longrightarrow> locked (rw_rcv w)"
  by (elim accept_begin_rcv) (simp_all add: locked_def)


lemma demo_begin: "accept_begin 0 ''peer'' ''Kobo'' (demo_start pin) = (fst (accept_begin 0 ''peer'' ''Kobo'' (demo_start pin)), None)"
  and demo_install: "accept_install 1 (fst (accept_begin 0 ''peer'' ''Kobo'' (demo_start pin))) = (demo_offered pin, None)"
  by (simp_all add: demo_offered_def demo_start_def AcceptOffer_def accept_begin_def isPeerBlocked_def rtc_start_def
      NewRTCReceiver_def accept_install_def reset_for_offer_def Let_def)

lemma demo_pin_ok:
  "\<exists>w. handleDataMessage demo_env demo_pin True (demo_greeted ''1234'') = Some w \<and> rr_state (rw_rcv w) = stateWaitFileList"
  by (simp add: handleDataMessage_def control_message_def demo_parses demo_not_end demo_hello demo_offered_eq demo_start_def
      rtc_start_def NewRTCReceiver_def handlePin_def sends Let_def)


section \<open>Three wrong PINs\<close>

definition pin_frame :: "rtc_env \<times> bytes \<times> bool \<Rightarrow> string \<Rightarrow> bool" where
  "pin_frame f pin \<longleftrightarrow> (case f of (env, data, isString) \<Rightarrow>
     isString \<and> data \<noteq> ''0'' \<and> ParseRTCMessage data = Some (RTCPinMessage pin, ''pin''))"

lemma wrong_frame:
  assumes "rr_state (rw_rcv w) = stateWaitPin" and "pin_frame (env, data, isString) p" and "p \<noteq> rr_pin (rw_rcv w)"
  shows "handleDataMessage env data isString w = Some (wrong_pin env w)"
  using assms by (simp add: handleDataMessage_def control_message_def handlePin_def pin_frame_def Let_def)

lemma wrong_pin_counts:
  assumes "rr_pinAttempts (rw_rcv w) + 1 < maxPINAttempts"
  shows "rw_rcv (wrong_pin env w) = (rw_rcv w)\<lparr>rr_pinAttempts := rr_pinAttempts (rw_rcv w) + 1\<rparr>"
    and "rw_fs (wrong_pin env w) = rw_fs w" and "rw_blocked (wrong_pin env w) = rw_blocked w"
  using assms by (simp_all add: wrong_pin_def Let_def sends)

lemma wrong_pin_blocks:
  assumes "rr_pinAttempts (rw_rcv w) + 1 \<ge> maxPINAttempts" and "rr_senderSignalingID (rw_rcv w) \<noteq> []"
  shows "rr_state (rw_rcv (wrong_pin env w)) = stateDone" and "rr_peer (rw_rcv (wrong_pin env w)) = None"
    and "mget (rw_blocked (wrong_pin env w)) (rr_senderSignalingID (rw_rcv w)) = Some (re_now env + pinBlockDuration)"
  using assms by (simp_all add: wrong_pin_def Let_def sends block_sender_def blockPeer_def)

lemma mget_filter: "mget m k = Some v \<Longrightarrow> P (k, v) \<Longrightarrow> mget (filter P m) k = Some v"
  by (induction m) (auto split: if_splits)

lemma blocked_offer:
  "mget (rw_blocked v) peer = Some until \<Longrightarrow> now < until \<Longrightarrow> snd (accept_begin now peer name v) = Some PeerBlocked"
  using mget_filter [of "rw_blocked v" peer until "\<lambda>(_, until). \<not> now > until"]
  by (simp add: accept_begin_def isPeerBlocked_def Let_def)

text \<open>C10: three wrong PINs lock a sender out. The first two are answered and counted; the third ends the
  connection, and every offer from the same signalling id is refused, by every receiver that shares
  the table, until the block has run out.\<close>

theorem rtc_three_strikes:
  assumes "rr_state (rw_rcv w) = stateWaitPin" and "rr_pinAttempts (rw_rcv w) = 0"
    and "rr_senderSignalingID (rw_rcv w) = peer" and "peer \<noteq> []"
    and "pin_frame (e1, d1, s1) p1" and "pin_frame (e2, d2, s2) p2" and "pin_frame (e3, d3, s3) p3"
    and "rr_pin (rw_rcv w) \<notin> {p1, p2, p3}"
  shows "\<exists>w2 w3. run_frames [(e1, d1, s1), (e2, d2, s2)] w = Some w2 \<and> rr_state (rw_rcv w2) = stateWaitPin \<and>
    rr_pinAttempts (rw_rcv w2) = 2 \<and> rw_blocked w2 = rw_blocked w \<and>
    handleDataMessage e3 d3 s3 w2 = Some w3 \<and> rr_state (rw_rcv w3) = stateDone \<and> rr_peer (rw_rcv w3) = None \<and>
    (\<forall>v now name. rw_blocked v = rw_blocked w3 \<and> now < re_now e3 + pinBlockDuration \<longrightarrow>
       snd (accept_begin now peer name v) = Some PeerBlocked)"
proof -
  let ?w1 = "wrong_pin e1 w" and ?w2 = "wrong_pin e2 (wrong_pin e1 w)"
  have m: "maxPINAttempts = 3" by (simp add: maxPINAttempts_def MaxPINAttempts_def)
  note c1 = wrong_pin_counts [of w e1, unfolded m] and c2 = wrong_pin_counts [of ?w1 e2, unfolded m]
  have w1: "rw_rcv ?w1 = (rw_rcv w)\<lparr>rr_pinAttempts := 1\<rparr>" "rw_blocked ?w1 = rw_blocked w" using c1 assms(2) by simp_all
  then have w2: "rw_rcv ?w2 = (rw_rcv w)\<lparr>rr_pinAttempts := 2\<rparr>" "rw_blocked ?w2 = rw_blocked w" using c2 by simp_all
  have ne: "p1 \<noteq> rr_pin (rw_rcv w)" "p2 \<noteq> rr_pin (rw_rcv ?w1)" "p3 \<noteq> rr_pin (rw_rcv ?w2)" using assms(8) w1 w2 by auto
  have st: "rr_state (rw_rcv ?w1) = stateWaitPin" "rr_state (rw_rcv ?w2) = stateWaitPin" using assms(1) w1 w2 by simp_all
  have "run_frames [(e1, d1, s1), (e2, d2, s2)] w = Some ?w2"
    using wrong_frame [OF assms(1,5) ne(1)] wrong_frame [OF st(1) assms(6) ne(2)] by simp
  moreover have "handleDataMessage e3 d3 s3 ?w2 = Some (wrong_pin e3 ?w2)"
    using wrong_frame [OF st(2) assms(7) ne(3)] .
  moreover note b = wrong_pin_blocks [of ?w2 e3, unfolded m]
  ultimately show ?thesis
    using w2 assms(1,3,4) b blocked_offer
    by (intro exI [of _ ?w2] exI [of _ "wrong_pin e3 ?w2"]) simp
qed

theorem rtc_three_strikes_witness:
  "\<exists>w. rr_state (rw_rcv w) = stateDone \<and>
     snd (accept_begin 1 ''peer'' ''Kobo'' w) = Some PeerBlocked"
proof -
  have "rr_state (rw_rcv (demo_greeted ''9999'')) = stateWaitPin" "rr_pinAttempts (rw_rcv (demo_greeted ''9999'')) = 0"
    "rr_senderSignalingID (rw_rcv (demo_greeted ''9999'')) = ''peer''" "''peer'' \<noteq> []"
    "rr_pin (rw_rcv (demo_greeted ''9999'')) \<notin> {''1234'', ''1234'', ''1234''}"
    by (simp_all add: demo_hello demo_offered_eq NewRTCReceiver_def)
  note w = this
  have f: "pin_frame (demo_env, demo_pin, True) ''1234''" by (simp add: pin_frame_def demo_parses demo_not_end)
  have t: "1 < re_now demo_env + pinBlockDuration" by (simp add: pinBlockDuration_def PINBlockDuration_def)
  from rtc_three_strikes [OF w(1-4) f f f w(5)] t show ?thesis by blast
qed

section \<open>Who is sending\<close>

definition identified :: "crypto_ops \<Rightarrow> RTCReceiver \<Rightarrow> bool" where
  "identified c r \<longleftrightarrow> rr_senderToken r \<noteq> [] \<and>
     (\<forall>key. rr_senderPublicKey r = Some key \<longrightarrow> VerifyTokenNonce c key (rr_senderToken r) (rr_finalNonce r) = Inr ())"

definition id_ok :: "crypto_ops \<Rightarrow> RTCReceiver \<Rightarrow> bool" where
  "id_ok c r \<longleftrightarrow> rr_state r \<in> {stateWaitNonce, stateWaitToken, stateDone} \<or> identified c r"

lemma token_not_empty: "ParseRTCMessage m = Some (RTCTokenRequest t, ty) \<Longrightarrow> t \<noteq> []"
  by (drule parsed_tag_fits) simp

lemma forward_identified: "forward w w' \<Longrightarrow> identified c (rw_rcv w) \<Longrightarrow> identified c (rw_rcv w')"
  by (simp add: forward_def identified_def session_part_def)

lemma advanced_identified: "advanced c w w' \<Longrightarrow> identified c (rw_rcv w) \<Longrightarrow> identified c (rw_rcv w')"
  by (auto simp: advanced_def pairs_with_def intro: forward_identified)
    (auto simp: forward_def identified_def session_part_def)

lemma answer_token_id:
  assumes "rr_senderToken (rw_rcv w) = token" and "token \<noteq> []" and "rr_state (rw_rcv w) = stateWaitToken"
  shows "id_ok (re_crypto env) (rw_rcv (answer_token env token w))"
  using assms by (auto simp: answer_token_def id_ok_def identified_def sender_verified_def Let_def sends split: option.splits)

lemma control_id:
  assumes "control_message env m w = Some w'" and "id_ok (re_crypto env) (rw_rcv w)"
  shows "id_ok (re_crypto env) (rw_rcv w')"
proof -
  consider (late) "late (rw_rcv w)" "rr_state (rw_rcv w) \<noteq> stateDone" | (nonce) "rr_state (rw_rcv w) = stateWaitNonce"
    | (token) "rr_state (rw_rcv w) = stateWaitToken" | (pin) "rr_state (rw_rcv w) = stateWaitPin"
    | (ended) "rr_state (rw_rcv w) = stateDone"
    by (cases "rr_state (rw_rcv w)") (auto simp: late_def)
  then show ?thesis
  proof cases
    case late
    then have "identified (re_crypto env) (rw_rcv w)" using assms(2) by (auto simp: id_ok_def late_def)
    then show ?thesis using advanced_identified [OF late_control [OF assms(1) late(1)]] by (simp add: id_ok_def)
  next
    case nonce
    have "rr_state (rw_rcv (handleNonce env msg ty w)) \<in> {stateWaitNonce, stateWaitToken}" for msg ty
      using nonce by (auto simp: handleNonce_def Let_def sends dest!: send_pair
          split: rtc_message.split sum.split option.split prod.split bool.split)
    then show ?thesis using assms(1) nonce by (auto simp: control_message_def id_ok_def split: option.splits prod.splits)
  next
    case token
    have "rr_senderToken (rw_rcv (learn_sender env t w)) = t" "rr_state (rw_rcv (learn_sender env t w)) = stateWaitToken" for t
      using token by (auto simp: learn_sender_def Let_def split: option.split)
    note a = answer_token_id [OF this(1) _ this(2)]
    have "id_ok (re_crypto env) (rw_rcv (handleToken env msg ty w))" if "ParseRTCMessage m = Some (msg, ty)" for msg ty
      using token_not_empty that assms(2) a
      by (cases msg) (auto simp: handleToken_def)
    then show ?thesis using assms token by (auto simp: control_message_def split: option.splits prod.splits)
  next
    case pin
    have "id_ok (re_crypto env) (rw_rcv (handlePin env msg ty w))" for msg ty
      using assms(2) pin by (auto simp: handlePin_def wrong_pin_def id_ok_def identified_def Let_def sends split: rtc_message.split)
    then show ?thesis using assms pin by (auto simp: control_message_def split: option.splits prod.splits)
  next
    case ended
    then show ?thesis using assms ended by (auto simp: control_message_def split: option.splits prod.splits)
  qed
qed

lemma frame_id:
  assumes "handleDataMessage env data isString w = Some w'" and "id_ok (re_crypto env) (rw_rcv w)"
  shows "id_ok (re_crypto env) (rw_rcv w')"
proof (cases "rr_state (rw_rcv w) = stateReceivingFiles \<and> rr_currentFileID (rw_rcv w) \<noteq> []")
  case True
  then have "w' = receiving_frame env data isString w" using assms(1) by (simp add: handleDataMessage_def)
  then show ?thesis using forward_identified [OF receiving_forward] assms(2) True by (simp add: id_ok_def)
next
  case False
  then have "rr_state (rw_rcv w) \<noteq> stateReceivingFiles \<or> rr_currentFileID (rw_rcv w) = []" by blast
  with assms(1) show ?thesis
  proof (cases rule: outside_frame)
    case (complete m b)
    have "id_ok (re_crypto env) (rw_rcv (upd (\<lambda>r. r\<lparr>rr_controlBuffer := b\<rparr>) w))"
      using assms(2) by (simp add: id_ok_def identified_def)
    then show ?thesis by (rule control_id [OF complete(3)])
  next
    case (part b)
    then show ?thesis using assms(2) by (simp add: id_ok_def identified_def)
  qed
qed

text \<open>C9: a known sender has proved it. Whatever frames arrive from the start of a handshake, once the
  token was exchanged the sender's token is not empty, and if the receiver holds a public key for
  the sender (configured, found among the trusted devices, or received in the pairing), that key
  verifies the token over the nonce of this session.\<close>

theorem rtc_sender_verified:
  assumes "rr_state (rw_rcv w) = stateWaitNonce" and "run_frames fs w = Some w'"
    and "\<forall>f \<in> set fs. re_crypto (fst f) = c"
    and "rr_state (rw_rcv w') \<notin> {stateWaitNonce, stateWaitToken, stateDone}"
  shows "rr_senderToken (rw_rcv w') \<noteq> [] \<and>
    (\<forall>key. rr_senderPublicKey (rw_rcv w') = Some key \<longrightarrow>
       VerifyTokenNonce c key (rr_senderToken (rw_rcv w')) (rr_finalNonce (rw_rcv w')) = Inr ())"
proof -
  have "id_ok c (rw_rcv w) \<Longrightarrow> id_ok c (rw_rcv w')"
    using assms(2,3)
  proof (induction fs w rule: run_frames.induct)
    case (2 env data isString fs w)
    obtain v where v: "handleDataMessage env data isString w = Some v" "run_frames fs v = Some w'"
      using "2.prems"(2) by (auto simp: bind_eq_Some_conv)
    have "re_crypto env = c" using "2.prems"(3) by simp
    then have "id_ok c (rw_rcv v)" using frame_id [OF v(1)] "2.prems"(1) by simp
    then show ?case using "2.IH" v "2.prems"(3) by simp
  qed simp
  then have "id_ok c (rw_rcv w')" using assms(1) by (simp add: id_ok_def)
  then show ?thesis using assms(4) by (simp add: id_ok_def identified_def)
qed

theorem rtc_sender_verified_witness:
  "rr_senderToken (rw_rcv (demo_greeted [])) \<noteq> []"
proof -
  have "rr_state (rw_rcv (demo_offered [])) = stateWaitNonce"
    "\<forall>f \<in> set [(demo_env, demo_nonce, True), (demo_env, demo_token, True)]. re_crypto (fst f) = demo_crypto"
    "rr_state (rw_rcv (demo_greeted [])) \<notin> {stateWaitNonce, stateWaitToken, stateDone}"
    by (simp_all add: demo_hello demo_offered_eq NewRTCReceiver_def)
  from rtc_sender_verified [OF this(1) demo_hello(1) this(2,3)] show ?thesis by simp
qed

section \<open>Offers\<close>

text \<open>An offer cannot disturb a transfer. While an offer is being answered or a connection is in
  use, another offer is refused and changes neither the receiver nor a file, and reports nothing.\<close>

theorem rtc_busy_untouched:
  assumes "rr_accepting (rw_rcv w) \<or> (rr_peer (rw_rcv w) \<noteq> None \<and> rr_state (rw_rcv w) \<noteq> stateDone)"
  shows "\<exists>e. AcceptOffer now (Some (peerID, name)) sdpOk conn answered w =
       (w\<lparr>rw_blocked := fst (isPeerBlocked now peerID (rw_blocked w))\<rparr>, Some e) \<and> e \<in> {PeerBlocked, ErrReceiverBusy}"
  using assms by (auto simp: AcceptOffer_def accept_begin_def Let_def split: prod.split)

theorem rtc_busy_untouched_witness:
  "rw_rcv (fst (AcceptOffer 5 (Some (''other'', ''Phone'')) True (Some 2) True (demo_offered []))) = rw_rcv (demo_offered [])"
proof -
  have "rr_peer (rw_rcv (demo_offered [])) \<noteq> None \<and> rr_state (rw_rcv (demo_offered [])) \<noteq> stateDone"
    by (simp add: demo_offered_eq NewRTCReceiver_def)
  from rtc_busy_untouched [OF disjI2 [OF this], of 5 "''other''" "''Phone''" True "Some 2" True] show ?thesis by auto
qed

text \<open>A new session starts fresh. After a successful offer the receiver is a newly made one with
  the same settings, the new connection and the sender's name and id; open files of an earlier
  transfer were removed. The one thing that survives is the folder map of the previous transfer.\<close>

theorem rtc_offer_fresh:
  assumes "AcceptOffer now (Some (peerID, name)) sdpOk conn answered w = (w', None)"
  shows "\<exists>p. conn = Some p \<and> rw_fs w' = remove_all (rr_filePaths (rw_rcv w)) (rw_fs w) \<and>
    (let r = rw_rcv w in rw_rcv w' = (NewRTCReceiver (rr_signingKey r) (rr_pin r) (rr_saveDir r))\<lparr>
       rr_peer := Some p, rr_senderAlias := name, rr_senderSignalingID := peerID,
       rr_extRoutes := rr_extRoutes r, rr_requirePairing := rr_requirePairing r, rr_pinProvider := rr_pinProvider r,
       rr_onSelectFiles := rr_onSelectFiles r, rr_trustedStore := rr_trustedStore r,
       rr_stunServers := rr_stunServers r, rr_folderRemapper := rr_folderRemapper r\<rparr>)"
  using assms
  by (auto simp: AcceptOffer_def accept_begin_def accept_install_def reset_for_offer_def NewRTCReceiver_def alloc_reset_def
      Let_def split: prod.splits option.splits if_splits)

theorem rtc_offer_fresh_witness:
  "rr_peer (rw_rcv (demo_offered ''1234'')) = Some 1 \<and> rr_pinAttempts (rw_rcv (demo_offered ''1234'')) = 0"
proof -
  have "AcceptOffer 0 (Some (''peer'', ''Kobo'')) True (Some 1) True (demo_start ''1234'') = (demo_offered ''1234'', None)"
    by (simp add: AcceptOffer_def, subst demo_begin, simp add: demo_install [simplified])
  from rtc_offer_fresh [OF this] show ?thesis by (auto simp: Let_def NewRTCReceiver_def)
qed

section \<open>Panics\<close>

lemma parse_empty: "ParseRTCMessage [] = None"
  by code_simp

lemma control_total:
  assumes "rr_state (rw_rcv w) \<noteq> stateWaitPairResponse \<or> rr_trustedStore (rw_rcv w) = None"
  shows "control_message env data w = None \<longleftrightarrow> data = [] \<and> rr_state (rw_rcv w) = stateWaitFiles"
proof -
  have "handlePairResponse env ty data w \<noteq> None" if "rr_trustedStore (rw_rcv w) = None" for ty
    using that by (auto simp: handlePairResponse_def pair_ok_def remember_sender_def Let_def split: option.split)
  then show ?thesis using assms parse_empty
    by (cases "rr_state (rw_rcv w)") (auto simp: control_message_def split: option.split prod.split list.split)
qed

text \<open>C27: one frame panics. Unless a pairing with a broken store of trusted devices is under way, the
  handler of a frame panics for exactly one input: an empty text frame while the receiver waits for
  a file header.\<close>

theorem rtc_panics_exactly:
  assumes "rr_state (rw_rcv w) \<noteq> stateWaitPairResponse \<or> rr_trustedStore (rw_rcv w) = None"
  shows "handleDataMessage env data isString w = None \<longleftrightarrow>
    isString \<and> data = [] \<and> rr_state (rw_rcv w) = stateWaitFiles"
  using control_total [of w env data] control_total [of "upd (\<lambda>r. r\<lparr>rr_controlBuffer := []\<rparr>) w" env "rr_controlBuffer (rw_rcv w)"] assms
  by (auto simp: handleDataMessage_def Let_def split: if_splits)

theorem rtc_panics_exactly_witness:
  "handleDataMessage demo_env [] True demo_listed = None \<and> handleDataMessage demo_env [] False demo_listed \<noteq> None"
proof -
  have "rr_trustedStore (rw_rcv demo_listed) = None" "rr_state (rw_rcv demo_listed) = stateWaitFiles"
    by (simp_all add: demo_granting demo_hello demo_offered_eq NewRTCReceiver_def)
  then show ?thesis using rtc_panics_exactly [of demo_listed demo_env "[]"] by auto
qed

section \<open>Pairing is not enforced\<close>

definition bare_ok :: bytes where
  "bare_ok = print_value None (JObj [(''status'', JStr ''OK'')])"

lemma bare_ok_parses:
  "ParseRTCMessage bare_ok = Some (Generic [(''status'', JStr ''OK'')], ''status_OK'') \<and>
   Option.bind (json_decode bare_ok) (from_json (put_str_fields ''status'' ''publicKey'') ([], [])) = Some (''OK'', []) \<and>
   bare_ok \<noteq> ''0''"
  by code_simp



end
