(* ===== verification/PeerChannel.thy ===== *)
theory PeerChannel
  imports RtcProtocol
begin

text \<open>
  \<^verbatim>\<open>internal/webrtc/transfer/peer.go\<close>, the part above the WebRTC library: frames on a data channel,
  JSON messages as one text frame or as binary chunks, the close notification, and waiting for the
  send buffer to drain. The library's channel is reliable and ordered: the frames of the record
  \<open>channel\<close> arrive at the peer in this order. \<open>ch_outcomes\<close> are the results of the coming library
  calls (none left: they succeed).
\<close>

section \<open>Frames\<close>

definition ChunkSize :: nat where "ChunkSize = 16 * 1024"

record channel =
  ch_ready :: bool
  ch_closed :: bool
  ch_outcomes :: "bool list"
  ch_frames :: "(bytes \<times> bool) list"

text \<open>The next outcome of the library.\<close>

definition next_outcome :: "channel \<Rightarrow> channel \<times> bool" where
  "next_outcome ch =
     (case ch_outcomes ch of [] \<Rightarrow> (ch, True) | ok # rest \<Rightarrow> (ch\<lparr>ch_outcomes := rest\<rparr>, ok))"

text \<open>\<^verbatim>\<open>Send\<close> (a binary frame) and \<^verbatim>\<open>SendText\<close>.\<close>

definition send_frame :: "bytes \<Rightarrow> bool \<Rightarrow> channel \<Rightarrow> channel \<times> bool" where
  "send_frame data isString ch =
     (if ch_closed ch then (ch, False)
      else if \<not> ch_ready ch then (ch, False)
      else case next_outcome ch of
             (ch1, True) \<Rightarrow> (ch1\<lparr>ch_frames := ch_frames ch1 @ [(data, isString)]\<rparr>, True)
           | (ch1, False) \<Rightarrow> (ch1, False))"

definition pc_Send :: "bytes \<Rightarrow> channel \<Rightarrow> channel \<times> bool" where
  "pc_Send data ch = send_frame data False ch"

definition pc_SendText :: "string \<Rightarrow> channel \<Rightarrow> channel \<times> bool" where
  "pc_SendText s ch = send_frame s True ch"

text \<open>Chunks of at most \<open>ChunkSize\<close> bytes, the loop of \<^verbatim>\<open>SendJSONBinary\<close> and of \<^verbatim>\<open>SendFiles\<close>.\<close>

function chunks :: "bytes \<Rightarrow> bytes list" where
  "chunks data = (if data = [] then [] else take ChunkSize data # chunks (drop ChunkSize data))"
  by pat_completeness auto
termination by (relation "measure length") (auto simp: ChunkSize_def)

declare chunks.simps [simp del]

fun send_chunks :: "bytes list \<Rightarrow> channel \<Rightarrow> channel \<times> bool" where
  "send_chunks [] ch = (ch, True)"
| "send_chunks (c # cs) ch =
     (case pc_Send c ch of (ch1, True) \<Rightarrow> send_chunks cs ch1 | (ch1, False) \<Rightarrow> (ch1, False))"

definition pc_SendJSON :: "rtc_message \<Rightarrow> channel \<Rightarrow> channel \<times> bool" where
  "pc_SendJSON m ch = pc_SendText (wire m) ch"

definition pc_SendJSONBinary :: "rtc_message \<Rightarrow> channel \<Rightarrow> channel \<times> bool" where
  "pc_SendJSONBinary m ch = send_chunks (chunks (wire m)) ch"

definition pc_SendDelimiter :: "channel \<Rightarrow> channel \<times> bool" where
  "pc_SendDelimiter ch = pc_SendText ''0'' ch"

text \<open>A message in chunks with its delimiter, the way both sides send large messages.\<close>

definition send_chunked :: "rtc_message \<Rightarrow> channel \<Rightarrow> channel \<times> bool" where
  "send_chunked m ch = (case pc_SendJSONBinary m ch of (ch1, True) \<Rightarrow> pc_SendDelimiter ch1 | (ch1, False) \<Rightarrow> (ch1, False))"

section \<open>Closing\<close>

text \<open>The close notification: whether it fired, and the registered handler. A call returns the handler
  it runs, if any.\<close>

record 'h notifier =
  nt_closed :: bool
  nt_onClose :: "'h option"

definition notifyClose :: "'h notifier \<Rightarrow> 'h notifier \<times> 'h option" where
  "notifyClose n = (if nt_closed n then (n, None) else (n\<lparr>nt_closed := True\<rparr>, nt_onClose n))"

definition pc_OnClose :: "'h option \<Rightarrow> 'h notifier \<Rightarrow> 'h notifier \<times> 'h option" where
  "pc_OnClose handler n =
     (n\<lparr>nt_onClose := handler\<rparr>, if handler \<noteq> None \<and> nt_closed n then handler else None)"

section \<open>Flow control\<close>

datatype wait_res = Drained | DeadlineExceeded | ConnClosed | NotReady

datatype wait_event = WaitClosed | WaitLow nat | WaitTimer

text \<open>The select loop: each low-water event carries the amount that is read after it. \<open>None\<close>: still waiting.\<close>

fun wait_loop :: "nat \<Rightarrow> wait_event list \<Rightarrow> wait_res option" where
  "wait_loop limit [] = None"
| "wait_loop limit (WaitClosed # es) = Some ConnClosed"
| "wait_loop limit (WaitLow amount # es) = (if amount \<le> limit then Some Drained else wait_loop limit es)"
| "wait_loop limit (WaitTimer # es) = Some DeadlineExceeded"

definition WaitBufferBelowWithTimeout ::
    "bool \<Rightarrow> nat \<Rightarrow> nat \<Rightarrow> nat \<Rightarrow> wait_event list \<Rightarrow> wait_res option" where
  "WaitBufferBelowWithTimeout ready limit first again events =
     (if \<not> ready then Some NotReady
      else if first \<le> limit then Some Drained
      else if again \<le> limit then Some Drained
      else wait_loop limit events)"

text \<open>\<^verbatim>\<open>waitForBufferedAmountBelow\<close> does not watch for the connection to close.\<close>

definition waitForBufferedAmountBelow ::
    "nat \<Rightarrow> nat \<Rightarrow> nat \<Rightarrow> wait_event list \<Rightarrow> wait_res option" where
  "waitForBufferedAmountBelow limit first again events =
     (if first \<le> limit then Some Drained
      else if again \<le> limit then Some Drained
      else wait_loop limit (filter (\<lambda>e. e \<noteq> WaitClosed) events))"

text \<open>\<^verbatim>\<open>WaitBufferEmpty\<close> polls: an event is the end of the context, the close, or a tick with its reading.\<close>

fun WaitBufferEmpty :: "wait_event list \<Rightarrow> wait_res option" where
  "WaitBufferEmpty [] = None"
| "WaitBufferEmpty (WaitTimer # es) = Some DeadlineExceeded"
| "WaitBufferEmpty (WaitClosed # es) = Some ConnClosed"
| "WaitBufferEmpty (WaitLow amount # es) = (if amount = 0 then Some Drained else WaitBufferEmpty es)"

section \<open>Lemmas\<close>

lemma chunks_concat: "concat (chunks data) = data"
proof (induction data rule: chunks.induct)
  case (1 data)
  then show ?case by (subst chunks.simps) simp
qed

lemma chunks_sizes: "c \<in> set (chunks data) \<Longrightarrow> c \<noteq> [] \<and> length c \<le> ChunkSize"
proof (induction data rule: chunks.induct)
  case (1 data)
  then show ?case by (subst (asm) (2) chunks.simps) (auto simp: ChunkSize_def split: if_splits)
qed

lemma send_frame_frames:
  "send_frame data s ch = (ch', ok) \<Longrightarrow>
   ch_frames ch' = ch_frames ch @ (if ok then [(data, s)] else []) \<and> ch_ready ch' = ch_ready ch \<and> ch_closed ch' = ch_closed ch"
  by (auto simp: send_frame_def next_outcome_def split: if_splits prod.splits bool.splits list.splits)

lemma send_chunks_frames:
  "send_chunks cs ch = (ch', ok) \<Longrightarrow>
   \<exists>n \<le> length cs. ch_frames ch' = ch_frames ch @ map (\<lambda>c. (c, False)) (take n cs) \<and> (ok \<longrightarrow> n = length cs) \<and>
     ch_ready ch' = ch_ready ch \<and> ch_closed ch' = ch_closed ch"
proof (induction cs arbitrary: ch)
  case (Cons c cs)
  obtain ch1 k where s: "pc_Send c ch = (ch1, k)" by fastforce
  note f = send_frame_frames [OF s [unfolded pc_Send_def]]
  show ?case
  proof (cases k)
    case True
    then have "send_chunks cs ch1 = (ch', ok)" using Cons.prems s by simp
    from Cons.IH [OF this] obtain n where "n \<le> length cs"
      "ch_frames ch' = ch_frames ch1 @ map (\<lambda>c. (c, False)) (take n cs)" "ok \<longrightarrow> n = length cs"
      "ch_ready ch' = ch_ready ch1" "ch_closed ch' = ch_closed ch1" by blast
    then show ?thesis using f True by (intro exI [of _ "Suc n"]) simp
  next
    case False
    then show ?thesis using Cons.prems s f by (intro exI [of _ 0]) auto
  qed
qed simp

lemma send_chunks_ok:
  "ch_ready ch \<Longrightarrow> \<not> ch_closed ch \<Longrightarrow> ch_outcomes ch = [] \<Longrightarrow>
   \<exists>ch'. send_chunks cs ch = (ch', True) \<and> ch_ready ch' \<and> \<not> ch_closed ch' \<and> ch_outcomes ch' = []"
  by (induction cs arbitrary: ch) (auto simp: pc_Send_def send_frame_def next_outcome_def)

lemma send_chunked_ok:
  assumes "ch_ready ch" and "\<not> ch_closed ch" and "ch_outcomes ch = []"
  shows "\<exists>ch'. send_chunked m ch = (ch', True)"
  using send_chunks_ok [OF assms, of "chunks (wire m)"]
  by (auto simp: send_chunked_def pc_SendJSONBinary_def pc_SendDelimiter_def pc_SendText_def send_frame_def next_outcome_def)

section \<open>The close handler\<close>

datatype 'h close_op = Register "'h option" | Notify

fun close_calls :: "'h close_op list \<Rightarrow> 'h notifier \<Rightarrow> 'h list" where
  "close_calls [] n = []"
| "close_calls (Register h # ops) n =
     (case pc_OnClose h n of (n1, c) \<Rightarrow> (case c of None \<Rightarrow> [] | Some x \<Rightarrow> [x]) @ close_calls ops n1)"
| "close_calls (Notify # ops) n =
     (case notifyClose n of (n1, c) \<Rightarrow> (case c of None \<Rightarrow> [] | Some x \<Rightarrow> [x]) @ close_calls ops n1)"

definition registered :: "'h close_op \<Rightarrow> 'h list" where
  "registered op = (case op of Register (Some h) \<Rightarrow> [h] | _ \<Rightarrow> [])"

text \<open>The handler in force after some registrations.\<close>

fun in_force :: "'h option \<Rightarrow> 'h close_op list \<Rightarrow> 'h option" where
  "in_force h [] = h"
| "in_force h (Register h' # ops) = in_force h' ops"
| "in_force h (Notify # ops) = in_force h ops"

lemma calls_closed: "nt_closed n \<Longrightarrow> close_calls ops n = concat (map registered ops)"
  by (induction ops n rule: close_calls.induct)
    (auto simp: pc_OnClose_def notifyClose_def registered_def split: option.splits)

lemma calls_open: "\<not> nt_closed n \<Longrightarrow> Notify \<notin> set pre \<Longrightarrow>
  close_calls (pre @ Notify # post) n =
    (case in_force (nt_onClose n) pre of None \<Rightarrow> [] | Some h \<Rightarrow> [h]) @ concat (map registered post)"
proof (induction pre arbitrary: n)
  case Nil
  then show ?case by (simp add: notifyClose_def calls_closed split: option.split)
next
  case (Cons op pre)
  then show ?case by (cases op) (auto simp: pc_OnClose_def)
qed

text \<open>The close handler runs exactly when it should. However often the connection reports that it
  closed, and however registrations interleave with that, exactly one handler runs for the close,
  the one in force at that moment, and every handler registered later runs at once; without a close
  none runs.\<close>

theorem close_handler_exact:
  assumes "\<not> nt_closed n" and "Notify \<notin> set pre"
  shows "close_calls pre n = [] \<and> close_calls (pre @ Notify # post) n =
    (case in_force (nt_onClose n) pre of None \<Rightarrow> [] | Some h \<Rightarrow> [h]) @ concat (map registered post)"
proof
  show "close_calls pre n = []" using assms
    by (induction pre n rule: close_calls.induct) (auto simp: pc_OnClose_def)
qed (rule calls_open [OF assms])

theorem close_handler_exact_witness:
  "close_calls [Register (Some 1), Register (Some 2), Notify, Notify, Register (Some (3 :: nat))]
     \<lparr>nt_closed = False, nt_onClose = None\<rparr> = [2, 3]"
  using close_handler_exact [of "\<lparr>nt_closed = False, nt_onClose = None\<rparr>" "[Register (Some 1), Register (Some 2)]"
    "[Notify, Register (Some (3 :: nat))]"] by (simp add: registered_def)

section \<open>Waiting\<close>

lemma wait_loop_drained: "wait_loop limit es = Some Drained \<Longrightarrow> \<exists>a \<le> limit. WaitLow a \<in> set es"
  by (induction limit es rule: wait_loop.induct) (auto split: if_splits)

text \<open>Waiting for the send buffer ends and is sound. The wait returns as soon as its timer has
  fired, the connection closed or the buffer drained, whatever low-water events came before; it
  reports a drained buffer only if some reading was at or below the limit.\<close>

theorem wait_below_decides:
  shows "(WaitTimer \<in> set events \<or> WaitClosed \<in> set events \<longrightarrow>
      WaitBufferBelowWithTimeout ready limit first again events \<noteq> None) \<and>
    (WaitBufferBelowWithTimeout ready limit first again events = Some Drained \<longrightarrow>
      ready \<and> (first \<le> limit \<or> again \<le> limit \<or> (\<exists>a \<le> limit. WaitLow a \<in> set events)))"
proof -
  have "WaitTimer \<in> set events \<or> WaitClosed \<in> set events \<Longrightarrow> wait_loop limit events \<noteq> None"
    by (induction limit events rule: wait_loop.induct) auto
  then show ?thesis by (auto simp: WaitBufferBelowWithTimeout_def dest: wait_loop_drained)
qed

theorem wait_below_decides_witness:
  "WaitBufferBelowWithTimeout True 4 9 9 [WaitLow 8, WaitTimer] \<noteq> None"
  using wait_below_decides [of "[WaitLow 8, WaitTimer]" True 4 9 9] by simp

end
