(* ===== verification/RtcSender.thy ===== *)
theory RtcSender
  imports PeerChannel Token TrustedStore LsErrors
begin

text \<open>
  \<^verbatim>\<open>internal/webrtc/transfer/sender.go\<close>: the WebRTC sender. The world is the sender, the channel and
  the file system (the store of trusted devices writes to it). Each Go channel of capacity one is an
  optional value; \<^verbatim>\<open>Close\<close> closes all four, which is the flag \<open>sn_closed\<close>. Callbacks are functions
  of the sender. The signalling and connecting steps of \<^verbatim>\<open>Send\<close> are arguments. A panic is \<open>None\<close>.
\<close>

section \<open>State\<close>

datatype sstate =
    senderStateInit | senderStateWaitNonce | senderStateWaitToken | senderStateWaitPin
  | senderStateWaitRequiredPIN | senderStateWaitFileAccept | senderStateSendingFiles | senderStateDone

definition senderMaxPINAttempts :: int where "senderMaxPINAttempts = MaxPINAttempts"

definition senderMaxControlBytes :: int where "senderMaxControlBytes = 2 * 1024 * 1024"

record SendFile =
  sf_id :: string
  sf_fileName :: string
  sf_filePath :: string
  sf_size :: int
  sf_fileType :: string
  sf_sha256 :: string
  sf_modified :: "int option"
  sf_accessed :: "int option"

datatype send_err =
    NonceFailed | NonceNotSent | TooManyPINAttempts | SignatureRejected | ReceiverTokenInvalid token_err
  | PINNotSent | ChallengeNotSent | PINResultNotSent | TooManyIncorrectPINs | BadPINMessage
  | BadPairKey | PairIdentityMismatch token_err | ReceiverFailed string string | PeerConnectionClosed

record RTCSender =
  sn_signingKey :: SigningKey
  sn_peer :: bool
  sn_pin :: string
  sn_sessionID :: string
  sn_pinAttempts :: int
  sn_requiredPINAttempts :: int
  sn_requiredPIN :: string
  sn_requirePIN :: bool
  sn_state :: sstate
  sn_localNonce :: bytes
  sn_remoteNonce :: bytes
  sn_finalNonce :: bytes
  sn_receiverPublicKey :: "VerifyingKey option"
  sn_receiverToken :: string
  sn_pinProvider :: "(int \<Rightarrow> string) option"
  sn_receiverAlias :: string
  sn_onPairRequest :: "(string \<Rightarrow> string \<Rightarrow> bool) option"
  sn_trustedStore :: "TrustedDeviceStore option"
  sn_files :: "SendFile list"
  sn_fileTokens :: "(string, string) gomap"
  sn_acceptedIDs :: "string list"
  sn_accepted :: "(string, string) gomap option"
  sn_declined :: bool
  sn_errors :: "send_err option"
  sn_fileResults :: "(string \<times> bool \<times> string option) option"
  sn_controlBuffer :: bytes
  sn_closed :: bool
  sn_stunServers :: "string list"

record send_world =
  xw_snd :: RTCSender
  xw_ch :: channel
  xw_fs :: fsys

text \<open>What one call gets from outside.\<close>

record send_env =
  se_crypto :: crypto_ops
  se_now :: int
  se_random :: "bytes option"
  se_synced :: bool
  se_time :: "int \<Rightarrow> string"

definition NewRTCSender :: "SigningKey \<Rightarrow> string \<Rightarrow> string \<Rightarrow> RTCSender" where
  "NewRTCSender key pin uuid =
     \<lparr>sn_signingKey = key, sn_peer = False, sn_pin = pin, sn_sessionID = take 11 uuid, sn_pinAttempts = 0,
      sn_requiredPINAttempts = 0, sn_requiredPIN = [], sn_requirePIN = False, sn_state = senderStateInit,
      sn_localNonce = [], sn_remoteNonce = [], sn_finalNonce = [], sn_receiverPublicKey = None,
      sn_receiverToken = [], sn_pinProvider = None, sn_receiverAlias = [], sn_onPairRequest = None,
      sn_trustedStore = None, sn_files = [], sn_fileTokens = [], sn_acceptedIDs = [], sn_accepted = None,
      sn_declined = False, sn_errors = None, sn_fileResults = None, sn_controlBuffer = [],
      sn_closed = False, sn_stunServers = []\<rparr>"

definition sn_SetReceiverPublicKey :: "VerifyingKey option \<Rightarrow> RTCSender \<Rightarrow> RTCSender" where
  "sn_SetReceiverPublicKey key s = s\<lparr>sn_receiverPublicKey := key\<rparr>"

definition sn_SetRequiredPIN :: "string \<Rightarrow> RTCSender \<Rightarrow> RTCSender" where
  "sn_SetRequiredPIN pin s = s\<lparr>sn_requiredPIN := pin, sn_requirePIN := True\<rparr>"

definition sn_SetPINProvider :: "(int \<Rightarrow> string) option \<Rightarrow> RTCSender \<Rightarrow> RTCSender" where
  "sn_SetPINProvider provider s = s\<lparr>sn_pinProvider := provider\<rparr>"

definition sn_SetReceiverInfo :: "string \<Rightarrow> RTCSender \<Rightarrow> RTCSender" where
  "sn_SetReceiverInfo name s = s\<lparr>sn_receiverAlias := name\<rparr>"

definition sn_SetOnPairRequest :: "(string \<Rightarrow> string \<Rightarrow> bool) option \<Rightarrow> RTCSender \<Rightarrow> RTCSender" where
  "sn_SetOnPairRequest callback s = s\<lparr>sn_onPairRequest := callback\<rparr>"

definition sn_SetTrustedStore :: "TrustedDeviceStore option \<Rightarrow> RTCSender \<Rightarrow> RTCSender" where
  "sn_SetTrustedStore store s = s\<lparr>sn_trustedStore := store\<rparr>"

definition sn_SetSTUNServers :: "string list \<Rightarrow> RTCSender \<Rightarrow> RTCSender" where
  "sn_SetSTUNServers servers s = s\<lparr>sn_stunServers := servers\<rparr>"

section \<open>Effects\<close>

definition supd :: "(RTCSender \<Rightarrow> RTCSender) \<Rightarrow> send_world \<Rightarrow> send_world" where
  "supd f w = w\<lparr>xw_snd := f (xw_snd w)\<rparr>"

definition via_channel :: "(channel \<Rightarrow> channel \<times> bool) \<Rightarrow> send_world \<Rightarrow> send_world \<times> bool" where
  "via_channel send w =
     (if \<not> sn_peer (xw_snd w) then (w, False)
      else case send (xw_ch w) of (ch, ok) \<Rightarrow> (w\<lparr>xw_ch := ch\<rparr>, ok))"

definition sn_sendJSON :: "rtc_message \<Rightarrow> send_world \<Rightarrow> send_world \<times> bool" where
  "sn_sendJSON m w = via_channel (pc_SendJSON m) w"

definition sn_sendJSONBinary :: "rtc_message \<Rightarrow> send_world \<Rightarrow> send_world \<times> bool" where
  "sn_sendJSONBinary m w = via_channel (pc_SendJSONBinary m) w"

definition sn_sendDelimiter :: "send_world \<Rightarrow> send_world \<times> bool" where
  "sn_sendDelimiter w = via_channel pc_SendDelimiter w"

text \<open>A send into a channel of capacity one that drops the value when the channel is full.\<close>

definition offer_error :: "send_err \<Rightarrow> RTCSender \<Rightarrow> RTCSender" where
  "offer_error e s = (if sn_errors s = None then s\<lparr>sn_errors := Some e\<rparr> else s)"

definition failLocked :: "send_err \<Rightarrow> send_world \<Rightarrow> send_world" where
  "failLocked e w =
     supd (\<lambda>s. let s1 = s\<lparr>sn_state := senderStateDone\<rparr> in if sn_closed s1 then s1 else offer_error e s1) w"

definition sn_peerClosed :: "send_world \<Rightarrow> send_world" where
  "sn_peerClosed w =
     (if \<not> sn_closed (xw_snd w) \<and> sn_state (xw_snd w) \<noteq> senderStateDone
      then failLocked PeerConnectionClosed w else w)"

definition computeFingerprint :: "(bytes \<Rightarrow> bytes) \<Rightarrow> string \<Rightarrow> string" where
  "computeFingerprint sha publicKeyPEM =
     (let fullHash = hex_encode (sha publicKeyPEM) in if length fullHash > 16 then take 16 fullHash else fullHash)"

section \<open>Handshake\<close>

text \<open>The error channel is written without a default case here: with a full channel the call would
  block for ever with the mutex held, which is \<open>None\<close>.\<close>

definition block_error :: "send_err \<Rightarrow> send_world \<Rightarrow> send_world option" where
  "block_error e w =
     (if sn_closed (xw_snd w) then Some w
      else if sn_errors (xw_snd w) \<noteq> None then None
      else Some (supd (\<lambda>s. s\<lparr>sn_errors := Some e\<rparr>) w))"

definition startNonceExchange :: "send_env \<Rightarrow> send_world \<Rightarrow> send_world option" where
  "startNonceExchange env w =
     (case GenerateNonce (se_random env) of
        None \<Rightarrow> block_error NonceFailed w
      | Some nonce \<Rightarrow>
          let w1 = supd (\<lambda>s. s\<lparr>sn_localNonce := nonce\<rparr>) w in
          (case sn_sendJSON (RTCNonceMessage (EncodeNonce nonce)) w1 of
             (w2, False) \<Rightarrow> block_error NonceNotSent w2
           | (w2, True) \<Rightarrow> Some (supd (\<lambda>s. s\<lparr>sn_state := senderStateWaitNonce\<rparr>) w2)))"

definition handleNonceResponse :: "send_env \<Rightarrow> rtc_message \<Rightarrow> string \<Rightarrow> send_world \<Rightarrow> send_world" where
  "handleNonceResponse env msg msgType w =
     (if msgType \<noteq> ''nonce'' then w
      else case msg of
        RTCNonceMessage nonce \<Rightarrow>
          (case DecodeNonce nonce of
             Inl _ \<Rightarrow> w
           | Inr remoteNonce \<Rightarrow>
               let w1 = supd (\<lambda>s. s\<lparr>sn_remoteNonce := remoteNonce,
                                    sn_finalNonce := CombineNonces (sn_localNonce s) remoteNonce\<rparr>) w in
               (case GenerateTokenWithNonce (se_crypto env) (sn_signingKey (xw_snd w1)) (sn_finalNonce (xw_snd w1)) of
                  None \<Rightarrow> w1
                | Some token \<Rightarrow>
                    (case sn_sendJSON (RTCTokenRequest token) w1 of
                       (w2, False) \<Rightarrow> w2
                     | (w2, True) \<Rightarrow> supd (\<lambda>s. s\<lparr>sn_state := senderStateWaitToken\<rparr>) w2)))
      | _ \<Rightarrow> w)"

definition sendPinSendingStatus :: "string \<Rightarrow> send_world \<Rightarrow> send_world \<times> bool" where
  "sendPinSendingStatus status w =
     (case sn_sendJSONBinary (RTCPinSendingResponse status []) w of
        (w1, False) \<Rightarrow> (w1, False)
      | (w1, True) \<Rightarrow> sn_sendDelimiter w1)"

definition file_dto :: "(int \<Rightarrow> string) \<Rightarrow> SendFile \<Rightarrow> RTCFileDto" where
  "file_dto fmt f =
     \<lparr>rf_id = sf_id f, rf_fileName = sf_fileName f, rf_size = sf_size f, rf_fileType = sf_fileType f,
      rf_sha256 = sf_sha256 f, rf_preview = [],
      rf_metadata = \<lparr>rm_modified = (case sf_modified f of None \<Rightarrow> [] | Some t \<Rightarrow> fmt t),
                     rm_accessed = (case sf_accessed f of None \<Rightarrow> [] | Some t \<Rightarrow> fmt t)\<rparr>\<rparr>"

definition fileDTOs :: "(int \<Rightarrow> string) \<Rightarrow> RTCSender \<Rightarrow> RTCFileDto list" where
  "fileDTOs fmt s = map (file_dto fmt) (sn_files s)"

definition sendFileList :: "send_env \<Rightarrow> send_world \<Rightarrow> send_world" where
  "sendFileList env w =
     (case sn_sendJSONBinary (RTCPinSendingResponse ''OK'' (fileDTOs (se_time env) (xw_snd w))) w of
        (w1, False) \<Rightarrow> w1
      | (w1, True) \<Rightarrow>
          (case sn_sendDelimiter w1 of
             (w2, False) \<Rightarrow> w2
           | (w2, True) \<Rightarrow> supd (\<lambda>s. s\<lparr>sn_state := senderStateWaitFileAccept\<rparr>) w2))"

definition beginFileListPhase :: "send_env \<Rightarrow> send_world \<Rightarrow> send_world" where
  "beginFileListPhase env w =
     (if \<not> sn_requirePIN (xw_snd w) then sendFileList env w
      else case sendPinSendingStatus StatusPINRequired w of
             (w1, False) \<Rightarrow> failLocked ChallengeNotSent w1
           | (w1, True) \<Rightarrow> supd (\<lambda>s. s\<lparr>sn_state := senderStateWaitRequiredPIN\<rparr>) w1)"

text \<open>The sender answers the receiver's PIN challenge.\<close>

definition provided_pin :: "RTCSender \<Rightarrow> string" where
  "provided_pin s = (case sn_pinProvider s of None \<Rightarrow> sn_pin s | Some provider \<Rightarrow> provider (sn_pinAttempts s))"

definition answer_pin :: "send_world \<Rightarrow> send_world" where
  "answer_pin w =
     (let w1 = supd (\<lambda>s. s\<lparr>sn_pinAttempts := sn_pinAttempts s + 1\<rparr>) w in
      case sn_sendJSON (RTCPinMessage (provided_pin (xw_snd w1))) w1 of
        (w2, False) \<Rightarrow> failLocked PINNotSent w2
      | (w2, True) \<Rightarrow> supd (\<lambda>s. s\<lparr>sn_state := senderStateWaitPin\<rparr>) w2)"

definition receiver_check :: "crypto_ops \<Rightarrow> string \<Rightarrow> RTCSender \<Rightarrow> token_err option" where
  "receiver_check c token s =
     (case sn_receiverPublicKey s of
        None \<Rightarrow> None
      | Some key \<Rightarrow> (case VerifyTokenNonce c key token (sn_finalNonce s) of Inl e \<Rightarrow> Some e | Inr _ \<Rightarrow> None))"

text \<open>The receiver's token is noted and checked against an expected key; then the PIN or the list.\<close>

definition take_token :: "send_env \<Rightarrow> string \<Rightarrow> string \<Rightarrow> send_world \<Rightarrow> send_world" where
  "take_token env status token w =
     (let w1 = supd (\<lambda>s. s\<lparr>sn_receiverToken := token\<rparr>) w in
      case receiver_check (se_crypto env) token (xw_snd w1) of
        Some e \<Rightarrow> failLocked (ReceiverTokenInvalid e) w1
      | None \<Rightarrow> if status = ''PIN_REQUIRED'' then answer_pin w1 else beginFileListPhase env w1)"

definition handleTokenResponse :: "send_env \<Rightarrow> string \<Rightarrow> bytes \<Rightarrow> send_world \<Rightarrow> send_world" where
  "handleTokenResponse env msgType data w =
     (if msgType = ''status_TOO_MANY_ATTEMPTS'' then failLocked TooManyPINAttempts w
      else if msgType = ''status_INVALID_SIGNATURE'' then failLocked SignatureRejected w
      else if msgType \<noteq> ''status_OK'' \<and> msgType \<noteq> ''status_PIN_REQUIRED'' then w
      else case Option.bind (json_decode data) (from_json (put_str_fields ''status'' ''token'') ([], [])) of
        None \<Rightarrow> w
      | Some (status, token) \<Rightarrow> take_token env status token w)"

definition refuse_pin :: "send_world \<Rightarrow> send_world" where
  "refuse_pin w =
     (let w1 = supd (\<lambda>s. s\<lparr>sn_requiredPINAttempts := sn_requiredPINAttempts s + 1\<rparr>) w;
          status = (if sn_requiredPINAttempts (xw_snd w1) \<ge> senderMaxPINAttempts
                    then StatusTooManyAttempts else StatusPINRequired)
      in case sendPinSendingStatus status w1 of
           (w2, False) \<Rightarrow> failLocked PINResultNotSent w2
         | (w2, True) \<Rightarrow> if status = StatusTooManyAttempts then failLocked TooManyIncorrectPINs w2 else w2)"

definition handleRequiredPIN :: "send_env \<Rightarrow> rtc_message \<Rightarrow> string \<Rightarrow> send_world \<Rightarrow> send_world" where
  "handleRequiredPIN env msg msgType w =
     (if msgType \<noteq> ''pin'' then w
      else case msg of
        RTCPinMessage pin \<Rightarrow> if pin = sn_requiredPIN (xw_snd w) then sendFileList env w else refuse_pin w
      | _ \<Rightarrow> failLocked BadPINMessage w)"

section \<open>The answer to the file list\<close>

datatype key_check = NoKey | KeyOk VerifyingKey | KeyBad send_err

definition check_pair_key :: "crypto_ops \<Rightarrow> string \<Rightarrow> RTCSender \<Rightarrow> key_check" where
  "check_pair_key c pem s =
     (if pem = [] then NoKey
      else case ParsePublicKeyPEM c pem of
        None \<Rightarrow> KeyBad BadPairKey
      | Some key \<Rightarrow>
          if sn_receiverToken s \<noteq> [] then
            (case VerifyTokenNonce c key (sn_receiverToken s) (sn_finalNonce s) of
               Inl e \<Rightarrow> KeyBad (PairIdentityMismatch e)
             | Inr _ \<Rightarrow> KeyOk key)
          else KeyOk key)"

definition device_alias :: "RTCSender \<Rightarrow> string" where
  "device_alias s = (if sn_receiverAlias s = [] then ''Unknown Device'' else sn_receiverAlias s)"

definition pair_confirmed :: "crypto_ops \<Rightarrow> string \<Rightarrow> RTCSender \<Rightarrow> bool" where
  "pair_confirmed c pem s =
     (case sn_onPairRequest s of
        None \<Rightarrow> True
      | Some confirm \<Rightarrow>
          confirm (device_alias s) (if pem \<noteq> [] then computeFingerprint (cr_sha256 c) pem else []))"

definition remember_receiver :: "send_env \<Rightarrow> string \<Rightarrow> send_world \<Rightarrow> send_world option" where
  "remember_receiver env pem w =
     (case sn_trustedStore (xw_snd w) of
        None \<Rightarrow> Some w
      | Some store \<Rightarrow>
          (case ts_Add (cr_sha256 (se_crypto env)) (se_synced env) (xw_fs w) store
                  \<lparr>td_alias = device_alias (xw_snd w), td_publicKey = pem, td_addedAt = se_now env div 1000000000\<rparr> of
             (fs, store', NilMapPanic) \<Rightarrow> None
           | (fs, store', _) \<Rightarrow> Some (supd (\<lambda>s. s\<lparr>sn_trustedStore := Some store'\<rparr>) (w\<lparr>xw_fs := fs\<rparr>))))"

definition pair_request :: "send_env \<Rightarrow> string \<Rightarrow> send_world \<Rightarrow> send_world option" where
  "pair_request env pem w =
     (case check_pair_key (se_crypto env) pem (xw_snd w) of
        KeyBad e \<Rightarrow> Some (failLocked e (fst (sn_sendJSON (RTCPairResponse ''INVALID_SIGNATURE'' []) w)))
      | kc \<Rightarrow>
          let w1 = (case kc of KeyOk key \<Rightarrow> supd (\<lambda>s. s\<lparr>sn_receiverPublicKey := Some key\<rparr>) w | _ \<Rightarrow> w) in
          if \<not> pair_confirmed (se_crypto env) pem (xw_snd w1)
          then Some (fst (sn_sendJSON (RTCPairResponse ''PAIR_DECLINED'' [])
                           (supd (\<lambda>s. s\<lparr>sn_receiverPublicKey := None\<rparr>) w1)))
          else (case sn_sendJSON (RTCPairResponse ''OK'' (PublicKeyPEM (se_crypto env) (sn_signingKey (xw_snd w1)))) w1 of
                  (w2, False) \<Rightarrow> Some w2
                | (w2, True) \<Rightarrow> (case kc of KeyOk _ \<Rightarrow> remember_receiver env pem w2 | _ \<Rightarrow> Some w2)))"

definition handleFileAcceptance :: "send_env \<Rightarrow> string \<Rightarrow> bytes \<Rightarrow> send_world \<Rightarrow> send_world option" where
  "handleFileAcceptance env msgType data w =
     (if msgType \<noteq> ''status_OK'' \<and> msgType \<noteq> ''status_DECLINED'' \<and> msgType \<noteq> ''status_PAIR'' then Some w
      else case Option.bind (json_decode data) (from_json put_file_list_response ([], [], [])) of
        None \<Rightarrow> Some w
      | Some (status, tokens, pem) \<Rightarrow>
          if status = ''DECLINED'' then
            Some (if sn_closed (xw_snd w) then w else supd (\<lambda>s. s\<lparr>sn_declined := True\<rparr>) w)
          else if status = ''PAIR'' then pair_request env pem w
          else if status = ''OK'' then
            Some (supd (\<lambda>s. (if sn_closed s \<or> sn_accepted s \<noteq> None then s else s\<lparr>sn_accepted := Some tokens\<rparr>)
                              \<lparr>sn_state := senderStateSendingFiles\<rparr>) w)
          else Some w)"

section \<open>Frames\<close>

text \<open>An acknowledgement: the result, and an error if the receiver could not save the file.\<close>

definition file_result :: "string \<Rightarrow> bool \<Rightarrow> string option \<Rightarrow> send_world \<Rightarrow> send_world" where
  "file_result fid success err w =
     (if sn_closed (xw_snd w) then w
      else
        let w1 = supd (\<lambda>s. if sn_fileResults s = None then s\<lparr>sn_fileResults := Some (fid, success, err)\<rparr> else s) w in
        if \<not> success
        then supd (offer_error (ReceiverFailed fid
               (case err of None \<Rightarrow> ''receiver failed to save file'' | Some message \<Rightarrow> message))) w1
        else w1)"

definition sn_control :: "send_env \<Rightarrow> bytes \<Rightarrow> send_world \<Rightarrow> send_world option" where
  "sn_control env data w =
     (case ParseRTCMessage data of
        None \<Rightarrow> Some w
      | Some (msg, msgType) \<Rightarrow>
          if msgType = ''file_response'' then
            Some (case msg of RTCSendFileResponse fid success err \<Rightarrow> file_result fid success err w | _ \<Rightarrow> w)
          else (case sn_state (xw_snd w) of
             senderStateWaitNonce \<Rightarrow> Some (handleNonceResponse env msg msgType w)
           | senderStateWaitToken \<Rightarrow> Some (handleTokenResponse env msgType data w)
           | senderStateWaitPin \<Rightarrow> Some (handleTokenResponse env msgType data w)
           | senderStateWaitRequiredPIN \<Rightarrow> Some (handleRequiredPIN env msg msgType w)
           | senderStateWaitFileAccept \<Rightarrow> handleFileAcceptance env msgType data w
           | _ \<Rightarrow> Some w))"

definition sn_handleDataMessage :: "send_env \<Rightarrow> bytes \<Rightarrow> bool \<Rightarrow> send_world \<Rightarrow> send_world option" where
  "sn_handleDataMessage env data isString w =
     (let s = xw_snd w in
      if isString \<and> data = ''0'' then
        (if sn_controlBuffer s = [] then Some w
         else sn_control env (sn_controlBuffer s) (supd (\<lambda>s. s\<lparr>sn_controlBuffer := []\<rparr>) w))
      else if \<not> isString then
        (if int (length (sn_controlBuffer s)) + int (length data) > senderMaxControlBytes
         then Some (supd (\<lambda>s. s\<lparr>sn_controlBuffer := []\<rparr>) w)
         else Some (supd (\<lambda>s. s\<lparr>sn_controlBuffer := sn_controlBuffer s @ data\<rparr>) w))
      else sn_control env data w)"

definition sn_handleMessage :: "send_env \<Rightarrow> bytes \<Rightarrow> send_world \<Rightarrow> send_world option" where
  "sn_handleMessage env data w = sn_handleDataMessage env data (data = ''0'' \<or> json_decode data \<noteq> None) w"

section \<open>Starting a transfer\<close>

text \<open>\<^verbatim>\<open>Send\<close> up to the offer: the files are set and the connection made; the handlers are installed.\<close>

datatype send_outcome =
    SendOk | NoPeerConnection | NoOffer | OfferNotSent | AnswerRejected | ClosedBeforeAnswer | AnswerTimeout
  | SenderClosed | TransferDeclined | HandshakeFailed send_err | ClosedBeforeAccept | AcceptTimeout

datatype answer_event = AnswerReady bool | AnswerPeerDone | AnswerLate

definition send_offer ::
    "SendFile list \<Rightarrow> bool \<Rightarrow> bool \<Rightarrow> bool \<Rightarrow> answer_event \<Rightarrow> send_world \<Rightarrow> send_world \<times> send_outcome option" where
  "send_offer files connected offered sent answer w =
     (let w1 = supd (\<lambda>s. s\<lparr>sn_files := files\<rparr>) w in
      if \<not> connected then (w1, Some NoPeerConnection)
      else
        let w2 = supd (\<lambda>s. s\<lparr>sn_peer := True\<rparr>) w1 in
        if \<not> offered then (w2, Some NoOffer)
        else if \<not> sent then (w2, Some OfferNotSent)
        else case answer of
               AnswerReady ok \<Rightarrow> (w2, if ok then None else Some AnswerRejected)
             | AnswerPeerDone \<Rightarrow> (w2, Some ClosedBeforeAnswer)
             | AnswerLate \<Rightarrow> (w2, Some AnswerTimeout))"

text \<open>The wait for acceptance: the channel that is ready. \<open>order\<close> is the order in which the map of
  tokens is iterated.\<close>

datatype accept_event = AcceptReady | DeclineReady | ErrorReady | AcceptPeerDone | AcceptLate

definition send_wait ::
    "((string, string) gomap \<Rightarrow> string list) \<Rightarrow> accept_event \<Rightarrow> send_world \<Rightarrow> (send_world \<times> send_outcome) option" where
  "send_wait order ev w =
     (let s = xw_snd w in
      case ev of
        AcceptReady \<Rightarrow>
          (case sn_accepted s of
             Some tokens \<Rightarrow>
               Some (supd (\<lambda>s. s\<lparr>sn_accepted := None, sn_fileTokens := tokens,
                                 sn_acceptedIDs := sn_acceptedIDs s @ order tokens\<rparr>) w, SendOk)
           | None \<Rightarrow> if sn_closed s then Some (w, SenderClosed) else None)
      | DeclineReady \<Rightarrow>
          (if sn_declined s then Some (supd (\<lambda>s. s\<lparr>sn_declined := False\<rparr>) w, TransferDeclined)
           else if sn_closed s then Some (w, SenderClosed) else None)
      | ErrorReady \<Rightarrow>
          (case sn_errors s of
             Some e \<Rightarrow> Some (supd (\<lambda>s. s\<lparr>sn_errors := None\<rparr>) w, HandshakeFailed e)
           | None \<Rightarrow> if sn_closed s then Some (w, SenderClosed) else None)
      | AcceptPeerDone \<Rightarrow> Some (w, ClosedBeforeAccept)
      | AcceptLate \<Rightarrow> Some (w, AcceptTimeout))"

definition sn_Close :: "send_world \<Rightarrow> send_world" where
  "sn_Close w = supd (\<lambda>s. s\<lparr>sn_closed := True\<rparr>) w"

section \<open>Sending files\<close>

definition index_send_files :: "SendFile list \<Rightarrow> (string, SendFile) gomap" where
  "index_send_files files = fold (\<lambda>f m. if mhas m (sf_id f) then m else mput (sf_id f) f m) files []"

definition prepareSendQueue :: "RTCSender \<Rightarrow> (string \<times> string \<times> SendFile) list" where
  "prepareSendQueue s =
     concat (map (\<lambda>fid. case mget (sn_fileTokens s) fid of
                          None \<Rightarrow> []
                        | Some token \<Rightarrow>
                            (case mget (index_send_files (sn_files s)) fid of
                               None \<Rightarrow> []
                             | Some file \<Rightarrow> [(fid, token, file)]))
            (sn_acceptedIDs s))"

datatype files_err =
    NoChannel | NotOpened string | HeaderNotSent | BufferStuck | DataNotSent | ReadFailed | NextHeaderNotSent
  | DelimiterNotSent | UnexpectedAck string | FileRefused string string | ClosedBeforeAck string
  | AckTimeout string | ClosedWhileFlushing

text \<open>Waiting for the buffer and sending one frame of content.\<close>

fun send_content :: "bytes list \<Rightarrow> channel \<Rightarrow> channel \<times> files_err option" where
  "send_content [] ch = (ch, None)"
| "send_content (c # cs) ch =
     (if \<not> ch_ready ch then (ch, Some BufferStuck)
      else case next_outcome ch of
        (ch1, False) \<Rightarrow> (ch1, Some BufferStuck)
      | (ch1, True) \<Rightarrow>
          (case pc_Send c ch1 of
             (ch2, False) \<Rightarrow> (ch2, Some DataNotSent)
           | (ch2, True) \<Rightarrow> send_content cs ch2))"

text \<open>The blocks that reading the file delivers, and whether it ends or fails.\<close>

fun send_blocks :: "bytes list \<Rightarrow> bool \<Rightarrow> channel \<Rightarrow> channel \<times> files_err option" where
  "send_blocks [] ends ch = (ch, if ends then None else Some ReadFailed)"
| "send_blocks (b # bs) ends ch =
     (case send_content (chunks b) ch of
        (ch1, Some e) \<Rightarrow> (ch1, Some e)
      | (ch1, None) \<Rightarrow> send_blocks bs ends ch1)"

datatype ack_event = AckResult string bool "string option" | AckPeerDone | AckLate

definition judge_ack :: "string \<Rightarrow> ack_event \<Rightarrow> files_err option" where
  "judge_ack fid ev =
     (case ev of
        AckResult i success err \<Rightarrow>
          if i \<noteq> fid then Some (UnexpectedAck i)
          else if \<not> success then
            Some (FileRefused fid (case err of None \<Rightarrow> ''receiver failed to save file'' | Some message \<Rightarrow> message))
          else None
      | AckPeerDone \<Rightarrow> Some (ClosedBeforeAck fid)
      | AckLate \<Rightarrow> Some (AckTimeout fid))"

text \<open>One round of the loop up to the wait: the header unless it was announced, the content, and the
  next header or the delimiter.\<close>

definition send_one ::
    "(string \<Rightarrow> (bytes list \<times> bool) option) \<Rightarrow> bool \<Rightarrow> string \<times> string \<times> SendFile \<Rightarrow>
     (string \<times> string \<times> SendFile) list \<Rightarrow> channel \<Rightarrow> channel \<times> files_err option" where
  "send_one reads announced item rest ch =
     (case item of (fid, token, file) \<Rightarrow>
       (case reads (sf_filePath file) of
          None \<Rightarrow> (ch, Some (NotOpened (sf_filePath file)))
        | Some (blocks, ends) \<Rightarrow>
            (case (if announced then (ch, True) else pc_SendJSON (RTCSendFileHeader fid token) ch) of
               (ch1, False) \<Rightarrow> (ch1, Some HeaderNotSent)
             | (ch1, True) \<Rightarrow>
                 (case send_blocks blocks ends ch1 of
                    (ch2, Some e) \<Rightarrow> (ch2, Some e)
                  | (ch2, None) \<Rightarrow>
                      (case rest of
                         (i, t, _) # _ \<Rightarrow>
                           (case pc_SendJSON (RTCSendFileHeader i t) ch2 of
                              (ch3, ok) \<Rightarrow> (ch3, if ok then None else Some NextHeaderNotSent))
                       | [] \<Rightarrow>
                           (case pc_SendDelimiter ch2 of
                              (ch3, ok) \<Rightarrow> (ch3, if ok then None else Some DelimiterNotSent)))))))"

text \<open>The loop over the queue; \<open>acks\<close> is what each wait for an acknowledgement yields (none left: the timer).\<close>

fun send_queue ::
    "(string \<Rightarrow> (bytes list \<times> bool) option) \<Rightarrow> bool \<Rightarrow> ack_event list \<Rightarrow> (string \<times> string \<times> SendFile) list \<Rightarrow>
     channel \<Rightarrow> channel \<times> files_err option" where
  "send_queue reads announced acks [] ch = (ch, None)"
| "send_queue reads announced acks (item # rest) ch =
     (case send_one reads announced item rest ch of
        (ch1, Some e) \<Rightarrow> (ch1, Some e)
      | (ch1, None) \<Rightarrow>
          (case judge_ack (fst item) (case acks of [] \<Rightarrow> AckLate | a # _ \<Rightarrow> a) of
             Some e \<Rightarrow> (ch1, Some e)
           | None \<Rightarrow> send_queue reads True (tl acks) rest ch1))"

text \<open>\<open>flushed\<close>: how waiting for an empty buffer ends. A timeout is only logged.\<close>

definition SendFiles ::
    "(string \<Rightarrow> (bytes list \<times> bool) option) \<Rightarrow> ack_event list \<Rightarrow> wait_res \<Rightarrow> send_world \<Rightarrow>
     send_world \<times> files_err option" where
  "SendFiles reads acks flushed w =
     (if \<not> sn_peer (xw_snd w) then (w, Some NoChannel)
      else
        let queue = prepareSendQueue (xw_snd w);
            (ch0, ok) = (if queue = [] then pc_SendDelimiter (xw_ch w) else (xw_ch w, True))
        in if \<not> ok then (w\<lparr>xw_ch := ch0\<rparr>, Some DelimiterNotSent)
           else case send_queue reads False acks queue ch0 of
                  (ch1, Some e) \<Rightarrow> (w\<lparr>xw_ch := ch1\<rparr>, Some e)
                | (ch1, None) \<Rightarrow>
                    if flushed = ConnClosed then (w\<lparr>xw_ch := ch1\<rparr>, Some ClosedWhileFlushing)
                    else (supd (\<lambda>s. s\<lparr>sn_state := senderStateDone\<rparr>) (w\<lparr>xw_ch := ch1\<rparr>), None))"

end
