(* ===== verification/SenderProps.thy ===== *)
theory SenderProps
  imports RtcSender "HOL-Library.Sublist"
begin

text \<open>
  What the WebRTC sender promises: the frames that \<open>SendFiles\<close> puts on the channel, for every outcome.
\<close>

section \<open>The transcript of a transfer\<close>

text \<open>The content that reading a file delivers, cut into frames, and a queue's frames after its first header.\<close>

definition read_blocks :: "(string \<Rightarrow> (bytes list \<times> bool) option) \<Rightarrow> SendFile \<Rightarrow> bytes list" where
  "read_blocks reads file = (case reads (sf_filePath file) of None \<Rightarrow> [] | Some (blocks, _) \<Rightarrow> blocks)"

definition content_frames :: "(string \<Rightarrow> (bytes list \<times> bool) option) \<Rightarrow> SendFile \<Rightarrow> bytes list" where
  "content_frames reads file = concat (map chunks (read_blocks reads file))"

abbreviation binary :: "bytes list \<Rightarrow> (bytes \<times> bool) list" where
  "binary cs \<equiv> map (\<lambda>c. (c, False)) cs"

definition header_frame :: "string \<times> string \<times> SendFile \<Rightarrow> bytes \<times> bool" where
  "header_frame item = (case item of (fid, token, _) \<Rightarrow> (wire (RTCSendFileHeader fid token), True))"

definition boundary :: "(string \<times> string \<times> SendFile) list \<Rightarrow> bytes \<times> bool" where
  "boundary rest = (case rest of [] \<Rightarrow> (''0'', True) | x # _ \<Rightarrow> header_frame x)"

fun transcript ::
    "(string \<Rightarrow> (bytes list \<times> bool) option) \<Rightarrow> (string \<times> string \<times> SendFile) list \<Rightarrow> (bytes \<times> bool) list" where
  "transcript reads [] = []"
| "transcript reads (item # rest) =
     binary (content_frames reads (snd (snd item))) @ [boundary rest] @ transcript reads rest"

lemma content_whole: "concat (content_frames reads file) = concat (read_blocks reads file)"
proof -
  have "concat (concat (map chunks bs)) = concat bs" for bs
    by (induction bs) (simp_all add: chunks_concat)
  then show ?thesis by (simp add: content_frames_def)
qed

lemma content_frame_size: "c \<in> set (content_frames reads file) \<Longrightarrow> c \<noteq> [] \<and> length c \<le> ChunkSize"
  by (auto simp: content_frames_def dest: chunks_sizes)

section \<open>What is sent\<close>

lemma next_outcome_frames: "next_outcome ch = (ch', ok) \<Longrightarrow> ch_frames ch' = ch_frames ch"
  by (auto simp: next_outcome_def split: list.splits)

text \<open>\<open>sent ch ch' fs e\<close>: the frames between \<open>ch\<close> and \<open>ch'\<close> are a prefix of \<open>fs\<close>, all of them without an error.\<close>

definition sent :: "channel \<Rightarrow> channel \<Rightarrow> (bytes \<times> bool) list \<Rightarrow> 'e option \<Rightarrow> bool" where
  "sent ch ch' fs e \<longleftrightarrow> (\<exists>new. ch_frames ch' = ch_frames ch @ new \<and> prefix new fs \<and> (e = None \<longrightarrow> new = fs))"

lemma sent_Nil [simp]: "sent ch ch [] e"
  by (simp add: sent_def)

lemma sent_none: "sent ch ch fs (Some e)"
  by (simp add: sent_def)

lemma sent_any: "sent ch ch' fs (None :: 'e option) \<Longrightarrow> sent ch ch' fs e"
  by (auto simp: sent_def)

lemma sent_more: "sent ch ch' fs (Some e) \<Longrightarrow> sent ch ch' (fs @ gs) (Some e)"
  by (auto simp: sent_def)

lemma sent_trans: "sent ch ch1 fs (None :: 'e option) \<Longrightarrow> sent ch1 ch2 gs e \<Longrightarrow> sent ch ch2 (fs @ gs) e"
  by (auto simp: sent_def)

lemma sent_frame:
  "send_frame d s ch = (ch', ok) \<Longrightarrow> sent ch ch' [(d, s)] (if ok then None else Some e)"
  by (drule send_frame_frames) (auto simp: sent_def)

lemma send_content_sent: "send_content cs ch = (ch', e) \<Longrightarrow> sent ch ch' (binary cs) e"
proof (induction cs arbitrary: ch)
  case (Cons c cs)
  obtain ch1 k where n: "next_outcome ch = (ch1, k)" by fastforce
  obtain ch2 k2 where s: "pc_Send c ch1 = (ch2, k2)" by fastforce
  have eq: "ch_frames ch1 = ch_frames ch" by (rule next_outcome_frames [OF n])
  note f = sent_frame [OF s [unfolded pc_Send_def], of "the e"]
  then have f: "sent ch ch2 [(c, False)] (if k2 then None else Some (the e))" by (simp add: sent_def eq)
  show ?case
  proof (cases "ch_ready ch \<and> k \<and> k2")
    case True
    then have "send_content cs ch2 = (ch', e)" using Cons.prems n s by simp
    from Cons.IH [OF this] f True have "sent ch ch' ([(c, False)] @ binary cs) e"
      by (intro sent_trans [of ch ch2]) simp_all
    then show ?thesis by simp
  next
    case False
    then have "(ch' = ch \<or> ch' = ch1 \<or> ch' = ch2 \<and> \<not> k2) \<and> e \<noteq> None"
      using Cons.prems n s by (cases k; cases k2) (auto split: if_splits)
    then have "ch_frames ch' = ch_frames ch \<and> e \<noteq> None"
      using eq send_frame_frames [OF s [unfolded pc_Send_def]] by auto
    then show ?thesis by (simp add: sent_def)
  qed
qed simp

lemma send_blocks_sent:
  "send_blocks bs ends ch = (ch', e) \<Longrightarrow> sent ch ch' (binary (concat (map chunks bs))) e \<and> (e = None \<longrightarrow> ends)"
proof (induction bs arbitrary: ch)
  case Nil
  then show ?case by (cases ends) auto
next
  case (Cons b bs)
  obtain ch1 e1 where s: "send_content (chunks b) ch = (ch1, e1)" by fastforce
  note f = send_content_sent [OF s]
  show ?case
  proof (cases e1)
    case None
    then have "send_blocks bs ends ch1 = (ch', e)" using Cons.prems s by simp
    from Cons.IH [OF this] f None show ?thesis by (simp add: sent_trans)
  next
    case (Some x)
    with Cons.prems s have "ch' = ch1" "e = Some x" by simp_all
    with f Some show ?thesis by (simp add: sent_more)
  qed
qed

lemma send_one_sent:
  assumes "send_one reads announced item rest ch = (ch', e)"
  shows "sent ch ch' ((if announced then [] else [header_frame item]) @
      binary (content_frames reads (snd (snd item))) @ [boundary rest]) e \<and>
    (e = None \<longrightarrow> (\<exists>bs. reads (sf_filePath (snd (snd item))) = Some (bs, True)))"
proof -
  obtain fid token f where i: "item = (fid, token, f)" by (cases item)
  show ?thesis
  proof (cases "reads (sf_filePath f)")
    case None
    with assms i show ?thesis by (auto simp: send_one_def sent_none)
  next
    case (Some r)
    obtain bs ends where r: "reads (sf_filePath f) = Some (bs, ends)" using Some by (cases r) simp
    have cf: "content_frames reads f = concat (map chunks bs)" by (simp add: content_frames_def read_blocks_def r)
    obtain ch1 ok1 where h: "(if announced then (ch, True) else pc_SendJSON (RTCSendFileHeader fid token) ch) = (ch1, ok1)"
      by fastforce
    have hs: "sent ch ch1 (if announced then [] else [header_frame item]) (if ok1 then None else Some HeaderNotSent)"
      using h sent_frame [of "wire (RTCSendFileHeader fid token)" True ch ch1 ok1 HeaderNotSent]
      by (auto simp: header_frame_def i pc_SendJSON_def pc_SendText_def split: if_splits)
    show ?thesis
    proof (cases ok1)
      case False
      with assms i r h have "ch' = ch1" "e = Some HeaderNotSent" by (auto simp: send_one_def split: if_splits)
      with sent_more [of ch ch1 _ HeaderNotSent "binary (content_frames reads f) @ [boundary rest]"] hs False i
      show ?thesis by fastforce
    next
      case True
      obtain ch2 e2 where b: "send_blocks bs ends ch1 = (ch2, e2)" by fastforce
      note bsent = send_blocks_sent [OF b]
      have hs0: "sent ch ch1 (if announced then [] else [header_frame item]) (None :: files_err option)"
        using hs True by simp
      show ?thesis
      proof (cases e2)
        case (Some x)
        have "ch' = ch2" "e = Some x" using assms i r h True b Some by (auto simp: send_one_def split: if_splits)
        with sent_trans [OF hs0 sent_more [of ch1 ch2 "binary (content_frames reads f)" x "[boundary rest]"]] bsent Some i cf
        show ?thesis by simp
      next
        case None
        obtain ok3 where l: "send_frame (fst (boundary rest)) True ch2 = (ch', ok3)" "e = None \<longleftrightarrow> ok3"
          using assms i r h True b None
          by (cases rest) (auto simp: send_one_def boundary_def header_frame_def pc_SendJSON_def pc_SendDelimiter_def
              pc_SendText_def split: if_splits prod.splits)
        have "snd (boundary rest)" by (simp add: boundary_def header_frame_def split: list.split prod.split)
        then have "sent ch2 ch' [boundary rest] e"
          using sent_frame [OF l(1), of "the e"] l(2) by (cases "boundary rest"; cases e) auto
        then have "sent ch1 ch' (binary (content_frames reads f) @ [boundary rest]) e"
          using bsent None cf by (auto intro: sent_trans)
        from sent_trans [OF hs0 this] bsent None r i show ?thesis by auto
      qed
    qed
  qed
qed

text \<open>The acknowledgements a queue needs.\<close>

definition acked :: "ack_event list \<Rightarrow> (string \<times> string \<times> SendFile) list \<Rightarrow> bool" where
  "acked acks queue \<longleftrightarrow> length queue \<le> length acks \<and>
     (\<forall>i < length queue. \<exists>err. acks ! i = AckResult (fst (queue ! i)) True err)"

lemma acked_Cons: "acked (a # acks) (x # queue) \<longleftrightarrow> (\<exists>err. a = AckResult (fst x) True err) \<and> acked acks queue"
  by (auto simp: acked_def nth_Cons split: nat.splits)

lemma acked_Nil [simp]: "acked acks []"
  by (simp add: acked_def)

lemma judge_ack_ok: "judge_ack fid ev = None \<longleftrightarrow> (\<exists>err. ev = AckResult fid True err)"
  by (auto simp: judge_ack_def split: ack_event.split)

lemma send_queue_sent:
  "send_queue reads announced acks queue ch = (ch', e) \<Longrightarrow>
   sent ch ch' ((if announced \<or> queue = [] then [] else [header_frame (hd queue)]) @ transcript reads queue) e \<and>
   (e = None \<longrightarrow> acked acks queue \<and> (\<forall>x \<in> set queue. \<exists>bs. reads (sf_filePath (snd (snd x))) = Some (bs, True)))"
proof (induction reads announced acks queue ch rule: send_queue.induct)
  case (2 reads announced acks item rest ch)
  obtain ch1 e1 where o: "send_one reads announced item rest ch = (ch1, e1)" by fastforce
  note s = send_one_sent [OF o]
  show ?case
  proof (cases e1)
    case (Some x)
    with 2(2) o have "ch' = ch1" "e = Some x" by auto
    with s Some sent_more [of ch ch1 _ x "transcript reads rest"] show ?thesis by fastforce
  next
    case None
    define ack where "ack = (case acks of [] \<Rightarrow> AckLate | a # _ \<Rightarrow> a)"
    show ?thesis
    proof (cases "judge_ack (fst item) ack")
      case (Some x)
      with 2(2) o None have "ch' = ch1" "e = Some x" by (auto simp: ack_def)
      moreover have "sent ch ch1 (((if announced then [] else [header_frame item]) @
          binary (content_frames reads (snd (snd item))) @ [boundary rest]) @ transcript reads rest) (Some x)"
        using s None by (auto simp: sent_def)
      ultimately show ?thesis by (simp split: if_splits)
    next
      case ok: None
      then have q: "send_queue reads True (tl acks) rest ch1 = (ch', e)" using 2(2) o None by (simp add: ack_def)
      obtain a as err where a: "acks = a # as" "a = AckResult (fst item) True err"
        using ok by (auto simp: ack_def judge_ack_ok split: list.splits)
      note ih = 2(1) [OF o [symmetric] None ok [unfolded ack_def] q]
      have "sent ch ch' (((if announced then [] else [header_frame item]) @
          binary (content_frames reads (snd (snd item))) @ [boundary rest]) @ transcript reads rest) e"
        by (rule sent_trans [of ch ch1]) (use s None ih in auto)
      with s None ih a show ?thesis by (auto simp: acked_Cons)
    qed
  qed
qed simp

text \<open>The whole protocol of a transfer.\<close>

definition transfer_frames ::
    "(string \<Rightarrow> (bytes list \<times> bool) option) \<Rightarrow> (string \<times> string \<times> SendFile) list \<Rightarrow> (bytes \<times> bool) list" where
  "transfer_frames reads queue =
     (case queue of [] \<Rightarrow> [(''0'', True)] | x # _ \<Rightarrow> header_frame x # transcript reads queue)"

lemma SendFiles_sent:
  assumes "SendFiles reads acks flushed w = (w', e)"
  shows "sent (xw_ch w) (xw_ch w') (transfer_frames reads (prepareSendQueue (xw_snd w))) e \<and>
    (e = None \<longrightarrow> acked acks (prepareSendQueue (xw_snd w)) \<and> sn_state (xw_snd w') = senderStateDone \<and>
       (\<forall>x \<in> set (prepareSendQueue (xw_snd w)). \<exists>bs. reads (sf_filePath (snd (snd x))) = Some (bs, True)))"
proof -
  define queue where "queue = prepareSendQueue (xw_snd w)"
  obtain ch0 ok where d: "(if queue = [] then pc_SendDelimiter (xw_ch w) else (xw_ch w, True)) = (ch0, ok)" by fastforce
  obtain ch1 e1 where q: "send_queue reads False acks queue ch0 = (ch1, e1)" by fastforce
  note s = send_queue_sent [OF q]
  show ?thesis
  proof (cases "sn_peer (xw_snd w)")
    case False
    with assms show ?thesis by (auto simp: SendFiles_def sent_none)
  next
    case peer: True
    show ?thesis
    proof (cases queue)
      case Nil
      have f: "sent (xw_ch w) ch0 [(''0'', True)] (if ok then None else Some DelimiterNotSent)"
        using d Nil by (intro sent_frame) (simp add: pc_SendDelimiter_def pc_SendText_def)
      show ?thesis using assms d q f peer Nil s
        by (auto simp: SendFiles_def Let_def queue_def [symmetric] transfer_frames_def supd_def split: if_splits
            intro: sent_any)
    next
      case (Cons x xs)
      then have c: "ch0 = xw_ch w" "ok" using d by auto
      have f: "transfer_frames reads queue = [header_frame x] @ transcript reads queue" by (simp add: transfer_frames_def Cons)
      show ?thesis using assms d q peer Cons s c f
        by (auto simp: SendFiles_def Let_def queue_def [symmetric] supd_def simp del: send_queue.simps transcript.simps
            split: option.splits if_splits intro: sent_any)
    qed
  qed
qed


lemma queue_entry:
  assumes "(fid, token, f) \<in> set (prepareSendQueue s)"
  shows "fid \<in> set (sn_acceptedIDs s) \<and> mget (sn_fileTokens s) fid = Some token \<and> f \<in> set (sn_files s) \<and> sf_id f = fid"
proof -
  have index: "mget (fold (\<lambda>f m. if mhas m (sf_id f) then m else mput (sf_id f) f m) fs m) i = Some g \<Longrightarrow>
      mget m i = Some g \<or> g \<in> set fs \<and> sf_id g = i" for fs m i g
  proof (induction fs arbitrary: m)
    case (Cons f fs)
    from Cons.IH [of "if mhas m (sf_id f) then m else mput (sf_id f) f m"] Cons.prems
    have "mget (if mhas m (sf_id f) then m else mput (sf_id f) f m) i = Some g \<or> g \<in> set fs \<and> sf_id g = i" by simp
    then show ?case by (auto split: if_splits)
  qed simp
  have "mget (index_send_files (sn_files s)) i = Some g \<Longrightarrow> g \<in> set (sn_files s) \<and> sf_id g = i" for i g
    using index [of "sn_files s" "[]" i g] by (simp add: index_send_files_def)
  with assms show ?thesis by (auto simp: prepareSendQueue_def split: option.splits)
qed

lemma boundary_text: "snd (boundary rest)"
  by (simp add: boundary_def header_frame_def split: list.split prod.split)

text \<open>C6: \<open>SendFiles\<close> keeps to the protocol. Whatever fails on the way, the frames it has sent are a
  prefix of the transcript (a header before each content, the next header before the wait, the
  delimiter at the end), no content frame is empty or exceeds 16 KiB, and only files that are in the sender's list
  and were accepted with a token are sent, under that token. If it reports success the transcript is
  complete, its content frames add up to what was read, and each file was acknowledged in turn.\<close>

theorem send_files_protocol:
  assumes "SendFiles reads acks flushed w = (w', e)"
  shows "let queue = prepareSendQueue (xw_snd w) in
    \<exists>new. ch_frames (xw_ch w') = ch_frames (xw_ch w) @ new \<and> prefix new (transfer_frames reads queue) \<and>
      (\<forall>d. (d, False) \<in> set new \<longrightarrow> d \<noteq> [] \<and> length d \<le> ChunkSize) \<and>
      (\<forall>(fid, token, f) \<in> set queue. mget (sn_fileTokens (xw_snd w)) fid = Some token \<and>
         f \<in> set (sn_files (xw_snd w)) \<and> sf_id f = fid \<and>
         concat (content_frames reads f) = concat (read_blocks reads f)) \<and>
      (e = None \<longrightarrow> new = transfer_frames reads queue \<and> acked acks queue)"
proof -
  let ?q = "prepareSendQueue (xw_snd w)"
  note s = SendFiles_sent [OF assms]
  obtain new where new: "ch_frames (xw_ch w') = ch_frames (xw_ch w) @ new" "prefix new (transfer_frames reads ?q)"
    "e = None \<longrightarrow> new = transfer_frames reads ?q" using s by (auto simp: sent_def)
  have t: "(d, False) \<in> set (transcript reads q) \<Longrightarrow> \<exists>f. d \<in> set (content_frames reads f)" for d q
  proof (induction q)
    case (Cons item rest)
    then have "d \<in> set (content_frames reads (snd (snd item))) \<or> (d, False) \<in> set (transcript reads rest)"
      using boundary_text [of rest] by (cases "boundary rest") auto
    with Cons.IH show ?case by blast
  qed simp
  have "d \<noteq> [] \<and> length d \<le> ChunkSize" if "(d, False) \<in> set new" for d
  proof -
    have "(d, False) \<in> set (transfer_frames reads ?q)" using that new(2) set_mono_prefix by blast
    then have "(d, False) \<in> set (transcript reads ?q)"
      by (cases ?q) (simp_all add: transfer_frames_def header_frame_def split: prod.splits)
    then obtain f where "d \<in> set (content_frames reads f)" using t by blast
    then show ?thesis by (rule content_frame_size)
  qed
  with new s show ?thesis unfolding Let_def by (intro exI [of _ new]) (auto simp: content_whole dest: queue_entry)
qed

theorem send_files_protocol_witness:
  "\<exists>w :: send_world. ch_frames (xw_ch w) = [(wire (RTCSendFileHeader ''f'' ''t''), True), (''hello'', False), (''0'', True)]"
proof -
  define f where "f = \<lparr>sf_id = ''f'', sf_fileName = ''a'', sf_filePath = ''/a'', sf_size = 5, sf_fileType = [],
    sf_sha256 = [], sf_modified = None, sf_accessed = None\<rparr>"
  define w where "w = \<lparr>xw_snd = (NewRTCSender undefined [] [])\<lparr>sn_peer := True, sn_files := [f],
      sn_fileTokens := [(''f'', ''t'')], sn_acceptedIDs := [''f'']\<rparr>,
    xw_ch = \<lparr>ch_ready = True, ch_closed = False, ch_outcomes = [], ch_frames = []\<rparr>, xw_fs = undefined\<rparr>"
  define reads :: "string \<Rightarrow> (bytes list \<times> bool) option" where "reads = (\<lambda>_. Some ([''hello''], True))"
  have q: "prepareSendQueue (xw_snd w) = [(''f'', ''t'', f)]"
    by (simp add: prepareSendQueue_def w_def index_send_files_def f_def)
  have "chunks ''hello'' = [''hello'']" by (simp add: chunks.simps ChunkSize_def)
  then have "\<exists>w'. SendFiles reads [AckResult ''f'' True None] Drained w = (w', None)"
    by (simp add: SendFiles_def q)
      (simp add: w_def send_one_def f_def reads_def pc_SendJSON_def pc_SendText_def pc_Send_def pc_SendDelimiter_def
        send_frame_def next_outcome_def judge_ack_def supd_def)
  then obtain w' where "SendFiles reads [AckResult ''f'' True None] Drained w = (w', None)" by blast
  moreover have "ch_frames (xw_ch w) = []" by (simp add: w_def)
  ultimately show ?thesis using send_files_protocol [of reads "[AckResult ''f'' True None]" Drained w w' None]
      \<open>chunks ''hello'' = [''hello'']\<close>
    by (auto simp: Let_def q transfer_frames_def header_frame_def boundary_def content_frames_def read_blocks_def reads_def)
qed

end
