(* ===== verification/SenderGate.thy ===== *)
theory SenderGate
  imports SenderProps RtcRun
begin

text \<open>
  The handshake of the WebRTC sender: nothing of the file list leaves before the PIN the sender asks
  for, wrong PINs are limited, an expected receiver is verified first, and two cases in which a PIN
  challenge of the receiver undoes that verification.
\<close>

section \<open>Runs\<close>

fun sn_run :: "(send_env \<times> bytes \<times> bool) list \<Rightarrow> send_world \<Rightarrow> send_world option" where
  "sn_run [] w = Some w"
| "sn_run ((env, data, isString) # fs) w = Option.bind (sn_handleDataMessage env data isString w) (sn_run fs)"

lemma supd_simps [simp]:
  "xw_snd (supd f w) = f (xw_snd w)" "xw_ch (supd f w) = xw_ch w" "xw_fs (supd f w) = xw_fs w"
  by (simp_all add: supd_def)

lemma via_channel_same:
  "via_channel f w = (w', ok) \<Longrightarrow> xw_snd w' = xw_snd w \<and> xw_fs w' = xw_fs w"
  by (auto simp: via_channel_def split: if_splits prod.splits)

lemmas sn_sends = sn_sendJSON_def sn_sendJSONBinary_def sn_sendDelimiter_def

lemma failLocked_simps [simp]:
  "sn_state (xw_snd (failLocked e w)) = senderStateDone"
  "sn_requirePIN (xw_snd (failLocked e w)) = sn_requirePIN (xw_snd w)"
  "sn_requiredPINAttempts (xw_snd (failLocked e w)) = sn_requiredPINAttempts (xw_snd w)"
  "sn_finalNonce (xw_snd (failLocked e w)) = sn_finalNonce (xw_snd w)"
  "sn_receiverPublicKey (xw_snd (failLocked e w)) = sn_receiverPublicKey (xw_snd w)"
  "xw_ch (failLocked e w) = xw_ch w"
  by (simp_all add: failLocked_def offer_error_def Let_def)

lemma file_result_simps [simp]:
  "sn_state (xw_snd (file_result i ok e w)) = sn_state (xw_snd w)"
  "sn_requirePIN (xw_snd (file_result i ok e w)) = sn_requirePIN (xw_snd w)"
  "sn_requiredPINAttempts (xw_snd (file_result i ok e w)) = sn_requiredPINAttempts (xw_snd w)"
  "sn_finalNonce (xw_snd (file_result i ok e w)) = sn_finalNonce (xw_snd w)"
  "sn_receiverPublicKey (xw_snd (file_result i ok e w)) = sn_receiverPublicKey (xw_snd w)"
  "xw_ch (file_result i ok e w) = xw_ch w"
  by (simp_all add: file_result_def offer_error_def Let_def)

section \<open>The file list is secret until the PIN\<close>

definition with_files :: "SendFile list \<Rightarrow> send_world \<Rightarrow> send_world" where
  "with_files fs w = supd (\<lambda>s. s\<lparr>sn_files := fs\<rparr>) w"

text \<open>The control message that a frame completes, and whether it is the PIN.\<close>

definition sn_payload :: "bytes \<Rightarrow> bool \<Rightarrow> RTCSender \<Rightarrow> bytes option" where
  "sn_payload data isString s =
     (if isString \<and> data = ''0'' then (if sn_controlBuffer s = [] then None else Some (sn_controlBuffer s))
      else if isString then Some data else None)"

definition shows_pin :: "bytes \<Rightarrow> bool \<Rightarrow> RTCSender \<Rightarrow> bool" where
  "shows_pin data isString s \<longleftrightarrow>
     (\<exists>p ty. sn_payload data isString s = Some p \<and> ParseRTCMessage p = Some (RTCPinMessage (sn_requiredPIN s), ty))"

fun pin_unshown :: "(send_env \<times> bytes \<times> bool) list \<Rightarrow> send_world \<Rightarrow> bool" where
  "pin_unshown [] w \<longleftrightarrow> True"
| "pin_unshown ((env, data, isString) # fs) w \<longleftrightarrow> \<not> shows_pin data isString (xw_snd w) \<and>
     (case sn_handleDataMessage env data isString w of None \<Rightarrow> True | Some w1 \<Rightarrow> pin_unshown fs w1)"

definition list_unsent :: "send_world \<Rightarrow> bool" where
  "list_unsent w \<longleftrightarrow> sn_requirePIN (xw_snd w) \<and> sn_state (xw_snd w) \<noteq> senderStateWaitFileAccept \<and>
     sn_state (xw_snd w) \<noteq> senderStateSendingFiles"

lemma with_files_simps [simp]:
  "xw_snd (with_files fs w) = (xw_snd w)\<lparr>sn_files := fs\<rparr>" "xw_ch (with_files fs w) = xw_ch w"
  by (simp_all add: with_files_def)

lemma with_supd:
  "supd (\<lambda>s. s\<lparr>sn_state := x\<rparr>) (with_files fs w) = with_files fs (supd (\<lambda>s. s\<lparr>sn_state := x\<rparr>) w)"
  "supd (\<lambda>s. s\<lparr>sn_receiverToken := t\<rparr>) (with_files fs w) = with_files fs (supd (\<lambda>s. s\<lparr>sn_receiverToken := t\<rparr>) w)"
  "supd (\<lambda>s. s\<lparr>sn_pinAttempts := sn_pinAttempts s + 1\<rparr>) (with_files fs w) =
     with_files fs (supd (\<lambda>s. s\<lparr>sn_pinAttempts := sn_pinAttempts s + 1\<rparr>) w)"
  "supd (\<lambda>s. s\<lparr>sn_requiredPINAttempts := sn_requiredPINAttempts s + 1\<rparr>) (with_files fs w) =
     with_files fs (supd (\<lambda>s. s\<lparr>sn_requiredPINAttempts := sn_requiredPINAttempts s + 1\<rparr>) w)"
  "supd (\<lambda>s. s\<lparr>sn_controlBuffer := []\<rparr>) (with_files fs w) = with_files fs (supd (\<lambda>s. s\<lparr>sn_controlBuffer := []\<rparr>) w)"
  "supd (\<lambda>s. s\<lparr>sn_controlBuffer := sn_controlBuffer s @ d\<rparr>) (with_files fs w) =
     with_files fs (supd (\<lambda>s. s\<lparr>sn_controlBuffer := sn_controlBuffer s @ d\<rparr>) w)"
  "supd (\<lambda>s. s\<lparr>sn_remoteNonce := n, sn_finalNonce := CombineNonces (sn_localNonce s) n\<rparr>) (with_files fs w) =
     with_files fs (supd (\<lambda>s. s\<lparr>sn_remoteNonce := n, sn_finalNonce := CombineNonces (sn_localNonce s) n\<rparr>) w)"
  "supd (\<lambda>s. if sn_fileResults s = None then s\<lparr>sn_fileResults := r\<rparr> else s) (with_files fs w) =
     with_files fs (supd (\<lambda>s. if sn_fileResults s = None then s\<lparr>sn_fileResults := r\<rparr> else s) w)"
  "supd (offer_error e) (with_files fs w) = with_files fs (supd (offer_error e) w)"
  by (simp_all add: supd_def with_files_def offer_error_def)

lemma with_via: "via_channel f (with_files fs w) = map_prod (with_files fs) id (via_channel f w)"
  by (simp add: via_channel_def with_files_def supd_def split: prod.split)

lemma with_fail: "failLocked e (with_files fs w) = with_files fs (failLocked e w)"
  by (simp add: failLocked_def with_files_def supd_def offer_error_def Let_def)

lemma with_result: "file_result i ok e (with_files fs w) = with_files fs (file_result i ok e w)"
  by (simp add: file_result_def with_supd Let_def)

lemmas with_rules = with_supd with_via with_fail with_result sn_sends

lemma with_nonce: "handleNonceResponse env msg ty (with_files fs w) = with_files fs (handleNonceResponse env msg ty w)"
  by (simp add: handleNonceResponse_def with_supd(1,7) with_via sn_sends Let_def
      split: rtc_message.split sum.split option.split prod.split bool.split)

lemma with_status: "sendPinSendingStatus st (with_files fs w) = map_prod (with_files fs) id (sendPinSendingStatus st w)"
  by (simp add: sendPinSendingStatus_def with_rules split: prod.split bool.split)

lemma with_pin: "provided_pin (s\<lparr>sn_files := fs\<rparr>) = provided_pin s"
  by (simp add: provided_pin_def split: option.split)

lemma with_answer: "answer_pin (with_files fs w) = with_files fs (answer_pin w)"
  by (simp add: answer_pin_def with_pin with_rules Let_def split: prod.split bool.split)

lemma with_begin:
  "sn_requirePIN (xw_snd w) \<Longrightarrow> beginFileListPhase env (with_files fs w) = with_files fs (beginFileListPhase env w)"
  by (simp add: beginFileListPhase_def with_status with_rules split: prod.split bool.split)

lemma with_check: "receiver_check c t (s\<lparr>sn_files := fs\<rparr>) = receiver_check c t s"
  by (simp add: receiver_check_def split: option.split)

lemma with_take:
  assumes "sn_requirePIN (xw_snd w)"
  shows "take_token env st t (with_files fs w) = with_files fs (take_token env st t w)"
proof -
  let ?w = "supd (\<lambda>s. s\<lparr>sn_receiverToken := t\<rparr>) w"
  have r: "sn_requirePIN (xw_snd ?w)" using assms by simp
  show ?thesis
    unfolding take_token_def Let_def with_supd(2) with_fail with_answer with_begin [OF r] with_files_simps with_check
    by (cases "receiver_check (se_crypto env) t (xw_snd ?w)") simp_all
qed

lemma with_token:
  assumes "sn_requirePIN (xw_snd w)"
  shows "handleTokenResponse env ty data (with_files fs w) = with_files fs (handleTokenResponse env ty data w)"
proof (cases "Option.bind (json_decode data) (from_json (put_str_fields ''status'' ''token'') ([], []))")
  case None
  show ?thesis by (simp only: handleTokenResponse_def None option.case with_fail if_distrib [of "with_files fs"])
next
  case (Some p)
  show ?thesis
    by (cases p) (simp only: handleTokenResponse_def Some option.case prod.case with_fail with_take [OF assms]
        if_distrib [of "with_files fs"])
qed

lemma refuse_cases:
  obtains st w2 k where "st = (if senderMaxPINAttempts \<le> sn_requiredPINAttempts (xw_snd w) + 1
      then StatusTooManyAttempts else StatusPINRequired)"
    and "sendPinSendingStatus st (supd (\<lambda>s. s\<lparr>sn_requiredPINAttempts := sn_requiredPINAttempts s + 1\<rparr>) w) = (w2, k)"
    and "refuse_pin w = (if \<not> k then failLocked PINResultNotSent w2
      else if st = StatusTooManyAttempts then failLocked TooManyIncorrectPINs w2 else w2)"
proof -
  define st where "st = (if senderMaxPINAttempts \<le> sn_requiredPINAttempts (xw_snd w) + 1
      then StatusTooManyAttempts else StatusPINRequired)"
  obtain w2 k where s: "sendPinSendingStatus st (supd (\<lambda>s. s\<lparr>sn_requiredPINAttempts := sn_requiredPINAttempts s + 1\<rparr>) w) = (w2, k)"
    by fastforce
  have "refuse_pin w = (if \<not> k then failLocked PINResultNotSent w2
      else if st = StatusTooManyAttempts then failLocked TooManyIncorrectPINs w2 else w2)"
    unfolding refuse_pin_def Let_def supd_simps by (cases k) (simp_all flip: st_def add: s)
  with st_def s show thesis by (rule that)
qed

lemma with_refuse: "refuse_pin (with_files fs w) = with_files fs (refuse_pin w)"
proof (cases rule: refuse_cases [of w])
  case (1 st w2 k)
  show ?thesis unfolding 1(3) unfolding refuse_pin_def Let_def supd_simps
    by (cases k) (simp_all flip: 1(1) add: with_status with_rules 1(2))
qed

lemma with_required:
  "msg \<noteq> RTCPinMessage (sn_requiredPIN (xw_snd w)) \<Longrightarrow>
   handleRequiredPIN env msg ty (with_files fs w) = with_files fs (handleRequiredPIN env msg ty w)"
  by (simp add: handleRequiredPIN_def with_refuse with_fail split: rtc_message.split)

text \<open>Each handler before the list was sent keeps it unsent.\<close>

lemma unsent_via: "via_channel f w = (w', ok) \<Longrightarrow> list_unsent w' = list_unsent w"
  by (auto dest: via_channel_same simp: list_unsent_def)

lemma unsent_nonce: "list_unsent w \<Longrightarrow> list_unsent (handleNonceResponse env msg ty w)"
  by (auto simp: handleNonceResponse_def list_unsent_def Let_def sn_sends dest!: via_channel_same
      split: rtc_message.split sum.split option.split prod.split bool.split)

lemma status_same: "sendPinSendingStatus st w = (w', ok) \<Longrightarrow> xw_snd w' = xw_snd w \<and> xw_fs w' = xw_fs w"
  by (auto simp: sendPinSendingStatus_def sn_sends dest!: via_channel_same split: prod.splits bool.splits)

lemma unsent_token: "list_unsent w \<Longrightarrow> list_unsent (handleTokenResponse env ty data w)"
  by (auto simp: handleTokenResponse_def take_token_def beginFileListPhase_def answer_pin_def list_unsent_def Let_def sn_sends
      dest!: via_channel_same status_same split: option.split prod.split bool.split)

lemma unsent_required:
  assumes "list_unsent w" and "msg \<noteq> RTCPinMessage (sn_requiredPIN (xw_snd w))"
  shows "list_unsent (handleRequiredPIN env msg ty w)"
proof (cases rule: refuse_cases [of w])
  case (1 st w2 k)
  have "list_unsent (refuse_pin w)"
    using status_same [OF 1(2)] assms(1) by (simp add: 1(3) list_unsent_def)
  with assms show ?thesis by (auto simp: handleRequiredPIN_def list_unsent_def split: rtc_message.split)
qed

lemma control_secret:
  assumes "list_unsent w" and "\<And>ty. ParseRTCMessage data \<noteq> Some (RTCPinMessage (sn_requiredPIN (xw_snd w)), ty)"
  shows "\<exists>w'. sn_control env data w = Some w' \<and> list_unsent w' \<and>
    sn_control env data (with_files fs w) = Some (with_files fs w')"
proof (cases "ParseRTCMessage data")
  case None
  with assms(1) show ?thesis by (simp add: sn_control_def)
next
  case (Some p)
  obtain msg ty where p: "ParseRTCMessage data = Some (msg, ty)" using Some by (cases p) simp
  have m: "msg \<noteq> RTCPinMessage (sn_requiredPIN (xw_snd w))" using assms(2) p by blast
  have r: "sn_requirePIN (xw_snd w)" using assms(1) by (simp add: list_unsent_def)
  have f: "list_unsent (file_result i ok e w)" for i ok e using assms(1) by (simp add: list_unsent_def)
  show ?thesis
  proof (cases "ty = ''file_response''")
    case True
    then show ?thesis using p f assms(1) by (cases msg) (simp_all add: sn_control_def with_result)
  next
    case False
    then show ?thesis
      using p m r assms(1) unsent_nonce unsent_token unsent_required
      by (cases "sn_state (xw_snd w)")
        (simp_all add: sn_control_def with_nonce with_token with_required, simp_all add: list_unsent_def)
  qed
qed

lemma frame_secret:
  assumes "list_unsent w" and "\<not> shows_pin data isString (xw_snd w)"
  shows "\<exists>w'. sn_handleDataMessage env data isString w = Some w' \<and> list_unsent w' \<and>
    sn_handleDataMessage env data isString (with_files fs w) = Some (with_files fs w')"
proof -
  let ?w0 = "supd (\<lambda>s. s\<lparr>sn_controlBuffer := []\<rparr>) w"
  have u: "list_unsent (supd (\<lambda>s. s\<lparr>sn_controlBuffer := b s\<rparr>) w)" for b using assms(1) by (simp add: list_unsent_def)
  have c: "\<exists>w'. sn_control env p v = Some w' \<and> list_unsent w' \<and>
      sn_control env p (with_files fs v) = Some (with_files fs w')"
    if "sn_payload data isString (xw_snd w) = Some p" "v = w \<or> v = ?w0" for p v
    using that assms by (intro control_secret) (auto simp: shows_pin_def u)
  show ?thesis
    using c [of "sn_controlBuffer (xw_snd w)" ?w0] c [of data w] assms(1) u
    by (auto simp: sn_handleDataMessage_def sn_payload_def Let_def with_supd)
qed

text \<open>C7: the file list is secret until the PIN. A sender that asks for a PIN behaves, until a frame
  completes a message with exactly that PIN, the same whatever its files are: it sends the same frames
  and reaches the same state, in which the list is not sent.\<close>

theorem file_list_secret:
  assumes "sn_requirePIN (xw_snd w)" and "sn_state (xw_snd w) = senderStateInit \<or> sn_state (xw_snd w) = senderStateWaitNonce"
    and "pin_unshown frames w"
  shows "\<exists>w'. sn_run frames w = Some w' \<and> sn_run frames (with_files fs w) = Some (with_files fs w') \<and>
    ch_frames (xw_ch (with_files fs w')) = ch_frames (xw_ch w') \<and>
    sn_state (xw_snd w') \<noteq> senderStateWaitFileAccept \<and> sn_state (xw_snd w') \<noteq> senderStateSendingFiles"
proof -
  have "\<exists>w'. sn_run frames w = Some w' \<and> sn_run frames (with_files fs w) = Some (with_files fs w') \<and> list_unsent w'"
    if "list_unsent w" "pin_unshown frames w" for w
    using that
  proof (induction frames arbitrary: w)
    case (Cons f frames)
    obtain env data s where f: "f = (env, data, s)" by (cases f)
    obtain w1 where w1: "sn_handleDataMessage env data s w = Some w1" "list_unsent w1"
      "sn_handleDataMessage env data s (with_files fs w) = Some (with_files fs w1)"
      using frame_secret [OF Cons.prems(1), of data s env fs] Cons.prems(2) f by auto
    with Cons.IH [OF w1(2)] Cons.prems(2) f show ?case by simp
  qed simp
  moreover have "list_unsent w" using assms(1,2) by (auto simp: list_unsent_def)
  ultimately show ?thesis using assms(3) by (fastforce simp: list_unsent_def)
qed


section \<open>Wrong PINs\<close>

lemma done_silent_frame:
  assumes "sn_state (xw_snd w) = senderStateDone" and "sn_handleDataMessage env data isString w = Some w'"
  shows "sn_state (xw_snd w') = senderStateDone \<and> xw_ch w' = xw_ch w \<and>
    sn_requiredPINAttempts (xw_snd w') = sn_requiredPINAttempts (xw_snd w)"
proof -
  have c: "sn_state (xw_snd v') = senderStateDone \<and> xw_ch v' = xw_ch v \<and>
      sn_requiredPINAttempts (xw_snd v') = sn_requiredPINAttempts (xw_snd v)"
    if "sn_state (xw_snd v) = senderStateDone" "sn_control env p v = Some v'" for v v' p
    using that by (auto simp: sn_control_def split: option.splits prod.splits if_splits rtc_message.splits)
  show ?thesis
    using assms c [of w data w'] c [of "supd (\<lambda>s. s\<lparr>sn_controlBuffer := []\<rparr>) w" "sn_controlBuffer (xw_snd w)" w']
    by (auto simp: sn_handleDataMessage_def Let_def split: if_splits)
qed

lemma done_silent:
  "sn_state (xw_snd w) = senderStateDone \<Longrightarrow> sn_run frames w = Some w' \<Longrightarrow>
   sn_state (xw_snd w') = senderStateDone \<and> xw_ch w' = xw_ch w"
proof (induction frames arbitrary: w)
  case (Cons f frames)
  obtain env data s where f: "f = (env, data, s)" by (cases f)
  then obtain w1 where w1: "sn_handleDataMessage env data s w = Some w1" "sn_run frames w1 = Some w'"
    using Cons.prems(2) by (auto simp: bind_eq_Some_conv)
  from done_silent_frame [OF Cons.prems(1) w1(1)] Cons.IH [OF _ w1(2)] show ?case by simp
qed simp

text \<open>Handlers that count no attempt.\<close>

lemma attempts_list: "xw_snd (sendFileList env w) = xw_snd w \<or>
  xw_snd (sendFileList env w) = (xw_snd w)\<lparr>sn_state := senderStateWaitFileAccept\<rparr>"
  by (auto simp: sendFileList_def sn_sends dest!: via_channel_same split: prod.split bool.split)

lemma attempts_nonce: "sn_requiredPINAttempts (xw_snd (handleNonceResponse env msg ty w)) = sn_requiredPINAttempts (xw_snd w)"
  by (auto simp: handleNonceResponse_def Let_def sn_sends dest!: via_channel_same
      split: rtc_message.split sum.split option.split prod.split bool.split)

text \<open>What the token and the acceptance leave alone.\<close>

definition books :: "send_world \<Rightarrow> int \<times> bytes" where
  "books w = (sn_requiredPINAttempts (xw_snd w), sn_finalNonce (xw_snd w))"

lemma books_same: "xw_snd w' = xw_snd w \<Longrightarrow> books w' = books w"
  by (simp add: books_def)

lemma books_simps [simp]:
  "books (failLocked e w) = books w" "books (supd (\<lambda>s. s\<lparr>sn_state := x\<rparr>) w) = books w"
  "books (supd (\<lambda>s. s\<lparr>sn_receiverToken := t\<rparr>) w) = books w"
  "books (supd (\<lambda>s. s\<lparr>sn_receiverPublicKey := k\<rparr>) w) = books w"
  by (simp_all add: books_def)

lemma send_same: "sn_sendJSON m w = (w', ok) \<Longrightarrow> xw_snd w' = xw_snd w"
  and send_same_fst: "xw_snd (fst (sn_sendJSON m w)) = xw_snd w"
proof -
  show s: "sn_sendJSON m w = (w', ok) \<Longrightarrow> xw_snd w' = xw_snd w" for w' ok by (auto simp: sn_sends dest: via_channel_same)
  show "xw_snd (fst (sn_sendJSON m w)) = xw_snd w" by (rule s) (rule prod.collapse [symmetric])
qed

lemma books_list: "books (sendFileList env w) = books w"
  using attempts_list [of env w] by (auto simp: books_def)

lemma books_token: "books (handleTokenResponse env ty data w) = books w"
proof -
  have "books (beginFileListPhase env v) = books v" for v
    using books_list by (auto simp: beginFileListPhase_def dest!: status_same books_same split: prod.split bool.split)
  moreover have "books (answer_pin v) = books v" for v
  proof -
    have "books (supd (\<lambda>s. s\<lparr>sn_pinAttempts := sn_pinAttempts s + 1\<rparr>) v) = books v" by (simp add: books_def)
    then show ?thesis by (auto simp: answer_pin_def Let_def dest!: send_same books_same split: prod.split bool.split)
  qed
  ultimately show ?thesis by (simp add: handleTokenResponse_def take_token_def Let_def split: option.split prod.split)
qed

lemma books_pair:
  assumes "pair_request env pem w = Some w'"
  shows "books w' = books w \<and> (sn_state (xw_snd w') = sn_state (xw_snd w) \<or> sn_state (xw_snd w') = senderStateDone)"
proof -
  have rem: "books v' = books v \<and> sn_state (xw_snd v') = sn_state (xw_snd v)"
    if "remember_receiver env pem v = Some v'" for v v'
    using that by (auto simp: remember_receiver_def books_def split: option.splits prod.splits store_res.splits)
  have fst_books: "books (fst (sn_sendJSON m v)) = books v" for m v by (rule books_same) (rule send_same_fst)
  show ?thesis
    using assms by (auto simp: pair_request_def Let_def fst_books send_same_fst dest!: rem send_same
        dest: books_same split: key_check.splits if_splits prod.splits bool.splits)
qed

lemma books_accept:
  assumes "handleFileAcceptance env ty data w = Some w'"
  shows "books w' = books w \<and>
   (sn_state (xw_snd w') = sn_state (xw_snd w) \<or> sn_state (xw_snd w') \<in> {senderStateDone, senderStateSendingFiles})"
proof -
  have "books (supd (\<lambda>s. s\<lparr>sn_declined := True\<rparr>) w) = books w"
    "books (supd (\<lambda>s. (if sn_closed s \<or> sn_accepted s \<noteq> None then s else s\<lparr>sn_accepted := Some tokens\<rparr>)
       \<lparr>sn_state := senderStateSendingFiles\<rparr>) w) = books w" for tokens
    by (simp_all add: books_def)
  with assms show ?thesis
    by (auto simp: handleFileAcceptance_def dest: books_pair split: if_splits option.splits)
qed

text \<open>A frame that is judged as a wrong PIN.\<close>

definition wrong_guess :: "bytes \<Rightarrow> bool \<Rightarrow> RTCSender \<Rightarrow> bool" where
  "wrong_guess data isString s \<longleftrightarrow> sn_state s = senderStateWaitRequiredPIN \<and>
     (\<exists>p pin ty. sn_payload data isString s = Some p \<and> ParseRTCMessage p = Some (RTCPinMessage pin, ty) \<and>
        pin \<noteq> sn_requiredPIN s)"

fun wrong_guesses :: "(send_env \<times> bytes \<times> bool) list \<Rightarrow> send_world \<Rightarrow> nat" where
  "wrong_guesses [] w = 0"
| "wrong_guesses ((env, data, isString) # fs) w = (if wrong_guess data isString (xw_snd w) then 1 else 0) +
     (case sn_handleDataMessage env data isString w of None \<Rightarrow> 0 | Some w1 \<Rightarrow> wrong_guesses fs w1)"

definition attempts_ok :: "send_world \<Rightarrow> bool" where
  "attempts_ok w \<longleftrightarrow> sn_requiredPINAttempts (xw_snd w) < senderMaxPINAttempts \<or>
     sn_requiredPINAttempts (xw_snd w) = senderMaxPINAttempts \<and> sn_state (xw_snd w) = senderStateDone"

lemma attempts_refuse:
  assumes "sn_requiredPINAttempts (xw_snd w) < senderMaxPINAttempts"
  shows "attempts_ok (refuse_pin w) \<and>
    sn_requiredPINAttempts (xw_snd (refuse_pin w)) = sn_requiredPINAttempts (xw_snd w) + 1"
proof (cases rule: refuse_cases [of w])
  case (1 st w2 k)
  have "StatusTooManyAttempts \<noteq> StatusPINRequired" by (simp add: StatusTooManyAttempts_def StatusPINRequired_def)
  with status_same [OF 1(2)] 1(1) assms show ?thesis by (auto simp: 1(3) attempts_ok_def)
qed

lemma control_attempts:
  assumes "attempts_ok w" and "sn_control env data w = Some w'"
  shows "attempts_ok w' \<and> sn_requiredPINAttempts (xw_snd w') = sn_requiredPINAttempts (xw_snd w) +
    (if sn_state (xw_snd w) = senderStateWaitRequiredPIN \<and>
        (\<exists>pin ty. ParseRTCMessage data = Some (RTCPinMessage pin, ty) \<and> pin \<noteq> sn_requiredPIN (xw_snd w)) then 1 else 0)"
proof (cases "ParseRTCMessage data")
  case None
  with assms show ?thesis by (simp add: sn_control_def)
next
  case (Some p)
  obtain msg ty where p: "ParseRTCMessage data = Some (msg, ty)" using Some by (cases p) simp
  note fits = parsed_tag_fits [OF p]
  have keep: "attempts_ok v" if "sn_requiredPINAttempts (xw_snd v) = sn_requiredPINAttempts (xw_snd w)"
    "sn_state (xw_snd w) \<noteq> senderStateDone \<or> sn_state (xw_snd v) = senderStateDone" for v
    using that assms(1) by (auto simp: attempts_ok_def)
  show ?thesis
  proof (cases "ty = ''file_response''")
    case True
    then have "\<not> (\<exists>pin ty. ParseRTCMessage data = Some (RTCPinMessage pin, ty))" using p fits by auto
    with True assms p show ?thesis
      by (cases msg) (auto simp: sn_control_def intro!: keep)
  next
    case other: False
    show ?thesis
    proof (cases "sn_state (xw_snd w) = senderStateWaitRequiredPIN")
      case True
      then have lt: "sn_requiredPINAttempts (xw_snd w) < senderMaxPINAttempts" using assms(1) by (simp add: attempts_ok_def)
      have w': "w' = handleRequiredPIN env msg ty w" using assms(2) p other True by (simp add: sn_control_def)
      have l: "sn_requiredPINAttempts (xw_snd (sendFileList env w)) = sn_requiredPINAttempts (xw_snd w)"
        using attempts_list [of env w] by auto
      show ?thesis
      proof (cases "\<exists>pin. msg = RTCPinMessage pin")
        case pinT: True
        then obtain pin where pin: "msg = RTCPinMessage pin" "ty = ''pin''" using fits by auto
        then have "w' = (if pin = sn_requiredPIN (xw_snd w) then sendFileList env w else refuse_pin w)"
          by (simp add: w' handleRequiredPIN_def)
        moreover have "attempts_ok (sendFileList env w)" using l lt by (simp add: attempts_ok_def)
        ultimately show ?thesis using attempts_refuse [OF lt] l p pin True by simp
      next
        case False
        with fits p have "w' = w" unfolding w' by (cases msg) (auto simp: handleRequiredPIN_def)
        with False p assms(1) show ?thesis by auto
      qed
    next
      case False
      have "sn_requiredPINAttempts (xw_snd w') = sn_requiredPINAttempts (xw_snd w)"
        using assms(2) p other False
        by (cases "sn_state (xw_snd w)") (use books_token [of env ty data w] books_accept [of env ty data w w'] in
            \<open>auto simp: sn_control_def attempts_nonce books_def\<close>)
      moreover have "sn_state (xw_snd w) = senderStateDone \<Longrightarrow> w' = w" using assms(2) p other by (simp add: sn_control_def)
      ultimately show ?thesis using False keep [of w'] by auto
    qed
  qed
qed

lemma frame_attempts:
  assumes "attempts_ok w" and "sn_handleDataMessage env data isString w = Some w'"
  shows "attempts_ok w' \<and> sn_requiredPINAttempts (xw_snd w') = sn_requiredPINAttempts (xw_snd w) +
    (if wrong_guess data isString (xw_snd w) then 1 else 0)"
proof -
  have ok: "attempts_ok (supd (\<lambda>s. s\<lparr>sn_controlBuffer := b s\<rparr>) w)" for b using assms(1) by (simp add: attempts_ok_def)
  note c = control_attempts [OF assms(1), of env data w']
    control_attempts [OF ok [of "\<lambda>_. []"], of env "sn_controlBuffer (xw_snd w)" w']
  show ?thesis
    using assms c ok by (auto simp: sn_handleDataMessage_def wrong_guess_def sn_payload_def Let_def split: if_splits)
qed

text \<open>C29: three wrong PINs and the sender is silent. In every run each wrong PIN is counted, no more than
  three are ever judged, and after the third the sender is done: whatever follows, it sends nothing more.\<close>

theorem sender_pin_limit:
  assumes "sn_requiredPINAttempts (xw_snd w) = 0" and "sn_run frames w = Some w'"
  shows "int (wrong_guesses frames w) = sn_requiredPINAttempts (xw_snd w') \<and> wrong_guesses frames w \<le> 3 \<and>
    (wrong_guesses frames w = 3 \<longrightarrow> (\<forall>more w''. sn_run more w' = Some w'' \<longrightarrow>
       sn_state (xw_snd w'') = senderStateDone \<and> ch_frames (xw_ch w'') = ch_frames (xw_ch w')))"
proof -
  have run: "attempts_ok v' \<and> sn_requiredPINAttempts (xw_snd v') = sn_requiredPINAttempts (xw_snd v) + int (wrong_guesses fs v)"
    if "attempts_ok v" "sn_run fs v = Some v'" for fs v v'
    using that
  proof (induction fs arbitrary: v)
    case (Cons f fs)
    obtain env data s where f: "f = (env, data, s)" by (cases f)
    then obtain v1 where v1: "sn_handleDataMessage env data s v = Some v1" "sn_run fs v1 = Some v'"
      using Cons.prems(2) by (auto simp: bind_eq_Some_conv)
    from frame_attempts [OF Cons.prems(1) v1(1)] Cons.IH [OF _ v1(2)] v1(1) f show ?case by simp
  qed simp
  have m: "senderMaxPINAttempts = 3" by (simp add: senderMaxPINAttempts_def MaxPINAttempts_def)
  have "attempts_ok w" using assms(1) by (simp add: attempts_ok_def m)
  from run [OF this assms(2)] assms(1) m show ?thesis by (auto simp: attempts_ok_def dest: done_silent)
qed


section \<open>The receiver that is expected\<close>

definition receiver_known :: "crypto_ops \<Rightarrow> VerifyingKey \<Rightarrow> send_world \<Rightarrow> bool" where
  "receiver_known c key w \<longleftrightarrow>
     (let s = xw_snd w; early = {senderStateInit, senderStateWaitNonce, senderStateWaitToken} in
      sn_state s = senderStateDone \<or> sn_state s \<in> early \<and> sn_receiverPublicKey s = Some key \<or>
      sn_state s \<notin> early \<and> (\<exists>token. VerifyTokenNonce c key token (sn_finalNonce s) = Inr ()))"

lemma known_nonce:
  assumes "sn_state (xw_snd w) = senderStateWaitNonce" and "receiver_known c key w"
  shows "receiver_known c key (handleNonceResponse env msg ty w)"
  using assms by (auto simp: handleNonceResponse_def receiver_known_def Let_def sn_sends dest!: via_channel_same
      split: rtc_message.split sum.split option.split prod.split bool.split)

lemma known_required: "sn_state (xw_snd w) = senderStateWaitRequiredPIN \<Longrightarrow> receiver_known c key w \<Longrightarrow>
  receiver_known c key (handleRequiredPIN env msg ty w)"
proof (cases rule: refuse_cases [of w])
  case (1 st w2 k)
  assume s: "sn_state (xw_snd w) = senderStateWaitRequiredPIN" and kn: "receiver_known c key w"
  have "receiver_known c key (refuse_pin w)" using s kn status_same [OF 1(2)] by (auto simp: 1(3) receiver_known_def Let_def)
  moreover have "receiver_known c key (sendFileList env w)"
    using s kn attempts_list [of env w] by (auto simp: receiver_known_def Let_def)
  ultimately show ?thesis using kn by (auto simp: handleRequiredPIN_def receiver_known_def Let_def split: rtc_message.split)
qed

lemma four_branches: "(if a then x else if b then y else if c then z else u) \<in> {z, x, y, u}"
  by simp

lemma token_outcome:
  obtains (same) "handleTokenResponse env ty data w = w"
  | (failed) e t where "handleTokenResponse env ty data w = failLocked e w \<or>
      handleTokenResponse env ty data w = failLocked e (supd (\<lambda>s. s\<lparr>sn_receiverToken := t\<rparr>) w)"
  | (answered) t where "receiver_check (se_crypto env) t (xw_snd w) = None"
      and "handleTokenResponse env ty data w = answer_pin (supd (\<lambda>s. s\<lparr>sn_receiverToken := t\<rparr>) w)"
  | (begun) t where "receiver_check (se_crypto env) t (xw_snd w) = None"
      and "handleTokenResponse env ty data w = beginFileListPhase env (supd (\<lambda>s. s\<lparr>sn_receiverToken := t\<rparr>) w)"
proof -
  let ?h = "handleTokenResponse env ty data w"
  have "?h = w \<or> (\<exists>e. ?h = failLocked e w) \<or> (\<exists>st t. ?h = take_token env st t w)"
  proof (cases "Option.bind (json_decode data) (from_json (put_str_fields ''status'' ''token'') ([], []))")
    case None
    have "?h \<in> {w, failLocked TooManyPINAttempts w, failLocked SignatureRejected w, w}"
      unfolding handleTokenResponse_def None option.case by (rule four_branches)
    then show ?thesis by blast
  next
    case (Some p)
    have "?h \<in> {w, failLocked TooManyPINAttempts w, failLocked SignatureRejected w, take_token env (fst p) (snd p) w}"
      unfolding handleTokenResponse_def Some option.case prod.case_eq_if by (rule four_branches)
    then show ?thesis by blast
  qed
  note this_h = this
  have r: "receiver_check c t (s\<lparr>sn_receiverToken := t'\<rparr>) = receiver_check c t s" for c t t' s
    by (simp add: receiver_check_def split: option.split)
  have chk: "receiver_check (se_crypto env) t (xw_snd w) = Some e \<Longrightarrow>
      take_token env st t w = failLocked (ReceiverTokenInvalid e) (supd (\<lambda>s. s\<lparr>sn_receiverToken := t\<rparr>) w)"
    "receiver_check (se_crypto env) t (xw_snd w) = None \<Longrightarrow>
      take_token env st t w = answer_pin (supd (\<lambda>s. s\<lparr>sn_receiverToken := t\<rparr>) w) \<or>
      take_token env st t w = beginFileListPhase env (supd (\<lambda>s. s\<lparr>sn_receiverToken := t\<rparr>) w)" for st t e
    by (simp_all add: take_token_def r Let_def)
  from this_h consider "?h = w" | e where "?h = failLocked e w" | st t where "?h = take_token env st t w" by blast
  then show thesis
  proof cases
    case (3 st t)
    show thesis
    proof (cases "receiver_check (se_crypto env) t (xw_snd w)")
      case None
      with chk(2) [OF None, of st] 3 answered begun show thesis by auto
    next
      case (Some e)
      with chk(1) [OF Some, of st] 3 failed show thesis by auto
    qed
  qed (use same failed in auto)
qed

lemma list_phase_state: "sn_state (xw_snd (beginFileListPhase env v)) \<in>
     {sn_state (xw_snd v), senderStateDone, senderStateWaitRequiredPIN, senderStateWaitFileAccept}"
  and begin_key: "sn_receiverPublicKey (xw_snd (beginFileListPhase env v)) = sn_receiverPublicKey (xw_snd v)"
  using attempts_list [of env v]
  by (auto simp: beginFileListPhase_def dest!: status_same split: prod.split bool.split)

lemma answer_state: "sn_state (xw_snd (answer_pin v)) \<in> {senderStateDone, senderStateWaitPin}"
  by (auto simp: answer_pin_def Let_def split: prod.split bool.split)

lemma known_token:
  assumes "sn_state (xw_snd w) = senderStateWaitToken \<or> sn_state (xw_snd w) = senderStateWaitPin"
    and "receiver_known c key w" and "se_crypto env = c"
  shows "receiver_known c key (handleTokenResponse env ty data w)"
proof -
  let ?w' = "handleTokenResponse env ty data w"
  have nonce: "sn_finalNonce (xw_snd ?w') = sn_finalNonce (xw_snd w)" using books_token [of env ty data w] by (simp add: books_def)
  have verified: "\<exists>t. VerifyTokenNonce c key t (sn_finalNonce (xw_snd w)) = Inr ()"
    if "receiver_check c t (xw_snd w) = None" for t
    using that assms(1,2) by (auto simp: receiver_known_def Let_def receiver_check_def split: sum.splits)
  have wt: "sn_state (xw_snd w) = senderStateWaitToken \<Longrightarrow> sn_receiverPublicKey (xw_snd w) = Some key"
    using assms(2) by (auto simp: receiver_known_def Let_def)
  show ?thesis
  proof (cases rule: token_outcome [of env ty data w])
    case same
    with assms(2) show ?thesis by simp
  next
    case failed
    then show ?thesis by (auto simp: receiver_known_def Let_def)
  next
    case (answered t)
    then have v: "\<exists>t. VerifyTokenNonce c key t (sn_finalNonce (xw_snd ?w')) = Inr ()"
      using verified assms(3) nonce by simp
    have "sn_state (xw_snd ?w') \<in> {senderStateDone, senderStateWaitPin}" unfolding answered(2) by (rule answer_state)
    with v show ?thesis by (auto simp: receiver_known_def Let_def)
  next
    case (begun t)
    then have v: "\<exists>t. VerifyTokenNonce c key t (sn_finalNonce (xw_snd ?w')) = Inr ()"
      using verified assms(3) nonce by simp
    let ?v = "supd (\<lambda>s. s\<lparr>sn_receiverToken := t\<rparr>) w"
    have "sn_state (xw_snd ?w') \<in> {sn_state (xw_snd w), senderStateDone, senderStateWaitRequiredPIN, senderStateWaitFileAccept}"
      "sn_receiverPublicKey (xw_snd ?w') = sn_receiverPublicKey (xw_snd w)"
      using list_phase_state [of env ?v] begin_key [of env ?v] unfolding begun(2) by simp_all
    with v wt assms(1) show ?thesis by (auto simp: receiver_known_def Let_def)
  qed
qed

lemma control_known:
  assumes "receiver_known c key w" and "se_crypto env = c" and "sn_control env data w = Some w'"
  shows "receiver_known c key w'"
proof (cases "ParseRTCMessage data")
  case None
  with assms show ?thesis by (simp add: sn_control_def)
next
  case (Some p)
  obtain msg ty where p: "ParseRTCMessage data = Some (msg, ty)" using Some by (cases p) simp
  have res: "receiver_known c key (file_result i ok e w)" for i ok e
    using assms(1) by (simp add: receiver_known_def Let_def)
  show ?thesis
  proof (cases "ty = ''file_response''")
    case True
    with assms(1,3) p res show ?thesis by (cases msg) (auto simp: sn_control_def)
  next
    case False
    note h = assms(3) [unfolded sn_control_def p option.case prod.case]
    show ?thesis
    proof (cases "sn_state (xw_snd w)")
      case senderStateWaitNonce
      with h False known_nonce [OF _ assms(1)] show ?thesis by auto
    next
      case senderStateWaitToken
      with h False known_token [OF _ assms(1,2)] show ?thesis by auto
    next
      case senderStateWaitPin
      with h False known_token [OF _ assms(1,2)] show ?thesis by auto
    next
      case senderStateWaitRequiredPIN
      with h False known_required [OF _ assms(1)] show ?thesis by auto
    next
      case senderStateWaitFileAccept
      with h False have a: "handleFileAcceptance env ty data w = Some w'" by simp
      from books_accept [OF a] senderStateWaitFileAccept assms(1) show ?thesis
        by (auto simp: books_def receiver_known_def Let_def)
    qed (use h False assms(1) in simp_all)
  qed
qed



section \<open>A PIN undoes the identity check\<close>

lemma no_token: "VerifyTokenNonce c key [] nonce \<noteq> Inr ()"
  by (simp add: VerifyTokenNonce_def VerifyToken_def verify_with_def)

definition channel_good :: "send_world \<Rightarrow> bool" where
  "channel_good w \<longleftrightarrow> sn_peer (xw_snd w) \<and> ch_ready (xw_ch w) \<and> \<not> ch_closed (xw_ch w) \<and> ch_outcomes (xw_ch w) = []"

lemma good_text:
  "channel_good w \<Longrightarrow> \<exists>w'. sn_sendJSON m w = (w', True) \<and> channel_good w' \<and> xw_snd w' = xw_snd w \<and> xw_fs w' = xw_fs w"
  by (auto simp: channel_good_def sn_sends via_channel_def pc_SendJSON_def pc_SendText_def send_frame_def next_outcome_def)

lemma good_chunked:
  assumes "channel_good w"
  shows "\<exists>w'. (case sn_sendJSONBinary m w of (w1, True) \<Rightarrow> sn_sendDelimiter w1 | (w1, False) \<Rightarrow> (w1, False)) = (w', True) \<and>
    channel_good w' \<and> xw_snd w' = xw_snd w"
proof -
  obtain ch where "send_chunks (chunks (wire m)) (xw_ch w) = (ch, True)" "ch_ready ch" "\<not> ch_closed ch" "ch_outcomes ch = []"
    using send_chunks_ok [of "xw_ch w" "chunks (wire m)"] assms by (auto simp: channel_good_def)
  then show ?thesis using assms
    by (auto simp: channel_good_def sn_sends via_channel_def pc_SendJSONBinary_def pc_SendDelimiter_def pc_SendText_def
        send_frame_def next_outcome_def)
qed

definition pin_accepted :: bytes where "pin_accepted = wire (RTCPinReceivingResponse ''OK'')"
definition pair_asked :: "string \<Rightarrow> bytes" where "pair_asked pem = wire (RTCFileListResponse ''PAIR'' [] pem)"

lemma pin_accepted_read:
  "ParseRTCMessage pin_accepted = Some (Generic [(''status'', JStr ''OK'')], ''status_OK'')"
  "Option.bind (json_decode pin_accepted) (from_json (put_str_fields ''status'' ''token'') ([], [])) = Some (''OK'', [])"
  "pin_accepted \<noteq> ''0''"
  by code_simp+

lemma pair_asked_read:
  assumes "utf8 pem"
  shows "\<exists>msg. ParseRTCMessage (pair_asked pem) = Some (msg, ''status_PAIR'')"
    and "Option.bind (json_decode (pair_asked pem)) (from_json put_file_list_response ([], [], [])) = Some (''PAIR'', [], pem)"
    and "pair_asked pem \<noteq> ''0''"
proof -
  have s: "sendable (RTCFileListResponse ''PAIR'' [] pem)" using assms by simp code_simp
  have d: "json_decode (pair_asked pem) = Some (msg_json (RTCFileListResponse ''PAIR'' [] pem))"
    unfolding pair_asked_def by (rule sendable_decode [OF s])
  show "\<exists>msg. ParseRTCMessage (pair_asked pem) = Some (msg, ''status_PAIR'')"
    unfolding ParseRTCMessage_def d using sendable_detect [OF s] by (simp add: StatusPair_def as_status_def)
  show "Option.bind (json_decode (pair_asked pem)) (from_json put_file_list_response ([], [], [])) = Some (''PAIR'', [], pem)"
    unfolding d by (simp add: from_json_def into_struct_def put_file_list_response_def opt_str_def)
  show "pair_asked pem \<noteq> ''0''" by (simp add: pair_asked_def wire_def)
qed

text \<open>What a sender makes of an accepted PIN: with an expected key it always fails, without one the
  receiver's token is forgotten.\<close>

lemma pin_answer_expected:
  assumes "sn_state (xw_snd w) = senderStateWaitPin" and "sn_receiverPublicKey (xw_snd w) = Some key"
  shows "\<exists>w'. sn_handleDataMessage env pin_accepted True w = Some w' \<and> sn_state (xw_snd w') = senderStateDone \<and>
    (\<not> sn_closed (xw_snd w) \<longrightarrow> sn_errors (xw_snd w') \<noteq> None)"
proof -
  obtain e where "VerifyTokenNonce (se_crypto env) key [] (sn_finalNonce (xw_snd w)) = Inl e"
    using no_token [of "se_crypto env" key] by (cases "VerifyTokenNonce (se_crypto env) key [] (sn_finalNonce (xw_snd w))") auto
  then have "handleTokenResponse env ''status_OK'' pin_accepted w =
      failLocked (ReceiverTokenInvalid e) (supd (\<lambda>s. s\<lparr>sn_receiverToken := []\<rparr>) w)"
    using assms(2) by (simp add: handleTokenResponse_def take_token_def pin_accepted_read receiver_check_def)
  then show ?thesis using assms(1)
    by (simp add: sn_handleDataMessage_def sn_control_def pin_accepted_read) (simp add: failLocked_def offer_error_def Let_def)
qed

lemma pin_answer_open:
  assumes "channel_good w" and "sn_state (xw_snd w) = senderStateWaitPin" and "sn_receiverPublicKey (xw_snd w) = None"
    and "\<not> sn_requirePIN (xw_snd w)"
  shows "\<exists>w'. sn_handleDataMessage env pin_accepted True w = Some w' \<and> channel_good w' \<and>
    xw_snd w' = (xw_snd w)\<lparr>sn_receiverToken := [], sn_state := senderStateWaitFileAccept\<rparr>"
proof -
  let ?w1 = "supd (\<lambda>s. s\<lparr>sn_receiverToken := []\<rparr>) w"
  have g: "channel_good ?w1" using assms(1) by (simp add: channel_good_def)
  obtain w2 where w2: "(case sn_sendJSONBinary (RTCPinSendingResponse ''OK'' (fileDTOs (se_time env) (xw_snd ?w1))) ?w1 of
      (w1, True) \<Rightarrow> sn_sendDelimiter w1 | (w1, False) \<Rightarrow> (w1, False)) = (w2, True)" "channel_good w2" "xw_snd w2 = xw_snd ?w1"
    using good_chunked [OF g] by blast
  then have "sendFileList env ?w1 = supd (\<lambda>s. s\<lparr>sn_state := senderStateWaitFileAccept\<rparr>) w2"
    by (auto simp: sendFileList_def split: prod.splits bool.splits)
  then have "handleTokenResponse env ''status_OK'' pin_accepted w = supd (\<lambda>s. s\<lparr>sn_state := senderStateWaitFileAccept\<rparr>) w2"
    using assms(3,4) by (simp add: handleTokenResponse_def take_token_def pin_accepted_read receiver_check_def beginFileListPhase_def)
  then show ?thesis using assms(2) w2
    by (simp add: sn_handleDataMessage_def sn_control_def pin_accepted_read) (simp add: channel_good_def)
qed

text \<open>A PIN undoes the check of the pairing key. While a file list awaits its answer, a pairing key under
  which the receiver's token does not verify is refused and ends the transfer. If the receiver had
  asked for a PIN first, its answer to the PIN carries no token, the stored token is overwritten by
  the empty one, and the same key is accepted unchecked.\<close>

theorem pin_undoes_pair_check:
  assumes "channel_good w" and "sn_state (xw_snd w) = senderStateWaitPin" and "sn_receiverPublicKey (xw_snd w) = None"
    and "\<not> sn_requirePIN (xw_snd w)" and "sn_onPairRequest (xw_snd w) = None" and "sn_trustedStore (xw_snd w) = None"
    and "pem \<noteq> []" and "utf8 pem" and "ParsePublicKeyPEM (se_crypto env) pem = Some key"
    and "sn_receiverToken (xw_snd w) \<noteq> []"
    and "VerifyTokenNonce (se_crypto env) key (sn_receiverToken (xw_snd w)) (sn_finalNonce (xw_snd w)) \<noteq> Inr ()"
  shows "(\<exists>w'. sn_handleDataMessage env (pair_asked pem) True (supd (\<lambda>s. s\<lparr>sn_state := senderStateWaitFileAccept\<rparr>) w) = Some w' \<and>
      sn_receiverPublicKey (xw_snd w') = None \<and> sn_state (xw_snd w') = senderStateDone) \<and>
    (\<exists>w'. sn_run [(env, pin_accepted, True), (env, pair_asked pem, True)] w = Some w' \<and>
      sn_receiverPublicKey (xw_snd w') = Some key)"
proof
  obtain msg where msg: "ParseRTCMessage (pair_asked pem) = Some (msg, ''status_PAIR'')"
    using pair_asked_read(1) [OF assms(8)] by blast
  note read = pair_asked_read(2,3) [OF assms(8)]
  have accept: "sn_handleDataMessage env (pair_asked pem) True v = pair_request env pem v"
    if "sn_state (xw_snd v) = senderStateWaitFileAccept" for v
    using that by (simp add: sn_handleDataMessage_def sn_control_def msg read handleFileAcceptance_def)
  let ?w = "supd (\<lambda>s. s\<lparr>sn_state := senderStateWaitFileAccept\<rparr>) w"
  obtain e where e: "VerifyTokenNonce (se_crypto env) key (sn_receiverToken (xw_snd w)) (sn_finalNonce (xw_snd w)) = Inl e"
    using assms(11) by (cases "VerifyTokenNonce (se_crypto env) key (sn_receiverToken (xw_snd w)) (sn_finalNonce (xw_snd w))") auto
  then have "pair_request env pem ?w = Some (failLocked (PairIdentityMismatch e) (fst (sn_sendJSON (RTCPairResponse ''INVALID_SIGNATURE'' []) ?w)))"
    using assms(7,9,10) by (simp add: pair_request_def check_pair_key_def)
  with accept [of ?w] assms(3) show "\<exists>w'. sn_handleDataMessage env (pair_asked pem) True ?w = Some w' \<and>
      sn_receiverPublicKey (xw_snd w') = None \<and> sn_state (xw_snd w') = senderStateDone"
    by (simp add: send_same_fst)
  obtain w1 where w1: "sn_handleDataMessage env pin_accepted True w = Some w1" "channel_good w1"
    "xw_snd w1 = (xw_snd w)\<lparr>sn_receiverToken := [], sn_state := senderStateWaitFileAccept\<rparr>"
    using pin_answer_open [OF assms(1-4)] by blast
  let ?k = "supd (\<lambda>s. s\<lparr>sn_receiverPublicKey := Some key\<rparr>) w1"
  obtain w2 where w2: "sn_sendJSON (RTCPairResponse ''OK'' (PublicKeyPEM (se_crypto env) (sn_signingKey (xw_snd ?k)))) ?k = (w2, True)"
    "xw_snd w2 = xw_snd ?k"
    using good_text [of ?k] w1(2) by (auto simp: channel_good_def)
  have "check_pair_key (se_crypto env) pem (xw_snd w1) = KeyOk key"
    using assms(7,9) by (simp add: check_pair_key_def w1(3))
  moreover have "pair_confirmed (se_crypto env) pem (xw_snd ?k)" using assms(5) by (simp add: pair_confirmed_def w1(3))
  moreover have "remember_receiver env pem w2 = Some w2"
    using assms(6) w2(2) by (simp add: remember_receiver_def w1(3))
  ultimately have "pair_request env pem w1 = Some w2"
    using w2(1) by (simp add: pair_request_def Let_def)
  with accept [of w1] w1 w2(2) show "\<exists>w'. sn_run [(env, pin_accepted, True), (env, pair_asked pem, True)] w = Some w' \<and>
      sn_receiverPublicKey (xw_snd w') = Some key" by simp
qed


section \<open>Tokens and nonces travel unchanged\<close>

lemma ascii_utf8: "list_all is_ascii s \<Longrightarrow> utf8 s"
  by (simp add: utf8_def fix_utf8_ascii)

lemma b64_ascii: "list_all is_ascii (b64_encode bs)"
proof -
  have "list_all (\<lambda>v. is_ascii (b64_char v)) [0..<64]" by code_simp
  then have "v < 64 \<Longrightarrow> is_ascii (b64_char v)" for v by (simp add: list_all_iff)
  then show ?thesis by (auto simp: list_all_iff dest: b64_encode_vals)
qed

lemma GenerateToken_ascii: "GenerateToken c k salt = Some tok \<Longrightarrow> list_all is_ascii tok"
proof (erule GenerateToken_text)
  have "list_all is_ascii ''sha256'' \<and> list_all is_ascii ''ed25519'' \<and> is_ascii CHR ''.''" by code_simp
  then show "tok = token_text h s ''ed25519'' g \<Longrightarrow> list_all is_ascii tok" for h s g
    by (simp add: token_text_def b64_ascii)
qed

section \<open>Concrete runs\<close>

definition demo_senv :: send_env where
  "demo_senv = \<lparr>se_crypto = demo_crypto, se_now = 0, se_random = None, se_synced = True, se_time = (\<lambda>_. [])\<rparr>"

definition demo_sender :: "sstate \<Rightarrow> send_world" where
  "demo_sender st = \<lparr>xw_snd = (NewRTCSender demo_key [] [])\<lparr>sn_peer := True, sn_state := st\<rparr>,
     xw_ch = \<lparr>ch_ready = True, ch_closed = False, ch_outcomes = [], ch_frames = []\<rparr>, xw_fs = demo_disk\<rparr>"

abbreviation demo_asking :: "sstate \<Rightarrow> send_world" where
  "demo_asking st \<equiv> supd (sn_SetRequiredPIN ''42'') (demo_sender st)"

lemma demo_sender_simps [simp]:
  "sn_state (xw_snd (demo_sender st)) = st" "sn_controlBuffer (xw_snd (demo_sender st)) = []"
  "sn_requiredPINAttempts (xw_snd (demo_sender st)) = 0" "sn_receiverPublicKey (xw_snd (demo_sender st)) = None"
  "sn_requirePIN (xw_snd (demo_sender st)) = False" "sn_onPairRequest (xw_snd (demo_sender st)) = None"
  "sn_trustedStore (xw_snd (demo_sender st)) = None" "sn_signingKey (xw_snd (demo_sender st)) = demo_key"
  "sn_localNonce (xw_snd (demo_sender st)) = []"
  "channel_good (demo_sender st)"
  by (simp_all add: demo_sender_def NewRTCSender_def channel_good_def)

definition guess :: "send_env \<times> bytes \<times> bool" where "guess = (demo_senv, wire (RTCPinMessage ''1''), True)"

lemma guess_read: "ParseRTCMessage (wire (RTCPinMessage ''1'')) = Some (RTCPinMessage ''1'', ''pin'')"
  by code_simp

lemma guess_end: "wire (RTCPinMessage ''1'') \<noteq> ''0''"
  by (simp add: wire_def)

theorem file_list_secret_witness:
  "\<exists>w'. sn_run [guess] (with_files [\<lparr>sf_id = ''f'', sf_fileName = ''a'', sf_filePath = ''/a'', sf_size = 5, sf_fileType = [],
       sf_sha256 = [], sf_modified = None, sf_accessed = None\<rparr>] (demo_asking senderStateWaitNonce)) = Some w' \<and>
     sn_state (xw_snd w') \<noteq> senderStateWaitFileAccept"
proof -
  let ?w = "demo_asking senderStateWaitNonce"
  have s: "sn_requirePIN (xw_snd ?w)" "sn_state (xw_snd ?w) = senderStateInit \<or> sn_state (xw_snd ?w) = senderStateWaitNonce"
    by (simp_all add: sn_SetRequiredPIN_def)
  have "\<not> shows_pin (wire (RTCPinMessage ''1'')) True (xw_snd ?w)"
    by (simp add: shows_pin_def sn_payload_def guess_end guess_read sn_SetRequiredPIN_def)
  moreover have "sn_handleDataMessage demo_senv (wire (RTCPinMessage ''1'')) True ?w = Some ?w"
    by (simp add: sn_handleDataMessage_def sn_control_def guess_read guess_end handleNonceResponse_def sn_SetRequiredPIN_def)
  ultimately have "pin_unshown [guess] ?w" by (simp add: guess_def)
  from file_list_secret [OF s this] show ?thesis by fastforce
qed

text \<open>A wrong PIN on a working connection.\<close>

lemma good_status:
  "channel_good w \<Longrightarrow> \<exists>w'. sendPinSendingStatus st w = (w', True) \<and> channel_good w' \<and> xw_snd w' = xw_snd w"
  using good_chunked [of w "RTCPinSendingResponse st []"] by (simp add: sendPinSendingStatus_def)

lemma guessed:
  assumes "channel_good w" and "sn_state (xw_snd w) = senderStateWaitRequiredPIN" and "sn_requiredPIN (xw_snd w) = ''42''"
    and "sn_controlBuffer (xw_snd w) = []"
  shows "wrong_guess (wire (RTCPinMessage ''1'')) True (xw_snd w) \<and>
    (\<exists>w'. sn_handleDataMessage demo_senv (wire (RTCPinMessage ''1'')) True w = Some w' \<and>
       (sn_requiredPINAttempts (xw_snd w) + 1 < 3 \<longrightarrow> channel_good w' \<and>
          xw_snd w' = (xw_snd w)\<lparr>sn_requiredPINAttempts := sn_requiredPINAttempts (xw_snd w) + 1\<rparr>))"
proof (cases rule: refuse_cases [of w])
  case (1 st w2 k)
  let ?w1 = "supd (\<lambda>s. s\<lparr>sn_requiredPINAttempts := sn_requiredPINAttempts s + 1\<rparr>) w"
  have "channel_good ?w1" using assms(1) by (simp add: channel_good_def)
  from good_status [OF this, of st] 1(2) have k: "k" "channel_good w2" "xw_snd w2 = xw_snd ?w1" by auto
  have m: "senderMaxPINAttempts = 3" by (simp add: senderMaxPINAttempts_def MaxPINAttempts_def)
  have "sn_handleDataMessage demo_senv (wire (RTCPinMessage ''1'')) True w = Some (refuse_pin w)"
    using assms by (simp add: sn_handleDataMessage_def sn_control_def guess_read guess_end handleRequiredPIN_def)
  moreover have "wrong_guess (wire (RTCPinMessage ''1'')) True (xw_snd w)"
    using assms by (simp add: wrong_guess_def sn_payload_def guess_end guess_read)
  ultimately show ?thesis using k 1(1)
    by (simp add: 1(3) m StatusTooManyAttempts_def StatusPINRequired_def)
qed

theorem sender_pin_limit_witness:
  "\<exists>w'. sn_run [guess, guess, guess] (demo_asking senderStateWaitRequiredPIN) = Some w' \<and>
     sn_requiredPINAttempts (xw_snd w') = 3 \<and> sn_run [guess] w' \<noteq> None"
proof -
  let ?g = "wire (RTCPinMessage ''1'')" and ?w = "demo_asking senderStateWaitRequiredPIN"
  have w: "channel_good ?w" "sn_state (xw_snd ?w) = senderStateWaitRequiredPIN" "sn_requiredPIN (xw_snd ?w) = ''42''"
    "sn_controlBuffer (xw_snd ?w) = []" "sn_requiredPINAttempts (xw_snd ?w) = 0"
    by (simp_all add: sn_SetRequiredPIN_def channel_good_def demo_sender_def NewRTCSender_def)
  from guessed [OF w(1-4)] w obtain w1 where 1: "wrong_guess ?g True (xw_snd ?w)"
    "sn_handleDataMessage demo_senv ?g True ?w = Some w1" "channel_good w1"
    "xw_snd w1 = (xw_snd ?w)\<lparr>sn_requiredPINAttempts := 1\<rparr>" by auto
  from guessed [of w1] 1 w obtain w2 where 2: "wrong_guess ?g True (xw_snd w1)"
    "sn_handleDataMessage demo_senv ?g True w1 = Some w2" "channel_good w2"
    "xw_snd w2 = (xw_snd ?w)\<lparr>sn_requiredPINAttempts := 2\<rparr>" by auto
  from guessed [of w2] 2 w obtain w3 where 3: "wrong_guess ?g True (xw_snd w2)"
    "sn_handleDataMessage demo_senv ?g True w2 = Some w3" by auto
  have run: "sn_run [guess, guess, guess] ?w = Some w3" using 1 2 3 by (simp add: guess_def)
  have n: "wrong_guesses [guess, guess, guess] ?w = 3" using 1 2 3 by (simp add: guess_def)
  note l = sender_pin_limit [OF w(5) run, unfolded n]
  have "sn_run [] w3 = Some w3" by simp
  then have "sn_state (xw_snd w3) = senderStateDone" using l by blast
  then have "sn_run [guess] w3 \<noteq> None"
    by (simp add: guess_def sn_handleDataMessage_def sn_control_def guess_read guess_end)
  with run l show ?thesis by auto
qed

text \<open>The nonces and the token of an expected receiver, and its PIN challenge.\<close>

definition demo_answer :: string where
  "demo_answer = the (GenerateTokenWithNonce demo_crypto demo_key (replicate 16 CHR ''c''))"

lemma token_response_read:
  assumes "utf8 st" and "utf8 tok"
  shows "\<exists>msg. ParseRTCMessage (wire (RTCTokenResponse st tok)) = Some (msg, ''status_'' @ st)"
    and "Option.bind (json_decode (wire (RTCTokenResponse st tok))) (from_json (put_str_fields ''status'' ''token'') ([], [])) =
      Some (st, tok)"
    and "wire (RTCTokenResponse st tok) \<noteq> ''0''"
proof -
  have s: "sendable (RTCTokenResponse st tok)" using assms by simp
  show "\<exists>msg. ParseRTCMessage (wire (RTCTokenResponse st tok)) = Some (msg, ''status_'' @ st)"
    unfolding ParseRTCMessage_def sendable_decode [OF s] using sendable_detect [OF s] by (simp add: as_status_def)
  show "Option.bind (json_decode (wire (RTCTokenResponse st tok))) (from_json (put_str_fields ''status'' ''token'') ([], [])) =
      Some (st, tok)"
    unfolding sendable_decode [OF s] by (simp add: from_json_def into_struct_def put_str_fields_def opt_str_def)
  show "wire (RTCTokenResponse st tok) \<noteq> ''0''" by (simp add: wire_def)
qed

lemma demo_generated: "GenerateToken demo_crypto demo_key (replicate 16 CHR ''c'') = Some demo_answer"
proof -
  have "GenerateToken demo_crypto demo_key (replicate 16 CHR ''c'') \<noteq> None"
    by (simp add: GenerateToken_def demo_crypto_def demo_key_def Let_def)
  then show ?thesis by (auto simp: demo_answer_def GenerateTokenWithNonce_def)
qed

lemma demo_answer_utf8: "utf8 demo_answer" "utf8 ''PIN_REQUIRED''"
  using GenerateToken_ascii [OF demo_generated] by (simp_all add: ascii_utf8) code_simp

lemma demo_answer_verified:
  "VerifyTokenNonce demo_crypto (ToVerifyingKey demo_key) demo_answer (replicate 16 CHR ''c'') = Inr ()"
  using verify_generated [OF demo_generated demo_signs] by (simp add: VerifyTokenNonce_def)


theorem pin_undoes_pair_check_witness:
  "\<exists>w'. sn_run [(demo_senv, pin_accepted, True), (demo_senv, pair_asked ''XK'', True)]
       (supd (\<lambda>s. s\<lparr>sn_receiverToken := ''forged''\<rparr>) (demo_sender senderStateWaitPin)) = Some w' \<and>
     sn_receiverPublicKey (xw_snd w') \<noteq> None"
proof -
  let ?w = "supd (\<lambda>s. s\<lparr>sn_receiverToken := ''forged''\<rparr>) (demo_sender senderStateWaitPin)"
  have c: "se_crypto demo_senv = demo_crypto" by (simp add: demo_senv_def)
  obtain key where k: "ParsePublicKeyPEM (se_crypto demo_senv) ''XK'' = Some key"
    by (simp add: c ParsePublicKeyPEM_def demo_crypto_def)
  have "VerifyTokenNonce (se_crypto demo_senv) key ''forged'' n \<noteq> Inr ()" for n
    by (simp add: VerifyTokenNonce_def VerifyToken_def verify_with_def)
  moreover have "channel_good ?w" by (simp add: channel_good_def demo_sender_def NewRTCSender_def)
  moreover have "utf8 ''XK''" by code_simp
  ultimately show ?thesis
    using pin_undoes_pair_check [of ?w "''XK''" demo_senv key] k by auto
qed

end
