(* ===== verification/RtcLink.thy ===== *)
theory RtcLink
  imports SenderGate RtcProps
begin

text \<open>
  The two ends of a WebRTC connection together: the frames of one side are the input of the other.
  A chunked control message arrives whole, and a transfer that the sender calls successful is on
  the receiver's disk.
\<close>

section \<open>A chunked message\<close>

lemma wire_nonempty: "wire m \<noteq> []"
  by (cases m) (simp_all add: wire_def)

lemma collect_chunks:
  assumes "rr_state (rw_rcv w) \<noteq> stateReceivingFiles"
    and "int (length (rr_controlBuffer (rw_rcv w))) + int (length (concat cs)) \<le> maxControlMessageBytes"
  shows "run_frames (map (\<lambda>c. (env, c, False)) cs) w =
    Some (upd (\<lambda>r. r\<lparr>rr_controlBuffer := rr_controlBuffer r @ concat cs\<rparr>) w)"
  using assms
proof (induction cs arbitrary: w)
  case Nil
  then show ?case by (simp add: upd_def)
next
  case (Cons c cs)
  let ?w1 = "upd (\<lambda>r. r\<lparr>rr_controlBuffer := rr_controlBuffer r @ c\<rparr>) w"
  have "handleDataMessage env c False w = Some ?w1" using Cons.prems by (simp add: handleDataMessage_def Let_def)
  moreover have "run_frames (map (\<lambda>c. (env, c, False)) cs) ?w1 =
      Some (upd (\<lambda>r. r\<lparr>rr_controlBuffer := rr_controlBuffer r @ concat cs\<rparr>) ?w1)"
    by (rule Cons.IH) (use Cons.prems in simp_all)
  ultimately show ?case by (simp add: upd_def)
qed

text \<open>A chunked message arrives whole. If sending a message in chunks with its delimiter succeeded,
  no chunk exceeds 16 KiB, and a receiver that is not receiving file content, has nothing buffered
  and is not over its limit handles exactly the bytes of that message.\<close>

theorem chunked_message_arrives:
  assumes "send_chunked m ch = (ch', True)"
    and "rr_state (rw_rcv w) \<noteq> stateReceivingFiles" and "rr_controlBuffer (rw_rcv w) = []"
    and "int (length (wire m)) \<le> maxControlMessageBytes"
  shows "\<exists>new. ch_frames ch' = ch_frames ch @ new \<and> (\<forall>(data, isString) \<in> set new. length data \<le> ChunkSize) \<and>
    run_frames (map (\<lambda>(data, isString). (env, data, isString)) new) w = control_message env (wire m) w"
proof -
  obtain ch1 where 1: "send_chunks (chunks (wire m)) ch = (ch1, True)" and 2: "pc_SendText ''0'' ch1 = (ch', True)"
    using assms(1) by (auto simp: send_chunked_def pc_SendJSONBinary_def pc_SendDelimiter_def split: prod.splits bool.splits)
  let ?new = "map (\<lambda>c. (c, False)) (chunks (wire m)) @ [(''0'', True)]"
  have "ch_frames ch' = ch_frames ch @ ?new"
    using send_chunks_frames [OF 1] send_frame_frames [OF 2 [unfolded pc_SendText_def]] by auto
  moreover have "\<forall>(data, isString) \<in> set ?new. length data \<le> ChunkSize"
    using chunks_sizes by (fastforce simp: ChunkSize_def)
  moreover have "run_frames (map (\<lambda>(data, isString). (env, data, isString)) ?new) w = control_message env (wire m) w"
  proof -
    let ?w1 = "upd (\<lambda>r. r\<lparr>rr_controlBuffer := rr_controlBuffer r @ concat (chunks (wire m))\<rparr>) w"
    have "run_frames (map (\<lambda>c. (env, c, False)) (chunks (wire m))) w = Some ?w1"
      by (rule collect_chunks) (use assms(2-4) in \<open>simp_all add: chunks_concat\<close>)
    moreover have "handleDataMessage env ''0'' True ?w1 = control_message env (wire m) w"
    proof -
      have e: "upd (\<lambda>r. r\<lparr>rr_controlBuffer := []\<rparr>) ?w1 = w" using assms(3) by (simp add: upd_def)
      have "handleDataMessage env ''0'' True ?w1 = control_message env (wire m) (upd (\<lambda>r. r\<lparr>rr_controlBuffer := []\<rparr>) ?w1)"
        using assms(2,3) wire_nonempty by (simp add: handleDataMessage_def Let_def chunks_concat)
      then show ?thesis by (simp only: e)
    qed
    moreover have "run_frames [] = Some" by (rule ext) simp
    ultimately show ?thesis by (simp add: run_frames_append comp_def)
  qed
  ultimately show ?thesis by blast
qed

lemma demo_list_length: "length demo_list \<le> 1000"
  by code_simp

theorem chunked_message_arrives_witness:
  "\<exists>ch. send_chunked (RTCPinSendingResponse ''OK'' [demo_file]) \<lparr>ch_ready = True, ch_closed = False, ch_outcomes = [], ch_frames = []\<rparr> =
       (ch, True) \<and>
     run_frames (map (\<lambda>(data, isString). (demo_env, data, isString)) (ch_frames ch)) (demo_greeted []) =
       handleDataMessage demo_env demo_list True (demo_greeted [])"
proof -
  let ?ch = "\<lparr>ch_ready = True, ch_closed = False, ch_outcomes = [], ch_frames = []\<rparr> :: channel"
  let ?m = "RTCPinSendingResponse ''OK'' [demo_file]"
  obtain ch where ch: "send_chunked ?m ?ch = (ch, True)" using send_chunked_ok [of ?ch ?m] by auto
  have w: "int (length (wire ?m)) \<le> maxControlMessageBytes"
    using demo_list_length by (auto simp: demo_list_def maxControlMessageBytes_def)
  have r: "rr_state (rw_rcv (demo_greeted [])) \<noteq> stateReceivingFiles" "rr_controlBuffer (rw_rcv (demo_greeted [])) = []"
    by (simp_all add: demo_hello demo_offered_eq NewRTCReceiver_def)
  have "control_message demo_env (wire ?m) (demo_greeted []) = handleDataMessage demo_env demo_list True (demo_greeted [])"
    using r demo_not_end by (simp add: handleDataMessage_def demo_list_def Let_def)
  with chunked_message_arrives [OF ch r w, of demo_env] ch show ?thesis by auto
qed


section \<open>Answers\<close>

text \<open>The acknowledgements a receiver has sent, in order.\<close>

fun response_of :: "rtc_event \<Rightarrow> ack_event list" where
  "response_of (SentText (RTCSendFileResponse fid ok err)) = [AckResult fid ok err]"
| "response_of _ = []"

definition responses :: "rtc_event list \<Rightarrow> ack_event list" where
  "responses log = concat (map response_of log)"

lemma responses_append [simp]: "responses (xs @ ys) = responses xs @ responses ys"
  and responses_simps [simp]: "responses [] = []" "responses (e # es) = response_of e @ responses es"
  by (simp_all add: responses_def)

lemma mark_responses [simp]:
  "responses (rw_log (markTransferStartedLocked w)) = responses (rw_log w)"
  "responses (rw_log (markTransferDoneLocked w)) = responses (rw_log w)"
  by (simp_all add: markTransferStartedLocked_def markTransferDoneLocked_def)

lemma drop_responses [simp]: "responses (rw_log (drop_peer w)) = responses (rw_log w)"
  by (simp add: drop_peer_def split: option.split)

lemma cleanup_responses [simp]:
  "responses (rw_log (cleanupPartialFilesLocked w)) = responses (rw_log w)"
  "responses (rw_log (cleanupCurrentFile w)) = responses (rw_log w)"
  by (simp_all add: cleanupPartialFilesLocked_def cleanupCurrentFile_def Let_def split: option.split)

lemma reject_responses [simp]: "responses (rw_log (rejectFileTransfer w)) = responses (rw_log w)"
  by (simp add: rejectFileTransfer_def)

lemma terminate_responses [simp]: "responses (rw_log (terminateLocked w)) = responses (rw_log w)"
  by (simp add: terminateLocked_def Let_def split: option.split)

section \<open>The files that are complete\<close>

text \<open>Files that are closed, with their content, in paths of their own.\<close>

definition stored :: "string set \<Rightarrow> rtc_world \<Rightarrow> (string \<times> bytes) list \<Rightarrow> bool" where
  "stored D w xs \<longleftrightarrow> distinct (map (\<lambda>x. path_key (fst x)) xs) \<and>
     (\<forall>(p, b) \<in> set xs. within D p \<and> file_content (rw_fs w) p = Some b \<and>
        path_key p \<notin> path_key ` snd ` set (rr_filePaths (rw_rcv w)))"

definition in_transfer :: "RTCReceiver \<Rightarrow> bool" where
  "in_transfer r \<longleftrightarrow> rr_state r = stateWaitFiles \<or> rr_state r = stateReceivingFiles \<or> rr_state r = stateDone"

text \<open>The state between two frames of the protocol: \<open>xs\<close> is complete, and unless a write failed, what
  was received for the open file is \<open>d\<close>.\<close>

definition partway :: "string set \<Rightarrow> rtc_world \<Rightarrow> (string \<times> bytes) list \<Rightarrow> bytes \<Rightarrow> bool" where
  "partway D w xs d \<longleftrightarrow> files_inv D w \<and> in_transfer (rw_rcv w) \<and> stored D w xs \<and>
     (rr_state (rw_rcv w) = stateReceivingFiles \<longrightarrow>
        (\<exists>meta path b d'. open_file D (rw_fs w) (rw_rcv w) meta path b d' \<and> (\<not> bw_failed b \<longrightarrow> d' = d)))"

lemma partway_closed:
  "files_inv D w \<Longrightarrow> rr_state (rw_rcv w) \<in> {stateWaitFiles, stateDone} \<Longrightarrow> stored D w xs \<Longrightarrow> partway D w xs d"
  by (auto simp: partway_def in_transfer_def)

lemma stored_idle:
  assumes "stored D w xs" and "\<And>q. file_content (rw_fs w') q = file_content (rw_fs w) q"
    and "rr_filePaths (rw_rcv w') = []"
  shows "stored D w' xs"
  using assms by (auto simp: stored_def)

lemma idle_paths: "idle_inv D w \<Longrightarrow> rr_filePaths (rw_rcv w) = []"
  by (simp add: idle_inv_def no_file_def)

lemma reject_partway:
  assumes "idle_inv D w" and "\<not> rr_accepting (rw_rcv w)" and "stored D w xs"
  shows "partway D (rejectFileTransfer w) xs d"
  using reject_inv [OF assms(1,2)] assms(3)
  by (auto intro!: partway_closed simp: rejectFileTransfer_def stored_def)

text \<open>Opening a file for a header, or refusing it.\<close>

lemma start_partway:
  assumes "idle_inv D w" and "\<not> rr_accepting (rw_rcv w)" and "fid \<noteq> []" and "stored D w xs"
  shows "partway D (fst (startReceivingFile uni fid token w)) xs [] \<and>
    responses (rw_log (fst (startReceivingFile uni fid token w))) = responses (rw_log w)"
proof (cases rule: start_outcome [OF assms(1,2), of uni fid token])
  case (1 w1)
  have "stored D w1 xs" by (rule stored_idle [OF assms(4) 1(5) idle_paths [OF 1(2)]])
  with reject_partway [OF 1(2,3)] 1(1,4) show ?thesis by simp
next
  case (2 w1 meta dir base a fs path)
  let ?w = "open_current fid meta path (upd (\<lambda>r. r\<lparr>rr_uniqueFiles := a\<rparr>) (w1\<lparr>rw_fs := fs\<rparr>))"
  have inv: "files_inv D ?w" by (rule open_current_inv [OF 2(3,4) assms(3) 2(7) 2(2) 2(8,9)]) (simp add: 2(10))
  have fresh: "file_content (rw_fs w1) path = None" using ua.create_fresh [OF 2(2)] by (simp add: file_content_def)
  have other: "file_content fs q = file_content (rw_fs w) q" if "path_key q \<noteq> path_key path" for q
    using ua.create_frame [OF 2(2)] 2(6) [of q] that by (simp add: file_content_def)
  have paths: "rr_filePaths (rw_rcv ?w) = [(fid, path)]"
    using idle_paths [OF 2(3)] by (simp add: open_current_def Let_def)
  have "path_key p \<noteq> path_key path" if "file_content (rw_fs w) p = Some b" for p b
    using fresh 2(6) that by (metis file_content_def option.distinct(1))
  moreover have "rw_fs ?w = fs" by (simp add: open_current_def Let_def)
  ultimately have st: "stored D ?w xs"
    using assms(4) other by (fastforce simp: stored_def paths)
  have cur: "rr_currentFileID (rw_rcv ?w) = fid" "rr_currentFileID (rw_rcv ?w) \<noteq> []"
    using assms(3) by (simp_all add: open_current_def Let_def)
  obtain m p b d where o: "open_file D (rw_fs ?w) (rw_rcv ?w) m p b d" by (rule files_inv_openE [OF inv cur(2)])
  then have "d = []" by (simp add: open_file_def open_current_def Let_def)
  with o have "\<exists>meta path b d'. open_file D (rw_fs ?w) (rw_rcv ?w) meta path b d' \<and> (\<not> bw_failed b \<longrightarrow> d' = [])"
    by blast
  moreover have "rr_state (rw_rcv ?w) = stateReceivingFiles" by (simp add: open_current_def Let_def)
  ultimately have "partway D ?w xs []" using inv st unfolding partway_def in_transfer_def by blast
  moreover have "responses (rw_log ?w) = responses (rw_log w)" using 2(5) by (simp add: open_current_def Let_def)
  ultimately show ?thesis using 2(1) by simp
qed

section \<open>One frame\<close>

text \<open>Content.\<close>

lemma binary_receiving:
  assumes "partway D w xs d" and "rr_state (rw_rcv w) = stateReceivingFiles"
  shows "partway D (handleBinaryData data w) xs (d @ data) \<and>
    responses (rw_log (handleBinaryData data w)) = responses (rw_log w)"
proof -
  let ?fid = "rr_currentFileID (rw_rcv w)"
  have inv: "files_inv D w" and sto: "stored D w xs" using assms(1) by (simp_all add: partway_def)
  obtain meta path b d' where o: "open_file D (rw_fs w) (rw_rcv w) meta path b d'" "\<not> bw_failed b \<longrightarrow> d' = d"
    using assms by (auto simp: partway_def)
  have cur: "?fid \<noteq> []" using inv assms(2) by (simp add: files_inv_def Let_def)
  have acc: "\<not> rr_accepting (rw_rcv w)" using inv assms(2) by (auto simp: files_inv_def Let_def)
  have sz: "is_int64 (rf_size meta)"
    by (rule files_inv_openE [OF inv cur]) (use o in \<open>auto simp: open_file_def Let_def\<close>)
  have inv': "files_inv D (handleBinaryData data w)" by (rule binary_open_inv [OF inv cur])
  have m: "fileMetaByID ?fid (rw_rcv w) = (rw_rcv w, Some meta)"
    using o by (simp add: open_file_def Let_def fileMetaByID_def)
  have op: "rr_filePaths (rw_rcv w) = [(?fid, path)]" using o by (simp add: open_file_def Let_def)
  show ?thesis
  proof (cases "int (length data) > rf_size meta - int (length d')")
    case True
    have h: "handleBinaryData data w = rejectFileTransfer (cleanupCurrentFile w)"
      using True m room_left [OF o(1) sz] by (simp add: handleBinaryData_def Let_def)
    have "rw_fs (cleanupCurrentFile w) = fst (os_remove (rw_fs w) path)"
      using op o by (simp add: cleanupCurrentFile_def Let_def open_file_def)
    then have "stored D (cleanupCurrentFile w) xs"
      using sto op idle_paths [OF cleanup_current_inv [OF inv]] by (auto simp: stored_def remove_frame)
    with reject_partway [OF cleanup_current_inv [OF inv]] acc show ?thesis by (simp add: h)
  next
    case False
    obtain fs b' ok where wr: "bufw_write (rw_fs w) b data = (fs, b', ok)" using prod_cases3 by blast
    obtain c where c: "file_content (rw_fs w) (bw_path b) = Some c" "bw_path b = path"
      using o by (auto simp: open_file_def Let_def)
    note e = bufw_write_effect [OF wr c(1)]
    let ?w1 = "upd (\<lambda>r. r\<lparr>rr_fileBuffers := mput ?fid b' (rr_fileBuffers r)\<rparr>) (w\<lparr>rw_fs := fs\<rparr>)"
    have h: "handleBinaryData data w = (if ok then count_current ?fid data ?w1 else ?w1)"
      using m room_left [OF o(1) sz] False wr o
      by (simp add: handleBinaryData_def Let_def write_current_def open_file_def)
    let ?w' = "handleBinaryData data w"
    have r: "rr_filePaths (rw_rcv ?w') = [(?fid, path)]" "rr_state (rw_rcv ?w') = stateReceivingFiles"
      "rr_currentFileID (rw_rcv ?w') = ?fid" "mget (rr_fileBuffers (rw_rcv ?w')) ?fid = Some b'" "rw_log ?w' = rw_log w"
      "rw_fs ?w' = fs"
      "ok \<Longrightarrow> rr_currentBytes (rw_rcv ?w') = wrap64 (rr_currentBytes (rw_rcv w) + int (length data))"
      using op assms(2) by (simp_all add: h count_current_def)
    have "stored D ?w' xs" using sto e c(2) op by (auto simp: stored_def r writes_to_def)
    moreover have "\<exists>meta path b d'. open_file D (rw_fs ?w') (rw_rcv ?w') meta path b d' \<and> (\<not> bw_failed b \<longrightarrow> d' = d @ data)"
    proof (cases ok)
      case okF: False
      have "rr_currentFileID (rw_rcv ?w') \<noteq> []" using cur r(3) by simp
      then obtain m2 p2 b2 d2 where o2: "open_file D (rw_fs ?w') (rw_rcv ?w') m2 p2 b2 d2"
        by (rule files_inv_openE [OF inv'])
      then have "b2 = b'" using r(3,4) by (simp add: open_file_def Let_def)
      with o2 e okF show ?thesis by blast
    next
      case True
      have "is_int64 (int (length d') + int (length data))"
        using False sz by (auto simp: is_int64_def int64_min_def int64_max_def)
      then have "open_file D fs (rw_rcv (count_current ?fid data ?w1)) meta path b' (d' @ data)"
        using o e c False True by (auto simp: open_file_def Let_def count_current_def writes_to_def)
      then have "open_file D (rw_fs ?w') (rw_rcv ?w') meta path b' (d' @ data)" using True r(6) by (simp add: h)
      moreover have "d' = d" using o(2) e True by auto
      ultimately show ?thesis by blast
    qed
    ultimately show ?thesis using inv' r by (auto simp: partway_def in_transfer_def)
  qed
qed

lemma finish_log [simp]:
  "rw_log (fst (finish_flush fid st)) = rw_log (fst st)" "rw_log (fst (finish_close c fid st)) = rw_log (fst st)"
  "rw_log (fst (finish_hash sha found fid st)) = rw_log (fst st)"
  "responses (rw_log (finish_path found fid st)) = responses (rw_log (fst st))"
  by (auto simp: finish_flush_def finish_close_def finish_hash_def finish_path_def split: prod.split option.split)

lemma finish_one_answer:
  "length (responses (rw_log (finishCurrentFile env w))) \<le> length (responses (rw_log w)) + 1"
  by (simp add: finishCurrentFile_def Let_def sends split: prod.split)

text \<open>The end of the open file: one answer, and with a success the file is complete.\<close>

lemma finish_partway:
  assumes "partway D w xs d" and "rr_state (rw_rcv w) = stateReceivingFiles"
  obtains rs where "responses (rw_log (finishCurrentFile env w)) = responses (rw_log w) @ rs" and "length rs \<le> 1"
    and "idle_inv D (finishCurrentFile env w)" and "\<not> rr_accepting (rw_rcv (finishCurrentFile env w))"
    and "stored D (finishCurrentFile env w) xs"
    and "\<And>i e. rs = [AckResult i True e] \<Longrightarrow> \<exists>path. stored D (finishCurrentFile env w) (xs @ [(path, d)])"
proof -
  have inv: "files_inv D w" and sto: "stored D w xs" using assms(1) by (simp_all add: partway_def)
  obtain meta path b d' where o: "open_file D (rw_fs w) (rw_rcv w) meta path b d'" "\<not> bw_failed b \<longrightarrow> d' = d"
    using assms by (auto simp: partway_def)
  have cur: "rr_currentFileID (rw_rcv w) \<noteq> []" using inv assms(2) by (simp add: files_inv_def Let_def)
  have acc: "\<not> rr_accepting (rw_rcv w)" using inv assms(2) by (auto simp: files_inv_def Let_def)
  have op: "rr_filePaths (rw_rcv w) = [(rr_currentFileID (rw_rcv w), path)]" "within D path"
    using o by (simp_all add: open_file_def Let_def)
  obtain err evs dn where f: "err = None \<longleftrightarrow> complete env (rw_fs w) meta b d'"
    "idle_inv D (finishCurrentFile env w)"
    "rw_log (finishCurrentFile env w) = rw_log w @ (if err = None then [FileReceived (path_base path) (rf_size meta)] else []) @ evs @ dn"
    "set dn \<subseteq> {TransferDone}"
    "set evs \<subseteq> {SentText (RTCSendFileResponse (rr_currentFileID (rw_rcv w)) (err = None) err)}" 
    "file_content (rw_fs (finishCurrentFile env w)) path = (if err = None then Some d' else None)"
    "writes_to path (rw_fs w) (rw_fs (finishCurrentFile env w))"
    by (rule finish_open [OF inv o(1) cur, of env]) blast
  let ?w = "finishCurrentFile env w"
  have "responses dn = []" using f(4) by (auto simp: responses_def)
  then have rs: "responses (rw_log ?w) = responses (rw_log w) @ responses evs" by (simp add: f(3))
  have len: "length (responses evs) \<le> 1" using finish_one_answer [of env w] by (simp add: rs)
  have st: "stored D ?w xs"
    using sto f(7) op idle_paths [OF f(2)] by (auto simp: stored_def writes_to_def)
  show thesis
  proof (rule that [OF rs len f(2) _ st])
    show "\<not> rr_accepting (rw_rcv ?w)" using finish_inv(2) [OF inv cur] acc by simp
    fix i e assume s: "responses evs = [AckResult i True e]"
    then have "AckResult i True e \<in> set (responses evs)" by simp
    then have "err = None" using f(5) by (auto simp: responses_def)
    then have "\<not> bw_failed b" "file_content (rw_fs ?w) path = Some d'"
      using f(1,6) by (auto simp: complete_def bufw_flush_def)
    then have "file_content (rw_fs ?w) path = Some d" using o(2) by simp
    then have "stored D ?w (xs @ [(path, d)])"
      using st sto op idle_paths [OF f(2)] by (auto simp: stored_def)
    then show "\<exists>path. stored D ?w (xs @ [(path, d)])" by blast
  qed
qed


lemma terminate_idle_partway:
  assumes "idle_inv D w" and "\<not> rr_accepting (rw_rcv w)" and "stored D w xs"
  shows "partway D (terminateLocked w) xs d"
proof -
  have "files_inv D (upd (\<lambda>r. r\<lparr>rr_state := stateDone\<rparr>) w)"
    by (rule idle_step [OF assms(1)]) (simp_all add: same_files_def free_ok_def Let_def assms(2))
  from terminate_inv [OF this] have "files_inv D (terminateLocked (upd (\<lambda>r. r\<lparr>rr_state := stateDone\<rparr>) w))" .
  moreover have "terminateLocked w = terminateLocked (upd (\<lambda>r. r\<lparr>rr_state := stateDone\<rparr>) w)"
    by (simp add: terminateLocked_def cleanupPartialFilesLocked_def markTransferDoneLocked_def upd_def emit_def Let_def)
  moreover have "stored D (terminateLocked w) xs"
    using assms(3) idle_paths [OF assms(1)] by (auto simp: stored_def terminateLocked_def remove_all_def)
  ultimately show ?thesis by (intro partway_closed) (simp_all add: terminateLocked_def)
qed

text \<open>A text frame ends the open file, and may open the next.\<close>

lemma text_receiving:
  assumes "partway D w xs d" and "rr_state (rw_rcv w) = stateReceivingFiles"
  obtains rs where "responses (rw_log (receiving_frame env data True w)) = responses (rw_log w) @ rs" and "length rs \<le> 1"
    and "partway D (receiving_frame env data True w) xs []"
    and "\<And>i e. rs = [AckResult i True e] \<Longrightarrow> \<exists>path. partway D (receiving_frame env data True w) (xs @ [(path, d)]) []"
proof -
  obtain rs where f: "responses (rw_log (finishCurrentFile env w)) = responses (rw_log w) @ rs" "length rs \<le> 1"
    "idle_inv D (finishCurrentFile env w)" "\<not> rr_accepting (rw_rcv (finishCurrentFile env w))"
    "stored D (finishCurrentFile env w) xs"
    "\<And>i e. rs = [AckResult i True e] \<Longrightarrow> \<exists>path. stored D (finishCurrentFile env w) (xs @ [(path, d)])"
    using finish_partway [OF assms, of env] by metis
  let ?w1 = "finishCurrentFile env w" and ?w = "receiving_frame env data True w"
  have next_file: "partway D ?w ys [] \<and> responses (rw_log ?w) = responses (rw_log ?w1)" if "stored D ?w1 ys" for ys
  proof -
    have "files_inv D (drop_peer (upd (\<lambda>r. r\<lparr>rr_state := stateDone\<rparr>) ?w1))"
      by (rule idle_step [OF f(3)]) (simp_all add: same_files_def free_ok_def Let_def f(4))
    then have "partway D (drop_peer (upd (\<lambda>r. r\<lparr>rr_state := stateDone\<rparr>) ?w1)) ys []"
      using that by (intro partway_closed) (auto simp: stored_def)
    moreover note terminate_idle_partway [OF f(3,4) that, of "[]"]
    moreover have "partway D (fst (startReceivingFile (re_uni env) fid token ?w1)) ys [] \<and>
        responses (rw_log (fst (startReceivingFile (re_uni env) fid token ?w1))) = responses (rw_log ?w1)"
      if "fid \<noteq> []" for fid token
      using start_partway [OF f(3,4) that \<open>stored D ?w1 ys\<close>] .
    ultimately show ?thesis by (auto simp: receiving_frame_def Let_def split: option.split)
  qed
  show thesis
    by (rule that [of rs]) (use f next_file in auto)
qed

text \<open>A frame while no file is open.\<close>

lemma control_partway:
  assumes "partway D w xs d" and "rr_state (rw_rcv w) \<noteq> stateReceivingFiles"
    and "control_message env data w = Some w'"
  shows "partway D w' xs [] \<and> responses (rw_log w') = responses (rw_log w)"
proof -
  have inv: "files_inv D w" and sto: "stored D w xs" and st: "in_transfer (rw_rcv w)"
    using assms(1) by (simp_all add: partway_def)
  note idle = files_idle_inv [OF inv assms(2)]
  have self: "partway D w xs []" using assms(1,2) by (simp add: partway_def)
  have busy: "\<not> rr_accepting (rw_rcv w)" if "rr_state (rw_rcv w) = stateWaitFiles"
    using files_inv_busy [OF inv] that by (auto simp: busy_ok_def)
  show ?thesis
  proof (cases "ParseRTCMessage data")
    case None
    have bin: "partway D (handleBinaryData data w) xs [] \<and> responses (rw_log (handleBinaryData data w)) = responses (rw_log w)"
      if wait: "rr_state (rw_rcv w) = stateWaitFiles"
    proof -
      have i: "files_inv D (handleBinaryData data w)" by (rule binary_idle_inv [OF idle busy [OF wait]])
      have cur: "rr_currentFileID (rw_rcv w) = []" using idle(1) by (simp add: idle_inv_def)
      obtain r found where m: "fileMetaByID [] (rw_rcv w) = (r, found)" by fastforce
      have k: "kept (rw_rcv w) r" by (rule metaByID_kept [OF m])
      have "mget (rr_fileBuffers r) [] = None" "mget (rr_fileWriters r) [] = None" "mget (rr_filePaths r) [] = None"
        "rr_filePaths r = []"
        using idle(1) k by (simp_all add: idle_inv_def no_file_def kept_def)
      then have h: "handleBinaryData data w = w\<lparr>rw_rcv := r\<rparr> \<or>
          handleBinaryData data w = rejectFileTransfer (cleanupCurrentFile (w\<lparr>rw_rcv := r\<rparr>))"
        and c: "rw_fs (cleanupCurrentFile (w\<lparr>rw_rcv := r\<rparr>)) = rw_fs w"
        using m cur k by (auto simp: handleBinaryData_def Let_def write_current_def kept_def cleanupCurrentFile_def)
      have fs: "rw_fs (handleBinaryData data w) = rw_fs w" "responses (rw_log (handleBinaryData data w)) = responses (rw_log w)"
        "rr_state (rw_rcv (handleBinaryData data w)) = stateWaitFiles"
        using h c k wait by (auto simp: rejectFileTransfer_def kept_def)
      have "idle_inv D (handleBinaryData data w)" by (rule files_idle_inv(1) [OF i]) (simp add: fs)
      from stored_idle [OF sto _ idle_paths [OF this]] i fs show ?thesis by (simp add: partway_closed)
    qed
    show ?thesis using assms(3) None self bin
      by (auto simp: control_message_def split: if_splits list.splits)
  next
    case (Some p)
    obtain msg ty where p: "ParseRTCMessage data = Some (msg, ty)" using Some by (cases p) simp
    have "partway D (handleFileHeader env msg ty w) xs [] \<and>
        responses (rw_log (handleFileHeader env msg ty w)) = responses (rw_log w)"
      if wait: "rr_state (rw_rcv w) = stateWaitFiles"
    proof -
      have "partway D (fst (startReceivingFile (re_uni env) fid token w)) xs [] \<and>
          responses (rw_log (fst (startReceivingFile (re_uni env) fid token w))) = responses (rw_log w)"
        if "msg = RTCSendFileHeader fid token" for fid token
        using start_partway [OF idle(1) busy [OF wait] _ sto] parsed_tag_fits [OF p] that by auto
      with self show ?thesis by (auto simp: handleFileHeader_def split: rtc_message.split)
    qed
    with st assms p self show ?thesis by (auto simp: control_message_def in_transfer_def)
  qed
qed

lemma buffer_partway:
  "partway D w xs d \<Longrightarrow> rr_state (rw_rcv w) \<noteq> stateReceivingFiles \<Longrightarrow>
   partway D (upd (\<lambda>r. r\<lparr>rr_controlBuffer := g r\<rparr>) w) xs d'"
proof -
  assume p: "partway D w xs d" and s: "rr_state (rw_rcv w) \<noteq> stateReceivingFiles"
  then have inv: "files_inv D w" by (simp add: partway_def)
  have "files_inv D (upd (\<lambda>r. r\<lparr>rr_controlBuffer := g r\<rparr>) w)"
    by (rule idle_step [OF files_idle_inv(1) [OF inv s]])
      (use files_idle_inv(2) [OF inv s] in \<open>simp_all add: same_files_def free_ok_def Let_def\<close>)
  with p s show ?thesis by (auto simp: partway_def stored_def in_transfer_def)
qed

lemma idle_frame:
  assumes "partway D w xs d" and "rr_state (rw_rcv w) \<noteq> stateReceivingFiles"
    and "handleDataMessage env data isString w = Some w'"
  shows "partway D w' xs [] \<and> responses (rw_log w') = responses (rw_log w)"
proof -
  have s: "rr_state (rw_rcv (upd (\<lambda>r. r\<lparr>rr_controlBuffer := g r\<rparr>) w)) \<noteq> stateReceivingFiles" for g
    using assms(2) by simp
  note c = control_partway [OF assms(1,2)] control_partway [OF buffer_partway [OF assms(1,2)] s]
  have "partway D w xs []" using assms(1,2) by (simp add: partway_def)
  with assms(2,3) c buffer_partway [OF assms(1,2), of _ "[]"] show ?thesis
    by (auto simp: handleDataMessage_def Let_def split: if_splits)
qed

lemma receiving_cur: "partway D w xs d \<Longrightarrow> rr_state (rw_rcv w) = stateReceivingFiles \<Longrightarrow> rr_currentFileID (rw_rcv w) \<noteq> []"
  by (simp add: partway_def files_inv_def Let_def)

lemma binary_frame:
  assumes "partway D w xs d" and "handleDataMessage env data False w = Some w'"
  shows "partway D w' xs (d @ data) \<and> responses (rw_log w') = responses (rw_log w)"
proof (cases "rr_state (rw_rcv w) = stateReceivingFiles")
  case True
  then have "w' = handleBinaryData data w"
    using assms(2) receiving_cur [OF assms(1) True] True by (simp add: handleDataMessage_def receiving_frame_def)
  with binary_receiving [OF assms(1) True] show ?thesis by simp
next
  case False
  then show ?thesis using assms(2) buffer_partway [OF assms(1) False]
    by (auto simp: handleDataMessage_def Let_def split: if_splits)
qed

lemma text_frame:
  assumes "partway D w xs d" and "handleDataMessage env data True w = Some w'"
  obtains rs where "responses (rw_log w') = responses (rw_log w) @ rs" and "length rs \<le> 1" and "partway D w' xs []"
    and "\<And>i e. rs = [AckResult i True e] \<Longrightarrow> \<exists>path. partway D w' (xs @ [(path, d)]) []"
proof (cases "rr_state (rw_rcv w) = stateReceivingFiles")
  case True
  then have "w' = receiving_frame env data True w"
    using assms(2) receiving_cur [OF assms(1) True] True by (simp add: handleDataMessage_def)
  with text_receiving [OF assms(1) True, of env data] that show thesis by metis
next
  case False
  with idle_frame [OF assms(1) False assms(2)] that [of "[]"] show thesis by simp
qed

section \<open>A whole transfer\<close>

definition texts :: "(rtc_env \<times> bytes \<times> bool) list \<Rightarrow> nat" where
  "texts fs = length (filter (\<lambda>f. snd (snd f)) fs)"

text \<open>Each text frame is answered at most once.\<close>

lemma answers_bounded:
  "partway D w xs d \<Longrightarrow> run_frames fs w = Some w' \<Longrightarrow>
   \<exists>rs. responses (rw_log w') = responses (rw_log w) @ rs \<and> length rs \<le> texts fs"
proof (induction fs arbitrary: w d)
  case Nil
  then show ?case by (simp add: texts_def)
next
  case (Cons f fs)
  obtain env data s where f: "f = (env, data, s)" by (cases f)
  obtain w1 where w1: "handleDataMessage env data s w = Some w1" "run_frames fs w1 = Some w'"
    using Cons.prems(2) f by (auto simp: bind_eq_Some_conv)
  show ?case
  proof (cases s)
    case True
    with w1 have "handleDataMessage env data True w = Some w1" by simp
    from text_frame [OF Cons.prems(1) this] obtain rs where
      1: "responses (rw_log w1) = responses (rw_log w) @ rs" "length rs \<le> 1" "partway D w1 xs []" by metis
    from Cons.IH [OF 1(3) w1(2)] obtain rs' where
      2: "responses (rw_log w') = responses (rw_log w1) @ rs'" "length rs' \<le> texts fs" by blast
    with 1 True f show ?thesis by (intro exI [of _ "rs @ rs'"]) (simp add: texts_def)
  next
    case False
    with w1 have "handleDataMessage env data False w = Some w1" by simp
    from binary_frame [OF Cons.prems(1) this] have
      1: "responses (rw_log w1) = responses (rw_log w)" "partway D w1 xs (d @ data)" by simp_all
    from Cons.IH [OF 1(2) w1(2)] 1(1) False f show ?thesis by (auto simp: texts_def)
  qed
qed

lemma binary_frames:
  "partway D w xs d \<Longrightarrow> map snd fs = binary cs \<Longrightarrow> run_frames fs w = Some w' \<Longrightarrow>
   partway D w' xs (d @ concat cs) \<and> responses (rw_log w') = responses (rw_log w)"
proof (induction cs arbitrary: fs w d)
  case (Cons c cs)
  obtain env fs' where f: "fs = (env, c, False) # fs'" "map snd fs' = binary cs"
    using Cons.prems(2) by (auto simp: map_eq_Cons_conv)
  obtain w1 where w1: "handleDataMessage env c False w = Some w1" "run_frames fs' w1 = Some w'"
    using Cons.prems(3) f by (auto simp: bind_eq_Some_conv)
  note b = binary_frame [OF Cons.prems(1) w1(1)]
  from Cons.IH [OF conjunct1 [OF b] f(2) w1(2)] b show ?case by simp
qed simp

lemma texts_transcript:
  assumes "map snd fs = transcript reads queue"
  shows "texts fs = length queue"
proof -
  have "texts fs = length (filter snd (map snd fs))" by (simp add: texts_def filter_map comp_def)
  also have "\<dots> = length queue" unfolding assms
    by (induction queue rule: transcript.induct) (auto simp: boundary_def header_frame_def split: list.split prod.split)
  finally show ?thesis .
qed

lemma deliver:
  "partway D w xs [] \<Longrightarrow> map snd fs = transcript reads queue \<Longrightarrow> run_frames fs w = Some w' \<Longrightarrow>
   responses (rw_log w') = responses (rw_log w) @ rs \<Longrightarrow> acked rs queue \<Longrightarrow>
   \<exists>ps. length ps = length queue \<and>
     stored D w' (xs @ zip ps (map (\<lambda>x. concat (read_blocks reads (snd (snd x)))) queue))"
proof (induction queue arbitrary: fs w xs rs)
  case Nil
  then show ?case by (simp add: partway_def)
next
  case (Cons item rest)
  let ?c = "content_frames reads (snd (snd item))"
  have "map snd fs = binary ?c @ boundary rest # transcript reads rest" using Cons.prems(2) by simp
  then obtain fs1 env fs2 where f: "fs = fs1 @ (env, boundary rest) # fs2" "map snd fs1 = binary ?c"
    "map snd fs2 = transcript reads rest" by (auto simp: map_eq_append_conv map_eq_Cons_conv)
  obtain w1 w2 where r: "run_frames fs1 w = Some w1" "handleDataMessage env (fst (boundary rest)) True w1 = Some w2"
    "run_frames fs2 w2 = Some w'"
  proof -
    have "snd (boundary rest)" by (simp add: boundary_def header_frame_def split: list.split prod.split)
    then have "boundary rest = (fst (boundary rest), True)" by (cases "boundary rest") simp
    with f(1) Cons.prems(3) have "run_frames (fs1 @ (env, fst (boundary rest), True) # fs2) w = Some w'" by metis
    then show thesis using that by (auto simp: run_frames_append bind_eq_Some_conv)
  qed
  have b: "partway D w1 xs (concat ?c)" "responses (rw_log w1) = responses (rw_log w)"
    using binary_frames [OF Cons.prems(1) f(2) r(1)] by simp_all
  obtain rs1 where t: "responses (rw_log w2) = responses (rw_log w1) @ rs1" "length rs1 \<le> 1" "partway D w2 xs []"
    "\<And>i e. rs1 = [AckResult i True e] \<Longrightarrow> \<exists>path. partway D w2 (xs @ [(path, concat ?c)]) []"
    using text_frame [OF b(1) r(2)] by metis
  obtain rs2 where a: "responses (rw_log w') = responses (rw_log w2) @ rs2" "length rs2 \<le> length rest"
    using answers_bounded [OF t(3) r(3)] texts_transcript [OF f(3)] by auto
  have rs: "rs = rs1 @ rs2" using Cons.prems(4) a(1) t(1) b(2) by simp
  have "length rs \<ge> Suc (length rest)" using Cons.prems(5) by (simp add: acked_def)
  with rs a(2) t(2) obtain ack where r1: "rs1 = [ack]" by (cases rs1) auto
  with rs Cons.prems(5) obtain e where k: "ack = AckResult (fst item) True e" "acked rs2 rest" by (auto simp: acked_Cons)
  obtain path where p: "partway D w2 (xs @ [(path, concat ?c)]) []" using t(4) r1 k(1) by blast
  obtain ps where "length ps = length rest"
    "stored D w' ((xs @ [(path, concat ?c)]) @ zip ps (map (\<lambda>x. concat (read_blocks reads (snd (snd x)))) rest))"
    using Cons.IH [OF p f(3) r(3) a(1) k(2)] by blast
  then show ?case by (intro exI [of _ "path # ps"]) (simp add: content_whole)
qed

text \<open>The receiver does not panic on what the sender sends.\<close>

lemma transfer_frame_runs:
  assumes "in_transfer (rw_rcv w)" and "isString \<Longrightarrow> data \<noteq> []"
  shows "handleDataMessage env data isString w \<noteq> None"
  using assms by (auto simp: handleDataMessage_def Let_def control_message_def in_transfer_def split: option.splits list.splits)

lemma transfer_runs:
  "partway D w xs d \<Longrightarrow> \<forall>(env, data, isString) \<in> set fs. isString \<longrightarrow> data \<noteq> [] \<Longrightarrow> \<exists>w'. run_frames fs w = Some w'"
proof (induction fs arbitrary: w d)
  case (Cons f fs)
  obtain env data s where f: "f = (env, data, s)" by (cases f)
  have "in_transfer (rw_rcv w)" using Cons.prems(1) by (simp add: partway_def)
  from transfer_frame_runs [OF this, of s data env] Cons.prems(2) f
  obtain w1 where w1: "handleDataMessage env data s w = Some w1" by auto
  have "\<exists>d'. partway D w1 xs d'"
  proof (cases s)
    case True
    with w1 show ?thesis using text_frame [OF Cons.prems(1)] by metis
  next
    case False
    with w1 show ?thesis using binary_frame [OF Cons.prems(1)] by metis
  qed
  with Cons.IH Cons.prems(2) w1 f show ?case by auto
qed simp

lemma header_nonempty: "fst (header_frame x) \<noteq> []"
  by (simp add: header_frame_def wire_nonempty split: prod.split)

lemma boundary_nonempty: "fst (boundary rest) \<noteq> []"
  by (simp add: boundary_def header_nonempty split: list.split)

lemma transcript_texts: "(d, True) \<in> set (transcript reads queue) \<Longrightarrow> \<exists>rest. (d, True) = boundary rest"
  by (induction queue rule: transcript.induct) auto

lemma transfer_frames_nonempty: "(d, True) \<in> set (transfer_frames reads queue) \<Longrightarrow> d \<noteq> []"
  using boundary_nonempty header_nonempty
  by (cases queue) (auto simp: transfer_frames_def simp del: transcript.simps dest!: transcript_texts; metis fst_conv)+



text \<open>The sender that belongs to the demonstration of \<^verbatim>\<open>RtcRun\<close>.\<close>

definition demo_send_file :: SendFile where
  "demo_send_file = \<lparr>sf_id = ''f'', sf_fileName = ''a.txt'', sf_filePath = ''/s/a.txt'', sf_size = 5, sf_fileType = [],
     sf_sha256 = [], sf_modified = None, sf_accessed = None\<rparr>"

definition demo_reads :: "string \<Rightarrow> (bytes list \<times> bool) option" where
  "demo_reads p = (if p = ''/s/a.txt'' then Some ([''hello''], True) else None)"

definition demo_channel :: channel where
  "demo_channel = \<lparr>ch_ready = True, ch_closed = False, ch_outcomes = [], ch_frames = []\<rparr>"

definition demo_sending :: send_world where
  "demo_sending = \<lparr>xw_snd = (NewRTCSender demo_key [] [])\<lparr>sn_peer := True, sn_files := [demo_send_file],
       sn_fileTokens := [(''f'', demo_grant)], sn_acceptedIDs := [''f'']\<rparr>,
     xw_ch = demo_channel, xw_fs = demo_disk\<rparr>"

lemma demo_chunks: "chunks ''hello'' = [''hello'']"
  by (simp add: chunks.simps ChunkSize_def)

lemma demo_queue: "prepareSendQueue (xw_snd demo_sending) = [(''f'', demo_grant, demo_send_file)]"
  by (simp add: prepareSendQueue_def demo_sending_def index_send_files_def demo_send_file_def)

lemma demo_sent:
  "\<exists>sw. SendFiles demo_reads [AckResult ''f'' True None] Drained demo_sending = (sw, None) \<and>
     ch_frames (xw_ch sw) = [(demo_header, True), (''hello'', False), (''0'', True)]"
  by (simp add: SendFiles_def demo_queue)
    (simp add: demo_sending_def demo_channel_def send_one_def demo_send_file_def demo_reads_def pc_SendJSON_def
      pc_SendText_def pc_Send_def pc_SendDelimiter_def send_frame_def next_outcome_def demo_chunks judge_ack_def
      demo_header_def supd_def)

lemma demo_received:
  "\<exists>w. run_frames [(demo_env, demo_header, True), (demo_env, ''hello'', False), (demo_env, ''0'', True)] demo_listed = Some w \<and>
     responses (rw_log w) = responses (rw_log demo_listed) @ [AckResult ''f'' True None]"
proof -
  have h: "handleDataMessage demo_env demo_header True demo_listed = Some demo_opened"
    using demo_opening(1)
    by (simp add: handleDataMessage_def demo_not_end control_message_def demo_parses demo_granting handleFileHeader_def
        demo_hello Let_def)
  have e: "handleDataMessage demo_env ''0'' True demo_filled =
      Some (drop_peer (upd (\<lambda>r. r\<lparr>rr_state := stateDone\<rparr>) (finishCurrentFile demo_env demo_filled)))"
    by (rule finish_frame_end) (simp_all add: demo_filling demo_opening)
  have p: "partway (rtc_dirs (rw_rcv (demo_start []))) demo_listed [] []"
    using rtc_run_inv [OF demo_run(3)] by (intro partway_closed) (simp_all add: demo_granting demo_hello stored_def)
  have "rr_state (rw_rcv demo_listed) \<noteq> stateReceivingFiles" by (simp add: demo_granting)
  note o = idle_frame [OF p this h]
  from binary_frame [OF conjunct1 [OF o] demo_filling(1)] o
  have "responses (rw_log demo_filled) = responses (rw_log demo_listed)" by simp
  then show ?thesis by (simp add: h e demo_filling(1) demo_finish)
qed



section \<open>The handshake\<close>

lemma nonce_text:
  assumes "16 \<le> length n" and "length n \<le> 128"
  shows "ParseRTCMessage (wire (RTCNonceMessage (EncodeNonce n))) = Some (RTCNonceMessage (EncodeNonce n), ''nonce'')"
    and "DecodeNonce (EncodeNonce n) = Inr n" and "wire (RTCNonceMessage (EncodeNonce n)) \<noteq> ''0''"
proof -
  show d: "DecodeNonce (EncodeNonce n) = Inr n" using assms by (simp add: nonce_codec ValidateNonce_def)
  have "EncodeNonce n \<noteq> []"
  proof
    assume "EncodeNonce n = []"
    then have "b64_decode [] = Some n" using b64_decode_encode [of n] by (simp add: EncodeNonce_def)
    then show False using assms b64_decode_encode [of "[]"] by (auto simp: b64_encode_def)
  qed
  then have s: "sendable (RTCNonceMessage (EncodeNonce n))"
    using b64_ascii [of n] by (simp add: ascii_utf8 EncodeNonce_def)
  show "ParseRTCMessage (wire (RTCNonceMessage (EncodeNonce n))) = Some (RTCNonceMessage (EncodeNonce n), ''nonce'')"
    unfolding ParseRTCMessage_def sendable_decode [OF s] using sendable_detect [OF s] by simp
  show "wire (RTCNonceMessage (EncodeNonce n)) \<noteq> ''0''" by (simp add: wire_def)
qed

text \<open>C5: the two sides agree. When the sender's nonce message reaches a receiver that waits for it,
  and the receiver's answer reaches the sender, both hold the same combined nonce and wait for tokens;
  the token that the sender puts on the channel verifies under the sender's key for exactly that
  nonce.\<close>

theorem handshake_agrees:
  assumes "rr_state (rw_rcv w) = stateWaitNonce" and "rr_peer (rw_rcv w) \<noteq> None" and "rw_sends w = []"
    and "re_random env = Some rnd" and "length rnd \<ge> 32"
    and "channel_good sw" and "sn_state (xw_snd sw) = senderStateWaitNonce" and "length (sn_localNonce (xw_snd sw)) = 32"
    and "GenerateTokenWithNonce (se_crypto senv) (sn_signingKey (xw_snd sw)) (sn_localNonce (xw_snd sw) @ take 32 rnd) = Some tok"
    and "\<And>m. cr_ed_verify (se_crypto senv) (sk_public (sn_signingKey (xw_snd sw))) m
      (cr_ed_sign (se_crypto senv) (sk_private (sn_signingKey (xw_snd sw))) m)"
  shows "\<exists>w' sw' answer.
    handleDataMessage env (wire (RTCNonceMessage (EncodeNonce (sn_localNonce (xw_snd sw))))) True w = Some w' \<and>
    rw_log w' = rw_log w @ [SentText answer] \<and>
    sn_handleDataMessage senv (wire answer) True sw = Some sw' \<and>
    rr_finalNonce (rw_rcv w') = sn_finalNonce (xw_snd sw') \<and>
    rr_state (rw_rcv w') = stateWaitToken \<and> sn_state (xw_snd sw') = senderStateWaitToken \<and>
    ch_frames (xw_ch sw') = ch_frames (xw_ch sw) @ [(wire (RTCTokenRequest tok), True)] \<and>
    VerifyTokenNonce (se_crypto senv) (ToVerifyingKey (sn_signingKey (xw_snd sw))) tok (rr_finalNonce (rw_rcv w')) = Inr ()"
proof -
  let ?l = "sn_localNonce (xw_snd sw)" and ?r = "take 32 rnd"
  have g: "GenerateNonce (re_random env) = Some ?r" using assms(4) by (simp add: GenerateNonce_def NonceSize_def)
  have lr: "16 \<le> length ?r" "length ?r \<le> 128" "16 \<le> length ?l" "length ?l \<le> 128" using assms(5,8) by simp_all
  note nl = nonce_text [OF lr(3,4)] and nr = nonce_text [OF lr(1,2)]
  let ?w1 = "upd (\<lambda>r. r\<lparr>rr_localNonce := ?r, rr_finalNonce := CombineNonces ?l ?r\<rparr>) (upd (\<lambda>r. r\<lparr>rr_remoteNonce := ?l\<rparr>) w)"
  let ?w' = "upd (\<lambda>r. r\<lparr>rr_state := stateWaitToken\<rparr>) (emit (SentText (RTCNonceMessage (EncodeNonce ?r))) ?w1)"
  have s: "sendJSON (RTCNonceMessage (EncodeNonce ?r)) ?w1 = (emit (SentText (RTCNonceMessage (EncodeNonce ?r))) ?w1, True)"
    unfolding sends by (rule send_event_sent) (use assms(2,3) in simp_all)
  have "handleNonce env (RTCNonceMessage (EncodeNonce ?l)) ''nonce'' w = ?w'"
    by (simp add: handleNonce_def nl g s Let_def del: upd_simps)
  then have h: "handleDataMessage env (wire (RTCNonceMessage (EncodeNonce ?l))) True w = Some ?w'"
    using assms(1) by (simp add: handleDataMessage_def control_message_def nl Let_def)
  let ?v = "supd (\<lambda>s. s\<lparr>sn_remoteNonce := ?r, sn_finalNonce := CombineNonces (sn_localNonce s) ?r\<rparr>) sw"
  obtain sw1 where sw1: "sn_sendJSON (RTCTokenRequest tok) ?v = (sw1, True)" "xw_snd sw1 = xw_snd ?v"
    "ch_frames (xw_ch sw1) = ch_frames (xw_ch sw) @ [(wire (RTCTokenRequest tok), True)]"
    using assms(6) by (auto simp: channel_good_def sn_sends via_channel_def pc_SendJSON_def pc_SendText_def
        send_frame_def next_outcome_def)
  let ?sw' = "supd (\<lambda>s. s\<lparr>sn_state := senderStateWaitToken\<rparr>) sw1"
  have "handleNonceResponse senv (RTCNonceMessage (EncodeNonce ?r)) ''nonce'' sw = ?sw'"
    using assms(9) sw1(1) by (simp add: handleNonceResponse_def nr CombineNonces_def Let_def)
  then have k: "sn_handleDataMessage senv (wire (RTCNonceMessage (EncodeNonce ?r))) True sw = Some ?sw'"
    using assms(7) by (simp add: sn_handleDataMessage_def sn_control_def nr)
  have "VerifyTokenNonce (se_crypto senv) (ToVerifyingKey (sn_signingKey (xw_snd sw))) tok (?l @ ?r) = Inr ()"
    using verify_generated [of "se_crypto senv" "sn_signingKey (xw_snd sw)" "?l @ ?r" tok] assms(9,10)
    by (simp add: GenerateTokenWithNonce_def VerifyTokenNonce_def)
  then show ?thesis
    using h k sw1(2,3)
    by (intro exI [of _ ?w'] exI [of _ ?sw'] exI [of _ "RTCNonceMessage (EncodeNonce ?r)"])
      (simp add: CombineNonces_def)
qed

theorem handshake_agrees_witness:
  "\<exists>(w' :: rtc_world) sw' answer. rw_log w' = rw_log (demo_offered []) @ [SentText answer] \<and>
     sn_handleDataMessage demo_senv (wire answer) True
       (supd (\<lambda>s. s\<lparr>sn_localNonce := replicate 32 CHR ''s''\<rparr>) (demo_sender senderStateWaitNonce)) = Some sw' \<and>
     rr_finalNonce (rw_rcv w') = sn_finalNonce (xw_snd sw')"
proof -
  let ?sw = "supd (\<lambda>s. s\<lparr>sn_localNonce := replicate 32 CHR ''s''\<rparr>) (demo_sender senderStateWaitNonce)"
  have r: "rr_state (rw_rcv (demo_offered [])) = stateWaitNonce" "rr_peer (rw_rcv (demo_offered [])) \<noteq> None"
    "rw_sends (demo_offered []) = []"
    by (simp_all add: demo_offered_eq demo_start_def rtc_start_def NewRTCReceiver_def)
  have e: "re_random demo_env = Some (replicate 32 CHR ''n'')" "length (replicate 32 CHR ''n'') \<ge> 32" by (simp_all add: demo_env_def)
  have c: "se_crypto demo_senv = demo_crypto" by (simp add: demo_senv_def)
  have s: "channel_good ?sw" "sn_state (xw_snd ?sw) = senderStateWaitNonce" "length (sn_localNonce (xw_snd ?sw)) = 32"
    by (simp_all add: channel_good_def demo_sender_def NewRTCSender_def)
  obtain tok where t: "GenerateTokenWithNonce (se_crypto demo_senv) (sn_signingKey (xw_snd ?sw))
      (sn_localNonce (xw_snd ?sw) @ take 32 (replicate 32 CHR ''n'')) = Some tok"
    by (simp add: c GenerateTokenWithNonce_def GenerateToken_def demo_crypto_def demo_key_def Let_def)
  have "cr_ed_verify (se_crypto demo_senv) (sk_public (sn_signingKey (xw_snd ?sw))) m
      (cr_ed_sign (se_crypto demo_senv) (sk_private (sn_signingKey (xw_snd ?sw))) m)" for m
    using demo_signs by (simp add: c)
  from handshake_agrees [OF r e s t this] show ?thesis by blast
qed

text \<open>C31: a PIN defeats an expected receiver. When a receiver with a PIN gets the right one it goes on to
  wait for the files and answers with a bare OK. A sender that expects a certain receiver key takes
  that answer for a token response without a token, and ends the transfer with an error, whoever the
  receiver is.\<close>

theorem pin_defeats_expected_receiver:
  assumes "rr_state (rw_rcv w) = stateWaitPin" and "rr_peer (rw_rcv w) \<noteq> None" and "rw_sends w = []"
    and "ParseRTCMessage data = Some (RTCPinMessage (rr_pin (rw_rcv w)), ty)"
    and "sn_state (xw_snd sw) = senderStateWaitPin" and "sn_receiverPublicKey (xw_snd sw) = Some key"
    and "\<not> sn_closed (xw_snd sw)"
  shows "\<exists>w' answer sw'. handleDataMessage env data True w = Some w' \<and> rr_state (rw_rcv w') = stateWaitFileList \<and>
    rw_log w' = rw_log w @ [SentText answer] \<and>
    sn_handleDataMessage senv (wire answer) True sw = Some sw' \<and>
    sn_state (xw_snd sw') = senderStateDone \<and> sn_errors (xw_snd sw') \<noteq> None"
proof -
  have ty: "ty = ''pin''" using parsed_tag_fits [OF assms(4)] by simp
  have "ParseRTCMessage ''0'' = None" by code_simp
  then have d: "data \<noteq> ''0''" using assms(4) by auto
  let ?w' = "upd (\<lambda>r. r\<lparr>rr_state := stateWaitFileList\<rparr>) (emit (SentText (RTCPinReceivingResponse ''OK'')) w)"
  have "sendJSON (RTCPinReceivingResponse ''OK'') w = (emit (SentText (RTCPinReceivingResponse ''OK'')) w, True)"
    unfolding sends by (rule send_event_sent [OF assms(2,3)])
  then have "handleDataMessage env data True w = Some ?w'"
    using assms(1,4) d ty by (simp add: handleDataMessage_def control_message_def handlePin_def Let_def)
  moreover from pin_answer_expected [OF assms(5,6), of senv] assms(7) obtain sw' where
    "sn_handleDataMessage senv (wire (RTCPinReceivingResponse ''OK'')) True sw = Some sw'"
    "sn_state (xw_snd sw') = senderStateDone" "sn_errors (xw_snd sw') \<noteq> None" unfolding pin_accepted_def by blast
  ultimately show ?thesis by (intro exI [of _ ?w'] exI [of _ "RTCPinReceivingResponse ''OK''"] exI [of _ sw']) simp
qed


theorem pin_defeats_expected_receiver_witness:
  "\<exists>w' answer sw'. handleDataMessage demo_env demo_pin True (demo_greeted ''1234'') = Some w' \<and>
     sn_handleDataMessage demo_senv (wire answer) True
       (supd (sn_SetReceiverPublicKey (Some (ToVerifyingKey demo_key))) (demo_sender senderStateWaitPin)) = Some sw' \<and>
     sn_errors (xw_snd sw') \<noteq> None"
proof -
  let ?sw = "supd (sn_SetReceiverPublicKey (Some (ToVerifyingKey demo_key))) (demo_sender senderStateWaitPin)"
  have r: "rr_state (rw_rcv (demo_greeted ''1234'')) = stateWaitPin" "rr_peer (rw_rcv (demo_greeted ''1234'')) \<noteq> None"
    "rw_sends (demo_greeted ''1234'') = []"
    "ParseRTCMessage demo_pin = Some (RTCPinMessage (rr_pin (rw_rcv (demo_greeted ''1234''))), ''pin'')"
    by (simp_all add: demo_hello demo_offered_eq demo_start_def rtc_start_def NewRTCReceiver_def demo_parses)
  have s: "sn_state (xw_snd ?sw) = senderStateWaitPin" "sn_receiverPublicKey (xw_snd ?sw) = Some (ToVerifyingKey demo_key)"
    "\<not> sn_closed (xw_snd ?sw)"
    by (simp_all add: sn_SetReceiverPublicKey_def demo_sender_def NewRTCSender_def)
  from pin_defeats_expected_receiver [OF r s, of demo_env demo_senv] show ?thesis by blast
qed

end
