(* ===== verification/Signaling.thy ===== *)
theory Signaling
  imports Prelude Models Base64
begin

text \<open>
  \<^verbatim>\<open>internal/webrtc/signaling\<close> (\<^verbatim>\<open>client.go\<close>, \<^verbatim>\<open>messages.go\<close>, \<^verbatim>\<open>sdp.go\<close>): the client of the signalling
  server. Its goroutines and its callers interleave on one state: the peer map, the answer
  callbacks, the channels (lists, with the capacities of the code), and where the reading and the
  writing goroutine stand. An event is one step of one of them; \<open>sig_step\<close> is \<open>None\<close> where the step
  would block. An identifier (\<^verbatim>\<open>uuid.UUID\<close>) is a byte string; a callback is any value.
\<close>

section \<open>Messages\<close>

record ClientInfoWithoutID =
  ci_alias :: string
  ci_version :: string
  ci_deviceModel :: string
  ci_deviceType :: string
  ci_token :: string

record ClientInfo = ClientInfoWithoutID +
  ci_id :: bytes

record WsServerMessage =
  sm_type :: string
  sm_client :: "ClientInfo option"
  sm_peers :: "ClientInfo list option"
  sm_peer :: "ClientInfo option"
  sm_peerId :: "bytes option"
  sm_sessionId :: string
  sm_sdp :: string
  sm_code :: int

record WsClientMessage =
  cm_type :: string
  cm_info :: "ClientInfoWithoutID option"
  cm_sessionId :: string
  cm_target :: "bytes option"
  cm_sdp :: string

definition NewClientInfo :: "string \<Rightarrow> string \<Rightarrow> ClientInfoWithoutID" where
  "NewClientInfo name token =
     \<lparr>ci_alias = name, ci_version = ''2.3'', ci_deviceModel = ''LocalSend-CLI'', ci_deviceType = ''HEADLESS'',
      ci_token = token\<rparr>"

definition ToAnnouncement :: "ClientInfo \<Rightarrow> Announcement" where
  "ToAnnouncement c =
     \<lparr>di_ip = [], di_alias = ci_alias c, di_version = ci_version c, di_deviceModel = ci_deviceModel c,
      di_deviceType = ci_deviceType c, di_fingerprint = ci_token c, di_token = [], di_download = False,
      di_hasWebInterface = False, an_protocol = ''webrtc'', an_port = 0, an_announce = False\<rparr>"

definition NewUpdateMessage :: "ClientInfoWithoutID \<Rightarrow> WsClientMessage" where
  "NewUpdateMessage info =
     \<lparr>cm_type = ''UPDATE'', cm_info = Some info, cm_sessionId = [], cm_target = None, cm_sdp = []\<rparr>"

definition NewOfferMessage :: "string \<Rightarrow> bytes \<Rightarrow> string \<Rightarrow> WsClientMessage" where
  "NewOfferMessage sid target sdp =
     \<lparr>cm_type = ''OFFER'', cm_info = None, cm_sessionId = sid, cm_target = Some target, cm_sdp = sdp\<rparr>"

definition NewAnswerMessage :: "string \<Rightarrow> bytes \<Rightarrow> string \<Rightarrow> WsClientMessage" where
  "NewAnswerMessage sid target sdp =
     \<lparr>cm_type = ''ANSWER'', cm_info = None, cm_sessionId = sid, cm_target = Some target, cm_sdp = sdp\<rparr>"

definition ping_message :: WsClientMessage where
  "ping_message = \<lparr>cm_type = [], cm_info = None, cm_sessionId = [], cm_target = None, cm_sdp = []\<rparr>"

section \<open>Session descriptions\<close>

definition maxDecompressedSDPBytes :: nat where "maxDecompressedSDPBytes = 512 * 1024"

text \<open>\<open>deflate\<close> is the zlib writer. \<open>inflate\<close> is its reader: \<open>None\<close> for a bad header, otherwise the bytes
  that it delivers and whether they end well.\<close>

definition CompressSDP :: "(bytes \<Rightarrow> bytes) \<Rightarrow> string \<Rightarrow> string" where
  "CompressSDP deflate sdp = b64_encode (deflate sdp)"

datatype sdp_err = BadEncoding | BadStream | TooLong

definition DecompressSDP :: "(bytes \<Rightarrow> (bytes \<times> bool) option) \<Rightarrow> string \<Rightarrow> sdp_err + string" where
  "DecompressSDP inflate compressed =
     (case b64_decode compressed of
        None \<Rightarrow> Inl BadEncoding
      | Some data \<Rightarrow>
          (case inflate data of
             None \<Rightarrow> Inl BadStream
           | Some (out, ends) \<Rightarrow>
               let limited = take (maxDecompressedSDPBytes + 1) out in
               if length out < maxDecompressedSDPBytes + 1 \<and> \<not> ends then Inl BadStream
               else if length limited > maxDecompressedSDPBytes then Inl TooLong
               else Inr limited))"

section \<open>The client\<close>

definition MaxPeers :: nat where "MaxPeers = 500"
definition answerCallbackTTL :: int where "answerCallbackTTL = 60 * 1000000000"
definition msgChanCap :: nat where "msgChanCap = 16"
definition offerChanCap :: nat where "offerChanCap = 32"
definition sendChanCap :: nat where "sendChanCap = 16"

text \<open>Where the reading goroutine stands: at the socket, blocked on an offer, or returned.\<close>

datatype reader = Reading | Offering WsServerMessage | ReaderReturned

record 'c SignalingClient =
  sc_client :: ClientInfo
  sc_peers :: "(bytes, ClientInfo) gomap"
  sc_msgChan :: "WsServerMessage list"
  sc_offerChan :: "WsServerMessage list"
  sc_offerSubscribed :: bool
  sc_sendChan :: "WsClientMessage list"
  sc_done :: bool
  sc_onAnswer :: "(string, 'c \<times> int) gomap"
  sc_baseInfo :: ClientInfoWithoutID
  sc_tokenGenerator :: bool
  sc_refreshStarted :: bool
  sc_reader :: reader
  sc_writing :: bool

datatype hello_err = HelloNotRead | HelloUnparsable | HelloExpected string | HelloMissingClient

text \<open>\<^verbatim>\<open>waitForHello\<close> on a client under construction: \<open>None\<close> is a failed read, \<open>Some None\<close> a message
  that does not parse.\<close>

definition waitForHello ::
    "WsServerMessage option option \<Rightarrow> 'c SignalingClient \<Rightarrow> hello_err + 'c SignalingClient" where
  "waitForHello got c =
     (case got of
        None \<Rightarrow> Inl HelloNotRead
      | Some None \<Rightarrow> Inl HelloUnparsable
      | Some (Some msg) \<Rightarrow>
          if sm_type msg \<noteq> ''HELLO'' then Inl (HelloExpected (sm_type msg))
          else case sm_client msg of
            None \<Rightarrow> Inl HelloMissingClient
          | Some info \<Rightarrow>
              let c1 = c\<lparr>sc_client := info\<rparr> in
              Inr (case sm_peers msg of
                     None \<Rightarrow> c1
                   | Some peers \<Rightarrow>
                       c1\<lparr>sc_peers := fold (\<lambda>p. mput (ci_id p) p)
                            (if length peers > MaxPeers then take MaxPeers peers else peers) (sc_peers c1)\<rparr>))"

text \<open>The client that \<^verbatim>\<open>ConnectWithContext\<close> builds once the connection stands.\<close>

definition no_client :: ClientInfo where
  "no_client = \<lparr>ci_alias = [], ci_version = [], ci_deviceModel = [], ci_deviceType = [], ci_token = [], ci_id = []\<rparr>"

definition sig_connect ::
    "ClientInfoWithoutID \<Rightarrow> WsServerMessage option option \<Rightarrow> hello_err + 'c SignalingClient" where
  "sig_connect info got =
     waitForHello got
       \<lparr>sc_client = no_client, sc_peers = [], sc_msgChan = [], sc_offerChan = [], sc_offerSubscribed = False,
        sc_sendChan = [], sc_done = False, sc_onAnswer = [], sc_baseInfo = info\<lparr>ci_token := []\<rparr>,
        sc_tokenGenerator = False, sc_refreshStarted = False, sc_reader = Reading, sc_writing = True\<rparr>"

definition handlePeerUpdate :: "WsServerMessage \<Rightarrow> 'c SignalingClient \<Rightarrow> 'c SignalingClient" where
  "handlePeerUpdate msg c =
     (if sm_type msg = ''JOIN'' then
        (case sm_peer msg of
           None \<Rightarrow> c
         | Some p \<Rightarrow> if length (sc_peers c) \<ge> MaxPeers then c else c\<lparr>sc_peers := mput (ci_id p) p (sc_peers c)\<rparr>)
      else if sm_type msg = ''UPDATE'' then
        (case sm_peer msg of
           None \<Rightarrow> c
         | Some p \<Rightarrow> if mhas (sc_peers c) (ci_id p) then c\<lparr>sc_peers := mput (ci_id p) p (sc_peers c)\<rparr> else c)
      else if sm_type msg = ''LEFT'' then
        (case sm_peerId msg of None \<Rightarrow> c | Some i \<Rightarrow> c\<lparr>sc_peers := mdel i (sc_peers c)\<rparr>)
      else c)"

definition sig_Close :: "'c SignalingClient \<Rightarrow> 'c SignalingClient" where
  "sig_Close c = (if sc_done c then c else c\<lparr>sc_done := True, sc_onAnswer := []\<rparr>)"

definition GetPeers :: "'c SignalingClient \<Rightarrow> ClientInfo list" where
  "GetPeers c = map snd (sc_peers c)"

definition GetPeer :: "bytes \<Rightarrow> 'c SignalingClient \<Rightarrow> ClientInfo option" where
  "GetPeer i c = mget (sc_peers c) i"

definition Offers :: "'c SignalingClient \<Rightarrow> 'c SignalingClient" where
  "Offers c = c\<lparr>sc_offerSubscribed := True\<rparr>"

definition OnAnswer :: "int \<Rightarrow> string \<Rightarrow> 'c \<Rightarrow> 'c SignalingClient \<Rightarrow> 'c SignalingClient" where
  "OnAnswer now sid callback c = c\<lparr>sc_onAnswer := mput sid (callback, now) (sc_onAnswer c)\<rparr>"

definition answer_cleanup :: "int \<Rightarrow> 'c SignalingClient \<Rightarrow> 'c SignalingClient" where
  "answer_cleanup now c =
     c\<lparr>sc_onAnswer := filter (\<lambda>(sid, cb). \<not> now - snd cb > answerCallbackTTL) (sc_onAnswer c)\<rparr>"

text \<open>A call returns the new client and whether it succeeded; \<open>None\<close> while the channel is full.\<close>

definition enqueue :: "WsClientMessage \<Rightarrow> 'c SignalingClient \<Rightarrow> ('c SignalingClient \<times> bool) option" where
  "enqueue msg c =
     (if sc_done c then Some (c, False)
      else if length (sc_sendChan c) < sendChanCap then Some (c\<lparr>sc_sendChan := sc_sendChan c @ [msg]\<rparr>, True)
      else None)"

definition SendUpdate :: "ClientInfoWithoutID \<Rightarrow> 'c SignalingClient \<Rightarrow> ('c SignalingClient \<times> bool) option" where
  "SendUpdate info c = enqueue (NewUpdateMessage info) c"

definition SendOffer ::
    "(bytes \<Rightarrow> bytes) \<Rightarrow> string \<Rightarrow> bytes \<Rightarrow> string \<Rightarrow> 'c SignalingClient \<Rightarrow> ('c SignalingClient \<times> bool) option" where
  "SendOffer deflate sid target sdp c = enqueue (NewOfferMessage sid target (CompressSDP deflate sdp)) c"

definition SendAnswer ::
    "(bytes \<Rightarrow> bytes) \<Rightarrow> string \<Rightarrow> bytes \<Rightarrow> string \<Rightarrow> 'c SignalingClient \<Rightarrow> ('c SignalingClient \<times> bool) option" where
  "SendAnswer deflate sid target sdp c = enqueue (NewAnswerMessage sid target (CompressSDP deflate sdp)) c"

text \<open>\<^verbatim>\<open>SetTokenGenerator\<close>: whether a generator is set and whether its goroutine runs.\<close>

definition SetTokenGenerator :: "bool \<Rightarrow> 'c SignalingClient \<Rightarrow> 'c SignalingClient" where
  "SetTokenGenerator given c = (if given then c\<lparr>sc_tokenGenerator := True, sc_refreshStarted := True\<rparr> else c)"

text \<open>A tick of \<^verbatim>\<open>tokenRefreshLoop\<close>, with what the generator returns.\<close>

definition refresh_tick :: "string option \<Rightarrow> 'c SignalingClient \<Rightarrow> 'c SignalingClient option" where
  "refresh_tick generated c =
     (if \<not> sc_refreshStarted c then None
      else if \<not> sc_tokenGenerator c then Some c
      else case generated of
             None \<Rightarrow> Some c
           | Some token \<Rightarrow> map_option fst (SendUpdate ((sc_baseInfo c)\<lparr>ci_token := token\<rparr>) c))"

text \<open>A tick of \<^verbatim>\<open>pingLoop\<close>.\<close>

definition ping_tick :: "'c SignalingClient \<Rightarrow> 'c SignalingClient option" where
  "ping_tick c =
     (if sc_done c then Some c
      else if length (sc_sendChan c) < sendChanCap then Some (c\<lparr>sc_sendChan := sc_sendChan c @ [ping_message]\<rparr>)
      else None)"

section \<open>The goroutines\<close>

text \<open>What can be seen of a step.\<close>

datatype 'c sig_output = Called 'c WsServerMessage | OfferTaken WsServerMessage | InfoTaken WsServerMessage | Pinged | Written WsClientMessage

text \<open>The part of \<^verbatim>\<open>readLoop\<close> after the callbacks. \<open>stops\<close> is the choice of \<^verbatim>\<open>select\<close> when the client is
  closed and the channel has room.\<close>

definition deliver :: "bool \<Rightarrow> WsServerMessage \<Rightarrow> 'c SignalingClient \<Rightarrow> 'c SignalingClient" where
  "deliver stops msg c =
     (if sm_type msg = ''OFFER'' then
        (if length (sc_offerChan c) < offerChanCap \<and> \<not> (sc_offerSubscribed c \<and> sc_done c \<and> stops)
         then c\<lparr>sc_offerChan := sc_offerChan c @ [msg]\<rparr>
         else if \<not> sc_offerSubscribed c then c
         else if sc_done c then c\<lparr>sc_reader := ReaderReturned\<rparr>
         else c\<lparr>sc_reader := Offering msg\<rparr>)
      else if length (sc_msgChan c) < msgChanCap then c\<lparr>sc_msgChan := sc_msgChan c @ [msg]\<rparr>
      else c)"

text \<open>One round of \<^verbatim>\<open>readLoop\<close> on a message: the peers, the answer callback, delivery.\<close>

definition read_message :: "bool \<Rightarrow> WsServerMessage \<Rightarrow> 'c SignalingClient \<Rightarrow> 'c SignalingClient \<times> 'c sig_output list" where
  "read_message stops msg c =
     (let c1 = handlePeerUpdate msg c in
      if sm_type msg = ''ANSWER'' \<and> sm_sessionId msg \<noteq> [] then
        (case mget (sc_onAnswer c1) (sm_sessionId msg) of
           Some (cb, _) \<Rightarrow> (c1\<lparr>sc_onAnswer := mdel (sm_sessionId msg) (sc_onAnswer c1)\<rparr>, [Called cb msg])
         | None \<Rightarrow> (deliver stops msg c1, []))
      else (deliver stops msg c1, []))"

text \<open>A round of \<^verbatim>\<open>writeLoop\<close>; \<open>ok\<close> is the result of the write.\<close>

definition write_step :: "bool \<Rightarrow> 'c SignalingClient \<Rightarrow> ('c SignalingClient \<times> 'c sig_output list) option" where
  "write_step ok c =
     (case sc_sendChan c of
        [] \<Rightarrow> None
      | msg # rest \<Rightarrow>
          let c1 = c\<lparr>sc_sendChan := rest\<rparr> in
          if \<not> sc_writing c then None
          else if ok then Some (c1, [if cm_type msg = [] then Pinged else Written msg])
          else Some ((sig_Close c1)\<lparr>sc_writing := False\<rparr>, []))"

datatype 'c sig_event =
    ReadMessage bool WsServerMessage | ReadGarbage | ReadFails | OfferAborted | TakeOffer | TakeMessage
  | Subscribe | Register int string 'c | CleanupTick int | CloseCall | SendCall WsClientMessage
  | PingTick | RefreshTick "string option" | GeneratorCall bool | WriteRound bool | WriterStops

text \<open>A receive from the offer channel lets the blocked offer in.\<close>

definition take_offer :: "'c SignalingClient \<Rightarrow> ('c SignalingClient \<times> 'c sig_output list) option" where
  "take_offer c =
     (case sc_offerChan c of
        [] \<Rightarrow> None
      | m # rest \<Rightarrow>
          Some (case sc_reader c of
                  Offering next_m \<Rightarrow> c\<lparr>sc_offerChan := rest @ [next_m], sc_reader := Reading\<rparr>
                | _ \<Rightarrow> c\<lparr>sc_offerChan := rest\<rparr>, [OfferTaken m]))"

definition take_message :: "'c SignalingClient \<Rightarrow> ('c SignalingClient \<times> 'c sig_output list) option" where
  "take_message c =
     (case sc_msgChan c of [] \<Rightarrow> None | m # rest \<Rightarrow> Some (c\<lparr>sc_msgChan := rest\<rparr>, [InfoTaken m]))"

fun sig_step :: "'c sig_event \<Rightarrow> 'c SignalingClient \<Rightarrow> ('c SignalingClient \<times> 'c sig_output list) option" where
  "sig_step (ReadMessage stops msg) c = (if sc_reader c = Reading then Some (read_message stops msg c) else None)"
| "sig_step ReadGarbage c = (if sc_reader c = Reading then Some (c, []) else None)"
| "sig_step ReadFails c = (if sc_reader c = Reading then Some ((sig_Close c)\<lparr>sc_reader := ReaderReturned\<rparr>, []) else None)"
| "sig_step OfferAborted c =
     (case sc_reader c of Offering _ \<Rightarrow> if sc_done c then Some (c\<lparr>sc_reader := ReaderReturned\<rparr>, []) else None | _ \<Rightarrow> None)"
| "sig_step TakeOffer c = take_offer c"
| "sig_step TakeMessage c = take_message c"
| "sig_step Subscribe c = Some (Offers c, [])"
| "sig_step (Register now sid cb) c = Some (OnAnswer now sid cb c, [])"
| "sig_step (CleanupTick now) c = Some (answer_cleanup now c, [])"
| "sig_step CloseCall c = Some (sig_Close c, [])"
| "sig_step (SendCall msg) c = map_option (\<lambda>(c1, _). (c1, [])) (enqueue msg c)"
| "sig_step PingTick c = map_option (\<lambda>c1. (c1, [])) (ping_tick c)"
| "sig_step (RefreshTick g) c = map_option (\<lambda>c1. (c1, [])) (refresh_tick g c)"
| "sig_step (GeneratorCall given) c = Some (SetTokenGenerator given c, [])"
| "sig_step (WriteRound ok) c = write_step ok c"
| "sig_step WriterStops c = (if sc_done c \<and> sc_writing c then Some (c\<lparr>sc_writing := False\<rparr>, []) else None)"

fun sig_run :: "'c sig_event list \<Rightarrow> 'c SignalingClient \<Rightarrow> ('c SignalingClient \<times> 'c sig_output list) option" where
  "sig_run [] c = Some (c, [])"
| "sig_run (e # es) c =
     (case sig_step e c of
        None \<Rightarrow> None
      | Some (c1, out) \<Rightarrow> map_option (\<lambda>(c2, out2). (c2, out @ out2)) (sig_run es c1))"


section \<open>Runs\<close>

lemmas sig_defs = read_message_def deliver_def take_offer_def take_message_def write_step_def
  enqueue_def SendUpdate_def ping_tick_def refresh_tick_def sig_Close_def Offers_def OnAnswer_def
  answer_cleanup_def SetTokenGenerator_def Let_def

lemma sig_run_Cons:
  "sig_run (e # es) c = Some (c', out) \<Longrightarrow>
   \<exists>c1 o1 o2. sig_step e c = Some (c1, o1) \<and> sig_run es c1 = Some (c', o2) \<and> out = o1 @ o2"
  by (auto split: option.splits)

text \<open>What a step keeps, a run keeps.\<close>

lemma sig_run_keeps:
  assumes "\<And>e c c1 out. P c \<Longrightarrow> sig_step e c = Some (c1, out) \<Longrightarrow> P c1" and "P c" and "sig_run es c = Some (c', out)"
  shows "P c'"
  using assms(2,3)
proof (induction es arbitrary: c out)
  case (Cons e es)
  from sig_run_Cons [OF Cons.prems(2)] Cons.IH assms(1) [OF Cons.prems(1)] show ?case by blast
qed simp

text \<open>The fields that the message handler leaves alone, and those that only one operation changes.\<close>

lemma peer_update_simps [simp]:
  "sc_onAnswer (handlePeerUpdate m c) = sc_onAnswer c" "sc_offerChan (handlePeerUpdate m c) = sc_offerChan c"
  "sc_msgChan (handlePeerUpdate m c) = sc_msgChan c" "sc_sendChan (handlePeerUpdate m c) = sc_sendChan c"
  "sc_reader (handlePeerUpdate m c) = sc_reader c" "sc_done (handlePeerUpdate m c) = sc_done c"
  "sc_offerSubscribed (handlePeerUpdate m c) = sc_offerSubscribed c" "sc_baseInfo (handlePeerUpdate m c) = sc_baseInfo c"
  "sc_refreshStarted (handlePeerUpdate m c) = sc_refreshStarted c" "sc_tokenGenerator (handlePeerUpdate m c) = sc_tokenGenerator c"
  by (simp_all add: handlePeerUpdate_def split: option.split)

section \<open>Bounds\<close>

definition peers_fine :: "(bytes, ClientInfo) gomap \<Rightarrow> bool" where
  "peers_fine m \<longleftrightarrow> mwf m \<and> length m \<le> MaxPeers \<and> (\<forall>i p. (i, p) \<in> set m \<longrightarrow> ci_id p = i)"

definition chans_ok :: "'c SignalingClient \<Rightarrow> bool" where
  "chans_ok c \<longleftrightarrow> length (sc_msgChan c) \<le> msgChanCap \<and> length (sc_offerChan c) \<le> offerChanCap \<and>
     length (sc_sendChan c) \<le> sendChanCap \<and> mwf (sc_onAnswer c) \<and>
     (\<forall>m. sc_reader c = Offering m \<longrightarrow> sc_offerSubscribed c \<and> length (sc_offerChan c) = offerChanCap \<and> sm_type m = ''OFFER'')"

lemma peers_mput_in: "x \<in> set (mput k v m) \<Longrightarrow> x \<in> set m \<or> x = (k, v)"
  by (induction m) (auto split: if_splits)

lemma peers_mput:
  "peers_fine m \<Longrightarrow> length m < MaxPeers \<or> mhas m (ci_id p) \<Longrightarrow> peers_fine (mput (ci_id p) p m)"
  unfolding peers_fine_def by (auto simp: length_mput dest!: peers_mput_in)

lemma peers_update: "peers_fine (sc_peers c) \<Longrightarrow> peers_fine (sc_peers (handlePeerUpdate m c))"
proof -
  assume ok: "peers_fine (sc_peers c)"
  have "peers_fine (mdel i (sc_peers c))" for i
    using ok length_mdel_le [of i "sc_peers c"] by (auto simp: peers_fine_def set_mdel)
  then show ?thesis using ok peers_mput [OF ok]
    by (auto simp: handlePeerUpdate_def not_le split: option.split)
qed

lemma step_peers:
  assumes "sig_step e c = Some (c1, out)"
  shows "sc_peers c1 = sc_peers c \<or> (\<exists>m. sc_peers c1 = sc_peers (handlePeerUpdate m c))"
  using assms
  by (cases e) (auto simp: sig_defs split: if_splits option.splits list.splits reader.splits prod.splits)

lemma peers_step:
  "peers_fine (sc_peers c) \<Longrightarrow> sig_step e c = Some (c1, out) \<Longrightarrow> peers_fine (sc_peers c1)"
  using step_peers [of e c c1 out] peers_update [of c] by auto

lemma chans_deliver: "chans_ok c \<Longrightarrow> sc_reader c = Reading \<Longrightarrow> chans_ok (deliver stops m c)"
  by (auto simp: chans_ok_def deliver_def)

lemma chans_step:
  assumes "chans_ok c" and "sig_step e c = Some (c1, out)"
  shows "chans_ok c1"
proof (cases e)
  case (ReadMessage stops m)
  have "chans_ok (handlePeerUpdate m c)" using assms(1) by (simp add: chans_ok_def)
  then show ?thesis using assms(2) ReadMessage chans_deliver [of "handlePeerUpdate m c" stops m]
    by (auto simp: read_message_def Let_def chans_ok_def split: if_splits option.splits)
qed (use assms in \<open>auto simp: chans_ok_def sig_defs split: if_splits option.splits list.splits reader.splits\<close>)

lemma peers_fold:
  "peers_fine m \<Longrightarrow> length m + length ps \<le> MaxPeers \<Longrightarrow> peers_fine (fold (\<lambda>p. mput (ci_id p) p) ps m)"
proof (induction ps arbitrary: m)
  case (Cons p ps)
  then have "peers_fine (mput (ci_id p) p m)" by (intro peers_mput) auto
  then show ?case using Cons by (simp add: length_mput)
qed simp

lemma hello_ok:
  assumes "sig_connect info got = Inr c"
  shows "peers_fine (sc_peers c) \<and> chans_ok c \<and> sc_onAnswer c = [] \<and> sc_sendChan c = [] \<and> \<not> sc_done c \<and>
    \<not> sc_refreshStarted c \<and> sc_baseInfo c = info\<lparr>ci_token := []\<rparr>"
proof -
  have none: "peers_fine []" by (simp add: peers_fine_def)
  have "length ps \<le> MaxPeers \<Longrightarrow> peers_fine (fold (\<lambda>p. mput (ci_id p) p) ps [])" for ps
    using peers_fold [OF none, of ps] by simp
  with none show ?thesis using assms
    by (auto simp: sig_connect_def waitForHello_def chans_ok_def Let_def split: option.splits if_splits)
qed

text \<open>The memory of the signalling client is bounded whatever the server sends. From the moment of
  the connection, with any interleaving of messages, callers, consumers and ticks, it knows at most
  500 peers, each under its own identifier, and holds at most 16 informational messages, 32 offers and
  16 outgoing messages; the reading goroutine waits only for a client that has subscribed to
  offers and left 32 of them unread.\<close>

theorem signaling_bounded:
  assumes "sig_connect info got = Inr c0" and "sig_run es c0 = Some (c, out)"
  shows "length (GetPeers c) \<le> 500 \<and> (\<forall>i p. GetPeer i c = Some p \<longrightarrow> ci_id p = i) \<and>
    length (sc_msgChan c) \<le> 16 \<and> length (sc_offerChan c) \<le> 32 \<and> length (sc_sendChan c) \<le> 16 \<and>
    (\<forall>m. sc_reader c = Offering m \<longrightarrow> sc_offerSubscribed c \<and> length (sc_offerChan c) = 32)"
proof -
  note start = hello_ok [OF assms(1)]
  have "peers_fine (sc_peers c)" by (rule sig_run_keeps [OF peers_step _ assms(2)]) (use start in simp_all)
  moreover have "chans_ok c" by (rule sig_run_keeps [OF chans_step _ assms(2)]) (use start in simp_all)
  ultimately show ?thesis
    by (auto simp: peers_fine_def chans_ok_def GetPeers_def GetPeer_def MaxPeers_def msgChanCap_def
        offerChanCap_def sendChanCap_def dest!: map_of_SomeD)
qed

section \<open>Answers\<close>

definition calls_for :: "string \<Rightarrow> 'c sig_output list \<Rightarrow> nat" where
  "calls_for sid out = length (filter (\<lambda>x. case x of Called cb m \<Rightarrow> sm_sessionId m = sid | _ \<Rightarrow> False) out)"

definition registrations :: "string \<Rightarrow> 'c sig_event list \<Rightarrow> nat" where
  "registrations sid es = length (filter (\<lambda>e. case e of Register now s cb \<Rightarrow> s = sid | _ \<Rightarrow> False) es)"

definition pending :: "string \<Rightarrow> 'c SignalingClient \<Rightarrow> nat" where
  "pending sid c = (if mhas (sc_onAnswer c) sid then 1 else 0)"

lemma mget_filter_None: "mget m k = None \<Longrightarrow> mget (filter P m) k = None"
  by (induction m) (auto split: if_splits)

lemma pending_step:
  assumes "sig_step e c = Some (c1, out)"
  shows "calls_for sid out + pending sid c1 \<le> registrations sid [e] + pending sid c"
proof (cases e)
  case (CleanupTick now)
  then show ?thesis using assms
    by (cases "mget (sc_onAnswer c) sid")
      (auto simp: answer_cleanup_def calls_for_def pending_def registrations_def mget_filter_None)
next
  case (Register now s cb)
  then show ?thesis using assms by (auto simp: OnAnswer_def calls_for_def pending_def registrations_def)
next
  case (ReadMessage stops m)
  then show ?thesis using assms
    by (auto simp: read_message_def deliver_def Let_def calls_for_def pending_def registrations_def
        split: if_splits option.splits)
qed (use assms in \<open>auto simp: sig_defs calls_for_def pending_def registrations_def
       split: if_splits option.splits list.splits reader.splits\<close>)

lemma pending_run:
  "sig_run es c = Some (c', out) \<Longrightarrow> calls_for sid out + pending sid c' \<le> registrations sid es + pending sid c"
proof (induction es arbitrary: c out)
  case Nil
  then show ?case by (simp add: calls_for_def registrations_def)
next
  case (Cons e es)
  from sig_run_Cons [OF Cons.prems] obtain c1 o1 o2 where
    s: "sig_step e c = Some (c1, o1)" "sig_run es c1 = Some (c', o2)" "out = o1 @ o2" by blast
  have "registrations sid (e # es) = registrations sid [e] + registrations sid es" by (simp add: registrations_def)
  then show ?case using pending_step [OF s(1), of sid] Cons.IH [OF s(2)] s(3) by (simp add: calls_for_def)
qed

lemma called_step:
  assumes "sig_step e c = Some (c1, out)"
  shows "(\<forall>cb m. Called cb m \<in> set out \<longrightarrow> sm_type m = ''ANSWER'' \<and> (\<exists>t. (sm_sessionId m, cb, t) \<in> set (sc_onAnswer c))) \<and>
    (\<forall>s cb t. (s, cb, t) \<in> set (sc_onAnswer c1) \<longrightarrow> (s, cb, t) \<in> set (sc_onAnswer c) \<or> e = Register t s cb)"
proof (cases e)
  case (Register now s cb)
  then show ?thesis using assms by (auto simp: OnAnswer_def dest!: peers_mput_in)
next
  case (ReadMessage stops m)
  then show ?thesis using assms
    by (auto simp: read_message_def deliver_def Let_def set_mdel dest!: map_of_SomeD split: if_splits option.splits)
qed (use assms in \<open>auto simp: sig_defs split: if_splits option.splits list.splits reader.splits\<close>)

lemma called_run:
  "sig_run es c = Some (c', out) \<Longrightarrow> Called cb m \<in> set out \<Longrightarrow>
   sm_type m = ''ANSWER'' \<and> (\<exists>t. (sm_sessionId m, cb, t) \<in> set (sc_onAnswer c) \<or> Register t (sm_sessionId m) cb \<in> set es)"
proof (induction es arbitrary: c out)
  case (Cons e es)
  from sig_run_Cons [OF Cons.prems(1)] obtain c1 o1 o2 where
    s: "sig_step e c = Some (c1, o1)" "sig_run es c1 = Some (c', o2)" "out = o1 @ o2" by blast
  from Cons.prems(2) s(3) consider "Called cb m \<in> set o1" | "Called cb m \<in> set o2" by auto
  then show ?case
  proof cases
    case 1
    then show ?thesis using called_step [OF s(1)] by blast
  next
    case 2
    from Cons.IH [OF s(2) this] called_step [OF s(1)] show ?thesis
      unfolding list.set(2) insert_iff by blast
  qed
qed simp


section \<open>Order\<close>

definition waiting :: "'c SignalingClient \<Rightarrow> WsServerMessage list" where
  "waiting c = sc_offerChan c @ (case sc_reader c of Offering m \<Rightarrow> [m] | _ \<Rightarrow> [])"

definition offer_read :: "'c sig_event \<Rightarrow> WsServerMessage list" where
  "offer_read e = (case e of ReadMessage _ m \<Rightarrow> if sm_type m = ''OFFER'' then [m] else [] | _ \<Rightarrow> [])"

definition offer_taken :: "'c sig_output \<Rightarrow> WsServerMessage list" where
  "offer_taken x = (case x of OfferTaken m \<Rightarrow> [m] | _ \<Rightarrow> [])"

definition request_of :: "ClientInfoWithoutID \<Rightarrow> 'c sig_event \<Rightarrow> WsClientMessage list" where
  "request_of info e =
     (case e of
        SendCall m \<Rightarrow> if cm_type m = [] then [] else [m]
      | RefreshTick (Some token) \<Rightarrow> [NewUpdateMessage (info\<lparr>ci_token := token\<rparr>)]
      | _ \<Rightarrow> [])"

definition written :: "'c sig_output \<Rightarrow> WsClientMessage list" where
  "written x = (case x of Written m \<Rightarrow> [m] | _ \<Rightarrow> [])"

definition unwritten :: "'c SignalingClient \<Rightarrow> WsClientMessage list" where
  "unwritten c = filter (\<lambda>m. cm_type m \<noteq> []) (sc_sendChan c)"

lemma done_stays: "sc_done c \<Longrightarrow> sig_step e c = Some (c1, out) \<Longrightarrow> sc_done c1"
  by (cases e) (auto simp: sig_defs split: if_splits option.splits list.splits reader.splits)

lemma done_run: "sig_run es c = Some (c', out) \<Longrightarrow> \<not> sc_done c' \<Longrightarrow> \<not> sc_done c"
proof
  assume r: "sig_run es c = Some (c', out)" and "\<not> sc_done c'" and d: "sc_done c"
  have "sc_done c'" by (rule sig_run_keeps [where P = sc_done, OF _ d r]) (rule done_stays)
  with \<open>\<not> sc_done c'\<close> show False ..
qed

lemma offers_step:
  assumes "sig_step e c = Some (c1, out)" and "sc_offerSubscribed c" and "\<not> sc_done c1"
  shows "sc_offerSubscribed c1 \<and> waiting c @ offer_read e = concat (map offer_taken out) @ waiting c1"
proof (cases e)
  case (ReadMessage stops m)
  then show ?thesis using assms
    by (auto simp: read_message_def deliver_def Let_def waiting_def offer_read_def offer_taken_def
        split: if_splits option.splits)
qed (use assms in \<open>auto simp: sig_defs waiting_def offer_read_def offer_taken_def
       split: if_splits option.splits list.splits reader.splits\<close>)

definition refresh_ok :: "ClientInfoWithoutID \<Rightarrow> 'c SignalingClient \<Rightarrow> bool" where
  "refresh_ok info c \<longleftrightarrow> sc_baseInfo c = info \<and> (sc_refreshStarted c \<longrightarrow> sc_tokenGenerator c)"

lemma requests_step:
  assumes "sig_step e c = Some (c1, out)" and "refresh_ok info c" and "\<not> sc_done c1"
  shows "refresh_ok info c1 \<and> unwritten c @ request_of info e = concat (map written out) @ unwritten c1"
proof (cases e)
  case (ReadMessage stops m)
  then show ?thesis using assms
    by (auto simp: read_message_def deliver_def Let_def unwritten_def request_of_def written_def refresh_ok_def
        split: if_splits option.splits)
qed (use assms in \<open>auto simp: sig_defs unwritten_def request_of_def written_def refresh_ok_def ping_message_def
       NewUpdateMessage_def split: if_splits option.splits list.splits reader.splits\<close>)

text \<open>Per-step conservation of a queue carries over to runs that do not close the client.\<close>

lemma queue_run:
  assumes "\<And>e c c1 out. sig_step e c = Some (c1, out) \<Longrightarrow> P c \<Longrightarrow> \<not> sc_done c1 \<Longrightarrow>
      P c1 \<and> queue c @ coming e = concat (map going out) @ queue c1"
    and "P c" and "sig_run es c = Some (c', out)" and "\<not> sc_done c'"
  shows "queue c @ concat (map coming es) = concat (map going out) @ queue c'"
  using assms(2,3)
proof (induction es arbitrary: c out)
  case (Cons e es)
  from sig_run_Cons [OF Cons.prems(2)] obtain c1 o1 o2 where
    s: "sig_step e c = Some (c1, o1)" "sig_run es c1 = Some (c', o2)" "out = o1 @ o2" by blast
  note step = assms(1) [OF s(1) Cons.prems(1) done_run [OF s(2) assms(4)]]
  then have "queue c1 @ concat (map coming es) = concat (map going o2) @ queue c'"
    using Cons.IH s(2) by blast
  moreover have "queue c @ coming e = concat (map going o1) @ queue c1" using step by blast
  ultimately show ?case using s(3) by (metis append.assoc concat.simps(2) concat_append list.map(2) map_append)
qed simp

text \<open>C33: once subscribed, no offer is lost or reordered. From any state of a client that has
  subscribed, however messages, ticks and callers interleave, the offers that were waiting and those read since are,
  in this order, the offers the consumer took followed by those that still wait, as long as the
  client is not closed; in the same way all messages that were to be sent are written in the order of the calls.\<close>

theorem offers_kept_in_order:
  assumes "sig_connect info got = Inr c0" and "sig_run es0 c0 = Some (c, out0)" and "sc_offerSubscribed c"
    and "sig_run es c = Some (c', out)" and "\<not> sc_done c'"
  shows "waiting c @ concat (map offer_read es) = concat (map offer_taken out) @ waiting c' \<and>
    concat (map (request_of (info\<lparr>ci_token := []\<rparr>)) (es0 @ es)) = concat (map written (out0 @ out)) @ unwritten c'"
proof
  show "waiting c @ concat (map offer_read es) = concat (map offer_taken out) @ waiting c'"
    by (rule queue_run [where P = sc_offerSubscribed, OF offers_step assms(3-5)])
  have run: "sig_run (es0 @ es) c0 = Some (c', out0 @ out)" using assms(2,4)
  proof (induction es0 arbitrary: c0 out0)
    case (Cons e es0)
    from sig_run_Cons [OF Cons.prems(1)] obtain c1 o1 o2 where
      s: "sig_step e c0 = Some (c1, o1)" "sig_run es0 c1 = Some (c, o2)" "out0 = o1 @ o2" by blast
    from Cons.IH [OF s(2) Cons.prems(2)] s show ?case by simp
  qed simp
  have "refresh_ok (info\<lparr>ci_token := []\<rparr>) c0" and "unwritten c0 = []"
    using hello_ok [OF assms(1)] by (simp_all add: refresh_ok_def unwritten_def)
  with queue_run [where P = "refresh_ok (info\<lparr>ci_token := []\<rparr>)", OF requests_step this(1) run assms(5)]
  show "concat (map (request_of (info\<lparr>ci_token := []\<rparr>)) (es0 @ es)) = concat (map written (out0 @ out)) @ unwritten c'"
    by simp
qed

section \<open>Session descriptions survive\<close>

text \<open>A session description arrives or is refused. With a zlib that restores what it compressed, decompressing a
  compressed description gives it back if it has at most 512 KiB, and fails otherwise; whatever
  text comes from the network, no more than 512 KiB are ever returned.\<close>

theorem sdp_roundtrip:
  assumes "inflate (deflate sdp) = Some (sdp, True)"
  shows "DecompressSDP inflate (CompressSDP deflate sdp) = (if length sdp \<le> 524288 then Inr sdp else Inl TooLong) \<and>
    (\<forall>text s. DecompressSDP inflate text = Inr s \<longrightarrow> length s \<le> 524288)"
  using assms by (auto simp: DecompressSDP_def CompressSDP_def b64_decode_encode maxDecompressedSDPBytes_def Let_def
      split: option.splits prod.splits if_splits)

theorem sdp_roundtrip_witness:
  "DecompressSDP (\<lambda>data. Some (data, True)) (CompressSDP (\<lambda>data. data) ''v=0'') = Inr ''v=0''"
  using sdp_roundtrip [of "\<lambda>data. Some (data, True)" "\<lambda>data. data" "''v=0''"] by simp

section \<open>Witnesses\<close>

definition demo_me :: ClientInfo where
  "demo_me = \<lparr>ci_alias = ''me'', ci_version = ''2.3'', ci_deviceModel = [], ci_deviceType = [], ci_token = [], ci_id = ''id0''\<rparr>"

definition demo_peer :: ClientInfo where "demo_peer = demo_me\<lparr>ci_alias := ''peer'', ci_id := ''id1''\<rparr>"

definition demo_message :: "string \<Rightarrow> WsServerMessage" where
  "demo_message ty =
     \<lparr>sm_type = ty, sm_client = Some demo_me, sm_peers = Some [], sm_peer = Some demo_peer, sm_peerId = None,
      sm_sessionId = ''s1'', sm_sdp = ''x'', sm_code = 0\<rparr>"

definition demo_connected :: "nat SignalingClient" where
  "demo_connected =
     \<lparr>sc_client = demo_me, sc_peers = [], sc_msgChan = [], sc_offerChan = [], sc_offerSubscribed = False,
      sc_sendChan = [], sc_done = False, sc_onAnswer = [],
      sc_baseInfo = (NewClientInfo ''me'' ''t'')\<lparr>ci_token := []\<rparr>, sc_tokenGenerator = False,
      sc_refreshStarted = False, sc_reader = Reading, sc_writing = True\<rparr>"

text \<open>A peer joins; an answer is awaited and arrives twice; an update is written.\<close>

definition demo_session :: "nat sig_event list" where
  "demo_session =
     [ReadMessage False (demo_message ''JOIN''), Register 0 ''s1'' 7, ReadMessage False (demo_message ''ANSWER''),
      ReadMessage False (demo_message ''ANSWER''), Subscribe,
      SendCall (NewUpdateMessage (NewClientInfo ''me'' ''t'')), WriteRound True]"

definition demo_after :: "nat SignalingClient" where
  "demo_after = demo_connected\<lparr>sc_peers := [(''id1'', demo_peer)], sc_offerSubscribed := True,
     sc_msgChan := [demo_message ''JOIN'', demo_message ''ANSWER'']\<rparr>"

definition demo_seen :: "nat sig_output list" where
  "demo_seen = [Called 7 (demo_message ''ANSWER''), Written (NewUpdateMessage (NewClientInfo ''me'' ''t''))]"

lemma demo_connects: "sig_connect (NewClientInfo ''me'' ''t'') (Some (Some (demo_message ''HELLO''))) = Inr demo_connected"
  by (simp add: sig_connect_def waitForHello_def demo_message_def demo_connected_def)

lemma demo_ran: "sig_run demo_session demo_connected = Some (demo_after, demo_seen)"
  by (simp add: demo_session_def demo_connected_def demo_message_def demo_after_def demo_seen_def sig_defs handlePeerUpdate_def
      NewUpdateMessage_def demo_peer_def MaxPeers_def msgChanCap_def sendChanCap_def)

theorem signaling_bounded_witness: "length (GetPeers demo_after) \<le> 500 \<and> GetPeer ''id1'' demo_after = Some demo_peer"
  using signaling_bounded [OF demo_connects demo_ran] by (simp add: GetPeer_def demo_after_def)


theorem offers_kept_in_order_witness:
  "\<exists>c' :: nat SignalingClient. \<exists>out. sig_run [ReadMessage False (demo_message ''OFFER''), TakeOffer] demo_after = Some (c', out) \<and>
     [demo_message ''OFFER''] = concat (map offer_taken out) @ waiting c'"
proof -
  let ?c = "demo_after"
  have r: "sig_run [ReadMessage False (demo_message ''OFFER''), TakeOffer] ?c = Some (?c, [OfferTaken (demo_message ''OFFER'')])"
    by (simp add: demo_after_def demo_connected_def demo_message_def sig_defs handlePeerUpdate_def offerChanCap_def)
  have "sc_offerSubscribed ?c" and "\<not> sc_done ?c" by (simp_all add: demo_after_def demo_connected_def)
  note kept = conjunct1 [OF offers_kept_in_order [OF demo_connects demo_ran this(1) r this(2)]]
  have "waiting ?c = []" and "offer_read (ReadMessage False (demo_message ''OFFER'') :: nat sig_event) = [demo_message ''OFFER'']"
    and "offer_read (TakeOffer :: nat sig_event) = []"
    by (simp_all add: waiting_def demo_after_def demo_connected_def offer_read_def demo_message_def)
  with kept have "[demo_message ''OFFER''] = concat (map offer_taken [OfferTaken (demo_message ''OFFER'')]) @ waiting ?c"
    by (simp add: offer_taken_def)
  with r show ?thesis by blast
qed

end
