(* ===== verification/SendBase.thy ===== *)
theory SendBase
  imports Models Paths Routing
begin

text \<open>
  What both HTTP senders share: \<^verbatim>\<open>internal/localsend/send/send.go\<close> (the files to send) and the part of
  \<^verbatim>\<open>internal/models/filemeta.go\<close> that reads the metadata of a file. Identifiers, MIME types and formatted
  times come from outside; \<^verbatim>\<open>filepath.Walk\<close> is the list of what it visits.
\<close>

section \<open>Relative paths\<close>

text \<open>\<^verbatim>\<open>filepath.Rel\<close>: what is left of both paths after their common components.\<close>

fun strip_common :: "string list \<Rightarrow> string list \<Rightarrow> string list \<times> string list" where
  "strip_common (x # xs) (y # ys) = (if x = y then strip_common xs ys else (x # xs, y # ys))"
| "strip_common xs ys = (xs, ys)"

definition path_rel :: "string \<Rightarrow> string \<Rightarrow> string option" where
  "path_rel base targ =
     (if path_clean base = path_clean targ then Some dot
      else if path_is_abs base \<noteq> path_is_abs targ then None
      else case strip_common (clean_list base) (clean_list targ) of
             (b, t) \<Rightarrow> if b \<noteq> [] \<and> hd b = dotdot then None
                       else Some (path_render False (replicate (length b) dotdot @ t)))"

section \<open>Metadata\<close>

text \<open>A file to send: the announced metadata and where the file is.\<close>

record LocalFile = FileMeta +
  lf_fullPath :: string

text \<open>What reading the metadata gets from the system beside the file itself.\<close>

record meta_env =
  me_sha :: "bytes \<Rightarrow> bytes"
  me_mime :: "string \<Rightarrow> string"
  me_modified :: "string \<Rightarrow> string"
  me_accessed :: "string \<Rightarrow> string"

definition SHA256ofFile :: "(bytes \<Rightarrow> bytes) \<Rightarrow> fsys \<Rightarrow> string \<Rightarrow> string option" where
  "SHA256ofFile sha fs p = (case os_read fs p of RData b \<Rightarrow> Some (hex_encode (sha b)) | _ \<Rightarrow> None)"

definition file_meta :: "meta_env \<Rightarrow> fsys \<Rightarrow> string \<Rightarrow> string \<Rightarrow> string \<Rightarrow> LocalFile option" where
  "file_meta env fs fid name fpath =
     (case os_stat fs fpath of
        SFile n \<Rightarrow>
          (case SHA256ofFile (me_sha env) fs fpath of
             None \<Rightarrow> None
           | Some checksum \<Rightarrow>
               let fileType = me_mime env (path_ext fpath) in
               Some \<lparr>fm_id = fid, fm_filename = name, fm_size = int n,
                     fm_fileMIME = (if fileType = [] then ''text/plain'' else fileType),
                     fm_checksum = checksum, fm_preview = [],
                     fm_metadata = Some \<lparr>md_modified = me_modified env fpath, md_accessed = me_accessed env fpath\<rparr>,
                     lf_fullPath = fpath\<rparr>)
      | _ \<Rightarrow> None)"

definition GenFileMeta :: "meta_env \<Rightarrow> fsys \<Rightarrow> string \<Rightarrow> string \<Rightarrow> LocalFile option" where
  "GenFileMeta env fs fid fpath = file_meta env fs fid (path_base fpath) fpath"

definition GenFileMetaWithBase :: "meta_env \<Rightarrow> fsys \<Rightarrow> string \<Rightarrow> string \<Rightarrow> string \<Rightarrow> LocalFile option" where
  "GenFileMetaWithBase env fs fid fpath baseDir =
     (case path_rel baseDir fpath of None \<Rightarrow> None | Some relPath \<Rightarrow> file_meta env fs fid relPath fpath)"

section \<open>The base of a sender\<close>

record baseSender =
  bs_tokens :: "(string, string) gomap"
  bs_files :: "(string, LocalFile) gomap"
  bs_session :: string
  bs_pin :: string
  bs_alias :: string

definition bs_SetPIN :: "string \<Rightarrow> 'a baseSender_scheme \<Rightarrow> 'a baseSender_scheme" where
  "bs_SetPIN pin s = s\<lparr>bs_pin := pin\<rparr>"

definition bs_SetAlias :: "string \<Rightarrow> 'a baseSender_scheme \<Rightarrow> 'a baseSender_scheme" where
  "bs_SetAlias name s = s\<lparr>bs_alias := name\<rparr>"

definition add_meta :: "LocalFile option \<Rightarrow> 'a baseSender_scheme \<Rightarrow> 'a baseSender_scheme \<times> bool" where
  "add_meta meta s =
     (case meta of None \<Rightarrow> (s, False) | Some m \<Rightarrow> (s\<lparr>bs_files := mput (fm_id m) m (bs_files s)\<rparr>, True))"

definition AddFile ::
    "meta_env \<Rightarrow> fsys \<Rightarrow> string \<Rightarrow> string \<Rightarrow> 'a baseSender_scheme \<Rightarrow> 'a baseSender_scheme \<times> bool" where
  "AddFile env fs fid filePath s = add_meta (GenFileMeta env fs fid filePath) s"

definition addFileWithBase ::
    "meta_env \<Rightarrow> fsys \<Rightarrow> string \<Rightarrow> string \<Rightarrow> string \<Rightarrow> 'a baseSender_scheme \<Rightarrow> 'a baseSender_scheme \<times> bool" where
  "addFileWithBase env fs baseDir fid filePath s = add_meta (GenFileMetaWithBase env fs fid filePath baseDir) s"

text \<open>What \<^verbatim>\<open>filepath.Walk\<close> visits: a directory, a file with the identifier it would get, or an error,
  which ends the walk.\<close>

datatype visit = VisitDir string | VisitFile string string | VisitErr

fun walk_files ::
    "(string \<Rightarrow> string \<Rightarrow> 'a baseSender_scheme \<Rightarrow> 'a baseSender_scheme \<times> bool) \<Rightarrow> visit list \<Rightarrow>
     'a baseSender_scheme \<Rightarrow> 'a baseSender_scheme \<times> bool" where
  "walk_files add [] s = (s, True)"
| "walk_files add (VisitErr # vs) s = (s, False)"
| "walk_files add (VisitDir path # vs) s = walk_files add vs s"
| "walk_files add (VisitFile fid path # vs) s =
     (case add fid path s of (s1, False) \<Rightarrow> (s1, False) | (s1, True) \<Rightarrow> walk_files add vs s1)"

definition AddDir ::
    "meta_env \<Rightarrow> fsys \<Rightarrow> visit list \<Rightarrow> 'a baseSender_scheme \<Rightarrow> 'a baseSender_scheme \<times> bool" where
  "AddDir env fs visits s = walk_files (AddFile env fs) visits s"

definition AddDirWithStructure ::
    "meta_env \<Rightarrow> fsys \<Rightarrow> string \<Rightarrow> visit list \<Rightarrow> 'a baseSender_scheme \<Rightarrow> 'a baseSender_scheme \<times> bool" where
  "AddDirWithStructure env fs dirPath visits s = walk_files (addFileWithBase env fs (path_dir dirPath)) visits s"

definition bs_reset :: "'a baseSender_scheme \<Rightarrow> 'a baseSender_scheme" where
  "bs_reset s = s\<lparr>bs_tokens := [], bs_files := []\<rparr>"

definition FileCount :: "'a baseSender_scheme \<Rightarrow> nat" where
  "FileCount s = length (bs_files s)"

section \<open>Folder names\<close>

lemma strip_prefix: "strip_common xs (xs @ ys) = ([], ys)"
  by (induction xs) (cases ys; simp)+

lemma rel_below:
  assumes "a \<noteq> []" and "path_is_abs b = path_is_abs a" and "clean_list a = clean_list b @ cs" and "safe_rel rel"
  shows "path_rel b (path_join a rel) = Some (join_with sep (cs @ path_comps rel))"
proof -
  have c: "clean_list (path_join a rel) = clean_list b @ cs @ path_comps rel"
    using clean_list_join [OF assms(1), of rel] assms(3,4) by (simp add: safe_rel_facts)
  have "path_comps rel \<noteq> []" using assms(4) by (rule safe_rel_facts)
  then have "path_clean b \<noteq> path_clean (path_join a rel)"
    using c by (metis append.right_neutral append_is_Nil_conv path_comps_clean same_append_eq)
  then show ?thesis using c assms(1,2) \<open>path_comps rel \<noteq> []\<close>
    by (simp add: path_rel_def path_is_abs_join strip_prefix path_render_def)
qed

lemma upto_parent: "pre = [] \<or> last pre = sep \<Longrightarrow> sep \<notin> set root \<Longrightarrow> upto_last_sep (pre @ root) = pre"
  by (cases pre rule: rev_cases) (auto simp: upto_last_sep_def dropWhile_append)

lemma upto_slash: "upto_last_sep (d @ [sep]) = d @ [sep]"
  by (simp add: upto_last_sep_def)

text \<open>C38: a folder arrives under its own name. The files below a folder are announced
  under relative names: the folder's name, then the path inside it, joined by slashes; the
  receiver's sanitiser takes such a name as it is, and it marks the transfer as one of a folder.
  If the path of the folder is written with a slash at its end, the folder's name is left out.\<close>

theorem folder_names_survive:
  assumes "pre = [] \<or> last pre = sep" and "plain_comp root" and "safe_rel rel"
    and "dirPath = pre @ root \<or> dirPath = pre @ root @ [sep]"
    and "GenFileMetaWithBase env fs fid (path_join dirPath rel) (path_dir dirPath) = Some meta"
  shows "fm_filename meta = (if dirPath = pre @ root then root @ sep # rel else rel) \<and>
    SanitizeRelativePath (fm_filename meta) = Inr (fm_filename meta) \<and>
    (dirPath = pre @ root \<longrightarrow> IsFolderTransfer [fm_filename meta])"
proof -
  have root: "root \<noteq> []" "sep \<notin> set root" "path_comps root = [root]" "root \<noteq> dotdot"
    using assms(2) by (simp_all add: plain_comp_def plain_comp_comps [OF assms(2)])
  have rel: "path_comps rel \<noteq> []" "rel = join_with sep (path_comps rel)" "list_all plain_comp (path_comps rel)"
    using assms(3) by (auto simp: safe_rel_def)
  have name: "fm_filename meta = n" if "path_rel (path_dir dirPath) (path_join dirPath rel) = Some n" for n
    using assms(5) that by (auto simp: GenFileMetaWithBase_def file_meta_def Let_def split: stat_res.splits option.splits)
  have d: "path_dir dirPath = path_clean (upto_last_sep dirPath)" "dirPath \<noteq> []"
    using assms(4) root(1) by (auto simp: path_dir_def)
  consider "dirPath = pre @ root" | "dirPath = pre @ root @ [sep]" "dirPath \<noteq> pre @ root" using assms(4) by auto
  then show ?thesis
  proof cases
    case 1
    have u: "upto_last_sep dirPath = pre" unfolding 1 by (rule upto_parent [OF assms(1) root(2)])
    then have after: "after_last_sep dirPath = root" using upto_after_last_sep [of dirPath] 1 by simp
    have abs: "path_is_abs pre = path_is_abs dirPath"
      using 1 root(1,2) by (cases pre; cases root) (auto simp: path_is_abs_def)
    have comps: "path_comps dirPath = path_comps pre @ [root]"
      using path_comps_dir_base [of dirPath] u after root(3) by simp
    then have "clean_list dirPath = clean_list pre @ [root]"
      unfolding clean_list_def comps abs [symmetric] using root(4) by (simp add: clean_comps_append_plain)
    then have "path_rel (path_dir dirPath) (path_join dirPath rel) = Some (join_with sep ([root] @ path_comps rel))"
      using d u abs assms(3) by (intro rel_below) (simp_all add: path_is_abs_clean clean_list_clean)
    moreover have "join_with sep ([root] @ path_comps rel) = root @ sep # rel"
      using rel(1,2) by (cases "path_comps rel") simp_all
    moreover have "safe_rel (join_with sep ([root] @ path_comps rel))"
      using assms(2) rel(3) by (intro safe_rel_join) simp_all
    ultimately show ?thesis using name 1 by (simp add: SanitizeRelativePath_safe)
  next
    case 2
    then have "upto_last_sep dirPath = dirPath" using upto_slash [of "pre @ root"] by simp
    then have "path_rel (path_dir dirPath) (path_join dirPath rel) = Some (join_with sep ([] @ path_comps rel))"
      using d assms(3) by (intro rel_below) (simp_all add: path_is_abs_clean clean_list_clean)
    then show ?thesis using name 2(2) rel(2) assms(3) by (simp add: SanitizeRelativePath_safe)
  qed
qed

definition demo_meta_env :: meta_env where
  "demo_meta_env = \<lparr>me_sha = (\<lambda>b. take 1 b), me_mime = (\<lambda>e. []), me_modified = (\<lambda>p. ''m''), me_accessed = (\<lambda>p. ''a'')\<rparr>"

definition demo_folder_fs :: fsys where
  "demo_folder_fs = \<lparr>fs_nodes = [((True, [''Photos'']), FDir), ((True, [''Photos'', ''b'']), FFile ''xy'')],
     fs_denied = [], fs_space = None\<rparr>"

theorem folder_names_survive_witness:
  "\<exists>meta. GenFileMetaWithBase demo_meta_env demo_folder_fs ''1'' (path_join ''/Photos'' ''b'') (path_dir ''/Photos'') = Some meta \<and>
     fm_filename meta = ''Photos/b''"
proof -
  have "GenFileMetaWithBase demo_meta_env demo_folder_fs ''1'' (path_join ''/Photos'' ''b'') (path_dir ''/Photos'') \<noteq> None"
    by code_simp
  then obtain meta where m: "GenFileMetaWithBase demo_meta_env demo_folder_fs ''1'' (path_join ''/Photos'' ''b'') (path_dir ''/Photos'') = Some meta"
    by blast
  have "plain_comp ''Photos''" "plain_comp ''b''" by code_simp+
  from folder_names_survive [of "''/''", OF _ this(1) safe_rel_plain [OF this(2)] _ m] m show ?thesis
    by (simp add: sep_def)
qed

end
