(* ===== verification/Download.thy ===== *)
theory Download
  imports SendBase HttpRecv
begin

text \<open>
  \<^verbatim>\<open>internal/localsend/send/rvsend.go\<close>: the reverse sender, a small web server from which a browser
  downloads the files. A PIN is exchanged for a session that is bound to the client's address; the
  rate limiter and the PIN check are those of the receiver. Fresh identifiers, the clock and
  \<^verbatim>\<open>mime.FormatMediaType\<close> are arguments; the certificate is the fingerprint it gives.
\<close>

section \<open>URLs\<close>

definition hex_upper :: "nat \<Rightarrow> char" where
  "hex_upper n = (if n < 10 then byte_of (48 + n) else byte_of (55 + n))"

text \<open>\<^verbatim>\<open>url.QueryEscape\<close>.\<close>

definition escape_byte :: "char \<Rightarrow> string" where
  "escape_byte c =
     (let b = byte_val c in
      if 48 \<le> b \<and> b \<le> 57 \<or> 65 \<le> b \<and> b \<le> 90 \<or> 97 \<le> b \<and> b \<le> 122 \<or> c \<in> set ''-_.~'' then [c]
      else if b = 32 then ''+''
      else [CHR ''%'', hex_upper (b div 16), hex_upper (b mod 16)])"

definition QueryEscape :: "string \<Rightarrow> string" where
  "QueryEscape s = concat (map escape_byte s)"

definition DownloadPath :: string where "DownloadPath = ''/api/localsend/v2/download''"

section \<open>The server\<close>

record DownloadEntry =
  de_filename :: string
  de_url :: string

record ReverseSender = baseSender +
  rv_local :: DeviceInfo
  rv_downloads :: "DownloadEntry list"
  rv_https :: bool
  rv_pinRateLimiter :: RateLimiter
  rv_sessions :: "(string, string) gomap"
  rv_sessionByIP :: "(string, string) gomap"

definition NewReverseSender :: ReverseSender where
  "NewReverseSender =
     \<lparr>bs_tokens = [], bs_files = [], bs_session = [], bs_pin = [], bs_alias = [], rv_local = no_info,
      rv_downloads = [], rv_https = False, rv_pinRateLimiter = NewRateLimiter MaxPINAttempts PINBlockDuration,
      rv_sessions = [], rv_sessionByIP = []\<rparr>"

text \<open>\<open>cert\<close>: the fingerprint of the certificate, if it can be loaded or made. The flag is success.\<close>

definition rv_Init :: "DeviceInfo \<Rightarrow> bool \<Rightarrow> string option \<Rightarrow> ReverseSender \<Rightarrow> ReverseSender \<times> bool" where
  "rv_Init target https cert rs =
     (let rs1 = rs\<lparr>rv_local := target\<lparr>di_download := True\<rparr>, rv_https := https,
                   rv_pinRateLimiter := NewRateLimiter MaxPINAttempts PINBlockDuration,
                   rv_sessions := [], rv_sessionByIP := []\<rparr> in
      if https then
        (case cert of
           None \<Rightarrow> (rs1, False)
         | Some fingerprint \<Rightarrow> (bs_reset (rs1\<lparr>rv_local := (rv_local rs1)\<lparr>di_fingerprint := fingerprint\<rparr>\<rparr>), True))
      else (bs_reset rs1, True))"

definition createSession :: "string \<Rightarrow> string \<Rightarrow> ReverseSender \<Rightarrow> ReverseSender" where
  "createSession sessionID clientIP rs =
     (let old = (case mget (rv_sessionByIP rs) clientIP of None \<Rightarrow> [] | Some s \<Rightarrow> s);
          sessions = (if old \<noteq> [] then mdel old (rv_sessions rs) else rv_sessions rs)
      in rs\<lparr>rv_sessions := mput sessionID clientIP sessions,
            rv_sessionByIP := mput clientIP sessionID (rv_sessionByIP rs)\<rparr>)"

text \<open>A missing entry of the map reads as the empty address.\<close>

definition validSession :: "string \<Rightarrow> string \<Rightarrow> ReverseSender \<Rightarrow> bool" where
  "validSession sessionID clientIP rs =
     ((case mget (rv_sessions rs) sessionID of None \<Rightarrow> [] | Some ip \<Rightarrow> ip) = clientIP)"

definition rv_validatePIN :: "int \<Rightarrow> request \<Rightarrow> ReverseSender \<Rightarrow> ReverseSender \<times> int" where
  "rv_validatePIN now rq rs =
     (case limiter_gate (bs_pin rs) (rv_pinRateLimiter rs) now (rq_ip rq) (given_pin rq) of
        (l, status) \<Rightarrow> (rs\<lparr>rv_pinRateLimiter := l\<rparr>, status))"

definition pinCleanup :: "int \<Rightarrow> ReverseSender \<Rightarrow> ReverseSender" where
  "pinCleanup now rs = rs\<lparr>rv_pinRateLimiter := fst (CleanupExpired (rv_pinRateLimiter rs) now)\<rparr>"

datatype dl_response =
    DlStatus int
  | DlPrepared string "(string, LocalFile) gomap" DeviceInfo
  | DlFile string bytes
  | DlPage "DownloadEntry list"
  | DlInfo DeviceInfo

definition predownloadHandler ::
    "int \<Rightarrow> string \<Rightarrow> request \<Rightarrow> ReverseSender \<Rightarrow> ReverseSender \<times> dl_response" where
  "predownloadHandler now fresh rq rs =
     (let sessionID = query rq ''sessionId'' in
      if sessionID \<noteq> [] \<and> validSession sessionID (rq_ip rq) rs
      then (rs, DlPrepared sessionID (bs_files rs) (rv_local rs))
      else case rv_validatePIN now rq rs of
             (rs1, status) \<Rightarrow>
               if status \<noteq> 0 then (rs1, DlStatus status)
               else let rs2 = createSession fresh (rq_ip rq) rs1 in
                    (rs2, DlPrepared fresh (bs_files rs2) (rv_local rs2)))"

text \<open>\<open>disposition\<close> is the header that names the file.\<close>

definition downloadHandler ::
    "(string \<Rightarrow> string) \<Rightarrow> fsys \<Rightarrow> request \<Rightarrow> ReverseSender \<Rightarrow> dl_response" where
  "downloadHandler disposition fs rq rs =
     (let sessionId = query rq ''sessionId''; fileId = query rq ''fileId'' in
      if sessionId = [] \<or> fileId = [] then DlStatus 400
      else if \<not> validSession sessionId (rq_ip rq) rs then DlStatus 403
      else case mget (bs_files rs) fileId of
             None \<Rightarrow> DlStatus 403
           | Some fileMeta \<Rightarrow>
               (case os_read fs (lf_fullPath fileMeta) of
                  RData data \<Rightarrow> DlFile (disposition (fm_filename fileMeta)) data
                | _ \<Rightarrow> DlStatus 500))"

definition downloadListHandler ::
    "int \<Rightarrow> string \<Rightarrow> request \<Rightarrow> ReverseSender \<Rightarrow> ReverseSender \<times> dl_response" where
  "downloadListHandler now fresh rq rs =
     (case rv_validatePIN now rq rs of
        (rs1, status) \<Rightarrow>
          if status \<noteq> 0 then (rs1, DlStatus status)
          else let rs2 = createSession fresh (rq_ip rq) rs1 in
               (rs2, DlPage (map (\<lambda>e. e\<lparr>de_url := de_url e @ ''&sessionId='' @ QueryEscape fresh\<rparr>) (rv_downloads rs2))))"

definition rv_infoHandler :: "ReverseSender \<Rightarrow> dl_response" where
  "rv_infoHandler rs = DlInfo (rv_local rs)"

text \<open>\<^verbatim>\<open>Start\<close>: the links of the page.\<close>

definition rv_Start :: "ReverseSender \<Rightarrow> ReverseSender" where
  "rv_Start rs =
     rs\<lparr>rv_downloads := rv_downloads rs @
          map (\<lambda>(fileId, meta). \<lparr>de_filename = fm_filename meta,
                de_url = DownloadPath @ ''?fileId='' @ QueryEscape fileId\<rparr>) (bs_files rs)\<rparr>"

section \<open>Requests in order\<close>

datatype dl_request =
    ReqPrepare int string request | ReqDownload fsys request | ReqPage int string request | ReqInfo request
  | CleanupAt int

fun dl_serve :: "(string \<Rightarrow> string) \<Rightarrow> dl_request \<Rightarrow> ReverseSender \<Rightarrow> ReverseSender \<times> dl_response option" where
  "dl_serve disp (ReqPrepare now fresh rq) rs = (case predownloadHandler now fresh rq rs of (rs1, r) \<Rightarrow> (rs1, Some r))"
| "dl_serve disp (ReqDownload fs rq) rs = (rs, Some (downloadHandler disp fs rq rs))"
| "dl_serve disp (ReqPage now fresh rq) rs = (case downloadListHandler now fresh rq rs of (rs1, r) \<Rightarrow> (rs1, Some r))"
| "dl_serve disp (ReqInfo rq) rs = (rs, Some (rv_infoHandler rs))"
| "dl_serve disp (CleanupAt now) rs = (pinCleanup now rs, None)"

fun dl_run :: "(string \<Rightarrow> string) \<Rightarrow> dl_request list \<Rightarrow> ReverseSender \<Rightarrow> ReverseSender" where
  "dl_run disp [] rs = rs"
| "dl_run disp (q # qs) rs = dl_run disp qs (fst (dl_serve disp q rs))"

text \<open>The address of a request that carries the PIN, and the fresh identifier it would get.\<close>

definition pin_from :: "string \<Rightarrow> dl_request \<Rightarrow> string option" where
  "pin_from pin q =
     (case q of
        ReqPrepare _ _ rq \<Rightarrow> if given_pin rq = Some pin then Some (rq_ip rq) else None
      | ReqPage _ _ rq \<Rightarrow> if given_pin rq = Some pin then Some (rq_ip rq) else None
      | _ \<Rightarrow> None)"

definition fresh_of :: "dl_request \<Rightarrow> string list" where
  "fresh_of q = (case q of ReqPrepare _ f _ \<Rightarrow> [f] | ReqPage _ f _ \<Rightarrow> [f] | _ \<Rightarrow> [])"

lemma dl_run_append: "dl_run disp (qs @ rs) s = dl_run disp rs (dl_run disp qs s)"
  by (induction qs arbitrary: s) simp_all

lemma rv_pin_zero:
  assumes "rv_validatePIN now rq rs = (rs1, status)"
  shows "rs1 = rs\<lparr>rv_pinRateLimiter := rv_pinRateLimiter rs1\<rparr>"
    and "status = 0 \<Longrightarrow> bs_pin rs = [] \<or> given_pin rq = Some (bs_pin rs)"
  using assms rl.gate_ok [of "bs_pin rs" "rv_pinRateLimiter rs" now "rq_ip rq" "given_pin rq"]
  by (auto simp: rv_validatePIN_def split: prod.splits)

text \<open>What one request does to the sessions.\<close>

lemma served:
  assumes "dl_serve disp q rs = (rs1, r)"
  shows "bs_pin rs1 = bs_pin rs \<and> bs_files rs1 = bs_files rs \<and>
    (rv_sessions rs1 = rv_sessions rs \<and> rv_sessionByIP rs1 = rv_sessionByIP rs \<or>
     (\<exists>ip fresh rs0. fresh_of q = [fresh] \<and> (bs_pin rs = [] \<or> pin_from (bs_pin rs) q = Some ip) \<and>
        rv_sessions rs0 = rv_sessions rs \<and> rv_sessionByIP rs0 = rv_sessionByIP rs \<and>
        rv_sessions rs1 = rv_sessions (createSession fresh ip rs0) \<and>
        rv_sessionByIP rs1 = rv_sessionByIP (createSession fresh ip rs0)))"
proof -
  have prep: ?thesis if "q = ReqPrepare now fresh rq \<or> q = ReqPage now fresh rq" for now fresh rq
  proof -
    obtain rs0 status where v: "rv_validatePIN now rq rs = (rs0, status)" by fastforce
    note z = rv_pin_zero [OF v]
    have same: "bs_pin rs0 = bs_pin rs" "bs_files rs0 = bs_files rs" "rv_sessions rs0 = rv_sessions rs"
      "rv_sessionByIP rs0 = rv_sessionByIP rs" by (subst z(1), simp)+
    have "bs_pin (createSession fresh (rq_ip rq) rs0) = bs_pin rs0" "bs_files (createSession fresh (rq_ip rq) rs0) = bs_files rs0"
      by (simp_all add: createSession_def Let_def)
    moreover have "fresh_of q = [fresh]" and "status = 0 \<Longrightarrow> bs_pin rs = [] \<or> pin_from (bs_pin rs) q = Some (rq_ip rq)"
      using that z(2) by (auto simp: fresh_of_def pin_from_def)
    moreover have "rs1 = rs \<or> rs1 = rs0 \<or> status = 0 \<and> rs1 = createSession fresh (rq_ip rq) rs0"
      using that assms v by (auto simp: predownloadHandler_def downloadListHandler_def Let_def split: if_splits)
    ultimately show ?thesis using same by auto
  qed
  show ?thesis
    by (cases q) (use assms prep in \<open>auto simp: pinCleanup_def\<close>)
qed

text \<open>The server as it serves: initialised, then the files and the PIN set, then started.\<close>

definition rv_ready ::
    "DeviceInfo \<Rightarrow> bool \<Rightarrow> string option \<Rightarrow> (string, LocalFile) gomap \<Rightarrow> string \<Rightarrow> ReverseSender \<Rightarrow> ReverseSender" where
  "rv_ready target https cert files pin rs =
     rv_Start (bs_SetPIN pin ((fst (rv_Init target https cert rs))\<lparr>bs_files := files\<rparr>))"

lemma ready_simps [simp]:
  "rv_sessions (rv_ready t h c files pin rs) = []" "rv_sessionByIP (rv_ready t h c files pin rs) = []"
  "bs_pin (rv_ready t h c files pin rs) = pin" "bs_files (rv_ready t h c files pin rs) = files"
  by (simp_all add: rv_ready_def rv_Start_def bs_SetPIN_def rv_Init_def bs_reset_def Let_def split: option.split)

definition outside :: "string \<Rightarrow> string \<Rightarrow> ReverseSender \<Rightarrow> bool" where
  "outside pin c rs \<longleftrightarrow> bs_pin rs = pin \<and> (\<forall>sid. mget (rv_sessions rs) sid \<noteq> Some c)"

lemma outside_step:
  assumes "outside pin c rs" and "dl_serve disp q rs = (rs1, r)" and "pin \<noteq> []" and "pin_from pin q \<noteq> Some c"
  shows "outside pin c rs1"
  using served [OF assms(2)] assms(1,3,4)
  by (auto simp: outside_def createSession_def Let_def split: if_splits option.splits)

lemma outside_run:
  "outside pin c rs \<Longrightarrow> pin \<noteq> [] \<Longrightarrow> \<forall>q \<in> set qs. pin_from pin q \<noteq> Some c \<Longrightarrow> outside pin c (dl_run disp qs rs)"
proof (induction qs arbitrary: rs)
  case (Cons q qs)
  obtain rs1 r where "dl_serve disp q rs = (rs1, r)" by fastforce
  with Cons outside_step [OF Cons.prems(1) this] show ?case by simp
qed simp

lemma files_run: "bs_files (dl_run disp qs rs) = bs_files rs"
proof (induction qs arbitrary: rs)
  case (Cons q qs)
  obtain rs1 r where "dl_serve disp q rs = (rs1, r)" by fastforce
  with Cons served [OF this] show ?case by simp
qed simp

text \<open>C39: no download without the PIN. A client that never sent the right PIN gets no file and no
  list, in whatever order all clients send their requests; and what any client downloads is the content
  of one of the files that are offered.\<close>

theorem download_needs_pin:
  assumes "rs = rv_ready target https cert files pin rs0" and "pin \<noteq> []" and "rq_ip rq \<noteq> []"
    and "\<forall>q \<in> set qs. pin_from pin q \<noteq> Some (rq_ip rq)" and "given_pin rq \<noteq> Some pin"
  shows "(\<exists>s. downloadHandler disp fs rq (dl_run disp qs rs) = DlStatus s) \<and>
    (\<exists>s. snd (predownloadHandler now fresh rq (dl_run disp qs rs)) = DlStatus s) \<and>
    (\<exists>s. snd (downloadListHandler now fresh rq (dl_run disp qs rs)) = DlStatus s) \<and>
    (\<forall>rq' d data. downloadHandler disp fs rq' (dl_run disp qs rs) = DlFile d data \<longrightarrow>
       (\<exists>fid m. mget files fid = Some m \<and> os_read fs (lf_fullPath m) = RData data))"
proof -
  let ?rs = "dl_run disp qs rs"
  have "outside pin (rq_ip rq) rs" using assms(1) by (simp add: outside_def)
  from outside_run [OF this assms(2,4)] have out: "outside pin (rq_ip rq) ?rs" .
  then have invalid: "\<not> validSession sid (rq_ip rq) ?rs" for sid
    using assms(3) by (auto simp: outside_def validSession_def split: option.splits)
  obtain rs1 status where v: "rv_validatePIN now rq ?rs = (rs1, status)" by fastforce
  have "status \<noteq> 0" using rv_pin_zero(2) [OF v] out assms(2,5) by (auto simp: outside_def)
  moreover have "bs_files ?rs = files" using files_run assms(1) by simp
  ultimately show ?thesis using v invalid
    by (auto simp: downloadHandler_def predownloadHandler_def downloadListHandler_def Let_def
        split: if_splits option.splits read_res.splits)
qed

definition paired_up :: "ReverseSender \<Rightarrow> string list \<Rightarrow> bool" where
  "paired_up rs used \<longleftrightarrow>
     (\<forall>sid ip. mget (rv_sessions rs) sid = Some ip \<longleftrightarrow> mget (rv_sessionByIP rs) ip = Some sid) \<and>
     (\<forall>sid ip. mget (rv_sessions rs) sid = Some ip \<longrightarrow> sid \<in> set used \<and> sid \<noteq> [])"

lemma create_maps:
  "mget (rv_sessions (createSession fresh ip rs)) s =
     (if s = fresh then Some ip
      else if mget (rv_sessionByIP rs) ip = Some s \<and> s \<noteq> [] then None else mget (rv_sessions rs) s)"
  "mget (rv_sessionByIP (createSession fresh ip rs)) i = (if i = ip then Some fresh else mget (rv_sessionByIP rs) i)"
  by (auto simp: createSession_def split: option.splits)

lemma paired_create:
  assumes "paired_up rs used" and "fresh \<notin> set used" and "fresh \<noteq> []"
  shows "paired_up (createSession fresh ip rs) (used @ [fresh])"
proof -
  have inv: "mget (rv_sessions rs) s = Some i \<longleftrightarrow> mget (rv_sessionByIP rs) i = Some s"
    "mget (rv_sessions rs) s = Some i \<Longrightarrow> s \<in> set used \<and> s \<noteq> []" for s i
    using assms(1) unfolding paired_up_def by blast+
  show ?thesis
    unfolding paired_up_def
  proof (intro conjI allI impI)
    fix s i
    show "mget (rv_sessions (createSession fresh ip rs)) s = Some i \<longleftrightarrow>
        mget (rv_sessionByIP (createSession fresh ip rs)) i = Some s"
    proof (cases "s = fresh")
      case True
      then show ?thesis unfolding create_maps using inv [of s i] assms(2) by auto
    next
      case False
      then show ?thesis unfolding create_maps using inv(1) [of s i] inv [of s ip] by (cases "i = ip") auto
    qed
    assume "mget (rv_sessions (createSession fresh ip rs)) s = Some i"
    then show "s \<in> set (used @ [fresh])" and "s \<noteq> []"
      using inv(2) [of s i] assms(3) by (auto simp: create_maps split: if_splits)
  qed
qed

lemma paired_run:
  "paired_up rs used \<Longrightarrow> distinct (used @ concat (map fresh_of qs)) \<Longrightarrow> [] \<notin> set (concat (map fresh_of qs)) \<Longrightarrow>
   paired_up (dl_run disp qs rs) (used @ concat (map fresh_of qs))"
proof (induction qs arbitrary: rs used)
  case (Cons q qs)
  obtain rs1 r where s: "dl_serve disp q rs = (rs1, r)" by fastforce
  have "paired_up rs1 (used @ fresh_of q)"
  proof -
    from served [OF s] consider "rv_sessions rs1 = rv_sessions rs" "rv_sessionByIP rs1 = rv_sessionByIP rs"
      | ip fresh rs0 where "fresh_of q = [fresh]" "rv_sessions rs0 = rv_sessions rs" "rv_sessionByIP rs0 = rv_sessionByIP rs"
        "rv_sessions rs1 = rv_sessions (createSession fresh ip rs0)"
        "rv_sessionByIP rs1 = rv_sessionByIP (createSession fresh ip rs0)" by blast
    then show ?thesis
    proof cases
      case 1
      then show ?thesis using Cons.prems(1) by (auto simp: paired_up_def)
    next
      case 2
      then have "paired_up rs0 used" using Cons.prems(1) by (simp add: paired_up_def)
      moreover have "fresh \<notin> set used" "fresh \<noteq> []" using Cons.prems(2,3) 2(1) by auto
      ultimately have "paired_up (createSession fresh ip rs0) (used @ [fresh])" by (rule paired_create)
      then show ?thesis using 2 by (simp add: paired_up_def)
    qed
  qed
  with Cons.IH [OF this] Cons.prems s show ?case by simp
qed simp

text \<open>C40: one session per client. With fresh identifiers, the two tables of the server are inverse to
  each other in every reachable state: each live session belongs to exactly one address and each
  address has at most one live session, so that a new session ends the one before.\<close>

theorem one_session_per_client:
  assumes "rs = rv_ready target https cert files pin rs0"
    and "distinct (concat (map fresh_of qs))" and "[] \<notin> set (concat (map fresh_of qs))"
  shows "(mget (rv_sessions (dl_run disp qs rs)) sid = Some ip \<longleftrightarrow>
      mget (rv_sessionByIP (dl_run disp qs rs)) ip = Some sid) \<and>
    (mget (rv_sessions (dl_run disp qs rs)) sid = Some ip \<longrightarrow>
      mget (rv_sessions (dl_run disp qs rs)) sid' = Some ip \<longrightarrow> sid' = sid)"
proof -
  have "paired_up rs []" using assms(1) by (simp add: paired_up_def)
  from paired_run [OF this] assms(2,3) have "paired_up (dl_run disp qs rs) (concat (map fresh_of qs))" by simp
  then have "mget (rv_sessions (dl_run disp qs rs)) s = Some i \<longleftrightarrow> mget (rv_sessionByIP (dl_run disp qs rs)) i = Some s" for s i
    by (simp add: paired_up_def)
  then show ?thesis by (metis option.inject)
qed

definition demo_offer :: ReverseSender where
  "demo_offer = rv_ready no_info False None [(''f'', LocalFile.make [] ''b.txt'' 2 [] [] [] None ''/b'')] ''42'' NewReverseSender"

definition browse :: "string \<Rightarrow> (string \<times> string) list \<Rightarrow> request" where
  "browse ip q = \<lparr>rq_ip = ip, rq_query = q, rq_contentLength = 0, rq_body = \<lparr>bd_reads = [], bd_fails = False\<rparr>,
     rq_tlsFingerprint = None\<rparr>"

definition demo_offer_fs :: fsys where
  "demo_offer_fs = \<lparr>fs_nodes = [((True, [''b'']), FFile ''xy'')], fs_denied = [], fs_space = None\<rparr>"

text \<open>One client enters the PIN; another one tries its session.\<close>

definition demo_visit :: "dl_request list" where
  "demo_visit = [ReqPage 0 ''S'' (browse ''a'' [(''pin'', ''42'')])]"

lemma demo_browse: "rq_ip (browse ip q) = ip" "given_pin (browse ip q) = mget q ''pin''"
  by (simp_all add: browse_def given_pin_def)

theorem download_needs_pin_witness:
  "(\<exists>s. downloadHandler id demo_offer_fs (browse ''b'' [(''sessionId'', ''S''), (''fileId'', ''f'')])
      (dl_run id demo_visit demo_offer) = DlStatus s) \<and>
   downloadHandler id demo_offer_fs (browse ''a'' [(''sessionId'', ''S''), (''fileId'', ''f'')])
      (dl_run id demo_visit demo_offer) = DlFile ''b.txt'' ''xy''"
proof -
  have "\<forall>q \<in> set demo_visit. pin_from ''42'' q \<noteq> Some (rq_ip (browse ''b'' [(''sessionId'', ''S''), (''fileId'', ''f'')]))"
    by (simp add: demo_visit_def pin_from_def demo_browse)
  moreover have "given_pin (browse ''b'' [(''sessionId'', ''S''), (''fileId'', ''f'')]) \<noteq> Some ''42''" by (simp add: demo_browse)
  moreover have "downloadHandler id demo_offer_fs (browse ''a'' [(''sessionId'', ''S''), (''fileId'', ''f'')])
      (dl_run id demo_visit demo_offer) = DlFile ''b.txt'' ''xy''" by code_simp
  ultimately show ?thesis using download_needs_pin [OF demo_offer_def, of "browse ''b'' [(''sessionId'', ''S''), (''fileId'', ''f'')]"]
    by (simp add: demo_browse)
qed

theorem one_session_per_client_witness:
  "mget (rv_sessionByIP (dl_run id demo_visit demo_offer)) ''a'' = Some ''S''"
proof -
  have "mget (rv_sessions (dl_run id demo_visit demo_offer)) ''S'' = Some ''a''" by code_simp
  moreover have "concat (map fresh_of demo_visit) = [''S'']" by (simp add: demo_visit_def fresh_of_def)
  ultimately show ?thesis using one_session_per_client [OF demo_offer_def, of demo_visit id "''S''" "''a''"] by simp
qed

end
