(* ===== verification/SendHttp.thy ===== *)
theory SendHttp
  imports SendBase RtcProtocol LsErrors "HOL-Library.Multiset"
begin

text \<open>
  \<^verbatim>\<open>internal/localsend/send/fwdsend.go\<close>: the HTTP sender. It announces its files, uploads the ones the
  receiver granted with two workers, retries after a checksum error, and cancels. The receiver behind
  the network is a function \<open>net\<close> from a request and a world to the world and a reply; which worker
  moves next is a schedule. \<open>reads\<close> is what opening a local file delivers.
\<close>

section \<open>Requests\<close>

datatype http_request =
    PrepareUpload "string option" bytes
  | Upload string string string bytes int
  | CancelRequest string

datatype http_reply = NoReply | Reply int bytes

datatype http_err =
    NetworkFailed | BadReply | CannotOpen string | FileTooLarge string | ReceiverSaid ls_err | NoCertificate
  | CanceledDial

type_synonym 'w net = "http_request \<Rightarrow> 'w \<Rightarrow> 'w \<times> http_reply"

section \<open>The bodies\<close>

text \<open>The JSON of the structs, by their tags; \<^verbatim>\<open>omitempty\<close> leaves a zero value out.\<close>

definition opt_member :: "bool \<Rightarrow> string \<Rightarrow> json \<Rightarrow> (string \<times> json) list" where
  "opt_member shown k v = (if shown then [(k, v)] else [])"

definition info_members :: "'a DeviceInfo_scheme \<Rightarrow> (string \<times> json) list" where
  "info_members d =
     [(''alias'', JStr (di_alias d)), (''version'', JStr (di_version d))] @
     opt_str ''deviceModel'' (di_deviceModel d) @ opt_str ''deviceType'' (di_deviceType d) @
     opt_str ''fingerprint'' (di_fingerprint d) @ opt_str ''token'' (di_token d) @
     opt_member (di_download d) ''download'' (JBool True) @
     opt_member (di_hasWebInterface d) ''hasWebInterface'' (JBool True)"

definition sender_info_json :: "SenderInfo \<Rightarrow> json" where
  "sender_info_json d =
     JObj (info_members d @ [(''port'', JNum (int_dec (si_port d))), (''protocol'', JStr (si_protocol d))])"

definition metadata_json :: "FileMetadata \<Rightarrow> json" where
  "metadata_json m = JObj (opt_str ''modified'' (md_modified m) @ opt_str ''accessed'' (md_accessed m))"

definition file_meta_json :: "'a FileMeta_scheme \<Rightarrow> json" where
  "file_meta_json m =
     JObj ([(''id'', JStr (fm_id m)), (''fileName'', JStr (fm_filename m)),
            (''size'', JNum (int_dec (fm_size m))), (''fileType'', JStr (fm_fileMIME m))] @
           opt_str ''sha256'' (fm_checksum m) @ opt_str ''preview'' (fm_preview m) @
           (case fm_metadata m of None \<Rightarrow> [] | Some d \<Rightarrow> [(''metadata'', metadata_json d)]))"

text \<open>Maps are printed by key.\<close>

definition preupload_json :: "SenderInfo \<Rightarrow> (string, 'a FileMeta_scheme) gomap \<Rightarrow> json" where
  "preupload_json info files =
     JObj [(''info'', sender_info_json info),
           (''files'', JObj (map (\<lambda>(k, m). (k, file_meta_json m)) (sort_key fst files)))]"

definition put_preupload_resp ::
    "string \<Rightarrow> json \<Rightarrow> string \<times> (string, string) gomap \<Rightarrow> (string \<times> (string, string) gomap) \<times> bool" where
  "put_preupload_resp k v p =
     (if field_is ''sessionId'' k then (case into_str v (fst p) of (x, e) \<Rightarrow> ((x, snd p), e))
      else if field_is ''files'' k then (case into_str_map v (snd p) of (x, e) \<Rightarrow> ((fst p, x), e))
      else (p, False))"

section \<open>The sender\<close>

definition maxUploadAttempts :: nat where "maxUploadAttempts = 3"
definition uploadConcurrency :: nat where "uploadConcurrency = 2"

text \<open>Tracked connections are numbered.\<close>

record ForwardSender = baseSender +
  fw_local :: DeviceInfo
  fw_remote :: "DeviceInfo option"
  fw_remotePort :: string
  fw_https :: bool
  fw_abort :: bool
  fw_conns :: "nat list"

definition NewForwardSender :: ForwardSender where
  "NewForwardSender =
     \<lparr>bs_tokens = [], bs_files = [], bs_session = [], bs_pin = [], bs_alias = [], fw_local = no_info,
      fw_remote = None, fw_remotePort = ''53317'', fw_https = False, fw_abort = False, fw_conns = []\<rparr>"

definition trackUploadDial :: "nat \<Rightarrow> ForwardSender \<Rightarrow> ForwardSender \<times> http_err option" where
  "trackUploadDial conn fs =
     (if fw_abort fs then (fs, Some CanceledDial) else (fs\<lparr>fw_conns := conn # fw_conns fs\<rparr>, None))"

definition conn_closed :: "nat \<Rightarrow> ForwardSender \<Rightarrow> ForwardSender" where
  "conn_closed conn fs = fs\<lparr>fw_conns := filter (\<lambda>c. c \<noteq> conn) (fw_conns fs)\<rparr>"

definition closeActiveUploads :: "ForwardSender \<Rightarrow> ForwardSender" where
  "closeActiveUploads fs = fold conn_closed (fw_conns fs) fs"

text \<open>\<open>name\<close> and \<open>fingerprint\<close> are the generated ones; \<open>cert\<close> is the fingerprint of the certificate.\<close>

definition fw_Init ::
    "DeviceInfo \<Rightarrow> bool \<Rightarrow> string \<Rightarrow> string \<Rightarrow> string option \<Rightarrow> ForwardSender \<Rightarrow> ForwardSender \<times> http_err option" where
  "fw_Init target https name fingerprint cert fs =
     (let fs1 = (closeActiveUploads fs)\<lparr>fw_abort := False, bs_session := [], fw_conns := [],
                  fw_remote := Some target, fw_https := https\<rparr>;
          alias1 = (if bs_alias fs1 = [] then name else bs_alias fs1)
      in if https \<and> cert = None then (fs1, Some NoCertificate)
         else let fp = (case cert of Some c \<Rightarrow> if https then c else fingerprint | None \<Rightarrow> fingerprint) in
              (bs_reset (fs1\<lparr>fw_local := NewDeviceInfo alias1 fp\<rparr>), None))"

definition SetRemotePort :: "string \<Rightarrow> ForwardSender \<Rightarrow> ForwardSender" where
  "SetRemotePort port fs = fs\<lparr>fw_remotePort := port\<rparr>"

definition sender_info :: "ForwardSender \<Rightarrow> SenderInfo" where
  "sender_info fs =
     DeviceInfo.extend (DeviceInfo.truncate (fw_local fs))
       (SenderInfo.fields 53317 (if fw_https fs then ''https'' else ''http''))"

definition preUploadReq :: "'w net \<Rightarrow> ForwardSender \<Rightarrow> 'w \<Rightarrow> (ForwardSender \<times> 'w) \<times> http_err option" where
  "preUploadReq net fs w =
     (case net (PrepareUpload (if bs_pin fs = [] then None else Some (bs_pin fs))
                 (print_value None (preupload_json (sender_info fs) (bs_files fs)))) w of
        (w1, NoReply) \<Rightarrow> ((fs, w1), Some NetworkFailed)
      | (w1, Reply status b) \<Rightarrow>
          (case ParseError status of
             Some e \<Rightarrow> ((fs, w1), Some (ReceiverSaid e))
           | None \<Rightarrow>
               (case unmarshal put_preupload_resp b ([], []) of
                  None \<Rightarrow> ((fs, w1), Some BadReply)
                | Some (sid, tokens) \<Rightarrow> ((fs\<lparr>bs_session := sid, bs_tokens := tokens\<rparr>, w1), None))))"

text \<open>One attempt. An aborted sender returns without an error.\<close>

definition fw_sendFile ::
    "'w net \<Rightarrow> (string \<Rightarrow> bytes option) \<Rightarrow> string \<Rightarrow> string \<Rightarrow> ForwardSender \<Rightarrow> 'w \<Rightarrow> 'w \<times> http_err option" where
  "fw_sendFile net reads fid ftoken fs w =
     (if fw_abort fs then (w, None)
      else case mget (bs_files fs) fid of
        None \<Rightarrow> (w, Some (ReceiverSaid ErrUnknown))
      | Some fmeta \<Rightarrow>
          (case reads (lf_fullPath fmeta) of
             None \<Rightarrow> (w, Some (CannotOpen (fm_filename fmeta)))
           | Some content \<Rightarrow>
               if fm_size fmeta > int64_max then (w, Some (FileTooLarge (fm_filename fmeta)))
               else (case net (Upload (bs_session fs) fid ftoken content (fm_size fmeta)) w of
                  (w1, NoReply) \<Rightarrow> (w1, Some NetworkFailed)
                | (w1, Reply status _) \<Rightarrow> (w1, map_option ReceiverSaid (ParseError status)))))"

text \<open>The loop of \<^verbatim>\<open>sendFileWithRetry\<close> with nothing in between.\<close>

fun send_attempts ::
    "'w net \<Rightarrow> (string \<Rightarrow> bytes option) \<Rightarrow> string \<Rightarrow> string \<Rightarrow> ForwardSender \<Rightarrow> nat \<Rightarrow> http_err option \<Rightarrow> 'w \<Rightarrow>
     'w \<times> http_err option" where
  "send_attempts net reads fid ftoken fs 0 err w = (w, err)"
| "send_attempts net reads fid ftoken fs (Suc n) err w =
     (case fw_sendFile net reads fid ftoken fs w of
        (w1, e) \<Rightarrow> if e \<noteq> Some (ReceiverSaid ErrChecksum) then (w1, e)
                  else send_attempts net reads fid ftoken fs n e w1)"

definition sendFileWithRetry ::
    "'w net \<Rightarrow> (string \<Rightarrow> bytes option) \<Rightarrow> string \<Rightarrow> string \<Rightarrow> ForwardSender \<Rightarrow> 'w \<Rightarrow> 'w \<times> http_err option" where
  "sendFileWithRetry net reads fid ftoken fs w = send_attempts net reads fid ftoken fs maxUploadAttempts None w"

definition fw_Cancel :: "'w net \<Rightarrow> ForwardSender \<Rightarrow> 'w \<Rightarrow> (ForwardSender \<times> 'w) \<times> http_err option" where
  "fw_Cancel net fs w =
     (let fs1 = closeActiveUploads (fs\<lparr>fw_abort := True\<rparr>) in
      if bs_session fs1 = [] then ((fs1, w), None)
      else case net (CancelRequest (bs_session fs1)) w of
             (w1, NoReply) \<Rightarrow> ((fs1, w1), Some NetworkFailed)
           | (w1, Reply status _) \<Rightarrow> ((fs1, w1), map_option ReceiverSaid (ParseError status)))"

section \<open>The workers\<close>

text \<open>A worker is idle or has a job and the number of attempts it made. \<open>ur_errs\<close> are the failed jobs,
  \<open>ur_ended\<close> notes how each job ended.\<close>

record 'w upload_run =
  ur_sender :: ForwardSender
  ur_world :: 'w
  ur_jobs :: "(string \<times> string) list"
  ur_workers :: "(string \<times> string \<times> nat) option list"
  ur_errs :: "(string \<times> http_err) list"
  ur_ended :: "(string \<times> http_err option) list"

datatype sched = TakeJob nat | TryUpload nat | CancelNow

text \<open>The end of an attempt: another one after a checksum error, otherwise the worker is idle.\<close>

definition end_attempt :: "nat \<Rightarrow> string \<Rightarrow> string \<Rightarrow> nat \<Rightarrow> http_err option \<Rightarrow> 'w upload_run \<Rightarrow> 'w upload_run" where
  "end_attempt i fid ftoken n e r =
     (if e = Some (ReceiverSaid ErrChecksum) \<and> Suc n < maxUploadAttempts
      then r\<lparr>ur_workers := (ur_workers r)[i := Some (fid, ftoken, Suc n)]\<rparr>
      else r\<lparr>ur_workers := (ur_workers r)[i := None],
             ur_errs := ur_errs r @ (case e of None \<Rightarrow> [] | Some x \<Rightarrow> [(fid, x)]),
             ur_ended := ur_ended r @ [(fid, e)]\<rparr>)"

fun up_step ::
    "'w net \<Rightarrow> (string \<Rightarrow> bytes option) \<Rightarrow> sched \<Rightarrow> 'w upload_run \<Rightarrow> 'w upload_run option" where
  "up_step net reads (TakeJob i) r =
     (if i < length (ur_workers r) \<and> ur_workers r ! i = None then
        (case ur_jobs r of
           [] \<Rightarrow> None
         | (fid, ftoken) # jobs \<Rightarrow>
             Some (r\<lparr>ur_jobs := jobs, ur_workers := (ur_workers r)[i := Some (fid, ftoken, 0)]\<rparr>))
      else None)"
| "up_step net reads (TryUpload i) r =
     (if i < length (ur_workers r) then
        (case ur_workers r ! i of
           None \<Rightarrow> None
         | Some (fid, ftoken, n) \<Rightarrow>
             (case fw_sendFile net reads fid ftoken (ur_sender r) (ur_world r) of
                (w1, e) \<Rightarrow> Some (end_attempt i fid ftoken n e (r\<lparr>ur_world := w1\<rparr>))))
      else None)"
| "up_step net reads CancelNow r =
     (case fw_Cancel net (ur_sender r) (ur_world r) of
        ((fs1, w1), _) \<Rightarrow> Some (r\<lparr>ur_sender := fs1, ur_world := w1\<rparr>))"

fun up_run ::
    "'w net \<Rightarrow> (string \<Rightarrow> bytes option) \<Rightarrow> sched list \<Rightarrow> 'w upload_run \<Rightarrow> 'w upload_run option" where
  "up_run net reads [] r = Some r"
| "up_run net reads (s # ss) r = Option.bind (up_step net reads s r) (up_run net reads ss)"

definition up_finished :: "'w upload_run \<Rightarrow> bool" where
  "up_finished r \<longleftrightarrow> ur_jobs r = [] \<and> list_all (\<lambda>w. w = None) (ur_workers r)"

text \<open>The start: one job per token, in the order in which the map is iterated.\<close>

definition start_uploads :: "ForwardSender \<Rightarrow> 'w \<Rightarrow> 'w upload_run" where
  "start_uploads fs w =
     \<lparr>ur_sender = fs, ur_world = w, ur_jobs = bs_tokens fs,
      ur_workers = replicate (min uploadConcurrency (length (bs_tokens fs))) None, ur_errs = [], ur_ended = []\<rparr>"

text \<open>The end: the remote session is released after an error. The error names how many files failed and the
  first of them; that of the cancel request is only logged.\<close>

definition finish_uploads :: "'w net \<Rightarrow> 'w upload_run \<Rightarrow> (ForwardSender \<times> 'w) \<times> (nat \<times> string \<times> http_err) option" where
  "finish_uploads net r =
     (case ur_errs r of
        [] \<Rightarrow> ((ur_sender r, ur_world r), None)
      | e # es \<Rightarrow> (fst (fw_Cancel net (ur_sender r) (ur_world r)), Some (length (ur_errs r), e)))"

datatype start_result = StartOk | PrepareFailed http_err | FilesFailed nat string http_err

text \<open>\<open>None\<close>: the schedule is not one of a complete run.\<close>

definition fw_Start ::
    "'w net \<Rightarrow> (string \<Rightarrow> bytes option) \<Rightarrow> sched list \<Rightarrow> ForwardSender \<Rightarrow> 'w \<Rightarrow>
     ((ForwardSender \<times> 'w) \<times> start_result) option" where
  "fw_Start net reads schedule fs w =
     (case preUploadReq net fs w of
        (fw1, Some e) \<Rightarrow> Some (fw1, PrepareFailed e)
      | ((fs1, w1), None) \<Rightarrow>
          (case up_run net reads schedule (start_uploads fs1 w1) of
             None \<Rightarrow> None
           | Some r \<Rightarrow>
               if \<not> up_finished r then None
               else Some (case finish_uploads net r of
                            (fw2, None) \<Rightarrow> (fw2, StartOk)
                          | (fw2, Some (n, fid, e)) \<Rightarrow> (fw2, FilesFailed n fid e))))"

section \<open>Every job ends once\<close>

definition slot_ids :: "(string \<times> string \<times> nat) option \<Rightarrow> string list" where
  "slot_ids w = (case w of None \<Rightarrow> [] | Some (fid, _, _) \<Rightarrow> [fid])"

lemma slot_ids_simps [simp]: "slot_ids None = []" "slot_ids (Some (fid, tok, n)) = [fid]"
  by (simp_all add: slot_ids_def)

definition busy_jobs :: "'w upload_run \<Rightarrow> string list" where
  "busy_jobs r = concat (map slot_ids (ur_workers r))"

definition errors_of :: "(string \<times> http_err option) list \<Rightarrow> (string \<times> http_err) list" where
  "errors_of ended = concat (map (\<lambda>(fid, e). case e of None \<Rightarrow> [] | Some x \<Rightarrow> [(fid, x)]) ended)"

definition run_ok :: "string list \<Rightarrow> 'w upload_run \<Rightarrow> bool" where
  "run_ok ids r \<longleftrightarrow>
     mset (map fst (ur_ended r)) + mset (busy_jobs r) + mset (map fst (ur_jobs r)) = mset ids \<and>
     ur_errs r = errors_of (ur_ended r) \<and> length (ur_workers r) = min uploadConcurrency (length ids) \<and>
     (\<forall>fid tok n. Some (fid, tok, n) \<in> set (ur_workers r) \<longrightarrow> n < maxUploadAttempts)"

lemma busy_update:
  assumes "i < length ws"
  shows "mset (concat (map f (ws[i := w]))) + mset (f (ws ! i)) = mset (concat (map f ws)) + mset (f w)"
proof -
  have ws: "ws = take i ws @ ws ! i # drop (Suc i) ws" using assms by (rule id_take_nth_drop)
  have "ws[i := w] = take i ws @ w # drop (Suc i) ws" by (rule upd_conv_take_nth_drop [OF assms])
  moreover have "mset (concat (map f ws)) = mset (concat (map f (take i ws))) + mset (f (ws ! i)) + mset (concat (map f (drop (Suc i) ws)))"
    by (subst ws) simp
  ultimately show ?thesis by simp
qed

lemma errors_of_append [simp]: "errors_of (a @ b) = errors_of a @ errors_of b"
  by (simp add: errors_of_def)

lemma run_ok_start: "run_ok (map fst (bs_tokens fs)) (start_uploads fs w)"
  by (simp add: run_ok_def start_uploads_def busy_jobs_def errors_of_def)

lemma busy_set:
  assumes "i < length (ur_workers r)" and "ur_workers r' = (ur_workers r)[i := w]"
  shows "mset (busy_jobs r') + mset (slot_ids (ur_workers r ! i)) = mset (busy_jobs r) + mset (slot_ids w)"
  unfolding busy_jobs_def assms(2) by (rule busy_update [OF assms(1)])

lemma run_ok_take:
  assumes "run_ok ids r" and "i < length (ur_workers r)" and "ur_workers r ! i = None" and "ur_jobs r = (fid, tok) # jobs"
  shows "run_ok ids (r\<lparr>ur_jobs := jobs, ur_workers := (ur_workers r)[i := Some (fid, tok, 0)]\<rparr>)"
proof -
  let ?r = "r\<lparr>ur_jobs := jobs, ur_workers := (ur_workers r)[i := Some (fid, tok, 0)]\<rparr>"
  have "mset (busy_jobs ?r) = add_mset fid (mset (busy_jobs r))" using busy_set [OF assms(2), of ?r "Some (fid, tok, 0)"] assms(3) by simp
  then show ?thesis using assms(1,4)
    by (auto simp: run_ok_def maxUploadAttempts_def dest!: subsetD [OF set_update_subset_insert])
qed

lemma run_ok_end:
  assumes "run_ok ids r" and "i < length (ur_workers r)" and "ur_workers r ! i = Some (fid, tok, n)"
  shows "run_ok ids (end_attempt i fid tok n e r)"
proof (cases "e = Some (ReceiverSaid ErrChecksum) \<and> Suc n < maxUploadAttempts")
  case True
  let ?r = "r\<lparr>ur_workers := (ur_workers r)[i := Some (fid, tok, Suc n)]\<rparr>"
  have "mset (busy_jobs ?r) = mset (busy_jobs r)" using busy_set [OF assms(2), of ?r "Some (fid, tok, Suc n)"] assms(3) by simp
  then have "run_ok ids ?r" using assms(1) True
    by (auto simp: run_ok_def dest!: subsetD [OF set_update_subset_insert])
  then show ?thesis using True by (simp add: end_attempt_def)
next
  case False
  let ?r = "r\<lparr>ur_workers := (ur_workers r)[i := None], ur_errs := ur_errs r @ (case e of None \<Rightarrow> [] | Some x \<Rightarrow> [(fid, x)]),
      ur_ended := ur_ended r @ [(fid, e)]\<rparr>"
  have "mset (busy_jobs r) = add_mset fid (mset (busy_jobs ?r))" using busy_set [OF assms(2), of ?r None] assms(3) by simp
  moreover have "errors_of [(fid, e)] = (case e of None \<Rightarrow> [] | Some x \<Rightarrow> [(fid, x)])" by (simp add: errors_of_def)
  ultimately have "run_ok ids ?r" using assms(1)
    by (auto simp: run_ok_def dest!: subsetD [OF set_update_subset_insert])
  then show ?thesis using False by (auto simp: end_attempt_def)
qed

lemma run_ok_world [simp]: "run_ok ids (r\<lparr>ur_world := w\<rparr>) = run_ok ids r"
  "run_ok ids (r\<lparr>ur_sender := fs\<rparr>) = run_ok ids r"
  by (simp_all add: run_ok_def busy_jobs_def)

lemma run_ok_step:
  assumes "run_ok ids r" and "up_step net reads s r = Some r'"
  shows "run_ok ids r'"
proof (cases s)
  case (TakeJob i)
  then show ?thesis using assms run_ok_take [OF assms(1)] by (auto split: if_splits list.splits)
next
  case (TryUpload i)
  with assms(2) obtain fid tok n where i: "i < length (ur_workers r)" "ur_workers r ! i = Some (fid, tok, n)"
    by (auto split: if_splits option.splits)
  obtain w1 e where f: "fw_sendFile net reads fid tok (ur_sender r) (ur_world r) = (w1, e)" by fastforce
  have "run_ok ids (r\<lparr>ur_world := w1\<rparr>)" using assms(1) by simp
  from run_ok_end [OF this, of i fid tok n e] i f assms(2) TryUpload show ?thesis by simp
next
  case CancelNow
  then show ?thesis using assms by (auto split: prod.splits)
qed

lemma run_ok_run: "up_run net reads ss r = Some r' \<Longrightarrow> run_ok ids r \<Longrightarrow> run_ok ids r'"
  by (induction ss arbitrary: r) (auto split: option.splits bind_splits dest: run_ok_step)

lemma finished_books:
  assumes "run_ok ids r" and "up_finished r"
  shows "mset (map fst (ur_ended r)) = mset ids" and "ur_errs r = errors_of (ur_ended r)"
proof -
  have "busy_jobs r = []" using assms(2) by (auto simp: up_finished_def busy_jobs_def list_all_iff)
  with assms show "mset (map fst (ur_ended r)) = mset ids" and "ur_errs r = errors_of (ur_ended r)"
    by (auto simp: run_ok_def up_finished_def)
qed

lemma errors_none: "errors_of ended = [] \<longleftrightarrow> (\<forall>x \<in> set ended. snd x = None)"
  by (induction ended) (auto simp: errors_of_def split: option.splits)


section \<open>The workers finish\<close>

definition slot_work :: "(string \<times> string \<times> nat) option \<Rightarrow> nat" where
  "slot_work w = (case w of None \<Rightarrow> 0 | Some (_, _, n) \<Rightarrow> maxUploadAttempts - n)"

lemma slot_work_simps [simp]: "slot_work None = 0" "slot_work (Some (fid, tok, n)) = maxUploadAttempts - n"
  by (simp_all add: slot_work_def)

definition work_left :: "'w upload_run \<Rightarrow> nat" where
  "work_left r = 4 * length (ur_jobs r) + sum_list (map slot_work (ur_workers r))"

lemma sum_update:
  fixes f :: "'a \<Rightarrow> nat"
  assumes "i < length ws"
  shows "sum_list (map f (ws[i := w])) + f (ws ! i) = sum_list (map f ws) + f w"
proof -
  have ws: "ws = take i ws @ ws ! i # drop (Suc i) ws" using assms by (rule id_take_nth_drop)
  have "ws[i := w] = take i ws @ w # drop (Suc i) ws" by (rule upd_conv_take_nth_drop [OF assms])
  moreover have "sum_list (map f ws) = sum_list (map f (take i ws)) + f (ws ! i) + sum_list (map f (drop (Suc i) ws))"
    by (subst ws) simp
  ultimately show ?thesis by simp
qed

lemma step_works:
  assumes "run_ok ids r" and "up_step net reads s r = Some r'"
  shows "work_left r' + (if s = CancelNow then 0 else 1) \<le> work_left r"
proof (cases s)
  case (TakeJob i)
  then show ?thesis
    using assms(2) sum_update [of i "ur_workers r" slot_work]
    by (auto simp: work_left_def maxUploadAttempts_def split: if_splits list.splits)
next
  case (TryUpload i)
  with assms(2) obtain fid tok n where i: "i < length (ur_workers r)" "ur_workers r ! i = Some (fid, tok, n)"
    by (auto split: if_splits option.splits)
  then have n: "n < maxUploadAttempts" using assms(1) unfolding run_ok_def by (metis nth_mem)
  obtain w1 e where f: "fw_sendFile net reads fid tok (ur_sender r) (ur_world r) = (w1, e)" by fastforce
  have "r' = end_attempt i fid tok n e (r\<lparr>ur_world := w1\<rparr>)" using i f assms(2) TryUpload by simp
  then show ?thesis
    using i(2) n TryUpload sum_update [OF i(1), of slot_work None]
      sum_update [OF i(1), of slot_work "Some (fid, tok, Suc n)"]
    by (auto simp: work_left_def end_attempt_def)
next
  case CancelNow
  then show ?thesis using assms(2) by (auto simp: work_left_def split: prod.splits)
qed

lemma run_works:
  "up_run net reads ss r = Some r' \<Longrightarrow> run_ok ids r \<Longrightarrow>
   work_left r' + length (filter (\<lambda>s. s \<noteq> CancelNow) ss) \<le> work_left r"
proof (induction ss arbitrary: r)
  case (Cons s ss)
  from Cons.prems(1) obtain r1 where s: "up_step net reads s r = Some r1" "up_run net reads ss r1 = Some r'"
    by (auto split: bind_splits)
  from Cons.IH [OF s(2) run_ok_step [OF Cons.prems(2) s(1)]] step_works [OF Cons.prems(2) s(1)]
  show ?case by (auto split: if_splits)
qed simp

lemma progress:
  assumes "run_ok ids r" and "\<not> up_finished r"
  shows "\<exists>s. s \<noteq> CancelNow \<and> up_step net reads s r \<noteq> None"
proof (cases "\<exists>i < length (ur_workers r). ur_workers r ! i \<noteq> None")
  case True
  then obtain i fid tok n where "i < length (ur_workers r)" "ur_workers r ! i = Some (fid, tok, n)" by auto
  then have "up_step net reads (TryUpload i) r \<noteq> None" by (auto split: prod.splits)
  then show ?thesis by blast
next
  case False
  then have "\<forall>i < length (ur_workers r). ur_workers r ! i = None" by blast
  then have idle: "list_all (\<lambda>w. w = None) (ur_workers r)" by (simp add: list_all_length)
  with assms(2) obtain fid tok jobs where j: "ur_jobs r = (fid, tok) # jobs"
    by (cases "ur_jobs r") (auto simp: up_finished_def)
  have "ids \<noteq> []" using assms(1) j by (auto simp: run_ok_def)
  then have "0 < length (ur_workers r)" using assms(1) by (auto simp: run_ok_def uploadConcurrency_def)
  then have "up_step net reads (TakeJob 0) r \<noteq> None" using False j by simp
  then show ?thesis by blast
qed

text \<open>C35: the uploads end. A run with \<open>n\<close> granted files has at most \<open>4 * n\<close> steps (each file is
  taken once and tried at most three times) whatever the receiver answers, and as long as it
  is not finished some worker can move.\<close>

theorem uploads_terminate:
  assumes "up_run net reads schedule (start_uploads fs w) = Some r"
  shows "length (filter (\<lambda>s. s \<noteq> CancelNow) schedule) \<le> 4 * length (bs_tokens fs) \<and>
    (\<not> up_finished r \<longrightarrow> (\<exists>s r'. s \<noteq> CancelNow \<and> up_step net reads s r = Some r'))"
proof
  have "work_left (start_uploads fs w) = 4 * length (bs_tokens fs)"
    by (simp add: work_left_def start_uploads_def sum_list_0)
  with run_works [OF assms run_ok_start]
  show "length (filter (\<lambda>s. s \<noteq> CancelNow) schedule) \<le> 4 * length (bs_tokens fs)" by simp
  show "\<not> up_finished r \<longrightarrow> (\<exists>s r'. s \<noteq> CancelNow \<and> up_step net reads s r = Some r')"
    using progress [OF run_ok_run [OF assms run_ok_start], of net reads] by auto
qed

section \<open>A cancelled transfer\<close>

lemma closed_conns: "fw_conns (closeActiveUploads fs) = []"
proof -
  have "fw_conns (fold conn_closed cs fs) = filter (\<lambda>c. c \<notin> set cs) (fw_conns fs)" for cs fs
    by (induction cs arbitrary: fs) (auto simp: conn_closed_def intro: filter_cong)
  then show ?thesis by (simp add: closeActiveUploads_def)
qed

lemma close_simps [simp]: "fw_abort (closeActiveUploads fs) = fw_abort fs" "bs_session (closeActiveUploads fs) = bs_session fs"
proof -
  have "fw_abort (fold conn_closed cs fs) = fw_abort fs \<and> bs_session (fold conn_closed cs fs) = bs_session fs" for cs fs
    by (induction cs arbitrary: fs) (auto simp: conn_closed_def)
  then show "fw_abort (closeActiveUploads fs) = fw_abort fs" "bs_session (closeActiveUploads fs) = bs_session fs"
    by (simp_all add: closeActiveUploads_def)
qed

lemma aborted_sends_nothing: "fw_abort fs \<Longrightarrow> fw_sendFile net reads fid tok fs w = (w, None)"
  by (simp add: fw_sendFile_def)

lemma aborted_run:
  assumes "up_run net reads ss r = Some r'" and "fw_abort (ur_sender r)" and "CancelNow \<notin> set ss"
  shows "ur_world r' = ur_world r \<and> ur_sender r' = ur_sender r \<and> ur_errs r' = ur_errs r"
  using assms
proof (induction ss arbitrary: r)
  case (Cons s ss)
  from Cons.prems(1) obtain r1 where s: "up_step net reads s r = Some r1" "up_run net reads ss r1 = Some r'"
    by (auto split: bind_splits)
  have "ur_world r1 = ur_world r \<and> ur_sender r1 = ur_sender r \<and> ur_errs r1 = ur_errs r"
    using s(1) Cons.prems(2,3)
    by (cases s) (auto simp: aborted_sends_nothing end_attempt_def split: if_splits list.splits option.splits)
  with Cons.IH [OF s(2)] Cons.prems(2,3) show ?case by simp
qed simp

text \<open>C36: a cancelled transfer is reported as sent. If the user cancels after the receiver has granted
  the files and before the first upload, every complete schedule ends with success although nothing was uploaded:
  all that happened to the world after the grant is the cancel request. No connection is left or
  can be opened.\<close>

theorem cancelled_transfer_succeeds:
  assumes "preUploadReq net fs w = ((fs1, w1), None)" and "CancelNow \<notin> set schedule"
    and "fw_Start net reads (CancelNow # schedule) fs w = Some ((fs2, w2), res)"
  shows "res = StartOk \<and> w2 = snd (fst (fw_Cancel net fs1 w1)) \<and> fw_conns fs2 = [] \<and>
    (\<forall>conn. trackUploadDial conn fs2 = (fs2, Some CanceledDial))"
proof -
  obtain fs3 w3 e where c: "fw_Cancel net fs1 w1 = ((fs3, w3), e)" by (metis prod.collapse)
  have a: "fw_abort fs3 \<and> fw_conns fs3 = []"
    using c closed_conns [of "fs1\<lparr>fw_abort := True\<rparr>"] by (auto simp: fw_Cancel_def Let_def split: if_splits prod.splits http_reply.splits)
  from assms(1,3) c obtain r where r:
    "up_run net reads schedule ((start_uploads fs1 w1)\<lparr>ur_sender := fs3, ur_world := w3\<rparr>) = Some r"
    "((fs2, w2), res) = (case finish_uploads net r of
        (fw2, None) \<Rightarrow> (fw2, StartOk) | (fw2, Some (n, fid, e)) \<Rightarrow> (fw2, FilesFailed n fid e))"
    by (auto simp: fw_Start_def start_uploads_def split: option.splits if_splits)
  from aborted_run [OF r(1) _ assms(2)] a have "ur_world r = w3" "ur_sender r = fs3" "ur_errs r = []"
    by (simp_all add: start_uploads_def)
  then show ?thesis using r(2) c a by (simp add: finish_uploads_def trackUploadDial_def)
qed

section \<open>Witnesses\<close>

text \<open>A receiver that grants one file and answers its first upload with a checksum error.\<close>

definition demo_answering :: "nat net" where
  "demo_answering req n =
     (case req of
        PrepareUpload _ _ \<Rightarrow>
          (n, Reply 200 (print_value None (JObj [(''sessionId'', JStr ''S''), (''files'', JObj [(''f'', JStr ''t'')])])))
      | Upload _ _ _ _ _ \<Rightarrow> (Suc n, Reply (if n = 0 then 422 else 200) [])
      | CancelRequest _ \<Rightarrow> (n, Reply 200 []))"

definition demo_forward :: ForwardSender where
  "demo_forward = NewForwardSender\<lparr>bs_files := [(''f'', LocalFile.make ''f'' ''b.txt'' 2 [] [] [] None ''/b'')]\<rparr>"

definition demo_granted_sender :: ForwardSender where
  "demo_granted_sender = demo_forward\<lparr>bs_tokens := [(''f'', ''t'')], bs_session := ''S''\<rparr>"

definition demo_upload_end :: "nat upload_run" where
  "demo_upload_end = \<lparr>ur_sender = demo_granted_sender, ur_world = 2, ur_jobs = [], ur_workers = [None], ur_errs = [],
     ur_ended = [(''f'', None)]\<rparr>"

lemma demo_reply:
  "unmarshal put_preupload_resp
     (print_value None (JObj [(''sessionId'', JStr ''S''), (''files'', JObj [(''f'', JStr ''t'')])])) ([], [])
   = Some (''S'', [(''f'', ''t'')])"
  by code_simp

lemma demo_prepared: "preUploadReq demo_answering demo_forward 0 = ((demo_granted_sender, 0), None)"
  using demo_reply by (simp add: preUploadReq_def demo_answering_def ParseError_def demo_granted_sender_def)

lemma demo_uploads:
  "up_run demo_answering (\<lambda>p. Some ''xy'') [TakeJob 0, TryUpload 0, TryUpload 0] (start_uploads demo_granted_sender 0)
     = Some demo_upload_end"
  "up_finished demo_upload_end"
  by (simp_all add: start_uploads_def demo_granted_sender_def demo_forward_def NewForwardSender_def
      fw_sendFile_def demo_answering_def end_attempt_def demo_upload_end_def up_finished_def uploadConcurrency_def
      maxUploadAttempts_def ParseError_def LocalFile.make_def int64_max_def)


theorem uploads_terminate_witness:
  "length (filter (\<lambda>s. s \<noteq> CancelNow) [TakeJob 0, TryUpload 0, TryUpload 0]) \<le> 4 * length (bs_tokens demo_granted_sender)"
  using uploads_terminate [OF demo_uploads(1)] by blast

theorem cancelled_transfer_succeeds_witness:
  "\<exists>fs2 w2. fw_Start demo_answering (\<lambda>p. Some ''xy'') [CancelNow, TakeJob 0, TryUpload 0] demo_forward 0 =
     Some ((fs2, w2), StartOk) \<and> w2 = 0"
proof -
  have "fw_Start demo_answering (\<lambda>p. Some ''xy'') [CancelNow, TakeJob 0, TryUpload 0] demo_forward 0 \<noteq> None"
    unfolding fw_Start_def demo_prepared
    by (simp add: start_uploads_def fw_Cancel_def Let_def demo_answering_def demo_granted_sender_def demo_forward_def NewForwardSender_def closeActiveUploads_def fw_sendFile_def
        end_attempt_def up_finished_def uploadConcurrency_def finish_uploads_def)
  then obtain fs2 w2 res where r: "fw_Start demo_answering (\<lambda>p. Some ''xy'') [CancelNow, TakeJob 0, TryUpload 0] demo_forward 0 =
      Some ((fs2, w2), res)" by fastforce
  have c: "snd (fst (fw_Cancel demo_answering demo_granted_sender 0)) = 0"
    by (simp add: fw_Cancel_def demo_granted_sender_def demo_answering_def Let_def)
  from cancelled_transfer_succeeds [OF demo_prepared _ r] r c show ?thesis by simp
qed

end
