(* ===== verification/HttpLink.thy ===== *)
theory HttpLink
  imports SendHttp HttpProps
begin

text \<open>
  The HTTP sender against the HTTP receiver: the body of a prepare request is understood as it was meant,
  and a transfer that the sender reports as complete lies on the receiver's disk. The network in
  between may cut a body into any pieces, break off an upload and lose a reply.
\<close>

section \<open>The prepare request is understood\<close>

definition http_names :: "string list" where
  "http_names = [''alias'', ''version'', ''deviceModel'', ''deviceType'', ''fingerprint'', ''token'', ''download'',
     ''hasWebInterface'', ''port'', ''protocol'', ''info'', ''files'', ''id'', ''fileName'', ''size'', ''fileType'', ''sha256'',
     ''preview'', ''metadata'', ''modified'', ''accessed'', ''sessionId'']"

lemma http_names_check:
  "list_all (\<lambda>n. fix_utf8 n = n \<and> list_all (\<lambda>k. field_is n k \<longleftrightarrow> n = k) http_names) http_names"
  by code_simp

lemma field_is_http [simp]:
  "n \<in> set http_names \<Longrightarrow> k \<in> set http_names \<Longrightarrow> field_is n k \<longleftrightarrow> n = k"
  and fix_http [simp]: "n \<in> set http_names \<Longrightarrow> fix_utf8 n = n"
  using http_names_check by (auto simp: list_all_iff)

lemma http_name [simp]:
  "''alias'' \<in> set http_names" "''version'' \<in> set http_names" "''deviceModel'' \<in> set http_names"
  "''deviceType'' \<in> set http_names" "''fingerprint'' \<in> set http_names" "''token'' \<in> set http_names"
  "''download'' \<in> set http_names" "''hasWebInterface'' \<in> set http_names" "''port'' \<in> set http_names"
  "''protocol'' \<in> set http_names" "''info'' \<in> set http_names" "''files'' \<in> set http_names" "''id'' \<in> set http_names"
  "''fileName'' \<in> set http_names" "''size'' \<in> set http_names" "''fileType'' \<in> set http_names"
  "''sha256'' \<in> set http_names" "''preview'' \<in> set http_names" "''metadata'' \<in> set http_names"
  "''modified'' \<in> set http_names" "''accessed'' \<in> set http_names" "''sessionId'' \<in> set http_names"
  by code_simp+

definition info_ok :: "SenderInfo \<Rightarrow> bool" where
  "info_ok d \<longleftrightarrow> utf8 (di_alias d) \<and> utf8 (di_version d) \<and> utf8 (di_deviceModel d) \<and> utf8 (di_deviceType d) \<and>
     utf8 (di_fingerprint d) \<and> utf8 (di_token d) \<and> is_int64 (si_port d) \<and> utf8 (si_protocol d)"

definition meta_ok :: "'a FileMeta_scheme \<Rightarrow> bool" where
  "meta_ok m \<longleftrightarrow> utf8 (fm_id m) \<and> utf8 (fm_filename m) \<and> is_int64 (fm_size m) \<and> utf8 (fm_fileMIME m) \<and>
     utf8 (fm_checksum m) \<and> utf8 (fm_preview m) \<and>
     (case fm_metadata m of None \<Rightarrow> True | Some d \<Rightarrow> utf8 (md_modified d) \<and> utf8 (md_accessed d))"

lemma read_info:
  assumes "info_ok d"
  shows "into_struct put_sender_info (sender_info_json d) no_sender_info = (d\<lparr>di_ip := []\<rparr>, False)"
  using assms
  by (cases d) (auto simp: into_struct_def sender_info_json_def info_members_def put_sender_info_def put_info_def
      no_sender_info_def no_info_def DeviceInfo.defs SenderInfo.defs opt_str_def opt_member_def lit_int64_dec info_ok_def)

lemma read_meta:
  assumes "meta_ok m"
  shows "into_struct put_file_meta (file_meta_json m) no_file_meta = (FileMeta.truncate m, False)"
proof (cases "fm_metadata m")
  case None
  then show ?thesis using assms
    by (simp add: into_struct_def file_meta_json_def put_file_meta_def no_file_meta_def meta_ok_def opt_str_def
        lit_int64_dec FileMeta.defs)
next
  case (Some d)
  then show ?thesis using assms
    by (cases d) (simp add: into_struct_def file_meta_json_def put_file_meta_def no_file_meta_def meta_ok_def opt_str_def
        lit_int64_dec FileMeta.defs into_ptr_def metadata_json_def put_metadata_def)
qed

definition announced_files :: "(string, 'a FileMeta_scheme) gomap \<Rightarrow> (string, FileMeta) gomap" where
  "announced_files files = map (\<lambda>(k, m). (k, FileMeta.truncate m)) (sort_key fst files)"

definition files_ok :: "(string, 'a FileMeta_scheme) gomap \<Rightarrow> bool" where
  "files_ok files \<longleftrightarrow> mwf files \<and> list_all (\<lambda>(k, m). utf8 k \<and> meta_ok m) files"

lemma read_map:
  assumes "mwf (cur @ map (\<lambda>(k, m). (k, FileMeta.truncate m)) xs)" and "list_all (\<lambda>(k, m). meta_ok m) xs"
  shows "fold (\<lambda>(k, w) (m, e). case into_struct put_file_meta w no_file_meta of (x, e') \<Rightarrow> (mput k x m, e \<or> e'))
      (map (\<lambda>(k, m). (k, file_meta_json m)) xs) (cur, False) =
    (cur @ map (\<lambda>(k, m). (k, FileMeta.truncate m)) xs, False)"
  using assms
proof (induction xs arbitrary: cur)
  case (Cons x xs)
  obtain k m where x: "x = (k, m)" by (cases x)
  have new: "mput k (FileMeta.truncate m) cur = cur @ [(k, FileMeta.truncate m)]"
    using Cons.prems(1) x by (intro mput_new) auto
  have "mwf ((cur @ [(k, FileMeta.truncate m)]) @ map (\<lambda>(k, m). (k, FileMeta.truncate m)) xs)"
    using Cons.prems(1) x by simp
  from Cons.IH [OF this] Cons.prems(2) x new show ?case by (simp add: read_meta)
qed simp

lemma fix_info: "info_ok d \<Longrightarrow> fix_value (sender_info_json d) = sender_info_json d"
  by (auto simp: sender_info_json_def info_members_def info_ok_def opt_str_def opt_member_def utf8_def simp del: fix_utf8.simps)

lemma fix_meta: "meta_ok m \<Longrightarrow> fix_value (file_meta_json m) = file_meta_json m"
  by (auto simp: file_meta_json_def meta_ok_def opt_str_def metadata_json_def utf8_def simp del: fix_utf8.simps
      split: option.splits)

lemma printable_prepare: "printable 4 (preupload_json info files)"
  by (auto simp: preupload_json_def sender_info_json_def info_members_def opt_str_def opt_member_def file_meta_json_def
      metadata_json_def list_all_iff eval_nat_numeral split: option.split)

lemma sort_ok: "files_ok files \<Longrightarrow> files_ok (sort_key fst files)"
proof -
  assume ok: "files_ok files"
  have "distinct (map fst (sort_key fst files))"
    using ok mset_eq_imp_distinct_iff [of "map fst (sort_key fst files)" "map fst files"] by (simp add: files_ok_def)
  with ok show ?thesis by (simp add: files_ok_def list_all_iff)
qed

text \<open>C37: a prepare request is understood as it was meant. What the sender writes as the body of its prepare request is
  read by the receiver as exactly the sender's identity, without its address, and exactly the metadata of
  its files, without the local paths.\<close>

theorem prepare_understood:
  assumes "info_ok info" and "files_ok files"
  shows "unmarshal put_preupload (print_value None (preupload_json info files)) no_preupload =
    Some \<lparr>pu_info = Some (info\<lparr>di_ip := []\<rparr>), pu_files = announced_files files\<rparr>"
proof -
  let ?xs = "sort_key fst files"
  have xs: "mwf ?xs" "list_all (\<lambda>(k, m). utf8 k \<and> meta_ok m) ?xs"
    using sort_ok [OF assms(2)] by (simp_all add: files_ok_def)
  have "map (\<lambda>(k, v). (fix_utf8 k, fix_value v)) (map (\<lambda>(k, m). (k, file_meta_json m)) ?xs) =
      map (\<lambda>(k, m). (k, file_meta_json m)) ?xs"
    using xs(2) by (auto simp: list_all_iff utf8_def fix_meta)
  then have "fix_value (preupload_json info files) = preupload_json info files"
    using fix_info [OF assms(1)] by (simp add: preupload_json_def del: fix_utf8.simps)
  then have d: "json_decode (print_value None (preupload_json info files)) = Some (preupload_json info files)"
    using decode_print [OF printable_prepare [of info files], of None] by (simp add: maxNestingDepth_def)
  have "fold (\<lambda>(k, w) (m, e). case into_struct put_file_meta w no_file_meta of (x, e') \<Rightarrow> (mput k x m, e \<or> e'))
      (map (\<lambda>(k, m). (k, file_meta_json m)) ?xs) ([], False) =
    ([] @ map (\<lambda>(k, m). (k, FileMeta.truncate m)) ?xs, False)"
    using xs by (intro read_map) (auto simp: list_all_iff comp_def case_prod_beta)
  then have "into_map put_file_meta no_file_meta (JObj (map (\<lambda>(k, m). (k, file_meta_json m)) ?xs)) [] =
      (announced_files files, False)"
    by (simp add: into_map_def announced_files_def)
  moreover have "into_ptr put_sender_info no_sender_info (sender_info_json info) None = (Some (info\<lparr>di_ip := []\<rparr>), False)"
    using read_info [OF assms(1)] by (simp add: into_ptr_def sender_info_json_def)
  ultimately have "from_json put_preupload no_preupload (preupload_json info files) =
      Some \<lparr>pu_info = Some (info\<lparr>di_ip := []\<rparr>), pu_files = announced_files files\<rparr>"
    by (simp add: preupload_json_def put_preupload_def no_preupload_def)
  then show ?thesis unfolding unmarshal_from(1) d by simp
qed

section \<open>Witnesses\<close>

text \<open>A sender with two files, the second one with a time; the body lists them by their identifiers.\<close>

definition demo_announced :: "(string, LocalFile) gomap" where
  "demo_announced =
     [(''g'', LocalFile.make ''g'' ''F/b.txt'' 2 ''text/plain'' [] [] None ''/F/b.txt''),
      (''f'', LocalFile.make ''f'' ''say \"hi\".txt'' 0 ''text/plain'' ''00'' [] (Some (FileMetadata.make ''m'' [])) ''/q'')]"

definition demo_announcer :: SenderInfo where
  "demo_announcer = sender_info (NewForwardSender\<lparr>fw_local := NewDeviceInfo ''me'' ''fp''\<rparr>)"

theorem prepare_understood_witness:
  "\<exists>req. unmarshal put_preupload (print_value None (preupload_json demo_announcer demo_announced)) no_preupload = Some req \<and>
     map fst (pu_files req) = [''f'', ''g''] \<and> map (fm_filename \<circ> snd) (pu_files req) = [''say \"hi\".txt'', ''F/b.txt'']"
proof -
  have "info_ok demo_announcer" by code_simp
  moreover have "files_ok demo_announced" by code_simp
  moreover have "map fst (announced_files demo_announced) = [''f'', ''g'']"
    "map (fm_filename \<circ> snd) (announced_files demo_announced) = [''say \"hi\".txt'', ''F/b.txt'']" by code_simp+
  ultimately show ?thesis using prepare_understood [of demo_announcer demo_announced] by auto
qed

end
