(* ===== verification/Spec2Isabelle.thy ===== *)
theory Spec2Isabelle
  imports SessManager HttpProps TrustedStore RtcProps RtcGate RtcLink Signaling Download HttpLink
begin

text \<open>
  A verification development for the LocalSend plugin.
\<close>

end
